(* ===== verification/Ril_Prelude.thy ===== *)
theory Ril_Prelude
  imports Main "HOL-Library.Word" "HOL-Library.Monad_Syntax"
begin

text \<open>
  Shared material of the libril development: the machine types, the memory
  accesses of C (a load or a store through a null pointer has no result), the
  \<open>struct timeval\<close> arithmetic of \<^verbatim>\<open>libril/ril_event.cpp\<close> with its order, the interface
  of a transition system with an invariant, and generic facts on lists and options
  that several components use.
\<close>

section \<open>Machine types\<close>

type_synonym u8 = "8 word"
type_synonym char16 = "16 word"
type_synonym i32 = "32 word"   \<comment> \<open>\<^verbatim>\<open>int32_t\<close>, \<^verbatim>\<open>int\<close>; read with \<open>sint\<close> where the sign matters\<close>
type_synonym i64 = "64 word"
type_synonym size_t = "32 word"  \<comment> \<open>\<^verbatim>\<open>size_t\<close> of the 32-bit target\<close>
type_synonym ptr = nat           \<comment> \<open>an address; 0 is \<^verbatim>\<open>NULL\<close>\<close>
type_synonym cstr = "string option"  \<comment> \<open>\<^verbatim>\<open>char *\<close>, None for \<^verbatim>\<open>NULL\<close>\<close>

abbreviation NULL :: ptr where
  "NULL \<equiv> 0"

abbreviation INT_MAX :: i32 where
  "INT_MAX \<equiv> 0x7FFFFFFF"

text \<open>Addresses are compared with \<^verbatim>\<open>NULL\<close>, never ordered.\<close>

declare neq0_conv [iff del]

section \<open>Loads and stores\<close>

definition ld :: "(ptr \<Rightarrow> 'a) \<Rightarrow> ptr \<Rightarrow> 'a option" where
  "ld h p = (if p = NULL then None else Some (h p))"

definition st :: "ptr \<Rightarrow> ('a \<Rightarrow> 'a) \<Rightarrow> (ptr \<Rightarrow> 'a) \<Rightarrow> (ptr \<Rightarrow> 'a) option" where
  "st p f h = (if p = NULL then None else Some (h(p := f (h p))))"

lemma ld_nonnull [simp]: "p \<noteq> NULL \<Longrightarrow> ld h p = Some (h p)"
  by (simp add: ld_def)

lemma ld_null [simp]: "ld h NULL = None"
  by (simp add: ld_def)

lemma st_nonnull [simp]: "p \<noteq> NULL \<Longrightarrow> st p f h = Some (h(p := f (h p)))"
  by (simp add: st_def)

lemma st_null [simp]: "st NULL f h = None"
  by (simp add: st_def)

section \<open>Time values\<close>

text \<open>
  \<open>struct timeval\<close>. The seconds are a count since boot, far from the limits of
  \<open>time_t\<close>, so the components are unbounded integers.
\<close>

datatype timeval = Timeval (tv_sec: int) (tv_usec: int)

definition timercmp_lt :: "timeval \<Rightarrow> timeval \<Rightarrow> bool" where
  "timercmp_lt a b = (if tv_sec a = tv_sec b then tv_usec a < tv_usec b
                      else tv_sec a < tv_sec b)"

definition timercmp_gt :: "timeval \<Rightarrow> timeval \<Rightarrow> bool" where
  "timercmp_gt a b = (if tv_sec a = tv_sec b then tv_usec a > tv_usec b
                      else tv_sec a > tv_sec b)"

definition timeradd :: "timeval \<Rightarrow> timeval \<Rightarrow> timeval" where
  "timeradd t u =
     (let s = tv_sec t + tv_sec u; us = tv_usec t + tv_usec u
      in if us \<ge> 1000000 then Timeval (s + 1) (us - 1000000) else Timeval s us)"

definition timersub :: "timeval \<Rightarrow> timeval \<Rightarrow> timeval" where
  "timersub a b =
     (let s = tv_sec a - tv_sec b; us = tv_usec a - tv_usec b
      in if us < 0 then Timeval (s - 1) (us + 1000000) else Timeval s us)"

text \<open>
  The comparison macro is a linear order, so the list library's notion of a sorted
  list applies to timer lists.
\<close>

instantiation timeval :: linorder
begin
definition less_timeval :: "timeval \<Rightarrow> timeval \<Rightarrow> bool" where
  "less_timeval a b = timercmp_lt a b"
definition less_eq_timeval :: "timeval \<Rightarrow> timeval \<Rightarrow> bool" where
  "less_eq_timeval a b = (a = b \<or> timercmp_lt a b)"
instance
  by standard
    (auto simp: less_timeval_def less_eq_timeval_def timercmp_lt_def timeval.expand
      split: if_splits)
end

lemma timercmp_lt_iff [simp]: "timercmp_lt a b \<longleftrightarrow> a < b"
  by (simp add: less_timeval_def)

lemma timercmp_gt_iff [simp]: "timercmp_gt a b \<longleftrightarrow> b < a"
  by (auto simp only: less_timeval_def timercmp_lt_def timercmp_gt_def split: if_splits)

lemma timeval_less [simp]:
  "Timeval a b < Timeval c d \<longleftrightarrow> (if a = c then b < d else a < c)"
  unfolding less_timeval_def timercmp_lt_def by simp

lemma timeval_less_eq [simp]:
  "Timeval a b \<le> Timeval c d \<longleftrightarrow> (if a = c then b \<le> d else a < c)"
  unfolding less_eq_timeval_def timercmp_lt_def by auto

definition tv_normal :: "timeval \<Rightarrow> bool" where
  "tv_normal t \<longleftrightarrow> 0 \<le> tv_usec t \<and> tv_usec t < 1000000"

lemma tv_normal_timeradd: "tv_normal t \<Longrightarrow> tv_normal u \<Longrightarrow> tv_normal (timeradd t u)"
  by (auto simp: tv_normal_def timeradd_def Let_def)

lemma tv_normal_timersub: "tv_normal t \<Longrightarrow> tv_normal u \<Longrightarrow> tv_normal (timersub t u)"
  by (auto simp: tv_normal_def timersub_def Let_def)

lemma timeradd_timersub: "tv_normal t \<Longrightarrow> tv_normal u \<Longrightarrow> timeradd u (timersub t u) = t"
  by (cases t; cases u) (auto simp: tv_normal_def timeradd_def timersub_def Let_def)

section \<open>Transition systems\<close>

text \<open>
  What a component with state promises: an invariant that its start states satisfy and
  every step keeps. The client gets it for whole runs.
\<close>

locale invariant_system =
  fixes init :: "'s \<Rightarrow> bool"
    and step :: "'e \<Rightarrow> 's \<Rightarrow> 's \<Rightarrow> bool"
    and inv :: "'s \<Rightarrow> bool"
  assumes inv_init: "init s \<Longrightarrow> inv s"
    and inv_step: "step e s t \<Longrightarrow> inv s \<Longrightarrow> inv t"
begin

inductive run :: "'s \<Rightarrow> 'e list \<Rightarrow> 's \<Rightarrow> bool" where
  run_nil: "run s [] s"
| run_snoc: "run s es t \<Longrightarrow> step e t u \<Longrightarrow> run s (es @ [e]) u"

lemma run_inv: "run s es t \<Longrightarrow> inv s \<Longrightarrow> inv t"
  by (induction rule: run.induct) (auto intro: inv_step)

lemma reachable_inv: "init s \<Longrightarrow> run s es t \<Longrightarrow> inv t"
  by (blast intro: run_inv inv_init)

end

section \<open>Lists and options\<close>

lemma distinct_butlast_last: "distinct xs \<Longrightarrow> a \<in> set (butlast xs) \<Longrightarrow> a \<noteq> last xs"
  by (cases xs rule: rev_cases) auto

lemma distinct_tl_hd: "distinct xs \<Longrightarrow> a \<in> set (tl xs) \<Longrightarrow> a \<noteq> hd xs"
  by (cases xs) auto

lemma distinct_filterI:
  assumes "\<And>i j. i < length xs \<Longrightarrow> j < length xs \<Longrightarrow> xs ! i = xs ! j \<Longrightarrow> Q (xs ! i) \<Longrightarrow> i = j"
    and "\<And>x. P x \<Longrightarrow> Q x"
  shows "distinct (filter P xs)"
  using assms(1)
proof (induction xs)
  case (Cons x xs)
  have "distinct (filter P xs)"
  proof (rule Cons.IH)
    fix i j assume "i < length xs" "j < length xs" "xs ! i = xs ! j" "Q (xs ! i)"
    then show "i = j" using Cons.prems [of "Suc i" "Suc j"] by simp
  qed
  moreover have "x \<notin> set xs" if "P x"
    using Cons.prems [of 0 "Suc i" for i] assms(2) that by (fastforce simp: in_set_conv_nth)
  ultimately show ?case by simp
qed simp

lemma takeWhile_eq_filter_sorted:
  "sorted (map f xs) \<Longrightarrow> takeWhile (\<lambda>x. f x < t) xs = filter (\<lambda>x. f x < t) xs"
proof (induction xs)
  case (Cons x xs)
  then show ?case
    by (auto intro!: filter_False [symmetric] dest: order.strict_trans1)
qed simp

lemma dropWhile_eq_filter_sorted:
  "sorted (map f xs) \<Longrightarrow> dropWhile (\<lambda>x. f x < t) xs = filter (\<lambda>x. \<not> f x < t) xs"
  by (induction xs) (auto intro!: filter_True [symmetric])

lemma sorted_insert_split:
  assumes "sorted (map f xs)"
  shows "sorted (map f (takeWhile (\<lambda>x. f x < f y) xs @ y # dropWhile (\<lambda>x. f x < f y) xs))"
  using assms
proof (induction xs)
  case (Cons x xs)
  then show ?case
    by (auto simp: sorted_append dest!: set_takeWhileD set_dropWhileD
          intro: order.strict_implies_order)
qed simp

end
