(* ===== verification/Event_List.thy ===== *)
theory Event_List
  imports Ril_Prelude
begin

text \<open>
  The circular doubly linked lists of \<^verbatim>\<open>libril/ril_event.cpp\<close>: \<open>struct ril_event\<close> with
  its intrusive links, \<open>init_list\<close>, \<open>addToList\<close> and \<open>removeFromList\<close> as operations on
  an explicit store. The predicate \<open>dll\<close> says which sequence of events a list head
  represents; the locale \<open>event_lists\<close> is the contract the event loop relies on, and its
  interpretation discharges the contract for the pointer operations.
\<close>

section \<open>The events and their links\<close>

record ril_event =
  ev_next :: ptr
  ev_prev :: ptr
  ev_fd :: int
  ev_index :: int
  ev_persist :: bool
  ev_timeout :: timeval
  ev_func :: ptr
  ev_param :: ptr

type_synonym heap = "ptr \<Rightarrow> ril_event"

text \<open>What \<open>memset(ev, 0, sizeof(struct ril_event))\<close> leaves.\<close>

definition zero_event :: ril_event where
  "zero_event = \<lparr>ev_next = NULL, ev_prev = NULL, ev_fd = 0, ev_index = 0, ev_persist = False,
     ev_timeout = Timeval 0 0, ev_func = NULL, ev_param = NULL\<rparr>"

definition init_list :: "ptr \<Rightarrow> heap \<Rightarrow> heap option" where
  "init_list list h = do {
     h \<leftarrow> st list (\<lambda>_. zero_event) h;
     h \<leftarrow> st list (\<lambda>e. e\<lparr>ev_next := list\<rparr>) h;
     h \<leftarrow> st list (\<lambda>e. e\<lparr>ev_prev := list\<rparr>) h;
     st list (\<lambda>e. e\<lparr>ev_fd := - 1\<rparr>) h }"

definition addToList :: "ptr \<Rightarrow> ptr \<Rightarrow> heap \<Rightarrow> heap option" where
  "addToList ev list h = do {
     h \<leftarrow> st ev (\<lambda>e. e\<lparr>ev_next := list\<rparr>) h;
     l \<leftarrow> ld h list;
     h \<leftarrow> st ev (\<lambda>e. e\<lparr>ev_prev := ev_prev l\<rparr>) h;
     e \<leftarrow> ld h ev;
     h \<leftarrow> st (ev_prev e) (\<lambda>p. p\<lparr>ev_next := ev\<rparr>) h;
     st list (\<lambda>l. l\<lparr>ev_prev := ev\<rparr>) h }"

definition removeFromList :: "ptr \<Rightarrow> heap \<Rightarrow> heap option" where
  "removeFromList ev h = do {
     e \<leftarrow> ld h ev;
     h \<leftarrow> st (ev_next e) (\<lambda>n. n\<lparr>ev_prev := ev_prev e\<rparr>) h;
     e \<leftarrow> ld h ev;
     h \<leftarrow> st (ev_prev e) (\<lambda>p. p\<lparr>ev_next := ev_next e\<rparr>) h;
     h \<leftarrow> st ev (\<lambda>e. e\<lparr>ev_next := NULL\<rparr>) h;
     st ev (\<lambda>e. e\<lparr>ev_prev := NULL\<rparr>) h }"

section \<open>The sequence a list represents\<close>

definition link :: "heap \<Rightarrow> ptr \<Rightarrow> ptr \<Rightarrow> bool" where
  "link h a b \<longleftrightarrow> ev_next (h a) = b \<and> ev_prev (h b) = a"

fun chain :: "heap \<Rightarrow> ptr list \<Rightarrow> bool" where
  "chain h (a # b # xs) \<longleftrightarrow> link h a b \<and> chain h (b # xs)"
| "chain h _ \<longleftrightarrow> True"

text \<open>The list with head \<open>l\<close> represents the events \<open>xs\<close>, in the order of \<open>next\<close>.\<close>

definition dll :: "heap \<Rightarrow> ptr \<Rightarrow> ptr list \<Rightarrow> bool" where
  "dll h l xs \<longleftrightarrow> distinct (l # xs) \<and> NULL \<notin> set (l # xs) \<and> chain h (l # xs @ [l])"

text \<open>All that is not a link of an event.\<close>

definition payload :: "ril_event \<Rightarrow> int \<times> int \<times> bool \<times> timeval \<times> ptr \<times> ptr" where
  "payload e = (ev_fd e, ev_index e, ev_persist e, ev_timeout e, ev_func e, ev_param e)"

lemma payload_upd [simp]:
  "payload (e\<lparr>ev_next := p\<rparr>) = payload e" "payload (e\<lparr>ev_prev := p\<rparr>) = payload e"
  by (simp_all add: payload_def)

lemma payload_eqD:
  assumes "payload e = payload e'"
  shows "ev_fd e = ev_fd e'" "ev_index e = ev_index e'" "ev_persist e = ev_persist e'"
    "ev_timeout e = ev_timeout e'" "ev_func e = ev_func e'" "ev_param e = ev_param e'"
  using assms by (simp_all add: payload_def)

lemma chain_append: "chain h (xs @ a # ys) \<longleftrightarrow> chain h (xs @ [a]) \<and> chain h (a # ys)"
proof (induction xs)
  case (Cons x xs)
  then show ?case by (cases xs) auto
qed simp

lemma chain_appendD:
  assumes "chain h (xs @ a # ys)"
  shows "chain h (xs @ [a])" "chain h (a # ys)"
  using assms iffD1 [OF chain_append] by blast+

lemma chain_join:
  assumes "chain h xs" "chain h ys" "xs \<noteq> []" "ys \<noteq> []" "link h (last xs) (hd ys)"
  shows "chain h (xs @ ys)"
  using assms
proof (induction xs)
  case (Cons x xs)
  then show ?case by (cases xs; cases ys) auto
qed simp

lemma chain_split:
  assumes "chain h (xs @ ys)" "xs \<noteq> []" "ys \<noteq> []"
  shows "chain h xs" "chain h ys" "link h (last xs) (hd ys)"
  using assms
proof (induction xs)
  case (Cons x xs)
  {
    case 1
    with Cons show ?case by (cases xs; cases ys) auto
  next
    case 2
    with Cons show ?case by (cases xs; cases ys) auto
  next
    case 3
    with Cons show ?case by (cases xs; cases ys) auto
  }
qed simp_all

text \<open>
  The nodes of a chain whose \<open>next\<close> it reads are all but the last, those whose
  \<open>prev\<close> it reads all but the first.
\<close>

lemma chain_cong:
  assumes "\<And>a. a \<in> set (butlast xs) \<Longrightarrow> ev_next (h' a) = ev_next (h a)"
    and "\<And>a. a \<in> set (tl xs) \<Longrightarrow> ev_prev (h' a) = ev_prev (h a)"
  shows "chain h' xs = chain h xs"
  using assms
proof (induction xs rule: induct_list012)
  case (3 x y zs)
  have "chain h' (y # zs) = chain h (y # zs)"
    using "3.prems" by (intro "3.IH"(2)) (auto split: if_splits dest: list.set_sel(2))
  then show ?case using "3.prems" by (auto simp: link_def)
qed simp_all

lemma dll_cong:
  assumes "\<And>a. a \<in> set (l # xs) \<Longrightarrow> ev_next (h' a) = ev_next (h a) \<and> ev_prev (h' a) = ev_prev (h a)"
  shows "dll h' l xs = dll h l xs"
proof -
  have "chain h' (l # xs @ [l]) = chain h (l # xs @ [l])"
    using assms by (intro chain_cong) (auto simp: butlast_append)
  then show ?thesis by (simp add: dll_def)
qed

lemma dll_Nil_iff: "dll h l [] \<longleftrightarrow> l \<noteq> NULL \<and> ev_next (h l) = l \<and> ev_prev (h l) = l"
  by (auto simp: dll_def link_def)

lemma dll_D:
  assumes "dll h l xs"
  shows "distinct xs" "l \<notin> set xs" "l \<noteq> NULL" "NULL \<notin> set xs"
  using assms by (auto simp: dll_def)

text \<open>The first element after the head, the head itself when the list is empty.\<close>

lemma dll_next_head: "dll h l xs \<Longrightarrow> ev_next (h l) = hd (xs @ [l])"
  by (cases xs) (auto simp: dll_def link_def)

lemma dll_splitD:
  assumes "dll h l (as @ bs)"
  shows "chain h (l # as)" "chain h (bs @ [l])"
    "link h (last (l # as)) (hd (bs @ [l]))"
  using assms chain_split [of h "l # as" "bs @ [l]"] by (auto simp: dll_def)

lemma dll_joinI:
  assumes "chain h (l # as)" "chain h (bs @ [l])" "link h (last (l # as)) (hd (bs @ [l]))"
    and "distinct (l # as @ bs)" "NULL \<notin> set (l # as @ bs)"
  shows "dll h l (as @ bs)"
  using assms chain_join [of h "l # as" "bs @ [l]"] by (auto simp: dll_def)

lemma dll_next_elem: "dll h l (as @ a # bs) \<Longrightarrow> ev_next (h a) = hd (bs @ [l])"
  using dll_splitD [of h l "as @ [a]" bs] by (simp add: link_def)

lemma dll_prev_elem: "dll h l (as @ a # bs) \<Longrightarrow> ev_prev (h a) = last (l # as)"
  using dll_splitD [of h l as "a # bs"] by (simp add: link_def)

section \<open>The pointer operations\<close>

lemma init_list_dll:
  assumes "l \<noteq> NULL"
  shows "\<exists>h'. init_list l h = Some h' \<and> dll h' l [] \<and> (\<forall>a. a \<noteq> l \<longrightarrow> h' a = h a)"
  using assms by (auto simp: init_list_def dll_Nil_iff)

text \<open>
  Insertion before a given position: \<open>bs\<close> is the part of the list from that position on,
  and the position is the head itself when the event goes to the end.
\<close>

lemma chain_head_cong:
  assumes "chain h (l # as)" "distinct (l # as)"
    and "\<And>a. a \<in> set (l # as) \<Longrightarrow> a \<noteq> last (l # as) \<Longrightarrow> ev_next (h' a) = ev_next (h a)"
    and "\<And>a. a \<in> set as \<Longrightarrow> ev_prev (h' a) = ev_prev (h a)"
  shows "chain h' (l # as)"
proof -
  have "chain h' (l # as) = chain h (l # as)"
    by (rule chain_cong)
      (simp_all add: assms(3,4) distinct_butlast_last [OF assms(2)] in_set_butlastD
        del: butlast.simps last.simps list.set)
  with assms(1) show ?thesis by simp
qed

lemma chain_tail_cong:
  assumes "chain h (bs @ [l])" "distinct (bs @ [l])"
    and "\<And>a. a \<in> set bs \<Longrightarrow> ev_next (h' a) = ev_next (h a)"
    and "\<And>a. a \<in> set (bs @ [l]) \<Longrightarrow> a \<noteq> hd (bs @ [l]) \<Longrightarrow> ev_prev (h' a) = ev_prev (h a)"
  shows "chain h' (bs @ [l])"
proof -
  have "chain h' (bs @ [l]) = chain h (bs @ [l])"
    by (rule chain_cong)
      (simp_all add: assms(3,4) distinct_tl_hd [OF assms(2)] list.set_sel(2) del: set_append)
  with assms(1) show ?thesis by simp
qed

lemma addToList_dll:
  assumes d: "dll h l (as @ bs)" and new: "ev \<noteq> NULL" "ev \<notin> set (l # as @ bs)"
  shows "\<exists>h'. addToList ev (hd (bs @ [l])) h = Some h' \<and> dll h' l (as @ ev # bs) \<and>
    (\<forall>a. a \<notin> set (l # as @ ev # bs) \<longrightarrow> h' a = h a) \<and> (\<forall>a. payload (h' a) = payload (h a))"
proof -
  define p where "p = last (l # as)"
  define q where "q = hd (bs @ [l])"
  note sp = dll_splitD [OF d]
  have lk: "link h p q" using sp(3) by (simp only: p_def q_def)
  have pin: "p \<in> set (l # as)" unfolding p_def by (rule last_in_set) simp
  have qin: "q \<in> set (bs @ [l])" unfolding q_def by (rule hd_in_set) simp
  have dist: "distinct (l # as @ bs)" and nz: "NULL \<notin> set (l # as @ bs)"
    using d by (simp_all add: dll_def)
  have nn: "p \<noteq> NULL" "q \<noteq> NULL" "p \<noteq> ev" "q \<noteq> ev"
    using pin qin nz new by auto
  define h' where "h' = (let h1 = h(ev := (h ev)\<lparr>ev_next := q, ev_prev := p\<rparr>);
                             h2 = h1(p := (h1 p)\<lparr>ev_next := ev\<rparr>)
                         in h2(q := (h2 q)\<lparr>ev_prev := ev\<rparr>))"
  note h'_eq [simp] = h'_def [unfolded Let_def]
  have run: "addToList ev q h = Some h'"
    using nn new lk by (auto simp: addToList_def link_def)
  have links: "link h' p ev" "link h' ev q"
    using nn by (auto simp: link_def)
  have c1: "chain h' (l # as)"
    by (rule chain_head_cong [OF sp(1)]) (use dist new qin nn p_def in auto)
  have c2: "chain h' (bs @ [l])"
    by (rule chain_tail_cong [OF sp(2)]) (use dist new pin nn q_def in auto)
  have c3: "chain h' ((ev # bs) @ [l])"
    using c2 links(2) by (cases bs) (simp_all add: q_def)
  have "dll h' l (as @ ev # bs)"
    by (rule dll_joinI [OF c1 c3])
      (use links(1) dist nz new in \<open>simp_all add: p_def del: h'_eq last.simps\<close>)
  moreover have "h' a = h a" if "a \<notin> set (l # as @ ev # bs)" for a
    using that pin qin by auto
  moreover have "payload (h' a) = payload (h a)" for a by auto
  ultimately show ?thesis using run unfolding q_def by blast
qed

lemma removeFromList_dll:
  assumes d: "dll h l (as @ ev # bs)"
  shows "\<exists>h'. removeFromList ev h = Some h' \<and> dll h' l (as @ bs) \<and>
    (\<forall>a. a \<notin> set (l # as @ ev # bs) \<longrightarrow> h' a = h a) \<and> (\<forall>a. payload (h' a) = payload (h a))"
proof -
  define p where "p = last (l # as)"
  define q where "q = hd (bs @ [l])"
  have d': "dll h l ((as @ [ev]) @ bs)" using d by simp
  note sp = dll_splitD [OF d] and sp' = dll_splitD [OF d']
  have lk: "ev_next (h ev) = q" "ev_prev (h ev) = p"
    using dll_next_elem [OF d] dll_prev_elem [OF d] by (simp_all only: p_def q_def)
  have pin: "p \<in> set (l # as)" unfolding p_def by (rule last_in_set) simp
  have qin: "q \<in> set (bs @ [l])" unfolding q_def by (rule hd_in_set) simp
  have dist: "distinct (l # as @ ev # bs)" and nz: "NULL \<notin> set (l # as @ ev # bs)"
    using d by (simp_all add: dll_def)
  have nn: "p \<noteq> NULL" "q \<noteq> NULL" "p \<noteq> ev" "q \<noteq> ev" "ev \<noteq> NULL"
    using pin qin nz dist by auto
  define h' where "h' = (let h1 = h(q := (h q)\<lparr>ev_prev := p\<rparr>);
                             h2 = h1(p := (h1 p)\<lparr>ev_next := q\<rparr>)
                         in h2(ev := (h2 ev)\<lparr>ev_next := NULL, ev_prev := NULL\<rparr>))"
  note h'_eq [simp] = h'_def [unfolded Let_def]
  have run: "removeFromList ev h = Some h'"
    using nn lk by (auto simp: removeFromList_def)
  have links: "link h' p q" using nn by (auto simp: link_def)
  have c1: "chain h' (l # as)"
    by (rule chain_head_cong [OF sp(1)]) (use dist qin nn p_def in auto)
  have c2: "chain h' (bs @ [l])"
    by (rule chain_tail_cong [OF sp'(2)]) (use dist pin nn q_def in auto)
  have "dll h' l (as @ bs)"
    by (rule dll_joinI [OF c1 c2])
      (use links dist nz in \<open>simp_all add: p_def q_def del: h'_eq last.simps\<close>)
  moreover have "h' a = h a" if "a \<notin> set (l # as @ ev # bs)" for a
    using that pin qin by auto
  moreover have "payload (h' a) = payload (h a)" for a by auto
  ultimately show ?thesis using run by blast
qed

section \<open>The contract of the list operations\<close>

text \<open>Two lists that share no event.\<close>

definition sep :: "ptr \<Rightarrow> ptr list \<Rightarrow> ptr \<Rightarrow> ptr list \<Rightarrow> bool" where
  "sep l xs k ys \<longleftrightarrow> set (l # xs) \<inter> set (k # ys) = {}"

text \<open>
  What the event loop knows of the lists: the sequence a head represents, what insertion
  before a position and removal do to that sequence, that they change no event outside
  the list, and that they never change anything but links.
\<close>

locale event_lists =
  fixes repr :: "heap \<Rightarrow> ptr \<Rightarrow> ptr list \<Rightarrow> bool"
    and add :: "ptr \<Rightarrow> ptr \<Rightarrow> heap \<Rightarrow> heap option"
    and remove :: "ptr \<Rightarrow> heap \<Rightarrow> heap option"
  assumes repr_wf: "repr h l xs \<Longrightarrow> distinct (l # xs) \<and> NULL \<notin> set (l # xs)"
    and repr_frame: "repr h l xs \<Longrightarrow> (\<And>a. a \<in> set (l # xs) \<Longrightarrow> h' a = h a) \<Longrightarrow> repr h' l xs"
    and add_before: "repr h l (as @ bs) \<Longrightarrow> ev \<noteq> NULL \<Longrightarrow> ev \<notin> set (l # as @ bs) \<Longrightarrow>
      \<exists>h'. add ev (hd (bs @ [l])) h = Some h' \<and> repr h' l (as @ ev # bs) \<and>
        (\<forall>a. a \<notin> set (l # as @ ev # bs) \<longrightarrow> h' a = h a) \<and> (\<forall>a. payload (h' a) = payload (h a))"
    and remove_elem: "repr h l (as @ ev # bs) \<Longrightarrow>
      \<exists>h'. remove ev h = Some h' \<and> repr h' l (as @ bs) \<and>
        (\<forall>a. a \<notin> set (l # as @ ev # bs) \<longrightarrow> h' a = h a) \<and> (\<forall>a. payload (h' a) = payload (h a))"
begin

text \<open>Adding at the end of one list leaves a disjoint one alone.\<close>

lemma append_sep:
  assumes "repr h l xs" "repr h k ys" "sep l xs k ys" "ev \<noteq> NULL"
    and "ev \<notin> set (l # xs)" "ev \<notin> set (k # ys)"
  shows "\<exists>h'. add ev l h = Some h' \<and> repr h' l (xs @ [ev]) \<and> repr h' k ys \<and>
    (\<forall>a. a \<notin> set (l # ev # xs) \<longrightarrow> h' a = h a) \<and> (\<forall>a. payload (h' a) = payload (h a))"
proof -
  from assms obtain h' where h': "add ev (hd ([] @ [l])) h = Some h'" "repr h' l (xs @ [ev])"
    "\<forall>a. a \<notin> set (l # xs @ [ev]) \<longrightarrow> h' a = h a" "\<forall>a. payload (h' a) = payload (h a)"
    using add_before [of h l xs "[]" ev] by auto
  have "repr h' k ys"
    by (rule repr_frame [OF assms(2)]) (use h'(3) assms in \<open>auto simp: sep_def\<close>)
  with h' show ?thesis by auto
qed

text \<open>Moving the first event of one list to the end of another.\<close>

lemma move_front:
  assumes "repr h l (x # xs)" "repr h k ys" "sep l (x # xs) k ys"
  shows "\<exists>h1 h2. remove x h = Some h1 \<and> add x k h1 = Some h2 \<and>
    repr h2 l xs \<and> repr h2 k (ys @ [x]) \<and> sep l xs k (ys @ [x]) \<and>
    (\<forall>a. a \<notin> set (l # k # x # xs @ ys) \<longrightarrow> h2 a = h a) \<and> (\<forall>a. payload (h2 a) = payload (h a))"
proof -
  from assms(1) have wf: "distinct (l # x # xs)" "x \<noteq> NULL" using repr_wf by force+
  from assms(1) obtain h1 where h1: "remove x h = Some h1" "repr h1 l xs"
    "\<forall>a. a \<notin> set (l # x # xs) \<longrightarrow> h1 a = h a" "\<forall>a. payload (h1 a) = payload (h a)"
    using remove_elem [of h l "[]" x xs] by auto
  have k1: "repr h1 k ys"
    by (rule repr_frame [OF assms(2)]) (use h1(3) assms(3) in \<open>auto simp: sep_def\<close>)
  have "sep k ys l xs" "x \<notin> set (k # ys)" "x \<notin> set (l # xs)"
    using assms(3) wf by (auto simp: sep_def)
  then obtain h2 where "add x k h1 = Some h2" "repr h2 k (ys @ [x])" "repr h2 l xs"
    "\<forall>a. a \<notin> set (k # x # ys) \<longrightarrow> h2 a = h1 a" "\<forall>a. payload (h2 a) = payload (h1 a)"
    using append_sep [OF k1 h1(2)] wf by blast
  with h1 assms(3) wf show ?thesis by (intro exI [of _ h1] exI [of _ h2]) (auto simp: sep_def)
qed

end

interpretation evl: event_lists dll addToList removeFromList
proof
  show "distinct (l # xs) \<and> NULL \<notin> set (l # xs)" if "dll h l xs" for h l xs
    using that by (simp add: dll_def)
  show "dll h' l xs" if "dll h l xs" "\<And>a. a \<in> set (l # xs) \<Longrightarrow> h' a = h a" for h h' l xs
    using that dll_cong [of l xs h' h] by simp
qed (rule addToList_dll removeFromList_dll; assumption)+

end
