(* ===== verification/Ril_Event.thy ===== *)
theory Ril_Event
  imports Event_List
begin

text \<open>
  The event loop of \<^verbatim>\<open>libril/ril_event.cpp\<close>: the watch table with its descriptor set, the
  sorted list of timers, the list of pending events, and the operations on them. The
  state is an extensible record, so that \<^verbatim>\<open>ril.cpp\<close>, whose callbacks the loop runs, can
  add its own variables. The section a mutex protects is one operation. Time and the
  outcome of \<open>select\<close> are inputs.
\<close>

section \<open>State\<close>

record ev_state =
  mem :: heap
  readFds :: "int set"
  nfds :: int
  watch_table :: "ptr list"

definition MAX_FD_EVENTS :: nat where
  "MAX_FD_EVENTS = 8"

text \<open>The addresses of the two static list heads.\<close>

definition timer_list :: ptr where
  "timer_list = 1"

definition pending_list :: ptr where
  "pending_list = 2"

text \<open>The descriptor set of \<^verbatim>\<open>select\<close> has a fixed size; outside it the macros are undefined.\<close>

definition FD_SETSIZE :: int where
  "FD_SETSIZE = 1024"

definition FD_SET :: "int \<Rightarrow> int set \<Rightarrow> int set option" where
  "FD_SET fd S = (if 0 \<le> fd \<and> fd < FD_SETSIZE then Some (insert fd S) else None)"

definition FD_CLR :: "int \<Rightarrow> int set \<Rightarrow> int set option" where
  "FD_CLR fd S = (if 0 \<le> fd \<and> fd < FD_SETSIZE then Some (S - {fd}) else None)"

definition FD_ISSET :: "int \<Rightarrow> int set \<Rightarrow> bool option" where
  "FD_ISSET fd S = (if 0 \<le> fd \<and> fd < FD_SETSIZE then Some (fd \<in> S) else None)"

section \<open>Operations\<close>

text \<open>The scan of \<open>removeWatch\<close> for the highest descriptor still watched.\<close>

fun max_fd :: "heap \<Rightarrow> ptr list \<Rightarrow> int \<Rightarrow> int" where
  "max_fd h [] n = n"
| "max_fd h (rv # rvs) n =
     max_fd h rvs (if rv \<noteq> NULL \<and> ev_fd (h rv) > n then ev_fd (h rv) else n)"

definition removeWatch :: "ptr \<Rightarrow> int \<Rightarrow> 'a ev_state_scheme \<Rightarrow> 'a ev_state_scheme option" where
  "removeWatch ev index s = do {
     t \<leftarrow> (if 0 \<le> index \<and> index < int MAX_FD_EVENTS
          then Some ((watch_table s)[nat index := NULL]) else None);
     h \<leftarrow> st ev (\<lambda>e. e\<lparr>ev_index := - 1\<rparr>) (mem s);
     e \<leftarrow> ld h ev;
     fds \<leftarrow> FD_CLR (ev_fd e) (readFds s);
     let s' = s\<lparr>watch_table := t, mem := h, readFds := fds\<rparr>;
     Some (if ev_fd e + 1 = nfds s' then s'\<lparr>nfds := max_fd h t 0 + 1\<rparr> else s') }"

partial_function (option) timeouts_loop :: "timeval \<Rightarrow> ptr \<Rightarrow> heap \<Rightarrow> heap option" where
  "timeouts_loop now tev h =
     (if tev = timer_list then Some h
      else do {
        e \<leftarrow> ld h tev;
        if timercmp_gt now (ev_timeout e)
        then do {
          h1 \<leftarrow> removeFromList tev h;
          h2 \<leftarrow> addToList tev pending_list h1;
          timeouts_loop now (ev_next e) h2 }
        else Some h })"

definition processTimeouts :: "timeval \<Rightarrow> 'a ev_state_scheme \<Rightarrow> 'a ev_state_scheme option" where
  "processTimeouts now s = do {
     l \<leftarrow> ld (mem s) timer_list;
     h \<leftarrow> timeouts_loop now (ev_next l) (mem s);
     Some (s\<lparr>mem := h\<rparr>) }"

fun readies_loop ::
    "int set \<Rightarrow> nat list \<Rightarrow> int \<Rightarrow> 'a ev_state_scheme \<Rightarrow> 'a ev_state_scheme option" where
  "readies_loop rfds [] n s = Some s"
| "readies_loop rfds (i # is) n s =
     (if n > 0 then
        let rv = watch_table s ! i in
        if rv = NULL then readies_loop rfds is n s
        else do {
          e \<leftarrow> ld (mem s) rv;
          ready \<leftarrow> FD_ISSET (ev_fd e) rfds;
          if ready then do {
            h \<leftarrow> addToList rv pending_list (mem s);
            let s1 = s\<lparr>mem := h\<rparr>;
            e1 \<leftarrow> ld h rv;
            s2 \<leftarrow> (if ev_persist e1 = False then removeWatch rv (int i) s1 else Some s1);
            readies_loop rfds is (n - 1) s2 }
          else readies_loop rfds is n s }
      else Some s)"

definition processReadReadies ::
    "int set \<Rightarrow> int \<Rightarrow> 'a ev_state_scheme \<Rightarrow> 'a ev_state_scheme option" where
  "processReadReadies rfds n s = readies_loop rfds [0..<MAX_FD_EVENTS] n s"

text \<open>
  \<open>cb func fd param\<close> is the effect of the call \<open>ev->func(ev->fd, 0, ev->param)\<close> on the
  whole state. The successor is read before the call, as in the code.
\<close>

type_synonym 's callback = "ptr \<Rightarrow> int \<Rightarrow> ptr \<Rightarrow> 's \<Rightarrow> 's option"

partial_function (option) fire_loop ::
    "'a ev_state_scheme callback \<Rightarrow> ptr \<Rightarrow> 'a ev_state_scheme \<Rightarrow> 'a ev_state_scheme option" where
  "fire_loop cb ev s =
     (if ev = pending_list then Some s
      else do {
        e \<leftarrow> ld (mem s) ev;
        h \<leftarrow> removeFromList ev (mem s);
        e1 \<leftarrow> ld h ev;
        s1 \<leftarrow> cb (ev_func e1) (ev_fd e1) (ev_param e1) (s\<lparr>mem := h\<rparr>);
        fire_loop cb (ev_next e) s1 })"

definition firePending ::
    "'a ev_state_scheme callback \<Rightarrow> 'a ev_state_scheme \<Rightarrow> 'a ev_state_scheme option" where
  "firePending cb s = do {
     l \<leftarrow> ld (mem s) pending_list;
     fire_loop cb (ev_next l) s }"

text \<open>The return value and the timeval written through the pointer argument.\<close>

definition calcNextTimeout ::
    "timeval \<Rightarrow> timeval \<Rightarrow> 'a ev_state_scheme \<Rightarrow> (int \<times> timeval) option" where
  "calcNextTimeout now tv s = do {
     l \<leftarrow> ld (mem s) timer_list;
     let tev = ev_next l;
     if tev = timer_list then Some (- 1, tv)
     else do {
       e \<leftarrow> ld (mem s) tev;
       if timercmp_gt (ev_timeout e) now
       then Some (0, timersub (ev_timeout e) now)
       else Some (0, Timeval 0 0) } }"

definition ril_event_init :: "'a ev_state_scheme \<Rightarrow> 'a ev_state_scheme option" where
  "ril_event_init s = do {
     h \<leftarrow> init_list timer_list (mem s);
     h \<leftarrow> init_list pending_list h;
     Some (s\<lparr>readFds := {}, mem := h, watch_table := replicate MAX_FD_EVENTS NULL\<rparr>) }"

text \<open>\<open>fcntl(fd, F_SETFL, O_NONBLOCK)\<close>, the last statement, changes kernel state only.\<close>

definition ril_event_set ::
    "ptr \<Rightarrow> int \<Rightarrow> bool \<Rightarrow> ptr \<Rightarrow> ptr \<Rightarrow> 'a ev_state_scheme \<Rightarrow> 'a ev_state_scheme option" where
  "ril_event_set ev fd persist func param s = do {
     h \<leftarrow> st ev (\<lambda>_. zero_event\<lparr>ev_fd := fd, ev_index := - 1, ev_persist := persist,
            ev_func := func, ev_param := param\<rparr>) (mem s);
     Some (s\<lparr>mem := h\<rparr>) }"

fun add_loop :: "ptr \<Rightarrow> nat list \<Rightarrow> 'a ev_state_scheme \<Rightarrow> 'a ev_state_scheme option" where
  "add_loop ev [] s = Some s"
| "add_loop ev (i # is) s =
     (if watch_table s ! i = NULL then do {
        h \<leftarrow> st ev (\<lambda>e. e\<lparr>ev_index := int i\<rparr>) (mem s);
        e \<leftarrow> ld h ev;
        fds \<leftarrow> FD_SET (ev_fd e) (readFds s);
        let s1 = s\<lparr>watch_table := (watch_table s)[i := ev], mem := h, readFds := fds\<rparr>;
        Some (if ev_fd e \<ge> nfds s1 then s1\<lparr>nfds := ev_fd e + 1\<rparr> else s1) }
      else add_loop ev is s)"

definition ril_event_add :: "ptr \<Rightarrow> 'a ev_state_scheme \<Rightarrow> 'a ev_state_scheme option" where
  "ril_event_add ev s = add_loop ev [0..<MAX_FD_EVENTS] s"

partial_function (option) timer_pos :: "timeval \<Rightarrow> ptr \<Rightarrow> heap \<Rightarrow> ptr option" where
  "timer_pos t list h = do {
     e \<leftarrow> ld h list;
     if timercmp_lt (ev_timeout e) t \<and> list \<noteq> timer_list
     then timer_pos t (ev_next e) h
     else Some list }"

definition ril_timer_add ::
    "ptr \<Rightarrow> timeval option \<Rightarrow> timeval \<Rightarrow> 'a ev_state_scheme \<Rightarrow> 'a ev_state_scheme option" where
  "ril_timer_add ev tv now s =
     (case tv of
        None \<Rightarrow> Some s
      | Some tv \<Rightarrow> do {
          l \<leftarrow> ld (mem s) timer_list;
          h \<leftarrow> st ev (\<lambda>e. e\<lparr>ev_fd := - 1\<rparr>) (mem s);
          h \<leftarrow> st ev (\<lambda>e. e\<lparr>ev_timeout := timeradd now tv\<rparr>) h;
          list \<leftarrow> timer_pos (timeradd now tv) (ev_next l) h;
          h \<leftarrow> addToList ev list h;
          Some (s\<lparr>mem := h\<rparr>) })"

definition ril_event_del :: "ptr \<Rightarrow> 'a ev_state_scheme \<Rightarrow> 'a ev_state_scheme option" where
  "ril_event_del ev s = do {
     e \<leftarrow> ld (mem s) ev;
     if ev_index e < 0 \<or> ev_index e \<ge> int MAX_FD_EVENTS then Some s
     else removeWatch ev (ev_index e) s }"

text \<open>
  One turn of the loop: the clock readings of \<open>calcNextTimeout\<close> and \<open>processTimeouts\<close> and
  the answer of \<open>select(nfds, &rfds, NULL, NULL, ptv)\<close>: the count, the descriptors left
  in the set, and whether \<^verbatim>\<open>errno\<close> is \<^verbatim>\<open>EINTR\<close>.
\<close>

record tick =
  now_calc :: timeval
  now_fire :: timeval
  select :: "int \<Rightarrow> int set \<Rightarrow> timeval option \<Rightarrow> int \<times> int set \<times> bool"

datatype 's loop_result = Running 's | Returned 's

definition loop_body ::
    "'a ev_state_scheme callback \<Rightarrow> tick \<Rightarrow> timeval \<Rightarrow> 'a ev_state_scheme \<Rightarrow>
     (timeval \<times> 'a ev_state_scheme loop_result) option" where
  "loop_body cb k tv s = do {
     let rfds = readFds s;
     (ret, tv) \<leftarrow> calcNextTimeout (now_calc k) tv s;
     let ptv = (if ret = - 1 then None else Some tv);
     let (n, rfds, eintr) = select k (nfds s) rfds ptv;
     if n < 0 then Some (tv, if eintr then Running s else Returned s)
     else do {
       s \<leftarrow> processTimeouts (now_fire k) s;
       s \<leftarrow> processReadReadies rfds n s;
       s \<leftarrow> firePending cb s;
       Some (tv, Running s) } }"

text \<open>The loop over a finite sequence of turns; \<open>Running\<close> when they are used up.\<close>

fun ril_event_loop ::
    "'a ev_state_scheme callback \<Rightarrow> tick list \<Rightarrow> timeval \<Rightarrow> 'a ev_state_scheme \<Rightarrow>
     'a ev_state_scheme loop_result option" where
  "ril_event_loop cb [] tv s = Some (Running s)"
| "ril_event_loop cb (k # ks) tv s = do {
     (tv, r) \<leftarrow> loop_body cb k tv s;
     (case r of Returned s \<Rightarrow> Some (Returned s) | Running s \<Rightarrow> ril_event_loop cb ks tv s) }"

lemma list_heads [simp]:
  "timer_list \<noteq> NULL" "pending_list \<noteq> NULL" "timer_list \<noteq> pending_list" "pending_list \<noteq> timer_list"
  by (simp_all add: timer_list_def pending_list_def)

section \<open>The lists of the loop\<close>

definition expired :: "timeval \<Rightarrow> heap \<Rightarrow> ptr \<Rightarrow> bool" where
  "expired now h a \<longleftrightarrow> ev_timeout (h a) < now"

text \<open>The timer list holds \<open>ts\<close> in the order of their deadlines, the pending list \<open>ps\<close>.\<close>

definition lists_ok :: "heap \<Rightarrow> ptr list \<Rightarrow> ptr list \<Rightarrow> bool" where
  "lists_ok h ts ps \<longleftrightarrow> dll h timer_list ts \<and> dll h pending_list ps \<and>
     sep timer_list ts pending_list ps \<and> sorted (map (\<lambda>a. ev_timeout (h a)) ts)"

lemma expired_payload:
  "(\<And>a. payload (h' a) = payload (h a)) \<Longrightarrow> expired now h' = expired now h"
  unfolding expired_def fun_eq_iff by (metis payload_eqD(4))

lemma timer_pos_dll:
  assumes "dll h timer_list (as @ xs)"
  shows "timer_pos t (hd (xs @ [timer_list])) h =
    Some (hd (dropWhile (expired t h) xs @ [timer_list]))"
  using assms
proof (induction xs arbitrary: as)
  case Nil
  then show ?case by (subst timer_pos.simps) simp
next
  case (Cons x xs)
  have nn: "x \<noteq> NULL" "x \<noteq> timer_list" using Cons.prems by (auto simp: dll_def)
  have "ev_next (h x) = hd (xs @ [timer_list])" using dll_next_elem [OF Cons.prems] .
  then show ?case
    using nn Cons.IH [of "as @ [x]"] Cons.prems
    by (subst timer_pos.simps) (simp add: expired_def [of t h x])
qed

lemma ril_timer_add_dll:
  assumes d: "dll (mem s) timer_list ts" and new: "ev \<noteq> NULL" "ev \<notin> set (timer_list # ts)"
  shows "\<exists>h'. ril_timer_add ev (Some tv) now s = Some (s\<lparr>mem := h'\<rparr>) \<and>
    dll h' timer_list (takeWhile (expired (timeradd now tv) (mem s)) ts @ ev #
                       dropWhile (expired (timeradd now tv) (mem s)) ts) \<and>
    ev_timeout (h' ev) = timeradd now tv \<and> ev_fd (h' ev) = - 1 \<and>
    ev_func (h' ev) = ev_func (mem s ev) \<and> ev_param (h' ev) = ev_param (mem s ev) \<and>
    (\<forall>a. a \<notin> set (timer_list # ev # ts) \<longrightarrow> h' a = mem s a) \<and>
    (\<forall>a. a \<noteq> ev \<longrightarrow> payload (h' a) = payload (mem s a))"
proof -
  let ?t = "timeradd now tv"
  define h where "h = (mem s)(ev := (mem s ev)\<lparr>ev_fd := - 1, ev_timeout := ?t\<rparr>)"
  have dh: "dll h timer_list ts" using d by (subst dll_cong [of _ _ _ "mem s"]) (auto simp: h_def)
  have ex: "dropWhile (expired ?t h) ts = dropWhile (expired ?t (mem s)) ts"
      "takeWhile (expired ?t h) ts = takeWhile (expired ?t (mem s)) ts"
    using new by (auto intro!: dropWhile_cong takeWhile_cong simp: expired_def h_def split: if_splits)
  have nx: "ev_next (mem s timer_list) = hd (ts @ [timer_list])" using dll_next_head [OF d] .
  obtain h' where h': "addToList ev (hd (dropWhile (expired ?t h) ts @ [timer_list])) h = Some h'"
    "dll h' timer_list (takeWhile (expired ?t h) ts @ ev # dropWhile (expired ?t h) ts)"
    "\<forall>a. a \<notin> set (timer_list # takeWhile (expired ?t h) ts @ ev # dropWhile (expired ?t h) ts)
       \<longrightarrow> h' a = h a"
    "\<forall>a. payload (h' a) = payload (h a)"
    using evl.add_before [of h timer_list "takeWhile (expired ?t h) ts" "dropWhile (expired ?t h) ts" ev]
      dh new by auto
  have run: "ril_timer_add ev (Some tv) now s = Some (s\<lparr>mem := h'\<rparr>)"
    using h'(1) timer_pos_dll [of h "[]" ts ?t] dh nx new
    by (simp add: ril_timer_add_def h_def)
  have "payload (h' ev) = payload (h ev)" using h'(4) by simp
  then have "ev_timeout (h' ev) = ?t" "ev_fd (h' ev) = - 1"
    "ev_func (h' ev) = ev_func (mem s ev)" "ev_param (h' ev) = ev_param (mem s ev)"
    by (auto simp: h_def dest: payload_eqD)
  moreover have "h' a = mem s a" if "a \<notin> set (timer_list # ev # ts)" for a
    using h'(3) that by (auto simp: h_def dest: set_takeWhileD set_dropWhileD)
  moreover have "payload (h' a) = payload (mem s a)" if "a \<noteq> ev" for a
    using h'(4) that by (simp add: h_def)
  ultimately show ?thesis using run h'(2) unfolding ex by blast
qed

lemma timeouts_loop_dll:
  assumes "dll h timer_list xs" "dll h pending_list ps" "sep timer_list xs pending_list ps"
  shows "\<exists>h'. timeouts_loop now (hd (xs @ [timer_list])) h = Some h' \<and>
    dll h' timer_list (dropWhile (expired now h) xs) \<and>
    dll h' pending_list (ps @ takeWhile (expired now h) xs) \<and>
    (\<forall>a. a \<notin> set (timer_list # pending_list # xs @ ps) \<longrightarrow> h' a = h a) \<and>
    (\<forall>a. payload (h' a) = payload (h a))"
  using assms
proof (induction xs arbitrary: h ps)
  case Nil
  then show ?case by (subst timeouts_loop.simps) simp
next
  case (Cons x xs)
  have nn: "x \<noteq> NULL" "x \<noteq> timer_list" using Cons.prems(1) by (auto simp: dll_def)
  have nx: "ev_next (h x) = hd (xs @ [timer_list])"
    using dll_next_elem [of h timer_list "[]" x xs] Cons.prems(1) by simp
  show ?case
  proof (cases "expired now h x")
    case False
    then show ?thesis using Cons.prems nn by (subst timeouts_loop.simps) (simp add: expired_def)
  next
    case True
    obtain h1 h2 where m: "removeFromList x h = Some h1" "addToList x pending_list h1 = Some h2"
      "dll h2 timer_list xs" "dll h2 pending_list (ps @ [x])"
      "sep timer_list xs pending_list (ps @ [x])"
      "\<forall>a. a \<notin> set (timer_list # pending_list # x # xs @ ps) \<longrightarrow> h2 a = h a"
      "\<forall>a. payload (h2 a) = payload (h a)"
      using evl.move_front [OF Cons.prems] by blast
    have ex: "expired now h2 = expired now h" using expired_payload m(7) by blast
    obtain h' where h': "timeouts_loop now (hd (xs @ [timer_list])) h2 = Some h'"
      "dll h' timer_list (dropWhile (expired now h) xs)"
      "dll h' pending_list ((ps @ [x]) @ takeWhile (expired now h) xs)"
      "\<forall>a. a \<notin> set (timer_list # pending_list # xs @ ps @ [x]) \<longrightarrow> h' a = h2 a"
      "\<forall>a. payload (h' a) = payload (h2 a)"
      using Cons.IH [OF m(3-5)] unfolding ex by blast
    have "timeouts_loop now x h = Some h'"
      using True nn nx m(1,2) h'(1) by (subst timeouts_loop.simps) (simp add: expired_def)
    with h' m True show ?thesis by (intro exI [of _ h']) simp
  qed
qed

text \<open>
  The timers whose deadline has passed, and no others, become pending, in deadline order.
\<close>

lemma processTimeouts_lists:
  assumes ok: "lists_ok (mem s) ts ps"
  shows "\<exists>h'. processTimeouts now s = Some (s\<lparr>mem := h'\<rparr>) \<and>
    lists_ok h' (filter (\<lambda>a. \<not> expired now (mem s) a) ts) (ps @ filter (expired now (mem s)) ts) \<and>
    (\<forall>a. a \<notin> set (timer_list # pending_list # ts @ ps) \<longrightarrow> h' a = mem s a) \<and>
    (\<forall>a. payload (h' a) = payload (mem s a))"
proof -
  note ok' = ok [unfolded lists_ok_def]
  obtain h' where h': "timeouts_loop now (hd (ts @ [timer_list])) (mem s) = Some h'"
    "dll h' timer_list (dropWhile (expired now (mem s)) ts)"
    "dll h' pending_list (ps @ takeWhile (expired now (mem s)) ts)"
    "\<forall>a. a \<notin> set (timer_list # pending_list # ts @ ps) \<longrightarrow> h' a = mem s a"
    "\<forall>a. payload (h' a) = payload (mem s a)"
    using timeouts_loop_dll [of "mem s" ts ps now] ok' by blast
  have run: "processTimeouts now s = Some (s\<lparr>mem := h'\<rparr>)"
    using h'(1) ok' dll_next_head [of "mem s" timer_list ts]
    by (simp add: processTimeouts_def)
  have f: "dropWhile (expired now (mem s)) ts = filter (\<lambda>a. \<not> expired now (mem s) a) ts"
    "takeWhile (expired now (mem s)) ts = filter (expired now (mem s)) ts"
    unfolding expired_def
    using dropWhile_eq_filter_sorted takeWhile_eq_filter_sorted ok' by blast+
  have t: "(\<lambda>a. ev_timeout (h' a)) = (\<lambda>a. ev_timeout (mem s a))"
    using h'(5) payload_eqD(4) by fast
  have "lists_ok h' (filter (\<lambda>a. \<not> expired now (mem s) a) ts)
    (ps @ filter (expired now (mem s)) ts)"
    using h'(2,3) ok' unfolding f lists_ok_def t
    by (auto simp: sep_def sorted_filter dest: dll_D(2))
  with run h' show ?thesis by blast
qed

lemma ril_timer_add_lists:
  assumes ok: "lists_ok (mem s) ts ps"
    and new: "ev \<noteq> NULL" "ev \<notin> set (timer_list # pending_list # ts @ ps)"
  shows "\<exists>h'. ril_timer_add ev (Some tv) now s = Some (s\<lparr>mem := h'\<rparr>) \<and>
    lists_ok h' (takeWhile (expired (timeradd now tv) (mem s)) ts @ ev #
                 dropWhile (expired (timeradd now tv) (mem s)) ts) ps \<and>
    ev_timeout (h' ev) = timeradd now tv \<and>
    ev_func (h' ev) = ev_func (mem s ev) \<and> ev_param (h' ev) = ev_param (mem s ev) \<and>
    (\<forall>a. a \<notin> set (timer_list # ev # ts) \<longrightarrow> h' a = mem s a) \<and>
    (\<forall>a. a \<noteq> ev \<longrightarrow> payload (h' a) = payload (mem s a))"
proof -
  let ?t = "timeradd now tv" and ?E = "expired (timeradd now tv) (mem s)"
  note ok' = ok [unfolded lists_ok_def]
  obtain h' where h': "ril_timer_add ev (Some tv) now s = Some (s\<lparr>mem := h'\<rparr>)"
    "dll h' timer_list (takeWhile ?E ts @ ev # dropWhile ?E ts)"
    "ev_timeout (h' ev) = ?t"
    "\<forall>a. a \<notin> set (timer_list # ev # ts) \<longrightarrow> h' a = mem s a"
    "\<forall>a. a \<noteq> ev \<longrightarrow> payload (h' a) = payload (mem s a)"
    "ev_func (h' ev) = ev_func (mem s ev)" "ev_param (h' ev) = ev_param (mem s ev)"
    using ril_timer_add_dll [of s ts ev tv now] ok' new by auto
  have fr: "h' a = mem s a" if "a \<in> set (pending_list # ps)" for a
    by (rule h'(4) [rule_format]) (use that ok' new in \<open>auto simp: sep_def disjoint_iff\<close>)
  have "dll h' pending_list ps"
    by (rule evl.repr_frame [OF _ fr]) (use ok' in blast)
  moreover have "sep timer_list (takeWhile ?E ts @ ev # dropWhile ?E ts) pending_list ps"
    using ok' new by (auto simp: sep_def dest: set_takeWhileD set_dropWhileD)
  moreover have "sorted (map (\<lambda>a. ev_timeout (h' a)) (takeWhile ?E ts @ ev # dropWhile ?E ts))"
  proof -
    have eq: "ev_timeout (h' a) = ev_timeout (mem s a)" if "a \<in> set ts" for a
      using h'(5) new that payload_eqD(4) by (metis Un_iff list.set_intros(2) set_append)
    have "sorted (map (\<lambda>a. ev_timeout (h' a)) ts)" using ok' eq by (simp cong: map_cong)
    moreover have "?E a = (ev_timeout (h' a) < ev_timeout (h' ev))" if "a \<in> set ts" for a
      using eq that h'(3) by (simp add: expired_def)
    ultimately show ?thesis
      using sorted_insert_split [of "\<lambda>a. ev_timeout (h' a)" ts ev]
      by (simp cong: takeWhile_cong dropWhile_cong)
  qed
  ultimately show ?thesis using h' unfolding lists_ok_def by blast
qed

section \<open>Firing\<close>

text \<open>The pending events called one after the other, each unlinked before its call.\<close>

fun fire_list ::
    "'a ev_state_scheme callback \<Rightarrow> ptr list \<Rightarrow> 'a ev_state_scheme \<Rightarrow> 'a ev_state_scheme option" where
  "fire_list cb [] s = Some s"
| "fire_list cb (x # xs) s = do {
     h \<leftarrow> removeFromList x (mem s);
     s1 \<leftarrow> cb (ev_func (h x)) (ev_fd (h x)) (ev_param (h x)) (s\<lparr>mem := h\<rparr>);
     fire_list cb xs s1 }"

text \<open>What the loop needs of the callbacks: they leave the events still pending linked.\<close>

definition keeps_pending :: "'a ev_state_scheme callback \<Rightarrow> bool" where
  "keeps_pending cb \<longleftrightarrow> (\<forall>f fd p s s' xs. cb f fd p s = Some s' \<longrightarrow>
     dll (mem s) pending_list xs \<longrightarrow> dll (mem s') pending_list xs)"

lemma fire_loop_fire_list:
  assumes "keeps_pending cb" "dll (mem s) pending_list xs"
  shows "fire_loop cb (hd (xs @ [pending_list])) s = fire_list cb xs s"
  using assms(2)
proof (induction xs arbitrary: s)
  case Nil
  then show ?case by (subst fire_loop.simps) simp
next
  case (Cons x xs)
  have nn: "x \<noteq> NULL" "x \<noteq> pending_list" using Cons.prems by (auto simp: dll_def)
  have nx: "ev_next (mem s x) = hd (xs @ [pending_list])"
    using dll_next_elem [of "mem s" pending_list "[]" x xs] Cons.prems by simp
  obtain h where h: "removeFromList x (mem s) = Some h" "dll h pending_list xs"
    using evl.remove_elem [of "mem s" pending_list "[]" x xs] Cons.prems by auto
  have "fire_loop cb (hd (xs @ [pending_list])) s1 = fire_list cb xs s1"
    if "cb (ev_func (h x)) (ev_fd (h x)) (ev_param (h x)) (s\<lparr>mem := h\<rparr>) = Some s1" for s1
    using assms(1) h(2) that unfolding keeps_pending_def by (intro Cons.IH) force
  then show ?case using nn nx h(1)
    by (subst fire_loop.simps)
      (cases "cb (ev_func (h x)) (ev_fd (h x)) (ev_param (h x)) (s\<lparr>mem := h\<rparr>)"; simp)
qed

lemma firePending_fire_list:
  assumes "keeps_pending cb" "dll (mem s) pending_list xs"
  shows "firePending cb s = fire_list cb xs s"
  using fire_loop_fire_list [OF assms] dll_next_head [OF assms(2)]
  by (simp add: firePending_def)

lemma fire_list_empties:
  assumes "keeps_pending cb" "dll (mem s) pending_list xs" "fire_list cb xs s = Some s'"
  shows "dll (mem s') pending_list []"
  using assms(2,3)
proof (induction xs arbitrary: s)
  case (Cons x xs)
  obtain h where h: "removeFromList x (mem s) = Some h" "dll h pending_list xs"
    using evl.remove_elem [of "mem s" pending_list "[]" x xs] Cons.prems by auto
  with Cons.prems obtain s1 where
    "cb (ev_func (h x)) (ev_fd (h x)) (ev_param (h x)) (s\<lparr>mem := h\<rparr>) = Some s1"
    "fire_list cb xs s1 = Some s'"
    by (auto simp: Option.bind_eq_Some_conv)
  with assms(1) h(2) show ?case
    unfolding keeps_pending_def by (intro Cons.IH [of s1]) force+
qed simp

section \<open>The watch table\<close>

definition watched :: "'a ev_state_scheme \<Rightarrow> ptr set" where
  "watched s = set (watch_table s) - {NULL}"

text \<open>
  Every watched event records its slot, its descriptor is in the set handed to
  \<open>select\<close> and below \<open>nfds\<close>, no two share a descriptor, and the set holds no other.
\<close>

definition watch_ok :: "'a ev_state_scheme \<Rightarrow> bool" where
  "watch_ok s \<longleftrightarrow> length (watch_table s) = MAX_FD_EVENTS \<and>
     (\<forall>i < MAX_FD_EVENTS. watch_table s ! i \<noteq> NULL \<longrightarrow>
        ev_index (mem s (watch_table s ! i)) = int i) \<and>
     (\<forall>w \<in> watched s. 0 \<le> ev_fd (mem s w) \<and> ev_fd (mem s w) < FD_SETSIZE \<and>
        ev_fd (mem s w) < nfds s) \<and>
     inj_on (\<lambda>w. ev_fd (mem s w)) (watched s) \<and>
     readFds s = (\<lambda>w. ev_fd (mem s w)) ` watched s"

lemma watched_mem [simp]: "watched (s\<lparr>mem := h\<rparr>) = watched s"
  by (simp add: watched_def)

lemma watch_ok_payload:
  assumes "\<And>a. a \<in> watched s \<Longrightarrow> payload (h a) = payload (mem s a)"
  shows "watch_ok (s\<lparr>mem := h\<rparr>) = watch_ok s"
proof -
  have eq: "ev_fd (h a) = ev_fd (mem s a)" "ev_index (h a) = ev_index (mem s a)"
    if "a \<in> watched s" for a
    using assms [OF that] payload_eqD by blast+
  have "watch_table s ! i \<in> watched s" if "watch_table s ! i \<noteq> NULL" "i < length (watch_table s)" for i
    using that by (simp add: watched_def)
  then show ?thesis
    using eq by (auto simp: watch_ok_def inj_on_def)
qed

lemma watch_ok_index:
  "watch_ok s \<Longrightarrow> i < MAX_FD_EVENTS \<Longrightarrow> watch_table s ! i \<noteq> NULL \<Longrightarrow>
     ev_index (mem s (watch_table s ! i)) = int i"
  by (simp add: watch_ok_def)

lemma watch_ok_slot:
  assumes "watch_ok s" "w \<in> watched s"
  shows "nat (ev_index (mem s w)) < MAX_FD_EVENTS" "0 \<le> ev_index (mem s w)"
    "watch_table s ! nat (ev_index (mem s w)) = w"
proof -
  from assms obtain i where i: "i < MAX_FD_EVENTS" "watch_table s ! i = w" "w \<noteq> NULL"
    by (auto simp: watch_ok_def watched_def in_set_conv_nth)
  with assms have "ev_index (mem s w) = int i" by (auto simp: watch_ok_def)
  with i show "nat (ev_index (mem s w)) < MAX_FD_EVENTS" "0 \<le> ev_index (mem s w)"
    "watch_table s ! nat (ev_index (mem s w)) = w" by auto
qed

lemma watched_clear_slot:
  assumes "watch_ok s" "i < MAX_FD_EVENTS" "watch_table s ! i \<noteq> NULL"
  shows "set ((watch_table s)[i := NULL]) - {NULL} = watched s - {watch_table s ! i}"
proof -
  have len: "length (watch_table s) = MAX_FD_EVENTS" using assms by (simp add: watch_ok_def)
  have uniq: "j = i" if "j < MAX_FD_EVENTS" "watch_table s ! j = watch_table s ! i" for j
  proof -
    have "watch_table s ! j \<noteq> NULL" using assms(3) unfolding that(2) .
    from watch_ok_index [OF assms(1) that(1) this, unfolded that(2)] watch_ok_index [OF assms]
    have "int j = int i" by (rule trans [OF sym])
    then show ?thesis by simp
  qed
  show ?thesis
  proof (intro set_eqI iffI)
    fix x assume "x \<in> set ((watch_table s)[i := NULL]) - {NULL}"
    then obtain j where "j < MAX_FD_EVENTS" "(watch_table s)[i := NULL] ! j = x" "x \<noteq> NULL"
      by (auto simp: in_set_conv_nth len)
    moreover from this have "j \<noteq> i" using assms(2) len by auto
    ultimately show "x \<in> watched s - {watch_table s ! i}"
      using uniq len by (auto simp: watched_def)
  next
    fix x assume "x \<in> watched s - {watch_table s ! i}"
    then obtain j where "j < MAX_FD_EVENTS" "watch_table s ! j = x" "x \<noteq> NULL" "j \<noteq> i"
      by (auto simp: in_set_conv_nth watched_def len)
    then show "x \<in> set ((watch_table s)[i := NULL]) - {NULL}"
      by (auto simp: in_set_conv_nth len intro!: exI [of _ j])
  qed
qed

lemma max_fd_mono: "n \<le> max_fd h ws n"
proof (induction ws arbitrary: n)
  case (Cons a ws)
  have "n \<le> (if a \<noteq> NULL \<and> ev_fd (h a) > n then ev_fd (h a) else n)" by simp
  also have "\<dots> \<le> max_fd h ws (if a \<noteq> NULL \<and> ev_fd (h a) > n then ev_fd (h a) else n)"
    by (rule Cons.IH)
  finally show ?case by simp
qed simp

lemma max_fd_upper: "w \<in> set ws \<Longrightarrow> w \<noteq> NULL \<Longrightarrow> ev_fd (h w) \<le> max_fd h ws n"
proof (induction ws arbitrary: n)
  case (Cons a ws)
  show ?case
  proof (cases "w = a")
    case True
    have "ev_fd (h w) \<le> (if a \<noteq> NULL \<and> ev_fd (h a) > n then ev_fd (h a) else n)"
      using True Cons.prems by simp
    also have "\<dots> \<le> max_fd h ws (if a \<noteq> NULL \<and> ev_fd (h a) > n then ev_fd (h a) else n)"
      by (rule max_fd_mono)
    finally show ?thesis by simp
  next
    case False
    with Cons.prems Cons.IH show ?thesis by simp
  qed
qed simp

lemma removeWatch_ok:
  assumes ok: "watch_ok s" and i: "i < MAX_FD_EVENTS" and ev: "watch_table s ! i = ev" "ev \<noteq> NULL"
  shows "\<exists>s'. removeWatch ev (int i) s = Some s' \<and> watch_ok s' \<and>
    watched s' = watched s - {ev} \<and> watch_table s' = (watch_table s)[i := NULL] \<and>
    mem s' = (mem s)(ev := (mem s ev)\<lparr>ev_index := - 1\<rparr>) \<and>
    ev_state.more s' = ev_state.more s"
proof -
  let ?h = "(mem s)(ev := (mem s ev)\<lparr>ev_index := - 1\<rparr>)" and ?t = "(watch_table s)[i := NULL]"
  have evw: "ev \<in> watched s" using ok i ev by (auto simp: watch_ok_def watched_def)
  have w: "set ?t - {NULL} = watched s - {ev}" using watched_clear_slot [OF ok i] ev by simp
  have fd: "0 \<le> ev_fd (mem s ev)" "ev_fd (mem s ev) < FD_SETSIZE" using ok evw by (auto simp: watch_ok_def)
  define n where "n = (if ev_fd (mem s ev) + 1 = nfds s then max_fd ?h ?t 0 + 1 else nfds s)"
  define s' where "s' = s\<lparr>watch_table := ?t, mem := ?h,
    readFds := readFds s - {ev_fd (mem s ev)}, nfds := n\<rparr>"
  have run: "removeWatch ev (int i) s = Some s'"
    using i ev fd by (auto simp: removeWatch_def FD_CLR_def s'_def n_def)
  have ws: "watched s' = watched s - {ev}" using w by (simp add: watched_def s'_def)
  have below: "ev_fd (mem s x) < n" if "x \<in> watched s - {ev}" for x
  proof -
    have "x \<in> set ?t" "x \<noteq> NULL" using that w by auto
    then have "ev_fd (?h x) \<le> max_fd ?h ?t 0" by (rule max_fd_upper)
    then show ?thesis using ok that by (auto simp: n_def watch_ok_def)
  qed
  have inj: "inj_on (\<lambda>w. ev_fd (mem s w)) (watched s)"
    and rfds: "readFds s = (\<lambda>w. ev_fd (mem s w)) ` watched s"
    and len: "length (watch_table s) = MAX_FD_EVENTS" using ok by (simp_all add: watch_ok_def)
  have fds: "ev_fd (?h x) = ev_fd (mem s x)" for x by simp
  have "readFds s - {ev_fd (mem s ev)} = (\<lambda>w. ev_fd (?h w)) ` (watched s - {ev})"
    unfolding rfds fds using inj_on_image_set_diff [OF inj, of "watched s" "{ev}"] evw by simp
  moreover have "inj_on (\<lambda>w. ev_fd (?h w)) (watched s - {ev})"
    unfolding fds using inj by (rule inj_on_subset) auto
  moreover have "ev_index (?h (?t ! j)) = int j" if "j < MAX_FD_EVENTS" "?t ! j \<noteq> NULL" for j
  proof -
    have "j \<noteq> i" using that i len by auto
    then have "?t ! j = watch_table s ! j" by simp
    moreover from this have "watch_table s ! j \<in> watched s - {ev}"
      using that w len by (metis length_list_update nth_mem singletonD DiffI)
    ultimately show ?thesis using ok that by (auto simp: watch_ok_def)
  qed
  moreover have "\<forall>x \<in> watched s - {ev}. 0 \<le> ev_fd (?h x) \<and> ev_fd (?h x) < FD_SETSIZE \<and> ev_fd (?h x) < n"
    unfolding fds using ok below by (simp add: watch_ok_def)
  ultimately have "watch_ok s'"
    unfolding watch_ok_def ws by (simp add: s'_def len del: fun_upd_apply)
  with run ws show ?thesis by (auto simp: s'_def)
qed

lemma ril_event_del_ok:
  assumes ok: "watch_ok s" and "ev \<in> watched s"
  shows "\<exists>s'. ril_event_del ev s = Some s' \<and> watch_ok s' \<and> watched s' = watched s - {ev} \<and>
    mem s' = (mem s)(ev := (mem s ev)\<lparr>ev_index := - 1\<rparr>) \<and> ev_state.more s' = ev_state.more s \<and>
    NULL \<in> set (watch_table s')"
proof -
  note slot = watch_ok_slot [OF assms]
  have "ev \<noteq> NULL" using assms by (simp add: watched_def)
  with removeWatch_ok [OF ok slot(1) slot(3)] slot show ?thesis
    using set_update_memI [of _ "watch_table s"] ok
    by (auto simp: ril_event_del_def watch_ok_def [of s])
qed

lemma add_loop_full: "(\<And>i. i \<in> set is \<Longrightarrow> watch_table s ! i \<noteq> NULL) \<Longrightarrow> add_loop ev is s = Some s"
  by (induction "is") auto

lemma add_loop_free:
  "i \<in> set is \<Longrightarrow> watch_table s ! i = NULL \<Longrightarrow>
     \<exists>j \<in> set is. watch_table s ! j = NULL \<and> add_loop ev is s = add_loop ev [j] s"
proof (induction "is")
  case (Cons k "is")
  show ?case
  proof (cases "watch_table s ! k = NULL")
    case False
    with Cons.prems have "i \<in> set is" by auto
    from Cons.IH [OF this Cons.prems(2)] False show ?thesis by (simp only: add_loop.simps if_False list.set) blast
  qed (auto intro!: bexI [of _ k])
qed simp

lemma add_slot_ok:
  assumes ok: "watch_ok s" and j: "j < MAX_FD_EVENTS" "watch_table s ! j = NULL"
    and ev: "ev \<noteq> NULL" "ev \<notin> watched s"
    and fd: "0 \<le> ev_fd (mem s ev)" "ev_fd (mem s ev) < FD_SETSIZE" "ev_fd (mem s ev) \<notin> readFds s"
  shows "\<exists>s'. add_loop ev [j] s = Some s' \<and> watch_ok s' \<and> watched s' = insert ev (watched s) \<and>
    mem s' = (mem s)(ev := (mem s ev)\<lparr>ev_index := int j\<rparr>) \<and> ev_state.more s' = ev_state.more s"
proof -
  let ?h = "(mem s)(ev := (mem s ev)\<lparr>ev_index := int j\<rparr>)" and ?t = "(watch_table s)[j := ev]"
    and ?n = "if ev_fd (mem s ev) \<ge> nfds s then ev_fd (mem s ev) + 1 else nfds s"
  define s' where "s' = s\<lparr>watch_table := ?t, mem := ?h,
    readFds := insert (ev_fd (mem s ev)) (readFds s), nfds := ?n\<rparr>"
  have run: "add_loop ev [j] s = Some s'"
    using j ev fd by (auto simp: FD_SET_def s'_def)
  have len: "length (watch_table s) = MAX_FD_EVENTS"
    and rfds: "readFds s = (\<lambda>w. ev_fd (mem s w)) ` watched s"
    and inj: "inj_on (\<lambda>w. ev_fd (mem s w)) (watched s)" using ok by (simp_all add: watch_ok_def)
  have ws: "watched s' = insert ev (watched s)"
    using j ev len set_update_subset_insert [of "watch_table s" j ev]
    by (auto simp: watched_def s'_def in_set_conv_nth nth_list_update)
  have fds: "ev_fd (?h x) = ev_fd (mem s x)" for x by simp
  have "ev_index (?h (?t ! i)) = int i" if "i < MAX_FD_EVENTS" "?t ! i \<noteq> NULL" for i
  proof (cases "i = j")
    case False
    then have "?t ! i = watch_table s ! i" by simp
    moreover from this that have "watch_table s ! i \<in> watched s" by (simp add: watched_def len)
    ultimately show ?thesis using watch_ok_index [OF ok that(1)] that(2) ev by auto
  qed (use j len in simp)
  moreover have "\<forall>x \<in> insert ev (watched s).
      0 \<le> ev_fd (?h x) \<and> ev_fd (?h x) < FD_SETSIZE \<and> ev_fd (?h x) < ?n"
    unfolding fds using ok fd by (auto simp: watch_ok_def)
  moreover have "inj_on (\<lambda>w. ev_fd (?h w)) (insert ev (watched s))"
    unfolding fds using inj fd(3) ev(2) by (auto simp: rfds inj_on_insert)
  moreover have "insert (ev_fd (mem s ev)) (readFds s) =
      (\<lambda>w. ev_fd (?h w)) ` (insert ev (watched s))"
    unfolding fds rfds by simp
  ultimately have "watch_ok s'"
    unfolding watch_ok_def ws by (simp add: s'_def len del: fun_upd_apply)
  with run ws show ?thesis by (auto simp: s'_def)
qed

text \<open>
  \<open>ril_event_add\<close> takes the first free slot; when the table is full the event is
  dropped without a report.
\<close>

lemma ril_event_add_ok:
  assumes "watch_ok s" "NULL \<in> set (watch_table s)" "ev \<noteq> NULL" "ev \<notin> watched s"
    and "0 \<le> ev_fd (mem s ev)" "ev_fd (mem s ev) < FD_SETSIZE" "ev_fd (mem s ev) \<notin> readFds s"
  shows "\<exists>s' j. ril_event_add ev s = Some s' \<and> watch_ok s' \<and> watched s' = insert ev (watched s) \<and>
    mem s' = (mem s)(ev := (mem s ev)\<lparr>ev_index := int j\<rparr>) \<and> ev_state.more s' = ev_state.more s"
proof -
  have len: "length (watch_table s) = MAX_FD_EVENTS" using assms(1) by (simp add: watch_ok_def)
  from assms(2) obtain i where "i \<in> set [0..<MAX_FD_EVENTS]" "watch_table s ! i = NULL"
    by (auto simp: in_set_conv_nth len)
  then obtain j where "j < MAX_FD_EVENTS" "watch_table s ! j = NULL"
    "ril_event_add ev s = add_loop ev [j] s"
    using add_loop_free [of i "[0..<MAX_FD_EVENTS]" s ev] by (auto simp: ril_event_add_def)
  with add_slot_ok [OF assms(1) this(1,2) assms(3-7)] show ?thesis by auto
qed

lemma ril_event_add_full:
  "length (watch_table s) = MAX_FD_EVENTS \<Longrightarrow> NULL \<notin> set (watch_table s) \<Longrightarrow> ril_event_add ev s = Some s"
  unfolding ril_event_add_def by (rule add_loop_full) (metis atLeastLessThan_upt atLeastLessThan_iff nth_mem)

section \<open>Ready descriptors\<close>

definition ready_events :: "int set \<Rightarrow> nat list \<Rightarrow> 'a ev_state_scheme \<Rightarrow> ptr list" where
  "ready_events rfds is s =
     filter (\<lambda>w. w \<noteq> NULL \<and> ev_fd (mem s w) \<in> rfds) (map ((!) (watch_table s)) is)"

text \<open>The part of an event that the loop itself never writes.\<close>

definition core :: "ril_event \<Rightarrow> int \<times> bool \<times> timeval \<times> ptr \<times> ptr" where
  "core e = (ev_fd e, ev_persist e, ev_timeout e, ev_func e, ev_param e)"

lemma core_payload: "payload e = payload e' \<Longrightarrow> core e = core e'"
  by (simp add: payload_def core_def)

lemma core_index [simp]: "core (e\<lparr>ev_index := i\<rparr>) = core e"
  by (simp add: core_def)

lemma core_eqD:
  assumes "core e = core e'"
  shows "ev_fd e = ev_fd e'" "ev_persist e = ev_persist e'" "ev_timeout e = ev_timeout e'"
  using assms by (simp_all add: core_def)

text \<open>One watched and ready event: it becomes pending, and leaves the table unless persistent.\<close>

lemma ready_step:
  assumes ok: "watch_ok s" and i: "i < MAX_FD_EVENTS" "watch_table s ! i = rv" "rv \<noteq> NULL"
    and d: "dll (mem s) pending_list ps" and fresh: "rv \<notin> set (pending_list # ps)"
  shows "\<exists>h s2. addToList rv pending_list (mem s) = Some h \<and>
    (if ev_persist (h rv) = False then removeWatch rv (int i) (s\<lparr>mem := h\<rparr>) else Some (s\<lparr>mem := h\<rparr>))
      = Some s2 \<and>
    watch_ok s2 \<and> dll (mem s2) pending_list (ps @ [rv]) \<and>
    watched s2 = watched s - (if ev_persist (mem s rv) then {} else {rv}) \<and>
    (\<forall>j. j \<noteq> i \<longrightarrow> watch_table s2 ! j = watch_table s ! j) \<and>
    (\<forall>a. a \<notin> set (pending_list # rv # ps) \<longrightarrow> mem s2 a = mem s a) \<and>
    (\<forall>a. core (mem s2 a) = core (mem s a)) \<and> ev_state.more s2 = ev_state.more s"
proof -
  obtain h where h: "addToList rv pending_list (mem s) = Some h" "dll h pending_list (ps @ [rv])"
    "\<forall>a. a \<notin> set (pending_list # ps @ [rv]) \<longrightarrow> h a = mem s a"
    "\<forall>a. payload (h a) = payload (mem s a)"
    using evl.add_before [of "mem s" pending_list ps "[]" rv] d fresh i by auto
  let ?s = "s\<lparr>mem := h\<rparr>"
  have ok1: "watch_ok ?s" using ok watch_ok_payload h(4) by blast
  have p: "ev_persist (h rv) = ev_persist (mem s rv)" using h(4) payload_eqD(3) by blast
  show ?thesis
  proof (cases "ev_persist (mem s rv)")
    case True
    with h ok1 p show ?thesis
      by (intro exI [of _ h] exI [of _ ?s]) (auto intro: core_payload)
  next
    case False
    obtain s2 where s2: "removeWatch rv (int i) ?s = Some s2" "watch_ok s2"
      "watched s2 = watched s - {rv}" "watch_table s2 = (watch_table s)[i := NULL]"
      "mem s2 = h(rv := (h rv)\<lparr>ev_index := - 1\<rparr>)" "ev_state.more s2 = ev_state.more s"
      using removeWatch_ok [OF ok1 i(1)] i by auto
    have "dll (mem s2) pending_list (ps @ [rv])"
      using h(2) by (subst dll_cong [of _ _ _ h]) (auto simp: s2(5))
    moreover have "core (mem s2 a) = core (mem s a)" for a
      using core_payload [OF h(4) [rule_format]] by (simp add: s2(5))
    moreover have "mem s2 a = mem s a" if "a \<notin> set (pending_list # rv # ps)" for a
      using that h(3) by (simp add: s2(5))
    moreover have "watch_table s2 ! j = watch_table s ! j" if "j \<noteq> i" for j
      using that by (simp add: s2(4))
    ultimately show ?thesis using s2(1,2,3,6) h(1) p False by auto
  qed
qed

text \<open>One slot of the watch table: an event that is not ready is passed over, one that is ready is
  taken, and the slots after it are as before.\<close>

lemma readies_skip:
  assumes "watch_ok s" "i < MAX_FD_EVENTS"
    "\<not> (watch_table s ! i \<noteq> NULL \<and> ev_fd (mem s (watch_table s ! i)) \<in> rfds)"
  shows "readies_loop rfds (i # is) n s = readies_loop rfds is n s"
    "ready_events rfds (i # is) s = ready_events rfds is s"
proof -
  let ?rv = "watch_table s ! i"
  have "?rv \<noteq> NULL \<Longrightarrow> FD_ISSET (ev_fd (mem s ?rv)) rfds = Some False"
    using assms by (auto simp: FD_ISSET_def watch_ok_def watched_def)
  then have "readies_loop rfds (i # is) n s = (if n > 0 then readies_loop rfds is n s else Some s)"
    using assms(3) by (auto simp: Let_def)
  moreover have "readies_loop rfds is n s = Some s" if "\<not> n > 0"
    using that by (cases "is") auto
  ultimately show "readies_loop rfds (i # is) n s = readies_loop rfds is n s" by auto
  show "ready_events rfds (i # is) s = ready_events rfds is s"
    using assms(3) by (auto simp: ready_events_def)
qed

lemma readies_take:
  assumes ok: "watch_ok s" and d: "dll (mem s) pending_list ps" and "is": "distinct (i # is)"
    and i: "\<And>j. j \<in> set (i # is) \<Longrightarrow> j < MAX_FD_EVENTS"
    and fresh: "watch_table s ! i \<notin> set (pending_list # ps)"
    and rv: "rv = watch_table s ! i" "rv \<noteq> NULL" "ev_fd (mem s rv) \<in> rfds" and n: "n > 0"
  shows "\<exists>s2. readies_loop rfds (i # is) n s = readies_loop rfds is (n - 1) s2 \<and> watch_ok s2 \<and>
    dll (mem s2) pending_list (ps @ [rv]) \<and>
    watched s2 = watched s - (if ev_persist (mem s rv) then {} else {rv}) \<and>
    (\<forall>j \<in> set is. watch_table s2 ! j = watch_table s ! j \<and> watch_table s2 ! j \<noteq> rv) \<and>
    (\<forall>a. a \<notin> set (pending_list # rv # ps) \<longrightarrow> mem s2 a = mem s a) \<and>
    (\<forall>a. core (mem s2 a) = core (mem s a)) \<and> ev_state.more s2 = ev_state.more s"
proof -
  obtain h s2 where h: "addToList rv pending_list (mem s) = Some h"
    and s2: "(if ev_persist (h rv) = False then removeWatch rv (int i) (s\<lparr>mem := h\<rparr>)
      else Some (s\<lparr>mem := h\<rparr>)) = Some s2" "watch_ok s2" "dll (mem s2) pending_list (ps @ [rv])"
    "watched s2 = watched s - (if ev_persist (mem s rv) then {} else {rv})"
    "\<forall>j. j \<noteq> i \<longrightarrow> watch_table s2 ! j = watch_table s ! j"
    "\<forall>a. a \<notin> set (pending_list # rv # ps) \<longrightarrow> mem s2 a = mem s a"
    "\<forall>a. core (mem s2 a) = core (mem s a)" "ev_state.more s2 = ev_state.more s"
    using ready_step [of s i rv ps] assms by (metis list.set_intros(1))
  have "rv \<in> watched s" using ok i [of i] rv by (auto simp: watched_def watch_ok_def)
  then have "FD_ISSET (ev_fd (mem s rv)) rfds = Some True"
    using ok rv(3) by (auto simp: FD_ISSET_def watch_ok_def)
  then have run: "readies_loop rfds (i # is) n s = readies_loop rfds is (n - 1) s2"
    using n rv h s2(1) by (auto simp: Let_def dll_D simp del: One_nat_def)
  have "watch_table s2 ! j = watch_table s ! j \<and> watch_table s2 ! j \<noteq> rv" if "j \<in> set is" for j
    using that s2(5) "is" ok i watch_ok_index [of s j] watch_ok_index [of s i] rv
    by (metis distinct.simps(2) list.set_intros of_nat_eq_iff)
  then have slots: "\<forall>j \<in> set is. watch_table s2 ! j = watch_table s ! j \<and> watch_table s2 ! j \<noteq> rv" by blast
  show ?thesis by (rule exI [of _ s2]) (intro conjI run s2(2-4,6-8) slots)
qed

lemma readies_loop_ok:
  assumes "watch_ok s" "dll (mem s) pending_list ps" "distinct is"
    and "\<And>i. i \<in> set is \<Longrightarrow> i < MAX_FD_EVENTS"
    and "\<And>i. i \<in> set is \<Longrightarrow> watch_table s ! i \<notin> set (pending_list # ps)"
    and "int (length (ready_events rfds is s)) \<le> n"
  shows "\<exists>s'. readies_loop rfds is n s = Some s' \<and> watch_ok s' \<and>
    dll (mem s') pending_list (ps @ ready_events rfds is s) \<and>
    watched s' = watched s - {w \<in> set (ready_events rfds is s). \<not> ev_persist (mem s w)} \<and>
    (\<forall>a. a \<notin> set (pending_list # ps @ ready_events rfds is s) \<longrightarrow> mem s' a = mem s a) \<and>
    (\<forall>a. core (mem s' a) = core (mem s a)) \<and> ev_state.more s' = ev_state.more s"
  using assms
proof (induction "is" arbitrary: s ps n)
  case Nil
  then show ?case by (simp add: ready_events_def)
next
  case (Cons i "is")
  let ?rv = "watch_table s ! i"
  show ?case
  proof (cases "?rv \<noteq> NULL \<and> ev_fd (mem s ?rv) \<in> rfds")
    case False
    then have "readies_loop rfds (i # is) n s = readies_loop rfds is n s"
        "ready_events rfds (i # is) s = ready_events rfds is s"
      using readies_skip Cons.prems(1,4) by (meson list.set_intros(1))+
    with Cons.IH [of s ps n] Cons.prems show ?thesis by simp
  next
    case True
    then have r: "ready_events rfds (i # is) s = ?rv # ready_events rfds is s"
      by (simp add: ready_events_def)
    then have "n > 0" using Cons.prems(6) by simp
    then obtain s2 where run: "readies_loop rfds (i # is) n s = readies_loop rfds is (n - 1) s2"
      and s2: "watch_ok s2" "dll (mem s2) pending_list (ps @ [?rv])"
      "watched s2 = watched s - (if ev_persist (mem s ?rv) then {} else {?rv})"
      "\<forall>j \<in> set is. watch_table s2 ! j = watch_table s ! j \<and> watch_table s2 ! j \<noteq> ?rv"
      "\<forall>a. a \<notin> set (pending_list # ?rv # ps) \<longrightarrow> mem s2 a = mem s a"
      "\<forall>a. core (mem s2 a) = core (mem s a)" "ev_state.more s2 = ev_state.more s"
      using readies_take [OF Cons.prems(1-4), of ?rv rfds n] Cons.prems(5) True by auto
    have fd: "ev_fd (mem s2 a) = ev_fd (mem s a)" "ev_persist (mem s2 a) = ev_persist (mem s a)" for a
      using s2(6) core_eqD by blast+
    have slots: "watch_table s2 ! j = watch_table s ! j" "watch_table s ! j \<noteq> ?rv" if "j \<in> set is" for j
      using that s2(4) by auto
    have re: "ready_events rfds is s2 = ready_events rfds is s"
      unfolding ready_events_def fd using slots by (auto intro!: arg_cong [where f = "filter _"])
    obtain s' where s': "readies_loop rfds is (n - 1) s2 = Some s'" "watch_ok s'"
      "dll (mem s') pending_list ((ps @ [?rv]) @ ready_events rfds is s2)"
      "watched s' = watched s2 - {w \<in> set (ready_events rfds is s2). \<not> ev_persist (mem s2 w)}"
      "\<forall>a. a \<notin> set (pending_list # (ps @ [?rv]) @ ready_events rfds is s2) \<longrightarrow> mem s' a = mem s2 a"
      "\<forall>a. core (mem s' a) = core (mem s2 a)" "ev_state.more s' = ev_state.more s2"
      using Cons.IH [OF s2(1,2), of "n - 1"] Cons.prems(3-6) slots by (auto simp: re r)
    have "watched s' = watched s - {w \<in> set (ready_events rfds (i # is) s). \<not> ev_persist (mem s w)}"
      unfolding s'(4) s2(3) re r fd by auto
    with s' run s2(5-7) show ?thesis unfolding re r by (intro exI [of _ s']) simp
  qed
qed

text \<open>
  \<open>select\<close> returns the number of descriptors it leaves in the set, and they are among
  those it was given: then every ready event becomes pending.
\<close>

lemma ready_events_card:
  assumes ok: "watch_ok s" and sub: "rfds \<subseteq> readFds s"
  shows "int (length (ready_events rfds [0..<MAX_FD_EVENTS] s)) = int (card rfds)"
    and "set (ready_events rfds [0..<MAX_FD_EVENTS] s) = {w \<in> watched s. ev_fd (mem s w) \<in> rfds}"
proof -
  have len: "length (watch_table s) = MAX_FD_EVENTS"
    and inj: "inj_on (\<lambda>w. ev_fd (mem s w)) (watched s)"
    and rd: "readFds s = (\<lambda>w. ev_fd (mem s w)) ` watched s" using ok by (simp_all add: watch_ok_def)
  have tab: "map ((!) (watch_table s)) [0..<MAX_FD_EVENTS] = watch_table s"
    using len map_nth by metis
  let ?R = "ready_events rfds [0..<MAX_FD_EVENTS] s"
  show R: "set ?R = {w \<in> watched s. ev_fd (mem s w) \<in> rfds}"
    unfolding ready_events_def tab watched_def by auto
  have "distinct ?R" unfolding ready_events_def tab
  proof (rule distinct_filterI)
    fix i j assume "i < length (watch_table s)" "j < length (watch_table s)" "watch_table s ! i = watch_table s ! j"
      "watch_table s ! i \<noteq> NULL"
    then show "i = j" using watch_ok_index [OF ok] len by (metis of_nat_eq_iff)
  qed simp
  then have "length ?R = card (set ?R)" by (simp add: distinct_card)
  also have "\<dots> = card ((\<lambda>w. ev_fd (mem s w)) ` set ?R)"
    using inj R by (intro card_image [symmetric]) (auto intro: inj_on_subset)
  also have "(\<lambda>w. ev_fd (mem s w)) ` set ?R = rfds" unfolding R using sub rd by auto
  finally show "int (length ?R) = int (card rfds)" by simp
qed

lemma processReadReadies_ok:
  assumes ok: "watch_ok s" and l: "lists_ok (mem s) ts ps"
    and dis: "watched s \<inter> set (timer_list # pending_list # ts @ ps) = {}"
    and sel: "rfds \<subseteq> readFds s" "n = int (card rfds)"
  shows "\<exists>s'. processReadReadies rfds n s = Some s' \<and> watch_ok s' \<and>
    lists_ok (mem s') ts (ps @ ready_events rfds [0..<MAX_FD_EVENTS] s) \<and>
    watched s' = watched s - {w \<in> watched s. ev_fd (mem s w) \<in> rfds \<and> \<not> ev_persist (mem s w)} \<and>
    (\<forall>a. core (mem s' a) = core (mem s a)) \<and> ev_state.more s' = ev_state.more s"
proof -
  let ?R = "ready_events rfds [0..<MAX_FD_EVENTS] s"
  note R = ready_events_card [OF ok sel(1)] and l' = l [unfolded lists_ok_def]
  have len: "length (watch_table s) = MAX_FD_EVENTS" using ok by (simp add: watch_ok_def)
  have fresh: "watch_table s ! i \<notin> set (pending_list # ps)" if "i \<in> set [0..<MAX_FD_EVENTS]" for i
  proof (cases "watch_table s ! i = NULL")
    case False
    with that len have "watch_table s ! i \<in> watched s" by (simp add: watched_def)
    with dis show ?thesis by (auto simp: disjoint_iff)
  qed (use l' dll_D in auto)
  obtain s' where s': "processReadReadies rfds n s = Some s'" "watch_ok s'"
    "dll (mem s') pending_list (ps @ ?R)"
    "watched s' = watched s - {w \<in> set ?R. \<not> ev_persist (mem s w)}"
    "\<forall>a. a \<notin> set (pending_list # ps @ ?R) \<longrightarrow> mem s' a = mem s a"
    "\<forall>a. core (mem s' a) = core (mem s a)" "ev_state.more s' = ev_state.more s"
    using readies_loop_ok [of s ps "[0..<MAX_FD_EVENTS]" rfds n] ok l' fresh R sel
    unfolding processReadReadies_def by auto
  have sp: "sep timer_list ts pending_list (ps @ ?R)"
    using l' dis by (auto simp: sep_def R(2) disjoint_iff)
  have "dll (mem s') timer_list ts"
    by (rule evl.repr_frame [of "mem s"], use l' in blast, rule s'(5) [rule_format])
      (use sp in \<open>auto simp: sep_def disjoint_iff\<close>)
  moreover have "(\<lambda>a. ev_timeout (mem s' a)) = (\<lambda>a. ev_timeout (mem s a))"
    using s'(6) core_eqD(3) by fast
  ultimately have "lists_ok (mem s') ts (ps @ ?R)"
    using s'(3) sp l' unfolding lists_ok_def by simp
  with s' show ?thesis unfolding R(2) by auto
qed

section \<open>Turns of the loop\<close>

text \<open>
  The state between two turns, with \<open>ts\<close> the timers and \<open>ps\<close> the pending events: all
  structures are well formed, and no watched event is a timer.
\<close>

definition ev_ok :: "'a ev_state_scheme \<Rightarrow> ptr list \<Rightarrow> ptr list \<Rightarrow> bool" where
  "ev_ok s ts ps \<longleftrightarrow> watch_ok s \<and> lists_ok (mem s) ts ps \<and>
     watched s \<inter> set (timer_list # pending_list # ts) = {}"

text \<open>A callback that returns and keeps the structures, the pending events untouched.\<close>

definition good_cb :: "'a ev_state_scheme callback \<Rightarrow> bool" where
  "good_cb cb \<longleftrightarrow> (\<forall>f fd p s ts ps. ev_ok s ts ps \<longrightarrow> (\<exists>s' ts'. cb f fd p s = Some s' \<and> ev_ok s' ts' ps))"

text \<open>The documented behaviour of \<open>select\<close> when it succeeds.\<close>

definition select_ok :: "tick \<Rightarrow> bool" where
  "select_ok k \<longleftrightarrow> (\<forall>m fds ptv n fds' e. select k m fds ptv = (n, fds', e) \<longrightarrow> n \<ge> 0 \<longrightarrow>
     fds' \<subseteq> fds \<and> n = int (card fds'))"

lemma fire_unlink_ok:
  assumes ok: "ev_ok s ts (x # xs)"
  shows "\<exists>h. removeFromList x (mem s) = Some h \<and> ev_ok (s\<lparr>mem := h\<rparr>) ts xs \<and>
    ev_next (mem s x) = hd (xs @ [pending_list]) \<and> x \<noteq> NULL \<and> x \<noteq> pending_list"
proof -
  note o = ok [unfolded ev_ok_def lists_ok_def]
  have d: "dll (mem s) pending_list ([] @ x # xs)" using o by simp
  obtain h where h: "removeFromList x (mem s) = Some h" "dll h pending_list xs"
    "\<forall>a. a \<notin> set (pending_list # x # xs) \<longrightarrow> h a = mem s a" "\<forall>a. payload (h a) = payload (mem s a)"
    using evl.remove_elem [OF d] by auto
  have "dll h timer_list ts"
    by (rule evl.repr_frame [of "mem s"], use o in blast, rule h(3) [rule_format])
      (use o in \<open>auto simp: sep_def disjoint_iff\<close>)
  moreover have "(\<lambda>a. ev_timeout (h a)) = (\<lambda>a. ev_timeout (mem s a))" using h(4) payload_eqD(4) by fast
  moreover have "watch_ok (s\<lparr>mem := h\<rparr>)" using o h(4) watch_ok_payload by blast
  ultimately have "ev_ok (s\<lparr>mem := h\<rparr>) ts xs"
    using o h(2) by (auto simp: ev_ok_def lists_ok_def sep_def)
  with h(1) dll_next_elem [OF d] dll_D [OF d] show ?thesis by auto
qed

lemma fire_loop_ok:
  assumes "good_cb cb" "ev_ok s ts ps"
  shows "\<exists>s' ts'. fire_loop cb (hd (ps @ [pending_list])) s = Some s' \<and> ev_ok s' ts' []"
  using assms(2)
proof (induction ps arbitrary: s ts)
  case Nil
  then show ?case by (subst fire_loop.simps) auto
next
  case (Cons x xs)
  obtain h where h: "removeFromList x (mem s) = Some h" "ev_ok (s\<lparr>mem := h\<rparr>) ts xs"
    "ev_next (mem s x) = hd (xs @ [pending_list])" "x \<noteq> NULL" "x \<noteq> pending_list"
    using fire_unlink_ok [OF Cons.prems] by blast
  obtain s1 ts1 where s1: "cb (ev_func (h x)) (ev_fd (h x)) (ev_param (h x)) (s\<lparr>mem := h\<rparr>) = Some s1"
    "ev_ok s1 ts1 xs"
    using assms(1) h(2) unfolding good_cb_def by blast
  from Cons.IH [OF s1(2)] show ?case
    using h s1(1) by (subst fire_loop.simps) simp
qed

lemma calcNextTimeout_dll:
  assumes "dll (mem s) timer_list ts"
  shows "calcNextTimeout now tv s = Some (case ts of [] \<Rightarrow> (- 1, tv)
    | t # _ \<Rightarrow> (0, if now < ev_timeout (mem s t) then timersub (ev_timeout (mem s t)) now else Timeval 0 0))"
  using dll_next_head [OF assms] dll_D [OF assms]
  by (auto simp: calcNextTimeout_def Let_def split: list.split)

lemma loop_body_ok:
  assumes cb: "good_cb cb" and sel: "select_ok k" and ok: "ev_ok s ts []"
  shows "\<exists>tv' r. loop_body cb k tv s = Some (tv', r) \<and>
    (case r of Running s' \<Rightarrow> \<exists>ts'. ev_ok s' ts' [] | Returned s' \<Rightarrow> s' = s)"
proof -
  note o = ok [unfolded ev_ok_def]
  have tl: "dll (mem s) timer_list ts" using o by (simp add: lists_ok_def)
  obtain ret tv' where calc: "calcNextTimeout (now_calc k) tv s = Some (ret, tv')"
    using calcNextTimeout_dll [OF tl, of "now_calc k" tv] by (cases ts) auto
  obtain n rfds e where S: "select k (nfds s) (readFds s) (if ret = - 1 then None else Some tv') = (n, rfds, e)"
    by (metis prod_cases3)
  show ?thesis
  proof (cases "n < 0")
    case True
    with calc S ok show ?thesis by (auto simp: loop_body_def)
  next
    case False
    with S sel have rf: "rfds \<subseteq> readFds s" "n = int (card rfds)"
      unfolding select_ok_def by (metis not_less)+
    let ?L = "filter (\<lambda>a. \<not> expired (now_fire k) (mem s) a) ts"
      and ?P = "filter (expired (now_fire k) (mem s)) ts"
    obtain h where h: "processTimeouts (now_fire k) s = Some (s\<lparr>mem := h\<rparr>)" "lists_ok h ?L ?P"
      "\<forall>a. payload (h a) = payload (mem s a)"
      using processTimeouts_lists [of s ts "[]" "now_fire k"] o by auto
    let ?s = "s\<lparr>mem := h\<rparr>"
    have w: "watch_ok ?s" using o h(3) watch_ok_payload by blast
    have dis: "watched ?s \<inter> set (timer_list # pending_list # ?L @ ?P) = {}" using o by auto
    obtain s2 where s2: "processReadReadies rfds n ?s = Some s2" "watch_ok s2"
      "lists_ok (mem s2) ?L (?P @ ready_events rfds [0..<MAX_FD_EVENTS] ?s)" "watched s2 \<subseteq> watched s"
      using processReadReadies_ok [OF w _ dis, of rfds n] h(2) rf by auto
    have "ev_ok s2 ?L (?P @ ready_events rfds [0..<MAX_FD_EVENTS] ?s)"
      using s2 dis by (auto simp: ev_ok_def disjoint_iff)
    from fire_loop_ok [OF cb this] obtain s' ts' where
      "firePending cb s2 = Some s'" "ev_ok s' ts' []"
      using s2(3) dll_next_head [of "mem s2" pending_list] by (auto simp: firePending_def lists_ok_def)
    with calc S False h(1) s2(1) show ?thesis by (auto simp: loop_body_def)
  qed
qed

lemma ril_event_loop_ok:
  assumes cb: "good_cb cb" and ok: "ev_ok s ts []" and "\<And>k. k \<in> set ks \<Longrightarrow> select_ok k"
  shows "\<exists>r. ril_event_loop cb ks tv s = Some r \<and>
    (case r of Running s' \<Rightarrow> \<exists>ts'. ev_ok s' ts' [] | Returned s' \<Rightarrow> \<exists>ts'. ev_ok s' ts' [])"
  using assms(2,3)
proof (induction ks arbitrary: tv s ts)
  case (Cons k ks)
  obtain tv' r where b: "loop_body cb k tv s = Some (tv', r)"
    "case r of Running s' \<Rightarrow> \<exists>ts'. ev_ok s' ts' [] | Returned s' \<Rightarrow> s' = s"
    using loop_body_ok [OF cb _ Cons.prems(1)] Cons.prems(2) by (metis list.set_intros(1))
  show ?case
  proof (cases r)
    case (Running s')
    with b obtain ts' where "ev_ok s' ts' []" by auto
    from Cons.IH [OF this] Cons.prems(2) b Running show ?thesis by simp
  next
    case (Returned s')
    with b Cons.prems(1) show ?thesis by auto
  qed
qed auto

text \<open>The state \<open>ril_event_init\<close> sets up.\<close>

lemma ril_event_init_ok: "\<exists>s'. ril_event_init s = Some s' \<and> ev_ok s' [] [] \<and> ev_state.more s' = ev_state.more s"
proof -
  have w: "set (replicate MAX_FD_EVENTS NULL) - {NULL} = {}" by (auto simp: set_replicate_conv_if)
  show ?thesis
    by (auto simp: ril_event_init_def init_list_def ev_ok_def lists_ok_def watch_ok_def watched_def
        dll_Nil_iff sep_def w)
qed

section \<open>Properties\<close>

text \<open>
  A store for the witnesses: the timers at 10 and 11, due at 5 s and 9 s, no pending event;
  and a state that watches two events, descriptor 7 for good and descriptor 8 once.
\<close>

definition demo_heap :: heap where
  "demo_heap = (\<lambda>_. zero_event)
     (timer_list := zero_event\<lparr>ev_next := 10, ev_prev := 11\<rparr>,
      10 := zero_event\<lparr>ev_next := 11, ev_prev := timer_list, ev_timeout := Timeval 5 0\<rparr>,
      11 := zero_event\<lparr>ev_next := timer_list, ev_prev := 10, ev_timeout := Timeval 9 0\<rparr>,
      pending_list := zero_event\<lparr>ev_next := pending_list, ev_prev := pending_list\<rparr>,
      20 := zero_event\<lparr>ev_fd := 7, ev_index := 0, ev_persist := True\<rparr>,
      21 := zero_event\<lparr>ev_fd := 8, ev_index := 1\<rparr>)"

definition demo_state :: ev_state where
  "demo_state = \<lparr>mem = demo_heap, readFds = {7, 8}, nfds = 9,
     watch_table = [20, 21, 0, 0, 0, 0, 0, 0]\<rparr>"

lemma demo_lists: "lists_ok demo_heap [10, 11] []"
  by (simp add: demo_heap_def lists_ok_def dll_def link_def sep_def timer_list_def pending_list_def)

lemma demo_watched: "watched demo_state = {20, 21}"
  by (auto simp: watched_def demo_state_def)

lemma demo_fds:
  "ev_fd (demo_heap 20) = 7" "ev_fd (demo_heap 21) = 8" "ev_index (demo_heap 20) = 0"
  "ev_index (demo_heap 21) = 1" "ev_persist (demo_heap 20)" "\<not> ev_persist (demo_heap 21)"
  by (simp_all add: demo_heap_def zero_event_def timer_list_def pending_list_def)

lemma all_less_8:
  "(\<forall>i < 8::nat. P i) \<longleftrightarrow> P 0 \<and> P 1 \<and> P 2 \<and> P 3 \<and> P 4 \<and> P 5 \<and> P 6 \<and> P 7"
  by (auto simp: All_less_Suc numeral_eq_Suc)

lemma demo_watch: "watch_ok demo_state"
proof -
  have "\<forall>i < 8. watch_table demo_state ! i \<noteq> NULL \<longrightarrow> ev_index (demo_heap (watch_table demo_state ! i)) = int i"
    unfolding all_less_8 by (simp add: demo_state_def demo_fds)
  then show ?thesis
    unfolding watch_ok_def demo_watched
    by (simp add: demo_state_def demo_fds MAX_FD_EVENTS_def FD_SETSIZE_def)
qed

lemma demo_ok: "ev_ok demo_state [10, 11] []"
proof -
  have "mem demo_state = demo_heap" by (simp add: demo_state_def)
  then show ?thesis
    using demo_lists demo_watch by (simp add: ev_ok_def demo_watched timer_list_def pending_list_def)
qed

text \<open>
  C7 For every sequence of turns, with callbacks that keep the structures and a \<open>select\<close>
  that behaves as documented, the event loop runs without a fault (no null dereference, no
  endless list walk): each turn ends with no event pending, the timers sorted and the watch
  table consistent with the descriptor set and \<open>nfds\<close>.
\<close>

theorem event_loop_runs:
  assumes "good_cb cb" "ev_ok s ts []" "\<forall>k \<in> set ks. select_ok k"
  shows "\<exists>r. ril_event_loop cb ks tv s = Some r \<and>
    (case r of Running s' \<Rightarrow> \<exists>ts'. ev_ok s' ts' [] | Returned s' \<Rightarrow> \<exists>ts'. ev_ok s' ts' [])"
  using ril_event_loop_ok [OF assms(1,2)] assms(3) by blast

definition demo_tick :: tick where
  "demo_tick = \<lparr>now_calc = Timeval 4 0, now_fire = Timeval 6 0,
     select = (\<lambda>m fds ptv. (int (card (fds \<inter> {8})), fds \<inter> {8}, False))\<rparr>"

lemma demo_good_cb: "good_cb (\<lambda>f fd p s. Some s)"
  by (auto simp: good_cb_def)

lemma demo_select: "select_ok demo_tick"
  by (auto simp: select_ok_def demo_tick_def)

theorem event_loop_runs_witness:
  "\<exists>r. ril_event_loop (\<lambda>f fd p s. Some s) [demo_tick, demo_tick] (Timeval 0 0) demo_state = Some r \<and>
    (case r of Running s' \<Rightarrow> \<exists>ts'. ev_ok s' ts' [] | Returned s' \<Rightarrow> \<exists>ts'. ev_ok s' ts' [])"
  by (rule event_loop_runs [OF demo_good_cb demo_ok]) (simp add: demo_select)

text \<open>
  C24 \<open>processTimeouts\<close> terminates and moves exactly the timers whose deadline is strictly before
  \<open>now\<close> to the end of the pending list, in the order of their deadlines; the others stay,
  sorted, and no event's data changes. A timer due exactly at \<open>now\<close> is one of the others: the loop
  compares with \<^verbatim>\<open>>\<close>, while the comment above it speaks of \<^verbatim>\<open>now >= ev->timeout\<close>.
\<close>

theorem processTimeouts_exact:
  assumes "lists_ok (mem s) ts ps"
  shows "\<exists>h'. processTimeouts now s = Some (s\<lparr>mem := h'\<rparr>) \<and>
    lists_ok h' (filter (\<lambda>a. now \<le> ev_timeout (mem s a)) ts)
      (ps @ filter (\<lambda>a. ev_timeout (mem s a) < now) ts) \<and>
    (\<forall>a. payload (h' a) = payload (mem s a))"
  using processTimeouts_lists [OF assms, of now] unfolding expired_def not_less by blast

theorem processTimeouts_exact_witness:
  "\<exists>h'. processTimeouts (ev_timeout (demo_heap 11)) demo_state = Some (demo_state\<lparr>mem := h'\<rparr>) \<and>
    lists_ok h' [11] [10] \<and> (\<forall>a. payload (h' a) = payload (demo_heap a))"
proof -
  have m: "mem demo_state = demo_heap" by (simp add: demo_state_def)
  have "ev_timeout (demo_heap 10) < ev_timeout (demo_heap 11)" "\<not> ev_timeout (demo_heap 11) \<le> ev_timeout (demo_heap 10)"
    by (simp_all add: demo_heap_def timer_list_def pending_list_def)
  then show ?thesis
    using processTimeouts_exact [of demo_state "[10, 11]" "[]" "ev_timeout (demo_heap 11)"] demo_lists
    unfolding m by simp
qed

text \<open>
  C25 \<open>ril_timer_add\<close> with a relative time inserts the event behind all timers with an
  earlier deadline and before the others, with deadline \<open>now + tv\<close>; the list stays sorted
  and the pending list is not touched.
\<close>

theorem ril_timer_add_sorted:
  assumes "lists_ok (mem s) ts ps" "ev \<noteq> NULL" "ev \<notin> set (timer_list # pending_list # ts @ ps)"
  shows "\<exists>h'. ril_timer_add ev (Some tv) now s = Some (s\<lparr>mem := h'\<rparr>) \<and>
    ev_timeout (h' ev) = timeradd now tv \<and>
    lists_ok h' (filter (expired (timeradd now tv) (mem s)) ts @ ev #
                 filter (\<lambda>a. \<not> expired (timeradd now tv) (mem s) a) ts) ps"
proof -
  let ?t = "timeradd now tv"
  have "takeWhile (expired ?t (mem s)) ts = filter (expired ?t (mem s)) ts"
    "dropWhile (expired ?t (mem s)) ts = filter (\<lambda>a. \<not> expired ?t (mem s) a) ts"
    using assms(1) unfolding expired_def lists_ok_def
    using takeWhile_eq_filter_sorted [of "\<lambda>a. ev_timeout (mem s a)"]
      dropWhile_eq_filter_sorted [of "\<lambda>a. ev_timeout (mem s a)"] by simp_all
  with ril_timer_add_lists [OF assms, of tv now] show ?thesis by auto
qed

theorem ril_timer_add_sorted_witness:
  "\<exists>h'. ril_timer_add 12 (Some (Timeval 1 0)) (Timeval 6 0) demo_state = Some (demo_state\<lparr>mem := h'\<rparr>) \<and>
    ev_timeout (h' 12) = Timeval 7 0 \<and> lists_ok h' [10, 12, 11] []"
proof -
  have m: "mem demo_state = demo_heap" by (simp add: demo_state_def)
  have t: "timeradd (Timeval 6 0) (Timeval 1 0) = Timeval 7 0" by (simp add: timeradd_def)
  have e: "expired (Timeval 7 0) demo_heap 10" "\<not> expired (Timeval 7 0) demo_heap 11"
    by (simp_all add: expired_def demo_heap_def timer_list_def pending_list_def)
  have n: "(12::nat) \<noteq> NULL" "12 \<notin> set (timer_list # pending_list # [10, 11] @ [])"
    by (simp_all add: timer_list_def pending_list_def)
  show ?thesis
    using ril_timer_add_sorted [of demo_state "[10, 11]" "[]" 12 "Timeval 1 0" "Timeval 6 0"]
      demo_lists n e unfolding m t by simp
qed

text \<open>
  C26 When \<open>select\<close> leaves \<open>rfds\<close> ready, \<open>processReadReadies\<close> makes exactly the watched
  events with a descriptor in \<open>rfds\<close> pending, in table order behind what is pending
  already, and stops watching those of them that are not persistent; the table stays consistent.
\<close>

theorem processReadReadies_exact:
  assumes "watch_ok s" "lists_ok (mem s) ts ps"
    and "watched s \<inter> set (timer_list # pending_list # ts @ ps) = {}"
    and "rfds \<subseteq> readFds s" "n = int (card rfds)"
  shows "\<exists>s'. processReadReadies rfds n s = Some s' \<and> watch_ok s' \<and>
    lists_ok (mem s') ts (ps @ ready_events rfds [0..<MAX_FD_EVENTS] s) \<and>
    set (ready_events rfds [0..<MAX_FD_EVENTS] s) = {w \<in> watched s. ev_fd (mem s w) \<in> rfds} \<and>
    watched s' = watched s - {w \<in> watched s. ev_fd (mem s w) \<in> rfds \<and> \<not> ev_persist (mem s w)}"
  using processReadReadies_ok [OF assms] ready_events_card(2) [OF assms(1,4)] by blast

theorem processReadReadies_exact_witness:
  "\<exists>s'. processReadReadies {8} 1 demo_state = Some s' \<and> watch_ok s' \<and>
    lists_ok (mem s') [10, 11] [21] \<and> watched s' = {20}"
proof -
  have m: "mem demo_state = demo_heap" by (simp add: demo_state_def)
  have r: "ready_events {8} [0..<MAX_FD_EVENTS] demo_state = [21]"
    by (simp add: ready_events_def MAX_FD_EVENTS_def demo_state_def demo_fds upt_rec nth_Cons')
  have w: "{w \<in> watched demo_state. ev_fd (demo_heap w) \<in> {8} \<and> \<not> ev_persist (demo_heap w)} = {21}"
    by (auto simp: demo_watched demo_fds)
  have h: "watched demo_state \<inter> set (timer_list # pending_list # [10, 11] @ []) = {}"
    "{8} \<subseteq> readFds demo_state" "(1::int) = int (card {8::int})"
    by (simp_all add: demo_watched timer_list_def pending_list_def) (simp add: demo_state_def)
  show ?thesis
    using processReadReadies_exact [OF demo_watch _ h, unfolded m r w, OF demo_lists]
    unfolding demo_watched by (auto simp: insert_Diff_if)
qed

text \<open>
  \<open>firePending\<close> calls every pending event exactly once, in list order, each unlinked
  before its call, provided the callbacks leave the events still pending linked.
\<close>

theorem firePending_in_order:
  assumes "keeps_pending cb" "dll (mem s) pending_list xs"
  shows "firePending cb s = fire_list cb xs s \<and>
    (\<forall>s'. fire_list cb xs s = Some s' \<longrightarrow> dll (mem s') pending_list [])"
  using firePending_fire_list [OF assms] fire_list_empties [OF assms] by blast

theorem firePending_in_order_witness:
  "firePending (\<lambda>f fd p s. Some s) (demo_state\<lparr>mem := demo_heap
      (pending_list := (demo_heap pending_list)\<lparr>ev_next := 21, ev_prev := 21\<rparr>,
       21 := (demo_heap 21)\<lparr>ev_next := pending_list, ev_prev := pending_list\<rparr>)\<rparr>) =
   fire_list (\<lambda>f fd p s. Some s) [21] (demo_state\<lparr>mem := demo_heap
      (pending_list := (demo_heap pending_list)\<lparr>ev_next := 21, ev_prev := 21\<rparr>,
       21 := (demo_heap 21)\<lparr>ev_next := pending_list, ev_prev := pending_list\<rparr>)\<rparr>)"
  (is "firePending _ ?s = _")
proof -
  have "keeps_pending (\<lambda>f fd p s :: ev_state. Some s)" by (simp add: keeps_pending_def)
  moreover have "dll (mem ?s) pending_list [21]"
    by (simp add: dll_def link_def pending_list_def)
  ultimately show ?thesis using firePending_in_order by blast
qed

text \<open>
  \<open>calcNextTimeout\<close> gives the time to block in \<open>select\<close>: forever without a timer, else
  until exactly the earliest deadline, or no time when it has been reached.
\<close>

theorem calcNextTimeout_earliest:
  assumes "lists_ok (mem s) ts ps" "\<forall>t \<in> set ts. tv_normal (ev_timeout (mem s t))" "tv_normal now"
  shows "(ts = [] \<longrightarrow> calcNextTimeout now tv s = Some (- 1, tv)) \<and>
    (ts \<noteq> [] \<longrightarrow> (\<exists>wait. calcNextTimeout now tv s = Some (0, wait) \<and> tv_normal wait \<and>
       timeradd now wait = max now (Min ((\<lambda>t. ev_timeout (mem s t)) ` set ts))))"
proof (cases ts)
  case Nil
  then show ?thesis using calcNextTimeout_dll [of s ts now tv] assms(1) by (simp add: lists_ok_def)
next
  case (Cons t ts')
  have "sorted (map (\<lambda>t. ev_timeout (mem s t)) ts)" using assms(1) by (simp add: lists_ok_def)
  then have mn: "Min ((\<lambda>t. ev_timeout (mem s t)) ` set ts) = ev_timeout (mem s t)"
    unfolding Cons by (intro Min_eqI) auto
  have nt: "tv_normal (ev_timeout (mem s t))" using assms(2) Cons by simp
  have z: "timeradd now (Timeval 0 0) = now" "tv_normal (Timeval 0 0)"
    using assms(3) by (cases now, simp add: timeradd_def tv_normal_def) (simp add: tv_normal_def)
  show ?thesis
    using calcNextTimeout_dll [of s ts now tv] assms(1,3) nt z
      timeradd_timersub [OF nt assms(3)] tv_normal_timersub [OF nt assms(3)]
    unfolding mn by (auto simp: Cons lists_ok_def max_def)
qed

theorem calcNextTimeout_earliest_witness:
  "\<exists>wait. calcNextTimeout (Timeval 4 500000) (Timeval 0 0) demo_state = Some (0, wait) \<and>
     timeradd (Timeval 4 500000) wait = Timeval 5 0"
proof -
  have m: "mem demo_state = demo_heap" by (simp add: demo_state_def)
  have t: "ev_timeout (demo_heap 10) = Timeval 5 0" "ev_timeout (demo_heap 11) = Timeval 9 0"
    by (simp_all add: demo_heap_def timer_list_def pending_list_def)
  have "max (Timeval 4 500000) (min (Timeval 5 0) (Timeval 9 0)) = Timeval 5 0"
    by (simp add: max_def min_def)
  then show ?thesis
    using calcNextTimeout_earliest [of demo_state "[10, 11]" "[]" "Timeval 4 500000" "Timeval 0 0"]
      demo_lists unfolding m by (auto simp: t tv_normal_def)
qed

text \<open>
  Adding an event and deleting it again restores the set of watched events; the
  descriptor set and the slot bookkeeping stay consistent throughout.
\<close>

theorem event_add_del:
  assumes "watch_ok s" "NULL \<in> set (watch_table s)" "ev \<noteq> NULL" "ev \<notin> watched s"
    and "0 \<le> ev_fd (mem s ev)" "ev_fd (mem s ev) < FD_SETSIZE" "ev_fd (mem s ev) \<notin> readFds s"
  shows "\<exists>s1 s2. ril_event_add ev s = Some s1 \<and> watch_ok s1 \<and> watched s1 = insert ev (watched s) \<and>
    ev_fd (mem s ev) \<in> readFds s1 \<and> ev_fd (mem s ev) < nfds s1 \<and>
    ril_event_del ev s1 = Some s2 \<and> watch_ok s2 \<and> watched s2 = watched s \<and> readFds s2 = readFds s"
proof -
  obtain s1 j where s1: "ril_event_add ev s = Some s1" "watch_ok s1" "watched s1 = insert ev (watched s)"
    "mem s1 = (mem s)(ev := (mem s ev)\<lparr>ev_index := int j\<rparr>)"
    using ril_event_add_ok [OF assms] by blast
  then obtain s2 where s2: "ril_event_del ev s1 = Some s2" "watch_ok s2" "watched s2 = watched s1 - {ev}"
    "mem s2 = (mem s1)(ev := (mem s1 ev)\<lparr>ev_index := - 1\<rparr>)"
    using ril_event_del_ok [of s1 ev] by auto
  have "watched s2 = watched s" using s1(3) s2(3) assms(4) by auto
  moreover have "ev_fd (mem s2 w) = ev_fd (mem s w)" for w by (simp add: s1(4) s2(4))
  ultimately have "readFds s2 = readFds s"
    using s2(2) assms(1) by (simp add: watch_ok_def)
  moreover have "ev_fd (mem s ev) \<in> readFds s1" "ev_fd (mem s ev) < nfds s1"
    using s1(2-4) by (auto simp: watch_ok_def)
  ultimately show ?thesis using s1 s2 \<open>watched s2 = watched s\<close> by blast
qed

theorem event_add_del_witness:
  "\<exists>s1 s2. ril_event_add 22 (demo_state\<lparr>mem := demo_heap(22 := zero_event\<lparr>ev_fd := 30\<rparr>)\<rparr>) = Some s1 \<and>
    watched s1 = {20, 21, 22} \<and> ril_event_del 22 s1 = Some s2 \<and> watched s2 = {20, 21}"
proof -
  let ?s = "demo_state\<lparr>mem := demo_heap(22 := zero_event\<lparr>ev_fd := 30\<rparr>)\<rparr>"
  have w: "watched ?s = {20, 21}" using demo_watched by simp
  have "mem demo_state = demo_heap" by (simp add: demo_state_def)
  then have "watch_ok ?s"
    using demo_watch by (subst watch_ok_payload) (auto simp: demo_watched)
  moreover have "NULL \<in> set (watch_table ?s)" "ev_fd (mem ?s 22) = 30" "readFds ?s = {7, 8}"
    by (simp_all add: demo_state_def)
  ultimately show ?thesis
    using event_add_del [of ?s 22] w by (auto simp: FD_SETSIZE_def insert_commute)
qed

text \<open>
  A timer whose deadline equals the clock reading is not fired by that call: the
  comparison of the code is strict.
\<close>

theorem timer_due_now_waits:
  assumes "lists_ok (mem s) ts ps" "t \<in> set ts" "ev_timeout (mem s t) = now"
  shows "\<exists>h' ts'. processTimeouts now s = Some (s\<lparr>mem := h'\<rparr>) \<and> dll h' timer_list ts' \<and> t \<in> set ts'"
proof -
  have "t \<in> set (filter (\<lambda>a. \<not> expired now (mem s) a) ts)" using assms by (simp add: expired_def)
  with processTimeouts_lists [OF assms(1), of now] show ?thesis unfolding lists_ok_def by blast
qed

theorem timer_due_now_waits_witness:
  "\<exists>h' ts'. processTimeouts (Timeval 5 0) demo_state = Some (demo_state\<lparr>mem := h'\<rparr>) \<and>
     dll h' timer_list ts' \<and> 10 \<in> set ts'"
proof (rule timer_due_now_waits)
  show "lists_ok (mem demo_state) [10, 11] []" using demo_lists by (simp add: demo_state_def)
  show "ev_timeout (mem demo_state 10) = Timeval 5 0"
    by (simp add: demo_state_def demo_heap_def timer_list_def pending_list_def)
qed simp

end
