(* ===== verification/Ril_Types.thy ===== *)
theory Ril_Types
  imports Ril_Prelude
begin

text \<open>
  The data of \<^verbatim>\<open>libril/ril.cpp\<close>: what the file takes from outside the repository (the
  \<open>Parcel\<close> class of libbinder, the string conversions of libcutils, the constants and
  structure sizes of \<^verbatim>\<open>telephony/ril.h\<close>, the build options) as one record of parameters,
  and the structures that requests and responses carry.

  A structure declared in \<^verbatim>\<open>telephony/ril.h\<close> appears as the record of the fields that
  \<^verbatim>\<open>ril.cpp\<close> reads or writes, with the field's name behind a prefix. Fields of integer or
  enumeration type are 32-bit words, \<^verbatim>\<open>char *\<close> fields are \<open>cstr\<close>.
\<close>

section \<open>The environment\<close>

text \<open>
  \<open>'p\<close> is the type of parcels. A failed \<open>readInt32\<close> or \<open>read\<close> gives None and leaves the
  variable it should set as it was; the second component is the parcel with its position.
  The library functions are not part of the repository; what a theorem needs of them is
  a hypothesis of that theorem.
\<close>

record 'p env =
  p_new :: "'p"
  p_setData :: "u8 list \<Rightarrow> 'p"
  p_data :: "'p \<Rightarrow> u8 list"
  p_dataPosition :: "'p \<Rightarrow> nat"
  p_setDataPosition :: "nat \<Rightarrow> 'p \<Rightarrow> 'p"
  p_appendFrom :: "'p \<Rightarrow> nat \<Rightarrow> nat \<Rightarrow> 'p \<Rightarrow> 'p"
  p_writeInt32 :: "i32 \<Rightarrow> 'p \<Rightarrow> 'p"
  p_writeInt64 :: "i64 \<Rightarrow> 'p \<Rightarrow> 'p"
  p_write :: "u8 list \<Rightarrow> 'p \<Rightarrow> 'p"
  p_writeString16 :: "char16 list option \<Rightarrow> 'p \<Rightarrow> 'p"
  p_readInt32 :: "'p \<Rightarrow> i32 option \<times> 'p"
  p_read :: "nat \<Rightarrow> 'p \<Rightarrow> u8 list option \<times> 'p"
  p_readInplace :: "size_t \<Rightarrow> 'p \<Rightarrow> u8 list option \<times> 'p"
  p_readString16Inplace :: "'p \<Rightarrow> char16 list option \<times> 'p"
  p_readString16 :: "'p \<Rightarrow> char16 list \<times> 'p"
  strndup16to8 :: "char16 list option \<Rightarrow> cstr"
  strdup8to16 :: "cstr \<Rightarrow> char16 list option"
  K :: "string \<Rightarrow> i32"         \<comment> \<open>a constant of the telephony headers by its name\<close>
  sizeof :: "string \<Rightarrow> nat"    \<comment> \<open>the size of one of their structures\<close>
  stack_limit :: nat            \<comment> \<open>bytes a stack allocation can take\<close>
  uninit :: i32                 \<comment> \<open>what an uninitialised variable holds\<close>
  RIL_VARIANT_LEGACY :: bool
  RIL_SUPPORTS_SEEK :: bool
  RILJ_USE_CLA :: bool
  NEW_LIBRIL_HTC :: bool
  HCRADIO :: bool
  RIL_NO_CELL_INFO_LIST :: bool

text \<open>Sizes of the 32-bit target.\<close>

definition sizeof_int :: nat where
  "sizeof_int = 4"

definition sizeof_ptr :: nat where
  "sizeof_ptr = 4"

definition RESPONSE_SOLICITED :: i32 where
  "RESPONSE_SOLICITED = 0"

definition RESPONSE_UNSOLICITED :: i32 where
  "RESPONSE_UNSOLICITED = 1"

definition RIL_ERRNO_INVALID_RESPONSE :: i32 where
  "RIL_ERRNO_INVALID_RESPONSE = - 1"

definition MAX_COMMAND_BYTES :: nat where
  "MAX_COMMAND_BYTES = 8 * 1024"

section \<open>Structures of requests\<close>

record RIL_UUS_Info =
  uus_uusType :: i32
  uus_uusDcs :: i32
  uus_uusLength :: i32
  uus_uusData :: "u8 list option"

record RIL_Dial =
  dial_address :: cstr
  dial_clir :: i32
  dial_uusInfo :: "RIL_UUS_Info option"

record RIL_SMS_WriteArgs =
  sw_status :: i32
  sw_pdu :: cstr
  sw_smsc :: cstr

record RIL_SIM_IO =
  sim_cla :: i32
  sim_command :: i32
  sim_fileid :: i32
  sim_path :: cstr
  sim_p1 :: i32
  sim_p2 :: i32
  sim_p3 :: i32
  sim_data :: cstr
  sim_pin2 :: cstr
  sim_aidPtr :: cstr

record RIL_CallForwardInfo =
  cff_status :: i32
  cff_reason :: i32
  cff_serviceClass :: i32
  cff_toa :: i32
  cff_number :: cstr
  cff_timeSeconds :: i32

record RIL_CDMA_SMS_Address =
  sa_digit_mode :: i32
  sa_number_mode :: i32
  sa_number_type :: i32
  sa_number_plan :: i32
  sa_number_of_digits :: u8
  sa_digits :: "u8 list"

record RIL_CDMA_SMS_Subaddress =
  ssa_subaddressType :: i32
  ssa_odd :: u8
  ssa_number_of_digits :: u8
  ssa_digits :: "u8 list"

record RIL_CDMA_SMS_Message =
  sms_uTeleserviceID :: i32
  sms_bIsServicePresent :: u8
  sms_uServicecategory :: i32
  sms_sAddress :: RIL_CDMA_SMS_Address
  sms_sSubAddress :: RIL_CDMA_SMS_Subaddress
  sms_uBearerDataLen :: i32
  sms_aBearerData :: "u8 list"

datatype ims_message = GsmMessage "cstr list option" | CdmaMessage RIL_CDMA_SMS_Message

record RIL_IMS_SMS_Message =
  ims_tech :: i32
  ims_retry :: u8
  ims_messageRef :: i32
  ims_message :: ims_message

record RIL_CDMA_SMS_Ack =
  ack_uErrorClass :: i32
  ack_uSMSCauseCode :: i32

record RIL_GSM_BroadcastSmsConfigInfo =
  gbc_fromServiceId :: i32
  gbc_toServiceId :: i32
  gbc_fromCodeScheme :: i32
  gbc_toCodeScheme :: i32
  gbc_selected :: u8

record RIL_CDMA_BroadcastSmsConfigInfo =
  cbc_service_category :: i32
  cbc_language :: i32
  cbc_selected :: u8

record RIL_CDMA_SMS_WriteArgs =
  cw_status :: i32
  cw_message :: RIL_CDMA_SMS_Message

record RIL_InitialAttachApn =
  apn_apn :: cstr
  apn_protocol :: cstr
  apn_authtype :: i32
  apn_username :: cstr
  apn_password :: cstr

record RIL_SelectUiccSub =
  us_slot :: i32
  us_app_index :: i32
  us_sub_type :: i32
  us_act_status :: i32

section \<open>Structures of responses\<close>

record RIL_Call =
  call_state :: i32
  call_index :: i32
  call_toa :: i32
  call_isMpty :: i32
  call_isMT :: i32
  call_als :: i32
  call_isVoice :: i32
  call_isVoicePrivacy :: i32
  call_number :: cstr
  call_numberPresentation :: i32
  call_name :: cstr
  call_namePresentation :: i32
  call_uusInfo :: "RIL_UUS_Info option"

record RIL_SMS_Response =
  sr_messageRef :: i32
  sr_ackPDU :: cstr
  sr_errorCode :: i32

record RIL_Data_Call_Response_v4 =
  dc4_cid :: i32
  dc4_active :: i32
  dc4_type :: cstr
  dc4_address :: cstr

record RIL_Data_Call_Response_v6 =
  dc6_status :: i32
  dc6_suggestedRetryTime :: i32
  dc6_cid :: i32
  dc6_active :: i32
  dc6_type :: cstr
  dc6_ifname :: cstr
  dc6_addresses :: cstr
  dc6_dnses :: cstr
  dc6_gateways :: cstr

record RIL_SIM_IO_Response =
  sior_sw1 :: i32
  sior_sw2 :: i32
  sior_simResponse :: cstr

record RIL_SuppSvcNotification =
  ssn_notificationType :: i32
  ssn_code :: i32
  ssn_index :: i32
  ssn_type :: i32
  ssn_number :: cstr

record RIL_NeighboringCell =
  nc_cid :: cstr
  nc_rssi :: i32

record RIL_CDMA_SignalInfoRecord =
  sig_isPresent :: i32
  sig_signalType :: i32
  sig_alertPitch :: i32
  sig_signal :: i32

record RIL_CDMA_CallWaiting =
  cwt_number :: cstr
  cwt_numberPresentation :: i32
  cwt_name :: cstr
  cwt_signalInfoRecord :: RIL_CDMA_SignalInfoRecord
  cwt_number_type :: i32
  cwt_number_plan :: i32

record cdma_number =
  num_len :: u8
  num_buf :: string
  num_number_type :: i32
  num_number_plan :: i32
  num_pi :: i32
  num_si :: i32

text \<open>The union \<open>rec\<close> of \<open>RIL_CDMA_InformationRecord\<close>; \<open>name\<close> tells which member is valid.\<close>

datatype cdma_rec =
    RecDisplay u8 string
  | RecNumber cdma_number
  | RecSignal RIL_CDMA_SignalInfoRecord
  | RecRedir cdma_number i32
  | RecLineCtrl i32 i32 i32 i32
  | RecClir i32
  | RecAudioCtrl i32 i32

record RIL_CDMA_InformationRecord =
  ir_name :: i32
  ir_rec :: cdma_rec

record RIL_SignalStrength =
  gw_signalStrength :: i32
  gw_bitErrorRate :: i32
  cdma_dbm :: i32
  cdma_ecio :: i32
  evdo_dbm :: i32
  evdo_ecio :: i32
  evdo_signalNoiseRatio :: i32
  lte_signalStrength :: i32
  lte_rsrp :: i32
  lte_rsrq :: i32
  lte_rssnr :: i32
  lte_cqi :: i32
  lte_timingAdvance :: i32
  tdscdma_rscp :: i32

record RIL_SimRefreshResponse_v7 =
  ref_result :: i32
  ref_ef_id :: i32
  ref_aid :: cstr

record RIL_CellInfoGsm =
  gsm_mcc :: i32
  gsm_mnc :: i32
  gsm_lac :: i32
  gsm_cid :: i32
  gsm_signalStrength :: i32
  gsm_bitErrorRate :: i32

record RIL_CellInfoWcdma =
  wcdma_mcc :: i32
  wcdma_mnc :: i32
  wcdma_lac :: i32
  wcdma_cid :: i32
  wcdma_psc :: i32
  wcdma_signalStrength :: i32
  wcdma_bitErrorRate :: i32

record RIL_CellInfoCdma =
  cdmac_networkId :: i32
  cdmac_systemId :: i32
  cdmac_basestationId :: i32
  cdmac_longitude :: i32
  cdmac_latitude :: i32
  cdmac_dbm :: i32
  cdmac_ecio :: i32
  cdmac_evdo_dbm :: i32
  cdmac_evdo_ecio :: i32
  cdmac_evdo_signalNoiseRatio :: i32

record RIL_CellInfoLte =
  ltec_mcc :: i32
  ltec_mnc :: i32
  ltec_ci :: i32
  ltec_pci :: i32
  ltec_tac :: i32
  ltec_signalStrength :: i32
  ltec_rsrp :: i32
  ltec_rsrq :: i32
  ltec_rssnr :: i32
  ltec_cqi :: i32
  ltec_timingAdvance :: i32

text \<open>The union \<open>CellInfo\<close>; \<open>cellInfoType\<close> tells which member is valid.\<close>

datatype cell_union =
    CellGsm RIL_CellInfoGsm
  | CellWcdma RIL_CellInfoWcdma
  | CellCdma RIL_CellInfoCdma
  | CellLte RIL_CellInfoLte

record RIL_CellInfo =
  ci_cellInfoType :: i32
  ci_registered :: i32
  ci_timeStampType :: i32
  ci_timeStamp :: i64
  ci_CellInfo :: cell_union

record RIL_StkCcUnsolSsResponse =
  ss_serviceType :: i32
  ss_requestType :: i32
  ss_teleserviceType :: i32
  ss_serviceClass :: i32
  ss_result :: i32
  ss_numValidIndexes :: i32
  ss_cfInfo :: "RIL_CallForwardInfo list"
  ss_ssInfo :: "i32 list"

record RIL_AppStatus =
  as_app_type :: i32
  as_app_state :: i32
  as_perso_substate :: i32
  as_aid_ptr :: cstr
  as_app_label_ptr :: cstr
  as_pin1_replaced :: i32
  as_pin1 :: i32
  as_pin2 :: i32

record RIL_CardStatus =
  cs_card_state :: i32
  cs_universal_pin_state :: i32
  cs_gsm_umts_subscription_app_index :: i32
  cs_cdma_subscription_app_index :: i32
  cs_ims_subscription_app_index :: i32
  cs_num_applications :: i32
  cs_applications :: "RIL_AppStatus list"

text \<open>
  What a \<^verbatim>\<open>void *\<close> points to. Reading it as another type, or past the end of an array,
  has no result.
\<close>

datatype void_ptr =
    VNull
  | VInts "i32 list"
  | VStr string
  | VStrs "cstr list"
  | VBytes "u8 list"
  | VDial RIL_Dial
  | VSmsWrite RIL_SMS_WriteArgs
  | VSimIO RIL_SIM_IO
  | VCallForward RIL_CallForwardInfo
  | VCdmaSms RIL_CDMA_SMS_Message
  | VImsSms RIL_IMS_SMS_Message
  | VCdmaSmsAck RIL_CDMA_SMS_Ack
  | VGsmBci "RIL_GSM_BroadcastSmsConfigInfo list"
  | VCdmaBci "RIL_CDMA_BroadcastSmsConfigInfo list"
  | VCdmaSmsWrite RIL_CDMA_SMS_WriteArgs
  | VApn RIL_InitialAttachApn
  | VUicc RIL_SelectUiccSub
  | VCalls "RIL_Call list"
  | VSmsResponse RIL_SMS_Response
  | VDataCalls4 "RIL_Data_Call_Response_v4 list"
  | VDataCalls6 "RIL_Data_Call_Response_v6 list"
  | VSimIOResponse RIL_SIM_IO_Response
  | VCallForwards "RIL_CallForwardInfo list"
  | VSsn RIL_SuppSvcNotification
  | VCells "RIL_NeighboringCell list"
  | VInfoRecs i32 "RIL_CDMA_InformationRecord list"
  | VSignal RIL_SignalStrength
  | VSignalInfo RIL_CDMA_SignalInfoRecord
  | VCallWaiting RIL_CDMA_CallWaiting
  | VSimRefresh RIL_SimRefreshResponse_v7
  | VCellInfos "RIL_CellInfo list"
  | VSSData RIL_StkCcUnsolSsResponse
  | VCardStatus RIL_CardStatus
  | VProfiles i32 "(i32 \<times> i32) list"

end
