(* ===== verification/Ril_Parcel.thy ===== *)
theory Ril_Parcel
  imports Ril_Types
begin

text \<open>
  Reading and writing parcels: the two string helpers of \<^verbatim>\<open>libril/ril.cpp\<close>, the reads with the
  status the code looks at, the sequence of writes a response consists of, and what the
  theorems about requests rely on of the parcel and string libraries.
\<close>

section \<open>Reading and writing parcels\<close>

text \<open>\<open>strdupReadString\<close> and \<open>writeStringToParcel\<close>.\<close>

definition strdupReadString :: "'p env \<Rightarrow> 'p \<Rightarrow> cstr \<times> 'p" where
  "strdupReadString E p =
     (let (s16, p) = p_readString16Inplace E p in (strndup16to8 E s16, p))"

definition writeStringToParcel :: "'p env \<Rightarrow> cstr \<Rightarrow> 'p \<Rightarrow> 'p" where
  "writeStringToParcel E s p = p_writeString16 E (strdup8to16 E s) p"

text \<open>
  \<open>status = p.readInt32(&t)\<close>: whether the status is \<open>NO_ERROR\<close>, the value of \<open>t\<close> after
  the call, the parcel. \<open>rdU8\<close> is \<open>status = p.read(&ut, sizeof(ut))\<close> for a byte \<open>ut\<close>.
\<close>

definition rdI32 :: "'p env \<Rightarrow> i32 \<Rightarrow> 'p \<Rightarrow> bool \<times> i32 \<times> 'p" where
  "rdI32 E t p = (case p_readInt32 E p of (Some v, p') \<Rightarrow> (True, v, p') | (None, p') \<Rightarrow> (False, t, p'))"

definition rdU8 :: "'p env \<Rightarrow> u8 \<Rightarrow> 'p \<Rightarrow> bool \<times> u8 \<times> 'p" where
  "rdU8 E u p = (case p_read E 1 p of
     (Some (v # _), p') \<Rightarrow> (True, v, p') | (_, p') \<Rightarrow> (False, u, p'))"

text \<open>
  One call on a parcel that is being written: \<open>writeInt32\<close>, \<open>writeInt64\<close>, \<open>write\<close> and
  \<open>writeStringToParcel\<close>. \<open>puts\<close> makes a sequence of them.
\<close>

datatype item = I32 i32 | I64 i64 | Buf "u8 list" | Str cstr

fun put :: "'p env \<Rightarrow> item \<Rightarrow> 'p \<Rightarrow> 'p" where
  "put E (I32 i) p = p_writeInt32 E i p"
| "put E (I64 i) p = p_writeInt64 E i p"
| "put E (Buf bs) p = p_write E bs p"
| "put E (Str s) p = writeStringToParcel E s p"

primrec puts :: "'p env \<Rightarrow> item list \<Rightarrow> 'p \<Rightarrow> 'p" where
  "puts E [] p = p"
| "puts E (w # ws) p = puts E ws (put E w p)"

lemma puts_append [simp]: "puts E (vs @ ws) p = puts E ws (puts E vs p)"
  by (induction vs arbitrary: p) auto

section \<open>What is relied on of the parcel and the string library\<close>

text \<open>
  The documented behaviour of a parcel. \<open>V p\<close> gives the items between the position and the
  end of \<open>p\<close>, where they are known: reads return the items in the order they were written,
  each of the kind it was written as, and fail at the end of the data.
\<close>

type_synonym 'p view = "'p \<Rightarrow> item list option"

fun i32_next :: "item list option \<Rightarrow> i32 option" where
  "i32_next (Some (I32 v # _)) = Some v"
| "i32_next _ = None"

fun buf_next :: "item list option \<Rightarrow> u8 list option" where
  "buf_next (Some (Buf bs # _)) = Some bs"
| "buf_next _ = None"

fun str_next :: "item list option \<Rightarrow> cstr option" where
  "str_next (Some (Str s # _)) = Some s"
| "str_next _ = None"

definition reads_ok :: "'p env \<Rightarrow> 'p view \<Rightarrow> bool" where
  "reads_ok E V \<longleftrightarrow>
     (\<forall>p v r. V p = Some (I32 v # r) \<longrightarrow>
        fst (p_readInt32 E p) = Some v \<and> V (snd (p_readInt32 E p)) = Some r) \<and>
     (\<forall>p bs r. V p = Some (Buf bs # r) \<longrightarrow>
        fst (p_read E (length bs) p) = Some bs \<and> V (snd (p_read E (length bs) p)) = Some r \<and>
        (length bs < 2 ^ 31 \<longrightarrow> fst (p_readInplace E (of_nat (length bs)) p) = Some bs \<and>
           V (snd (p_readInplace E (of_nat (length bs)) p)) = Some r)) \<and>
     (\<forall>p s r. V p = Some (Str s # r) \<longrightarrow>
        fst (p_readString16Inplace E p) = strdup8to16 E s \<and>
        V (snd (p_readString16Inplace E p)) = Some r) \<and>
     (\<forall>p. V p = Some [] \<longrightarrow> fst (p_readInt32 E p) = None \<and> fst (p_read E 1 p) = None \<and>
        fst (p_readString16Inplace E p) = None \<and> V (snd (p_readInt32 E p)) = Some [] \<and>
        V (snd (p_read E 1 p)) = Some [] \<and> V (snd (p_readString16Inplace E p)) = Some [])"

text \<open>NULL is converted to NULL, and the strings of \<open>S\<close> survive the conversion to UTF-16 and back.\<close>

definition jstring_ok :: "'p env \<Rightarrow> cstr set \<Rightarrow> bool" where
  "jstring_ok E S \<longleftrightarrow> strdup8to16 E None = None \<and> strndup16to8 E None = None \<and>
     (\<forall>s\<in>S. strndup16to8 E (strdup8to16 E s) = s)"

text \<open>The parcel behind a read, and the reads as rewrite rules over the view.\<close>

abbreviation afterI32 :: "'p env \<Rightarrow> 'p \<Rightarrow> 'p" where
  "afterI32 E p \<equiv> snd (p_readInt32 E p)"

abbreviation afterRead :: "'p env \<Rightarrow> nat \<Rightarrow> 'p \<Rightarrow> 'p" where
  "afterRead E n p \<equiv> snd (p_read E n p)"

abbreviation afterStr :: "'p env \<Rightarrow> 'p \<Rightarrow> 'p" where
  "afterStr E p \<equiv> snd (p_readString16Inplace E p)"

lemma i32_next_SomeE:
  assumes "i32_next x = Some v"
  obtains r where "x = Some (I32 v # r)"
  using assms by (cases x rule: i32_next.cases) auto

lemma buf_next_SomeE:
  assumes "buf_next x = Some v"
  obtains r where "x = Some (Buf v # r)"
  using assms by (cases x rule: buf_next.cases) auto

lemma str_next_SomeE:
  assumes "str_next x = Some v"
  obtains r where "x = Some (Str v # r)"
  using assms by (cases x rule: str_next.cases) auto

lemma rdI32_view:
  assumes "reads_ok E V"
  shows "i32_next (V p) \<noteq> None \<Longrightarrow>
           rdI32 E t p = (True, the (i32_next (V p)), afterI32 E p)"
    and "i32_next (V p) \<noteq> None \<Longrightarrow> V (afterI32 E p) = Some (tl (the (V p)))"
    and "V p = Some [] \<Longrightarrow> rdI32 E t p = (False, t, afterI32 E p)"
    and "V p = Some [] \<Longrightarrow> V (afterI32 E p) = Some []"
proof -
  assume "i32_next (V p) \<noteq> None"
  then obtain v r where V: "V p = Some (I32 v # r)" by (auto elim: i32_next_SomeE)
  then have "fst (p_readInt32 E p) = Some v" "V (afterI32 E p) = Some r"
    using assms unfolding reads_ok_def by blast+
  with V show "rdI32 E t p = (True, the (i32_next (V p)), afterI32 E p)"
    and "V (afterI32 E p) = Some (tl (the (V p)))"
    by (auto simp: rdI32_def split: prod.splits)
next
  assume "V p = Some []"
  then have "fst (p_readInt32 E p) = None" "V (afterI32 E p) = Some []"
    using assms unfolding reads_ok_def by blast+
  then show "rdI32 E t p = (False, t, afterI32 E p)" and "V (afterI32 E p) = Some []"
    by (auto simp: rdI32_def split: prod.splits)
qed

lemma rdU8_view:
  assumes "reads_ok E V"
  shows "buf_next (V p) = Some [v] \<Longrightarrow> rdU8 E u p = (True, v, afterRead E (Suc 0) p)"
    and "buf_next (V p) = Some [v] \<Longrightarrow> V (afterRead E (Suc 0) p) = Some (tl (the (V p)))"
proof -
  assume "buf_next (V p) = Some [v]"
  then obtain r where "V p = Some (Buf [v] # r)" by (auto elim: buf_next_SomeE)
  moreover have "fst (p_read E (length [v]) p) = Some [v] \<and> V (snd (p_read E (length [v]) p)) = Some r"
    using assms calculation unfolding reads_ok_def by blast
  ultimately show "rdU8 E u p = (True, v, afterRead E (Suc 0) p)"
    and "V (afterRead E (Suc 0) p) = Some (tl (the (V p)))"
    by (auto simp: rdU8_def split: prod.splits)
qed

lemma rdU8_end:
  assumes "reads_ok E V" "V p = Some []"
  shows "rdU8 E u p = (False, u, afterRead E (Suc 0) p)" and "V (afterRead E (Suc 0) p) = Some []"
  using assms unfolding reads_ok_def rdU8_def by (auto split: prod.splits option.splits)

lemma read_view:
  assumes "reads_ok E V" "buf_next (V p) = Some bs" "length bs = n"
  shows "p_read E n p = (Some bs, afterRead E n p)"
    and "V (afterRead E n p) = Some (tl (the (V p)))"
proof -
  obtain r where "V p = Some (Buf bs # r)" using assms(2) by (auto elim: buf_next_SomeE)
  moreover have "fst (p_read E (length bs) p) = Some bs \<and> V (snd (p_read E (length bs) p)) = Some r"
    using assms calculation unfolding reads_ok_def by blast
  ultimately show "p_read E n p = (Some bs, afterRead E n p)"
    and "V (afterRead E n p) = Some (tl (the (V p)))"
    using assms(3) by (auto simp: prod_eq_iff)
qed

lemma readInplace_view:
  assumes "reads_ok E V" "V p = Some (Buf bs # r)" "length bs < 2 ^ 31"
  shows "fst (p_readInplace E (of_nat (length bs)) p) = Some bs"
    and "V (snd (p_readInplace E (of_nat (length bs)) p)) = Some r"
  using assms unfolding reads_ok_def by blast+

lemma strdupReadString_view:
  assumes "reads_ok E V" "jstring_ok E S"
  shows "str_next (V p) = Some s \<Longrightarrow> s = None \<or> s \<in> S \<Longrightarrow>
           strdupReadString E p = (s, afterStr E p)"
    and "str_next (V p) \<noteq> None \<Longrightarrow> V (afterStr E p) = Some (tl (the (V p)))"
proof -
  assume s: "str_next (V p) = Some s" "s = None \<or> s \<in> S"
  then have "fst (p_readString16Inplace E p) = strdup8to16 E s"
    using assms(1) unfolding reads_ok_def by (auto elim: str_next_SomeE)
  moreover have "strndup16to8 E (strdup8to16 E s) = s"
    using assms(2) s(2) unfolding jstring_ok_def by auto
  ultimately show "strdupReadString E p = (s, afterStr E p)"
    by (auto simp: strdupReadString_def split: prod.splits)
next
  assume "str_next (V p) \<noteq> None"
  then show "V (afterStr E p) = Some (tl (the (V p)))"
    using assms(1) unfolding reads_ok_def by (auto elim!: str_next_SomeE)
qed

lemma strdupReadString_end:
  assumes "reads_ok E V" "jstring_ok E S" "V p = Some []"
  shows "strdupReadString E p = (None, afterStr E p)" and "V (afterStr E p) = Some []"
proof -
  have "fst (p_readString16Inplace E p) = None" "V (afterStr E p) = Some []"
    using assms(1,3) unfolding reads_ok_def by blast+
  with assms(2) show "strdupReadString E p = (None, afterStr E p)" "V (afterStr E p) = Some []"
    by (auto simp: strdupReadString_def jstring_ok_def split: prod.splits)
qed

lemma jstring_ok_mono: "jstring_ok E S \<Longrightarrow> T \<subseteq> S \<Longrightarrow> jstring_ok E T"
  by (auto simp: jstring_ok_def)

text \<open>The machine's \<open>4 * n\<close> and the signed reading of a count, below the wrap-around.\<close>

lemma sint_of_nat_i32: "n < 2 ^ 31 \<Longrightarrow> sint (of_nat n :: i32) = int n"
  by (simp add: signed_of_nat) (rule signed_take_bit_int_eq_self, simp_all)

lemma unat_of_nat_i32: "n < 2 ^ 32 \<Longrightarrow> unat (of_nat n :: i32) = n"
  by (subst unat_of_nat) (simp add: take_bit_eq_mod)

lemma of_nat_eq_0_i32: "n < 2 ^ 32 \<Longrightarrow> (of_nat n :: i32) = 0 \<longleftrightarrow> n = 0"
  by (simp add: word_of_nat_eq_0_iff) (auto dest: dvd_imp_le)

lemma count_size:
  assumes "n < 2 ^ 30"
  shows "unat (4 * of_nat n :: i32) = 4 * n" and "nat (sint (of_nat n :: i32)) = n"
    and "(of_nat n :: i32) = 0 \<longleftrightarrow> n = 0" and "(of_nat n :: i32) \<noteq> - 1"
proof -
  have "unat (of_nat (4 * n) :: i32) = 4 * n" using assms by (intro unat_of_nat_i32) simp
  then show "unat (4 * of_nat n :: i32) = 4 * n" by simp
  have s: "sint (of_nat n :: i32) = int n" using assms by (intro sint_of_nat_i32) simp
  then show "nat (sint (of_nat n :: i32)) = n" by simp
  show "(of_nat n :: i32) = 0 \<longleftrightarrow> n = 0" using assms by (intro of_nat_eq_0_i32) simp
  show "(of_nat n :: i32) \<noteq> - 1"
  proof
    assume "(of_nat n :: i32) = - 1"
    with s show False by simp
  qed
qed

section \<open>An instance\<close>

text \<open>
  A small parcel, a list of items with a position, for evaluating the theorems on concrete
  inputs; it has the behaviour asked for above.
\<close>

type_synonym demo_parcel = "item list \<times> nat"

fun demo_write :: "item \<Rightarrow> demo_parcel \<Rightarrow> demo_parcel" where
  "demo_write x (ws, i) = (take i ws @ x # drop (Suc i) ws, Suc i)"

fun le_bytes :: "nat \<Rightarrow> nat \<Rightarrow> u8 list" where
  "le_bytes 0 n = []"
| "le_bytes (Suc k) n = of_nat (n mod 256) # le_bytes k (n div 256)"

fun demo_data :: "item list \<Rightarrow> u8 list" where
  "demo_data [] = []"
| "demo_data (I32 v # ws) = le_bytes 4 (unat v) @ demo_data ws"
| "demo_data (I64 v # ws) = le_bytes 8 (unat v) @ demo_data ws"
| "demo_data (Buf bs # ws) = bs @ demo_data ws"
| "demo_data (Str s # ws) = (case s of None \<Rightarrow> [] | Some cs \<Rightarrow> map (\<lambda>c. of_nat (of_char c)) cs) @ demo_data ws"

fun demo_setData :: "u8 list \<Rightarrow> item list" where
  "demo_setData (a # b # c # d # bs) =
     I32 (ucast a + 256 * (ucast b + 256 * (ucast c + 256 * ucast d))) # demo_setData bs"
| "demo_setData _ = []"

fun demo_readInt32 :: "demo_parcel \<Rightarrow> i32 option \<times> demo_parcel" where
  "demo_readInt32 (ws, i) =
     (case drop i ws of I32 v # _ \<Rightarrow> (Some v, (ws, Suc i)) | _ \<Rightarrow> (None, (ws, i)))"

fun demo_read :: "nat \<Rightarrow> demo_parcel \<Rightarrow> u8 list option \<times> demo_parcel" where
  "demo_read n (ws, i) =
     (case drop i ws of
        Buf bs # _ \<Rightarrow> if length bs = n then (Some bs, (ws, Suc i)) else (None, (ws, i))
      | _ \<Rightarrow> (None, (ws, i)))"

fun demo_readStr :: "(cstr \<Rightarrow> char16 list option) \<Rightarrow> demo_parcel \<Rightarrow> char16 list option \<times> demo_parcel" where
  "demo_readStr cv (ws, i) =
     (case drop i ws of Str s # _ \<Rightarrow> (cv s, (ws, Suc i)) | _ \<Rightarrow> (None, (ws, i)))"

definition to16 :: "cstr \<Rightarrow> char16 list option" where
  "to16 = map_option (map (\<lambda>c. of_nat (of_char c)))"

definition to8 :: "char16 list option \<Rightarrow> cstr" where
  "to8 = map_option (map (\<lambda>w. char_of (unat w)))"

definition demo_env :: "demo_parcel env" where
  "demo_env = \<lparr>p_new = ([], 0), p_setData = (\<lambda>bs. (demo_setData bs, 0)),
     p_data = (\<lambda>p. demo_data (fst p)), p_dataPosition = snd,
     p_setDataPosition = (\<lambda>n p. (fst p, n)),
     p_appendFrom = (\<lambda>src off n p. (fst p @ take n (drop off (fst src)), length (fst p) + n)),
     p_writeInt32 = (\<lambda>v. demo_write (I32 v)), p_writeInt64 = (\<lambda>v. demo_write (I64 v)),
     p_write = (\<lambda>bs. demo_write (Buf bs)), p_writeString16 = (\<lambda>s. demo_write (Str (to8 s))),
     p_readInt32 = demo_readInt32, p_read = demo_read, p_readInplace = (\<lambda>n. demo_read (unat n)),
     p_readString16Inplace = demo_readStr to16,
     p_readString16 = (\<lambda>p. case demo_readStr to16 p of
        (None, p) \<Rightarrow> ([], p) | (Some s, p) \<Rightarrow> (s, p)),
     strndup16to8 = to8, strdup8to16 = to16,
     K = (\<lambda>n. if n = ''RIL_CDMA_SMS_ADDRESS_MAX'' then 36
              else if n = ''RIL_CDMA_SMS_SUBADDRESS_MAX'' then 36
              else if n = ''RIL_CDMA_SMS_BEARER_DATA_MAX'' then 255
              else of_nat (length n)),
     sizeof = (\<lambda>n. 32), stack_limit = 1000000, uninit = 0,
     RIL_VARIANT_LEGACY = True, RIL_SUPPORTS_SEEK = True, RILJ_USE_CLA = False,
     NEW_LIBRIL_HTC = False, HCRADIO = False, RIL_NO_CELL_INFO_LIST = False\<rparr>"

fun demo_view :: "demo_parcel view" where
  "demo_view (ws, i) = (if i \<le> length ws then Some (drop i ws) else None)"

lemma demo_view_SomeD: "demo_view p = Some us \<Longrightarrow>
    \<exists>ws i. p = (ws, i) \<and> i \<le> length ws \<and> drop i ws = us"
  by (cases p) (auto split: if_splits)

lemma drop_Suc_tail: "drop i ws = x # r \<Longrightarrow> drop (Suc i) ws = r"
  by (metis drop_Suc list.sel(3) tl_drop)

lemma demo_reads_ok: "reads_ok demo_env demo_view"
  unfolding reads_ok_def demo_env_def
  by (auto dest!: demo_view_SomeD intro: drop_Suc_tail simp: unat_of_nat_i32 split: prod.splits)

lemma demo_jstring_ok: "jstring_ok demo_env S"
proof -
  have "char_of (unat (of_nat (of_char c) :: char16)) = c" for c :: char
  proof -
    have "of_char c < (65536 :: nat)" using nat_of_char_less_256 [of c] by linarith
    then have "unat (of_nat (of_char c) :: char16) = of_char c"
      by (subst unat_of_nat) (simp add: take_bit_eq_mod)
    then show ?thesis by simp
  qed
  then have "to8 (to16 s) = s" for s
    by (cases s) (auto simp: to8_def to16_def comp_def map_idI)
  then show ?thesis by (simp add: jstring_ok_def demo_env_def) (simp add: to8_def to16_def)
qed

end
