(* ===== verification/Ril_Dispatch.thy ===== *)
theory Ril_Dispatch
  imports Ril_Parcel
begin

text \<open>
  The request dispatchers of \<^verbatim>\<open>libril/ril.cpp\<close>: each reads the rest of the request parcel and
  calls the vendor library's \<open>onRequest\<close>. Their result says which call is made, or that the
  request is given up. The dispatchers that answer the request themselves
  (\<open>dispatchVoiceRadioTech\<close>, \<open>dispatchCdmaSubscriptionSource\<close>) need the state of the library
  and stand with it.
\<close>

section \<open>Results\<close>

text \<open>
  \<open>OnRequest d n\<close>: \<open>s_callbacks.onRequest\<close> is called with data \<open>d\<close> and length \<open>n\<close>.
  \<open>Invalid\<close>: \<open>invalidCommandBlock\<close>, which logs. \<open>Dropped\<close>: the request is logged and left
  without a call. \<open>Undef\<close>: a stack allocation that does not fit, or a store past its end.
\<close>

datatype dispatch_out = OnRequest void_ptr size_t | Invalid | Dropped | Undef

datatype 'a loop_res = Done 'a | Bad | Fault

text \<open>Bytes of an \<open>alloca\<close> that succeeds.\<close>

definition alloca_ok :: "'p env \<Rightarrow> size_t \<Rightarrow> bool" where
  "alloca_ok E n \<longleftrightarrow> unat n \<le> stack_limit E"

definition dispatchVoid :: "dispatch_out" where
  "dispatchVoid = OnRequest VNull 0"

definition str_ptr :: "cstr \<Rightarrow> void_ptr" where
  "str_ptr s = (case s of None \<Rightarrow> VNull | Some x \<Rightarrow> VStr x)"

definition dispatchString :: "'p env \<Rightarrow> 'p \<Rightarrow> dispatch_out" where
  "dispatchString E p =
     (let (string8, p) = strdupReadString E p in OnRequest (str_ptr string8) (of_nat sizeof_ptr))"

section \<open>Arrays\<close>

text \<open>
  The reading loops: \<open>n\<close> iterations are left and the array has room for \<open>cap\<close> more elements.
\<close>

fun strings_loop :: "'p env \<Rightarrow> nat \<Rightarrow> nat \<Rightarrow> 'p \<Rightarrow> (cstr list \<times> 'p) loop_res" where
  "strings_loop E cap 0 p = Done ([], p)"
| "strings_loop E 0 (Suc n) p = Fault"
| "strings_loop E (Suc cap) (Suc n) p =
     (let (s, p) = strdupReadString E p in
      case strings_loop E cap n p of
        Done (ss, p) \<Rightarrow> Done (s # ss, p) | Bad \<Rightarrow> Bad | Fault \<Rightarrow> Fault)"

text \<open>
  The part that \<open>dispatchStrings\<close> and \<open>dispatchImsGsmSms\<close> share: \<open>pStrings\<close> and \<open>datalen\<close>.
\<close>

definition read_strings :: "'p env \<Rightarrow> i32 \<Rightarrow> 'p \<Rightarrow> (cstr list option \<times> size_t) loop_res" where
  "read_strings E countStrings p =
     (if countStrings = 0 then Done (Some [], 0)
      else if countStrings = - 1 then Done (None, 0)
      else let datalen = of_nat sizeof_ptr * countStrings in
        if \<not> alloca_ok E datalen then Fault
        else case strings_loop E (unat datalen div sizeof_ptr) (nat (sint countStrings)) p of
            Done (ss, p) \<Rightarrow> Done (Some ss, datalen) | Bad \<Rightarrow> Bad | Fault \<Rightarrow> Fault)"

definition dispatchStrings :: "'p env \<Rightarrow> 'p \<Rightarrow> dispatch_out" where
  "dispatchStrings E p =
     (let (ok, countStrings, p) = rdI32 E (uninit E) p in
      if \<not> ok then Invalid
      else case read_strings E countStrings p of
          Done (Some ss, datalen) \<Rightarrow> OnRequest (VStrs ss) datalen
        | Done (None, datalen) \<Rightarrow> OnRequest VNull datalen
        | Bad \<Rightarrow> Invalid
        | Fault \<Rightarrow> Undef)"

fun ints_loop :: "'p env \<Rightarrow> nat \<Rightarrow> nat \<Rightarrow> 'p \<Rightarrow> i32 list loop_res" where
  "ints_loop E cap 0 p = Done []"
| "ints_loop E 0 (Suc n) p = Fault"
| "ints_loop E (Suc cap) (Suc n) p =
     (let (ok, t, p) = rdI32 E (uninit E) p in
      if \<not> ok then Bad
      else case ints_loop E cap n p of Done ts \<Rightarrow> Done (t # ts) | r \<Rightarrow> r)"

definition dispatchInts :: "'p env \<Rightarrow> 'p \<Rightarrow> dispatch_out" where
  "dispatchInts E p =
     (let (ok, count, p) = rdI32 E (uninit E) p in
      if \<not> ok \<or> count = 0 then Invalid
      else let datalen = of_nat sizeof_int * count in
        if \<not> alloca_ok E datalen then Undef
        else case ints_loop E (unat datalen div sizeof_int) (nat (sint count)) p of
            Done ts \<Rightarrow> OnRequest (VInts ts) datalen
          | Bad \<Rightarrow> Invalid
          | Fault \<Rightarrow> Undef)"

section \<open>Structures\<close>

definition dispatchSmsWrite :: "'p env \<Rightarrow> 'p \<Rightarrow> dispatch_out" where
  "dispatchSmsWrite E p =
     (let (ok, t, p) = rdI32 E (uninit E) p;
          (pdu, p) = strdupReadString E p
      in if \<not> ok \<or> pdu = None then Invalid
         else let (smsc, p) = strdupReadString E p in
           OnRequest (VSmsWrite \<lparr>sw_status = t, sw_pdu = pdu, sw_smsc = smsc\<rparr>)
             (of_nat (sizeof E ''RIL_SMS_WriteArgs'')))"

text \<open>The user-to-user information of a dial request; None when the block is invalid.\<close>

definition read_uus :: "'p env \<Rightarrow> i32 \<Rightarrow> 'p \<Rightarrow> RIL_UUS_Info option" where
  "read_uus E t p =
     (let (_, ty, p) = rdI32 E t p;
          (_, dcs, p) = rdI32 E ty p;
          (ok, len, p) = rdI32 E (uninit E) p
      in if \<not> ok then None
         else if len = - 1
           then Some \<lparr>uus_uusType = ty, uus_uusDcs = dcs, uus_uusLength = 0, uus_uusData = None\<rparr>
         else let (d, p) = p_readInplace E len p in
           Some \<lparr>uus_uusType = ty, uus_uusDcs = dcs, uus_uusLength = len, uus_uusData = d\<rparr>)"

definition dispatchDial :: "'p env \<Rightarrow> int \<Rightarrow> 'p \<Rightarrow> dispatch_out" where
  "dispatchDial E version p =
     (let (address, p) = strdupReadString E p;
          (ok, t, p) = rdI32 E (uninit E) p;
          dial = \<lparr>dial_address = address, dial_clir = t, dial_uusInfo = None\<rparr>
      in if \<not> ok \<or> address = None then Invalid
         else if version < 3
           then OnRequest (VDial dial) (of_nat (sizeof E ''RIL_Dial'' - sizeof_ptr))
         else let (ok, uusPresent, p) = rdI32 E (uninit E) p in
           if \<not> ok then Invalid
           else if uusPresent = 0 then OnRequest (VDial dial) (of_nat (sizeof E ''RIL_Dial''))
           else case read_uus E t p of
               None \<Rightarrow> Invalid
             | Some uusInfo \<Rightarrow> OnRequest (VDial (dial\<lparr>dial_uusInfo := Some uusInfo\<rparr>))
                                (of_nat (sizeof E ''RIL_Dial'')))"

definition dispatchSIM_IO :: "'p env \<Rightarrow> int \<Rightarrow> i32 \<Rightarrow> 'p \<Rightarrow> dispatch_out" where
  "dispatchSIM_IO E version requestNumber p =
     (let (t0, cla, p) =
            (if RIL_SUPPORTS_SEEK E \<and> RILJ_USE_CLA E \<and>
                requestNumber \<in> {K E ''RIL_REQUEST_SIM_TRANSMIT_BASIC'',
                                  K E ''RIL_REQUEST_SIM_TRANSMIT_CHANNEL''}
             then let (_, t, p) = rdI32 E (uninit E) p in (t, t, p)
             else (uninit E, 0, p));
          (_, command, p) = rdI32 E t0 p;
          (_, fileid, p) = rdI32 E command p;
          (path, p) = strdupReadString E p;
          (_, p1, p) = rdI32 E fileid p;
          (_, p2, p) = rdI32 E p1 p;
          (ok, p3, p) = rdI32 E p2 p;
          (data, p) = strdupReadString E p;
          (pin2, p) = strdupReadString E p;
          (aidPtr, p) = strdupReadString E p
      in if \<not> ok then Invalid
         else OnRequest (VSimIO \<lparr>sim_cla = cla, sim_command = command, sim_fileid = fileid,
                 sim_path = path, sim_p1 = p1, sim_p2 = p2, sim_p3 = p3, sim_data = data,
                 sim_pin2 = pin2, sim_aidPtr = aidPtr\<rparr>)
               (of_nat (sizeof E (if version < 6 then ''RIL_SIM_IO_v5'' else ''RIL_SIM_IO_v6''))))"

definition dispatchCallForward :: "'p env \<Rightarrow> 'p \<Rightarrow> dispatch_out" where
  "dispatchCallForward E p =
     (let (_, status, p) = rdI32 E (uninit E) p;
          (_, reason, p) = rdI32 E status p;
          (_, serviceClass, p) = rdI32 E reason p;
          (_, toa, p) = rdI32 E serviceClass p;
          (number, p) = strdupReadString E p;
          (ok, timeSeconds, p) = rdI32 E toa p
      in if \<not> ok then Invalid
         else let number = (if number = Some [] then None else number) in
           OnRequest (VCallForward \<lparr>cff_status = status, cff_reason = reason,
               cff_serviceClass = serviceClass, cff_toa = toa, cff_number = number,
               cff_timeSeconds = timeSeconds\<rparr>)
             (of_nat (sizeof E ''RIL_CallForwardInfo'')))"

definition dispatchRaw :: "'p env \<Rightarrow> 'p \<Rightarrow> dispatch_out" where
  "dispatchRaw E p =
     (let (ok, len, p) = rdI32 E (uninit E) p in
      if \<not> ok then Invalid
      else let len = (if len = - 1 then 0 else len);
               (data, p) = p_readInplace E len p
        in OnRequest (case data of None \<Rightarrow> VNull | Some bs \<Rightarrow> VBytes bs) len)"

section \<open>CDMA and IMS messages\<close>

text \<open>
  A run of single-byte reads into an array. The status and \<open>ut\<close> are those of the last
  read, or what they were when there is none.
\<close>

fun rdBytes :: "'p env \<Rightarrow> nat \<Rightarrow> bool \<Rightarrow> u8 \<Rightarrow> 'p \<Rightarrow> bool \<times> u8 \<times> u8 list \<times> 'p" where
  "rdBytes E 0 ok ut p = (ok, ut, [], p)"
| "rdBytes E (Suc n) ok ut p =
     (let (ok, ut, p) = rdU8 E ut p;
          (ok', ut', bs, p) = rdBytes E n ok ut p
      in (ok', ut', ut # bs, p))"

text \<open>An array of \<open>n\<close> bytes that was cleared before its first elements were stored.\<close>

definition pad0 :: "nat \<Rightarrow> u8 list \<Rightarrow> u8 list" where
  "pad0 n bs = bs @ replicate (n - length bs) 0"

definition ADDRESS_MAX :: "'p env \<Rightarrow> nat" where
  "ADDRESS_MAX E = unat (K E ''RIL_CDMA_SMS_ADDRESS_MAX'')"

definition SUBADDRESS_MAX :: "'p env \<Rightarrow> nat" where
  "SUBADDRESS_MAX E = unat (K E ''RIL_CDMA_SMS_SUBADDRESS_MAX'')"

definition BEARER_DATA_MAX :: "'p env \<Rightarrow> nat" where
  "BEARER_DATA_MAX E = unat (K E ''RIL_CDMA_SMS_BEARER_DATA_MAX'')"

definition constructCdmaSms :: "'p env \<Rightarrow> 'p \<Rightarrow> RIL_CDMA_SMS_Message option" where
  "constructCdmaSms E p =
     (let (ok, teleservice, p) = rdI32 E (uninit E) p;
          (ok, present, p) = rdU8 E (ucast (uninit E)) p;
          (ok, category, p) = rdI32 E teleservice p;
          (ok, digit_mode, p) = rdI32 E category p;
          (ok, number_mode, p) = rdI32 E digit_mode p;
          (ok, number_type, p) = rdI32 E number_mode p;
          (ok, number_plan, p) = rdI32 E number_type p;
          (ok, ndigits, p) = rdU8 E present p;
          (ok, ut, digits, p) = rdBytes E (min (unat ndigits) (ADDRESS_MAX E)) ok ndigits p;
          (ok, subaddressType, p) = rdI32 E number_plan p;
          (ok, odd', p) = rdU8 E ut p;
          (ok, nsub, p) = rdU8 E odd' p;
          (ok, ut, subdigits, p) = rdBytes E (min (unat nsub) (SUBADDRESS_MAX E)) ok nsub p;
          (ok, bearerLen, p) = rdI32 E subaddressType p;
          (ok, ut, bearer, p) =
            rdBytes E (nat (min (sint bearerLen) (int (BEARER_DATA_MAX E)))) ok ut p
      in if \<not> ok then None
         else Some \<lparr>sms_uTeleserviceID = teleservice, sms_bIsServicePresent = present,
           sms_uServicecategory = category,
           sms_sAddress = \<lparr>sa_digit_mode = digit_mode, sa_number_mode = number_mode,
             sa_number_type = number_type, sa_number_plan = number_plan,
             sa_number_of_digits = ndigits, sa_digits = pad0 (ADDRESS_MAX E) digits\<rparr>,
           sms_sSubAddress = \<lparr>ssa_subaddressType = subaddressType, ssa_odd = odd',
             ssa_number_of_digits = nsub, ssa_digits = pad0 (SUBADDRESS_MAX E) subdigits\<rparr>,
           sms_uBearerDataLen = bearerLen, sms_aBearerData = pad0 (BEARER_DATA_MAX E) bearer\<rparr>)"

definition dispatchCdmaSms :: "'p env \<Rightarrow> 'p \<Rightarrow> dispatch_out" where
  "dispatchCdmaSms E p =
     (case constructCdmaSms E p of
        None \<Rightarrow> Invalid
      | Some rcsm \<Rightarrow> OnRequest (VCdmaSms rcsm) (of_nat (sizeof E ''RIL_CDMA_SMS_Message'')))"

text \<open>\<open>sizeof(RIL_RadioTechnologyFamily)+sizeof(uint8_t)+sizeof(int32_t)\<close>\<close>

definition ims_header_size :: size_t where
  "ims_header_size = of_nat (sizeof_int + 1 + 4)"

definition dispatchImsCdmaSms :: "'p env \<Rightarrow> 'p \<Rightarrow> u8 \<Rightarrow> i32 \<Rightarrow> dispatch_out" where
  "dispatchImsCdmaSms E p retry messageRef =
     (case constructCdmaSms E p of
        None \<Rightarrow> Invalid
      | Some rcsm \<Rightarrow>
          OnRequest (VImsSms \<lparr>ims_tech = K E ''RADIO_TECH_3GPP2'', ims_retry = retry,
              ims_messageRef = messageRef, ims_message = CdmaMessage rcsm\<rparr>)
            (ims_header_size + of_nat (sizeof E ''RIL_CDMA_SMS_Message'')))"

definition dispatchImsGsmSms :: "'p env \<Rightarrow> 'p \<Rightarrow> u8 \<Rightarrow> i32 \<Rightarrow> dispatch_out" where
  "dispatchImsGsmSms E p retry messageRef =
     (let (ok, countStrings, p) = rdI32 E (uninit E) p in
      if \<not> ok then Invalid
      else case read_strings E countStrings p of
          Done (pStrings, datalen) \<Rightarrow>
            OnRequest (VImsSms \<lparr>ims_tech = K E ''RADIO_TECH_3GPP'', ims_retry = retry,
                ims_messageRef = messageRef, ims_message = GsmMessage pStrings\<rparr>)
              (ims_header_size + datalen)
        | Bad \<Rightarrow> Invalid
        | Fault \<Rightarrow> Undef)"

text \<open>The bytes of a little-endian integer as an integer.\<close>

fun le_word :: "u8 list \<Rightarrow> i32" where
  "le_word [] = 0"
| "le_word (b # bs) = ucast b + 256 * le_word bs"

definition dispatchImsSms :: "'p env \<Rightarrow> 'p \<Rightarrow> dispatch_out" where
  "dispatchImsSms E p =
     (let (ok, format, p) = rdI32 E (uninit E) p in
      if \<not> ok then Invalid
      else let (ok, retry, p) = rdU8 E (ucast (uninit E)) p in
        if \<not> ok then Invalid
        else case p_read E 4 p of
            (None, p) \<Rightarrow> Invalid
          | (Some bs, p) \<Rightarrow>
              let messageRef = le_word bs in
              if format = K E ''RADIO_TECH_3GPP'' then dispatchImsGsmSms E p retry messageRef
              else if format = K E ''RADIO_TECH_3GPP2'' then dispatchImsCdmaSms E p retry messageRef
              else Dropped)"

definition dispatchCdmaSmsAck :: "'p env \<Rightarrow> 'p \<Rightarrow> dispatch_out" where
  "dispatchCdmaSmsAck E p =
     (let (_, errorClass, p) = rdI32 E (uninit E) p;
          (ok, cause, p) = rdI32 E errorClass p
      in if \<not> ok then Invalid
         else OnRequest (VCdmaSmsAck \<lparr>ack_uErrorClass = errorClass, ack_uSMSCauseCode = cause\<rparr>)
                (of_nat (sizeof E ''RIL_CDMA_SMS_Ack'')))"

section \<open>Broadcast configurations\<close>

text \<open>
  \<open>n\<close> iterations left; only the status of the last read is looked at, after the loop. The
  two variable-length arrays take \<open>num\<close> structures and \<open>num\<close> pointers of stack.
\<close>

fun gsmBci_loop ::
  "'p env \<Rightarrow> nat \<Rightarrow> bool \<Rightarrow> i32 \<Rightarrow> 'p \<Rightarrow> bool \<times> RIL_GSM_BroadcastSmsConfigInfo list" where
  "gsmBci_loop E 0 ok t p = (ok, [])"
| "gsmBci_loop E (Suc n) ok t p =
     (let (_, fromS, p) = rdI32 E t p;
          (_, toS, p) = rdI32 E fromS p;
          (_, fromC, p) = rdI32 E toS p;
          (_, toC, p) = rdI32 E fromC p;
          (ok, sel, p) = rdI32 E toC p;
          (ok, bs) = gsmBci_loop E n ok sel p
      in (ok, \<lparr>gbc_fromServiceId = fromS, gbc_toServiceId = toS, gbc_fromCodeScheme = fromC,
               gbc_toCodeScheme = toC, gbc_selected = ucast sel\<rparr> # bs))"

definition vla_ok :: "'p env \<Rightarrow> i32 \<Rightarrow> nat \<Rightarrow> bool" where
  "vla_ok E num n \<longleftrightarrow> 0 \<le> sint num \<and> unat num * (n + sizeof_ptr) \<le> stack_limit E"

definition dispatchGsmBrSmsCnf :: "'p env \<Rightarrow> 'p \<Rightarrow> dispatch_out" where
  "dispatchGsmBrSmsCnf E p =
     (let (ok, num, p) = rdI32 E (uninit E) p in
      if \<not> ok then Invalid
      else if \<not> vla_ok E num (sizeof E ''RIL_GSM_BroadcastSmsConfigInfo'') then Undef
      else let (ok, gsmBci) = gsmBci_loop E (unat num) ok (uninit E) p in
        if \<not> ok then Invalid else OnRequest (VGsmBci gsmBci) (num * of_nat sizeof_ptr))"

fun cdmaBci_loop ::
  "'p env \<Rightarrow> nat \<Rightarrow> bool \<Rightarrow> i32 \<Rightarrow> 'p \<Rightarrow> bool \<times> RIL_CDMA_BroadcastSmsConfigInfo list" where
  "cdmaBci_loop E 0 ok t p = (ok, [])"
| "cdmaBci_loop E (Suc n) ok t p =
     (let (_, category, p) = rdI32 E t p;
          (_, language, p) = rdI32 E category p;
          (ok, sel, p) = rdI32 E language p;
          (ok, bs) = cdmaBci_loop E n ok sel p
      in (ok, \<lparr>cbc_service_category = category, cbc_language = language,
               cbc_selected = ucast sel\<rparr> # bs))"

definition dispatchCdmaBrSmsCnf :: "'p env \<Rightarrow> 'p \<Rightarrow> dispatch_out" where
  "dispatchCdmaBrSmsCnf E p =
     (let (ok, num, p) = rdI32 E (uninit E) p in
      if \<not> ok then Invalid
      else if \<not> vla_ok E num (sizeof E ''RIL_CDMA_BroadcastSmsConfigInfo'') then Undef
      else let (ok, cdmaBci) = cdmaBci_loop E (unat num) ok (uninit E) p in
        if \<not> ok then Invalid else OnRequest (VCdmaBci cdmaBci) (num * of_nat sizeof_ptr))"

text \<open>Here all elements of the three arrays are read, whatever their counts say.\<close>

definition dispatchRilCdmaSmsWriteArgs :: "'p env \<Rightarrow> 'p \<Rightarrow> dispatch_out" where
  "dispatchRilCdmaSmsWriteArgs E p =
     (let (ok, status, p) = rdI32 E (uninit E) p;
          (ok, teleservice, p) = rdI32 E status p;
          (ok, present, p) = rdU8 E (ucast (uninit E)) p;
          (ok, category, p) = rdI32 E teleservice p;
          (ok, digit_mode, p) = rdI32 E category p;
          (ok, number_mode, p) = rdI32 E digit_mode p;
          (ok, number_type, p) = rdI32 E number_mode p;
          (ok, number_plan, p) = rdI32 E number_type p;
          (ok, ndigits, p) = rdU8 E present p;
          (ok, uct, digits, p) = rdBytes E (ADDRESS_MAX E) ok ndigits p;
          (ok, subaddressType, p) = rdI32 E number_plan p;
          (ok, odd', p) = rdU8 E uct p;
          (ok, nsub, p) = rdU8 E odd' p;
          (ok, uct, subdigits, p) = rdBytes E (SUBADDRESS_MAX E) ok nsub p;
          (ok, bearerLen, p) = rdI32 E subaddressType p;
          (ok, uct, bearer, p) = rdBytes E (BEARER_DATA_MAX E) ok uct p
      in if \<not> ok then Invalid
         else OnRequest (VCdmaSmsWrite \<lparr>cw_status = status, cw_message =
           \<lparr>sms_uTeleserviceID = teleservice, sms_bIsServicePresent = present,
            sms_uServicecategory = category,
            sms_sAddress = \<lparr>sa_digit_mode = digit_mode, sa_number_mode = number_mode,
              sa_number_type = number_type, sa_number_plan = number_plan,
              sa_number_of_digits = ndigits, sa_digits = digits\<rparr>,
            sms_sSubAddress = \<lparr>ssa_subaddressType = subaddressType, ssa_odd = odd',
              ssa_number_of_digits = nsub, ssa_digits = subdigits\<rparr>,
            sms_uBearerDataLen = bearerLen, sms_aBearerData = bearer\<rparr>\<rparr>)
           (of_nat (sizeof E ''RIL_CDMA_SMS_WriteArgs'')))"

section \<open>Data calls, the initial APN and the subscription\<close>

fun copy_strings :: "'p env \<Rightarrow> nat \<Rightarrow> 'p \<Rightarrow> 'p \<Rightarrow> 'p" where
  "copy_strings E 0 p p2 = p2"
| "copy_strings E (Suc n) p p2 =
     (let (s, p) = p_readString16 E p in copy_strings E n p (p_writeString16 E (Some s) p2))"

definition numParamsRilV3 :: nat where
  "numParamsRilV3 = 6"

definition dispatchDataCall :: "'p env \<Rightarrow> int \<Rightarrow> 'p \<Rightarrow> dispatch_out" where
  "dispatchDataCall E version p =
     (let pos = p_dataPosition E p;
          (_, numParams, p) = rdI32 E 0 p
      in if version < 4 \<and> sint numParams > int numParamsRilV3
         then let p2 = p_appendFrom E p 0 pos (p_new E);
                  p2 = p_writeInt32 E (of_nat numParamsRilV3) p2;
                  p2 = copy_strings E numParamsRilV3 p p2
           in dispatchStrings E (p_setDataPosition E pos p2)
         else dispatchStrings E (p_setDataPosition E pos p))"

definition dispatchSetInitialAttachApn :: "'p env \<Rightarrow> 'p \<Rightarrow> dispatch_out" where
  "dispatchSetInitialAttachApn E p =
     (let (apn, p) = strdupReadString E p;
          (protocol, p) = strdupReadString E p;
          (ok, t, p) = rdI32 E (uninit E) p;
          (username, p) = strdupReadString E p;
          (password, p) = strdupReadString E p
      in if \<not> ok then Invalid
         else OnRequest (VApn \<lparr>apn_apn = apn, apn_protocol = protocol, apn_authtype = t,
                 apn_username = username, apn_password = password\<rparr>)
               (of_nat (sizeof E ''RIL_InitialAttachApn'')))"

definition dispatchUiccSubscripton :: "'p env \<Rightarrow> 'p \<Rightarrow> dispatch_out" where
  "dispatchUiccSubscripton E p =
     (let (ok, slot, p) = rdI32 E (uninit E) p in
      if \<not> ok then Invalid else
      let (ok, app_index, p) = rdI32 E slot p in
      if \<not> ok then Invalid else
      let (ok, sub_type, p) = rdI32 E app_index p in
      if \<not> ok then Invalid else
      let (ok, act_status, p) = rdI32 E sub_type p in
      if \<not> ok then Invalid else
      OnRequest (VUicc \<lparr>us_slot = slot, us_app_index = app_index, us_sub_type = sub_type,
          us_act_status = act_status\<rparr>)
        (of_nat (sizeof E ''RIL_SelectUiccSub'')))"

section \<open>Reading loops over a parcel's items\<close>

lemma ints_loop_view:
  assumes "reads_ok E V"
  shows "V p = Some (map I32 ts @ r) \<Longrightarrow> length ts \<le> cap \<Longrightarrow>
    ints_loop E cap (length ts) p = Done ts"
proof (induction ts arbitrary: cap p)
  case (Cons t ts)
  then obtain c where "cap = Suc c" by (cases cap) auto
  with Cons show ?case by (simp add: rdI32_view [OF assms])
qed simp

lemma ints_loop_no_room: "0 < n \<Longrightarrow> ints_loop E 0 n p = Fault"
  by (cases n) auto

lemma ints_loop_short:
  assumes "reads_ok E V"
  shows "V p = Some (map I32 ts) \<Longrightarrow> length ts < n \<Longrightarrow> n \<le> cap \<Longrightarrow> ints_loop E cap n p = Bad"
proof (induction ts arbitrary: n cap p)
  case Nil
  then obtain m c where "n = Suc m" "cap = Suc c" by (cases n; cases cap) auto
  with Nil show ?case by (simp add: rdI32_view [OF assms])
next
  case (Cons t ts)
  then obtain m c where "n = Suc m" "cap = Suc c" by (cases n; cases cap) auto
  with Cons show ?case by (simp add: rdI32_view [OF assms])
qed

lemma strings_loop_view:
  assumes "reads_ok E V" "jstring_ok E S"
  shows "V p = Some (map Str ss @ r) \<Longrightarrow> set ss \<subseteq> S \<Longrightarrow> length ss \<le> cap \<Longrightarrow>
    \<exists>p'. strings_loop E cap (length ss) p = Done (ss, p') \<and> V p' = Some r"
proof (induction ss arbitrary: cap p)
  case (Cons s ss)
  from Cons.prems(3) obtain c where c: "cap = Suc c" by (cases cap) auto
  have r: "strdupReadString E p = (s, afterStr E p)" "V (afterStr E p) = Some (map Str ss @ r)"
    using Cons.prems by (simp_all add: strdupReadString_view [OF assms])
  obtain p' where "strings_loop E c (length ss) (afterStr E p) = Done (ss, p')" "V p' = Some r"
    using Cons.IH [OF r(2)] Cons.prems(2,3) c by auto
  with c r(1) show ?case by simp
qed simp

text \<open>The count in front of the strings: \<open>-1\<close> for a null array.\<close>

fun strs_count :: "cstr list option \<Rightarrow> i32" where
  "strs_count None = - 1"
| "strs_count (Some ss) = of_nat (length ss)"

fun strs_items :: "cstr list option \<Rightarrow> item list" where
  "strs_items None = [I32 (- 1)]"
| "strs_items (Some ss) = I32 (of_nat (length ss)) # map Str ss"

fun strs_size :: "cstr list option \<Rightarrow> nat" where
  "strs_size None = 0"
| "strs_size (Some ss) = 4 * length ss"

lemma read_strings_view:
  assumes "reads_ok E V" "jstring_ok E (case_option {} set x)"
    and "V p = Some (tl (strs_items x) @ r)"
    and "strs_size x \<le> stack_limit E" "strs_size x < 2 ^ 32"
  shows "read_strings E (strs_count x) p = Done (x, of_nat (strs_size x))"
proof (cases x)
  case (Some ss)
  have n: "length ss < 2 ^ 30" using assms(5) Some by simp
  have "\<exists>p'. strings_loop E (length ss) (length ss) p = Done (ss, p') \<and> V p' = Some r"
    using assms(3) Some strings_loop_view [OF assms(1,2)] by simp
  with assms(4) Some n show ?thesis
    by (auto simp: read_strings_def alloca_ok_def sizeof_ptr_def count_size Let_def)
qed (simp add: read_strings_def)

lemma dispatchStrings_view:
  assumes "reads_ok E V" "jstring_ok E (case_option {} set x)"
    and "V p = Some (strs_items x @ r)"
    and "strs_size x \<le> stack_limit E" "strs_size x < 2 ^ 32"
  shows "dispatchStrings E p =
    OnRequest (case x of None \<Rightarrow> VNull | Some ss \<Rightarrow> VStrs ss) (of_nat (strs_size x))"
proof -
  define q where "q = afterI32 E p"
  have "rdI32 E (uninit E) p = (True, strs_count x, q)" "V q = Some (tl (strs_items x) @ r)"
    using assms(3) by (cases x; simp add: q_def rdI32_view [OF assms(1)])+
  then show ?thesis
    using read_strings_view [OF assms(1,2) _ assms(4,5)]
    by (cases x) (auto simp: dispatchStrings_def)
qed

lemma rdBytes_view:
  assumes "reads_ok E V"
  shows "V p = Some (map (\<lambda>b. Buf [b]) bs @ r) \<Longrightarrow>
    \<exists>u' p'. rdBytes E (length bs) ok u p = (ok \<or> bs \<noteq> [], u', bs, p') \<and> V p' = Some r"
proof (induction bs arbitrary: p ok u)
  case (Cons b bs)
  have r: "rdU8 E u p = (True, b, afterRead E (Suc 0) p)"
    "V (afterRead E (Suc 0) p) = Some (map (\<lambda>b. Buf [b]) bs @ r)"
    using Cons.prems by (simp_all add: rdU8_view [OF assms, of p b])
  with Cons.IH [OF r(2), of True b] show ?case by auto
qed simp

section \<open>Properties\<close>

text \<open>What \<open>dispatchInts\<close> does with a parcel that holds a count and then integers to its end:
  when there are at least as many integers as the count says, exactly that many reach the vendor
  library, with the length in bytes; when there are fewer, or the count is 0, the request is
  refused. The count must fit the stack.\<close>

theorem dispatchInts_delivers:
  assumes "reads_ok E V" "V p = Some (I32 (of_nat n) # map I32 ts)"
    and "4 * n \<le> stack_limit E" "n < 2 ^ 30"
  shows "dispatchInts E p =
    (if 0 < n \<and> n \<le> length ts then OnRequest (VInts (take n ts)) (of_nat (4 * n)) else Invalid)"
proof -
  define q where "q = afterI32 E p"
  have rd: "rdI32 E (uninit E) p = (True, of_nat n, q)" "V q = Some (map I32 ts)"
    using assms(2) by (simp_all add: q_def rdI32_view [OF assms(1)])
  have "ints_loop E n n q = Done (take n ts)" if "n \<le> length ts"
    using ints_loop_view [OF assms(1), of q "take n ts" "map I32 (drop n ts)" n] rd(2) that
    by (simp flip: map_append)
  moreover have "ints_loop E n n q = Bad" if "\<not> n \<le> length ts"
    using ints_loop_short [OF assms(1) rd(2)] that by simp
  ultimately show ?thesis
    using rd(1) assms(3,4)
    by (auto simp: dispatchInts_def alloca_ok_def sizeof_int_def count_size Let_def)
qed

theorem dispatchInts_delivers_witness:
  "dispatchInts demo_env ([I32 2, I32 7, I32 8, I32 9], 0) = OnRequest (VInts [7, 8]) 8"
  using dispatchInts_delivers [OF demo_reads_ok, of "([I32 2, I32 7, I32 8, I32 9], 0)" 2 "[7, 8, 9]"]
  by (simp add: demo_env_def)

text \<open>The byte length that \<open>dispatchInts\<close> allocates is computed without a check for overflow: a
  count of \<open>2 ^ 30\<close> gives length 0, and the first integer is then stored outside the allocation,
  whatever the parcel holds.\<close>

theorem dispatchInts_overflow:
  assumes "reads_ok E V" "V p = Some (I32 0x40000000 # r)"
  shows "dispatchInts E p = Undef"
proof -
  have "rdI32 E (uninit E) p = (True, 0x40000000, afterI32 E p)"
    using assms(2) by (simp add: rdI32_view [OF assms(1)])
  then show ?thesis
    by (simp add: dispatchInts_def alloca_ok_def sizeof_int_def Let_def ints_loop_no_room)
qed

theorem dispatchInts_overflow_witness:
  "dispatchInts demo_env ([I32 0x40000000, I32 5], 0) = Undef"
  using dispatchInts_overflow [OF demo_reads_ok, of "([I32 0x40000000, I32 5], 0)" "[I32 5]"]
  by simp

text \<open>\<open>dispatchStrings\<close> hands an array of strings, null elements included, to the vendor library
  in order, with the length in bytes of the pointer array; a null array (count \<open>-1\<close>) arrives as a
  null pointer.\<close>

theorem dispatchStrings_delivers:
  assumes "reads_ok E V" "jstring_ok E (case_option {} set x)"
    and "V p = Some (strs_items x @ r)"
    and "strs_size x \<le> stack_limit E" "strs_size x < 2 ^ 32"
  shows "dispatchStrings E p =
    OnRequest (case x of None \<Rightarrow> VNull | Some ss \<Rightarrow> VStrs ss) (of_nat (strs_size x))"
  by (rule dispatchStrings_view [OF assms])

theorem dispatchStrings_delivers_witness:
  "dispatchStrings demo_env ([I32 2, Str (Some ''a''), Str None], 0) =
     OnRequest (VStrs [Some ''a'', None]) 8"
  using dispatchStrings_delivers [OF demo_reads_ok demo_jstring_ok,
      of "([I32 2, Str (Some ''a''), Str None], 0)" "Some [Some ''a'', None]" "[]"]
  by (simp add: demo_env_def)

text \<open>The payload of a call forwarding request, in the order its comment gives.\<close>

definition cff_items :: "RIL_CallForwardInfo \<Rightarrow> item list" where
  "cff_items c = [I32 (cff_status c), I32 (cff_reason c), I32 (cff_serviceClass c),
     I32 (cff_toa c), Str (cff_number c), I32 (cff_timeSeconds c)]"

text \<open>\<open>dispatchCallForward\<close> delivers the structure, with an empty number replaced by NULL. It looks
  only at the status of its last read; that is enough to refuse every parcel that ends after some
  of the fields.\<close>

theorem dispatchCallForward_delivers:
  assumes "reads_ok E V" "jstring_ok E {cff_number c}" "V p = Some (take k (cff_items c))"
  shows "dispatchCallForward E p =
    (if k < 6 then Invalid
     else OnRequest
       (VCallForward (c\<lparr>cff_number := (if cff_number c = Some [] then None else cff_number c)\<rparr>))
       (of_nat (sizeof E ''RIL_CallForwardInfo'')))"
proof -
  note rd = rdI32_view [OF assms(1)] strdupReadString_view [OF assms(1,2)]
    strdupReadString_end [OF assms(1,2)]
  consider "k = 0" | "k = 1" | "k = 2" | "k = 3" | "k = 4" | "k = 5" | "6 \<le> k" by linarith
  then show ?thesis
    by cases (use assms(3) in \<open>simp_all add: dispatchCallForward_def cff_items_def rd Let_def\<close>)
qed

theorem dispatchCallForward_delivers_witness:
  "dispatchCallForward demo_env ([I32 1, I32 2, I32 3, I32 4, Str (Some []), I32 6], 0) =
     OnRequest (VCallForward \<lparr>cff_status = 1, cff_reason = 2, cff_serviceClass = 3, cff_toa = 4,
       cff_number = None, cff_timeSeconds = 6\<rparr>) 32 \<and>
   dispatchCallForward demo_env ([I32 1, I32 2, I32 3], 0) = Invalid"
  using dispatchCallForward_delivers [OF demo_reads_ok demo_jstring_ok,
      of "([I32 1, I32 2, I32 3, I32 4, Str (Some []), I32 6], 0)" 6
         "\<lparr>cff_status = 1, cff_reason = 2, cff_serviceClass = 3, cff_toa = 4,
           cff_number = Some [], cff_timeSeconds = 6\<rparr>"]
    dispatchCallForward_delivers [OF demo_reads_ok demo_jstring_ok,
      of "([I32 1, I32 2, I32 3], 0)" 3
         "\<lparr>cff_status = 1, cff_reason = 2, cff_serviceClass = 3, cff_toa = 4,
           cff_number = Some [], cff_timeSeconds = 6\<rparr>"]
  by (simp add: cff_items_def) (simp add: demo_env_def)

definition sim_io_items :: "bool \<Rightarrow> RIL_SIM_IO \<Rightarrow> item list" where
  "sim_io_items cla s = (if cla then [I32 (sim_cla s)] else []) @
     [I32 (sim_command s), I32 (sim_fileid s), Str (sim_path s), I32 (sim_p1 s), I32 (sim_p2 s),
      I32 (sim_p3 s), Str (sim_data s), Str (sim_pin2 s), Str (sim_aidPtr s)]"

text \<open>Whether the request carries the class byte.\<close>

definition sim_io_cla :: "'p env \<Rightarrow> i32 \<Rightarrow> bool" where
  "sim_io_cla E rq \<longleftrightarrow> RIL_SUPPORTS_SEEK E \<and> RILJ_USE_CLA E \<and>
     rq \<in> {K E ''RIL_REQUEST_SIM_TRANSMIT_BASIC'', K E ''RIL_REQUEST_SIM_TRANSMIT_CHANNEL''}"

text \<open>\<open>dispatchSIM_IO\<close> delivers the structure of a SIM request; the class is read only for the two
  APDU requests of a build that sends it, and is 0 otherwise. The length is that of the structure
  version that the vendor library registered with.\<close>

theorem dispatchSIM_IO_delivers:
  assumes "reads_ok E V" "jstring_ok E {sim_path s, sim_data s, sim_pin2 s, sim_aidPtr s}"
    and "V p = Some (sim_io_items (sim_io_cla E rq) s @ r)"
  shows "dispatchSIM_IO E version rq p =
    OnRequest (VSimIO (if sim_io_cla E rq then s else s\<lparr>sim_cla := 0\<rparr>))
      (of_nat (sizeof E (if version < 6 then ''RIL_SIM_IO_v5'' else ''RIL_SIM_IO_v6'')))"
proof (cases "sim_io_cla E rq")
  case True
  with assms(3) show ?thesis
    unfolding dispatchSIM_IO_def sim_io_cla_def
    by (simp add: sim_io_items_def rdI32_view [OF assms(1)] strdupReadString_view [OF assms(1,2)])
next
  case False
  then have "(if RIL_SUPPORTS_SEEK E \<and> RILJ_USE_CLA E \<and>
      rq \<in> {K E ''RIL_REQUEST_SIM_TRANSMIT_BASIC'', K E ''RIL_REQUEST_SIM_TRANSMIT_CHANNEL''}
      then a else b) = b" for a b :: "i32 \<times> i32 \<times> 'a"
    unfolding sim_io_cla_def by (simp only: if_False)
  with False assms(3) show ?thesis
    unfolding dispatchSIM_IO_def
    by (simp add: sim_io_items_def rdI32_view [OF assms(1)] strdupReadString_view [OF assms(1,2)])
qed

theorem dispatchSIM_IO_delivers_witness:
  "dispatchSIM_IO demo_env 7 28 ([I32 0xC0, I32 0x6F3A, Str (Some ''3F00''), I32 0, I32 0, I32 15,
      Str None, Str None, Str None], 0) =
   OnRequest (VSimIO \<lparr>sim_cla = 0, sim_command = 0xC0, sim_fileid = 0x6F3A,
      sim_path = Some ''3F00'', sim_p1 = 0, sim_p2 = 0, sim_p3 = 15, sim_data = None,
      sim_pin2 = None, sim_aidPtr = None\<rparr>) 32"
proof -
  have "\<not> sim_io_cla demo_env 28" by (simp add: sim_io_cla_def demo_env_def)
  then show ?thesis
    using dispatchSIM_IO_delivers [OF demo_reads_ok demo_jstring_ok,
      of "([I32 0xC0, I32 0x6F3A, Str (Some ''3F00''), I32 0, I32 0, I32 15,
            Str None, Str None, Str None], 0)" 28
         "\<lparr>sim_cla = 9, sim_command = 0xC0, sim_fileid = 0x6F3A,
            sim_path = Some ''3F00'', sim_p1 = 0, sim_p2 = 0, sim_p3 = 15, sim_data = None,
            sim_pin2 = None, sim_aidPtr = None\<rparr>" "[]" 7]
    by (simp add: sim_io_items_def) (simp add: demo_env_def)
qed

text \<open>The payload of a dial request; the user-to-user part exists from version 3 on.\<close>

fun uus_items :: "RIL_UUS_Info option \<Rightarrow> item list" where
  "uus_items None = [I32 0]"
| "uus_items (Some u) = [I32 1, I32 (uus_uusType u), I32 (uus_uusDcs u)] @
     (case uus_uusData u of None \<Rightarrow> [I32 (- 1)] | Some bs \<Rightarrow> [I32 (of_nat (length bs)), Buf bs])"

definition dial_items :: "int \<Rightarrow> RIL_Dial \<Rightarrow> item list" where
  "dial_items version d = [Str (dial_address d), I32 (dial_clir d)] @
     (if version < 3 then [] else uus_items (dial_uusInfo d))"

definition uus_ok :: "RIL_UUS_Info \<Rightarrow> bool" where
  "uus_ok u \<longleftrightarrow> (case uus_uusData u of None \<Rightarrow> uus_uusLength u = 0
     | Some bs \<Rightarrow> length bs < 2 ^ 30 \<and> uus_uusLength u = of_nat (length bs))"

lemma read_uus_view:
  assumes "reads_ok E V" "V p = Some (tl (uus_items (Some u)) @ r)" "uus_ok u"
  shows "read_uus E t p = Some u"
proof (cases "uus_uusData u")
  case None
  with assms(2,3) show ?thesis
    by (simp add: read_uus_def rdI32_view [OF assms(1)] uus_ok_def)
next
  case (Some bs)
  then have n: "length bs < 2 ^ 30" "uus_uusLength u = of_nat (length bs)"
    using assms(3) by (simp_all add: uus_ok_def)
  define q where "q = afterI32 E (afterI32 E (afterI32 E p))"
  have "V q = Some (Buf bs # r)"
    using assms(2) Some by (simp add: q_def rdI32_view [OF assms(1)])
  then have "fst (p_readInplace E (of_nat (length bs)) q) = Some bs"
    using n by (intro readInplace_view [OF assms(1)]) auto
  with assms(2) Some n show ?thesis
    by (auto simp: read_uus_def rdI32_view [OF assms(1)] count_size q_def split: prod.splits)
qed

text \<open>\<open>dispatchDial\<close> delivers the number, the CLIR mode and, from interface version 3 on, the
  user-to-user information; to an older vendor library it reports a structure without that field.\<close>

theorem dispatchDial_delivers:
  assumes "reads_ok E V" "jstring_ok E {dial_address d}" "dial_address d \<noteq> None"
    and "V p = Some (dial_items version d @ r)"
    and "pred_option uus_ok (dial_uusInfo d)"
  shows "dispatchDial E version p =
    (if version < 3
     then OnRequest (VDial (d\<lparr>dial_uusInfo := None\<rparr>)) (of_nat (sizeof E ''RIL_Dial'' - sizeof_ptr))
     else OnRequest (VDial d) (of_nat (sizeof E ''RIL_Dial'')))"
proof -
  note rd = rdI32_view [OF assms(1)] strdupReadString_view [OF assms(1,2)]
  show ?thesis
  proof (cases "version < 3")
    case True
    with assms(3,4) show ?thesis by (auto simp: dispatchDial_def dial_items_def rd Let_def)
  next
    case False
    show ?thesis
    proof (cases "dial_uusInfo d")
      case None
      with False assms(3,4) show ?thesis by (auto simp: dispatchDial_def dial_items_def rd Let_def)
    next
      case (Some u)
      define q where "q = afterI32 E (afterI32 E (afterStr E p))"
      have "V q = Some (tl (uus_items (Some u)) @ r)"
        using assms(4) False Some by (simp add: q_def dial_items_def rd)
      then have "read_uus E (dial_clir d) q = Some u"
        using assms(5) Some by (intro read_uus_view [OF assms(1)]) auto
      with False Some assms(3,4) show ?thesis
        by (auto simp: dispatchDial_def dial_items_def rd q_def)
    qed
  qed
qed

theorem dispatchDial_delivers_witness:
  "dispatchDial demo_env 9 ([Str (Some ''112''), I32 0, I32 1, I32 4, I32 5, I32 2, Buf [1, 2]], 0) =
     OnRequest (VDial \<lparr>dial_address = Some ''112'', dial_clir = 0, dial_uusInfo =
       Some \<lparr>uus_uusType = 4, uus_uusDcs = 5, uus_uusLength = 2, uus_uusData = Some [1, 2]\<rparr>\<rparr>) 32"
  using dispatchDial_delivers [OF demo_reads_ok demo_jstring_ok,
      of "\<lparr>dial_address = Some ''112'', dial_clir = 0, dial_uusInfo =
       Some \<lparr>uus_uusType = 4, uus_uusDcs = 5, uus_uusLength = 2, uus_uusData = Some [1, 2]\<rparr>\<rparr>"
       "([Str (Some ''112''), I32 0, I32 1, I32 4, I32 5, I32 2, Buf [1, 2]], 0)" 9 "[]"]
  by (simp add: dial_items_def uus_ok_def) (simp add: demo_env_def)

text \<open>
  What \<open>dispatchDataCall\<close> relies on besides: a seek back undoes a read, a parcel that gets a
  copy of the bytes before the position and then items holds these items behind that position,
  and \<open>readString16\<close> returns the string that was written, empty for NULL.
\<close>

definition copies_ok :: "'p env \<Rightarrow> 'p view \<Rightarrow> bool" where
  "copies_ok E V \<longleftrightarrow>
     (\<forall>p ws. V p = Some ws \<longrightarrow>
        V (p_setDataPosition E (p_dataPosition E p) (afterI32 E p)) = Some ws) \<and>
     (\<forall>p us ws. V p = Some us \<longrightarrow> V (p_setDataPosition E (p_dataPosition E p)
        (puts E ws (p_appendFrom E (afterI32 E p) 0 (p_dataPosition E p) (p_new E)))) = Some ws) \<and>
     (\<forall>p s r. V p = Some (Str s # r) \<longrightarrow> V (snd (p_readString16 E p)) = Some r \<and>
        fst (p_readString16 E p) = (case strdup8to16 E s of None \<Rightarrow> [] | Some x \<Rightarrow> x))"

lemma copy_strings_view:
  assumes "copies_ok E V"
  shows "V p = Some (map Str ss @ r) \<Longrightarrow> \<forall>s\<in>set ss. strdup8to16 E s \<noteq> None \<Longrightarrow>
    copy_strings E (length ss) p p2 = puts E (map Str ss) p2"
proof (induction ss arbitrary: p p2)
  case (Cons s ss)
  obtain x where x: "strdup8to16 E s = Some x" using Cons.prems(2) by auto
  have "V (snd (p_readString16 E p)) = Some (map Str ss @ r)" "fst (p_readString16 E p) = x"
    using assms Cons.prems(1) x unfolding copies_ok_def by fastforce+
  with Cons x show ?case
    by (cases "p_readString16 E p") (simp add: writeStringToParcel_def)
qed simp

text \<open>A vendor library of interface version below 4 gets only the first six parameters of a data
  call, the protocol type that version 4 added being cut off; a newer one gets all of them.\<close>

theorem dispatchDataCall_delivers:
  assumes "reads_ok E V" "copies_ok E V" "jstring_ok E (set ss)"
    and "V p = Some (strs_items (Some ss))" "\<forall>s\<in>set ss. strdup8to16 E s \<noteq> None"
    and "4 * length ss \<le> stack_limit E" "length ss < 2 ^ 30"
  shows "dispatchDataCall E version p =
    (let ss' = (if version < 4 then take 6 ss else ss)
     in OnRequest (VStrs ss') (of_nat (4 * length ss')))"
proof -
  define q where "q = afterI32 E p"
  have rd: "rdI32 E 0 p = (True, of_nat (length ss), q)" "V q = Some (map Str ss)"
    using assms(4) by (simp_all add: q_def rdI32_view [OF assms(1)])
  have sint: "sint (of_nat (length ss) :: i32) = int (length ss)"
    using assms(7) by (intro sint_of_nat_i32) simp
  have del: "dispatchStrings E p' = OnRequest (VStrs us) (of_nat (4 * length us))"
    if "V p' = Some (strs_items (Some us))" "set us \<subseteq> set ss" "length us \<le> length ss" for p' us
  proof -
    have "strs_size (Some us) \<le> stack_limit E" "strs_size (Some us) < 2 ^ 32"
      using that(3) assms(6,7) by auto
    moreover have "jstring_ok E (case_option {} set (Some us))"
      using jstring_ok_mono [OF assms(3) that(2)] by simp
    ultimately show ?thesis
      using dispatchStrings_view [OF assms(1), of "Some us" p' "[]"] that(1) by simp
  qed
  show ?thesis
  proof (cases "version < 4 \<and> 6 < length ss")
    case True
    let ?p2 = "p_appendFrom E q 0 (p_dataPosition E p) (p_new E)"
    have "map Str ss = map Str (take 6 ss) @ map Str (drop 6 ss)"
      by (metis append_take_drop_id map_append)
    then have "copy_strings E (length (take 6 ss)) q (p_writeInt32 E 6 ?p2) =
        puts E (map Str (take 6 ss)) (p_writeInt32 E 6 ?p2)"
      using copy_strings_view [OF assms(2)] rd(2) assms(5) by (metis in_set_takeD)
    then have "copy_strings E 6 q (p_writeInt32 E 6 ?p2) =
        puts E (strs_items (Some (take 6 ss))) ?p2"
      using True by (simp add: min_def)
    moreover have "V (p_setDataPosition E (p_dataPosition E p)
        (puts E (strs_items (Some (take 6 ss))) ?p2)) = Some (strs_items (Some (take 6 ss)))"
      using assms(2,4) unfolding copies_ok_def q_def by blast
    ultimately show ?thesis
      using True rd(1) sint del [of _ "take 6 ss"]
      by (simp add: dispatchDataCall_def numParamsRilV3_def set_take_subset)
  next
    case False
    have "V (p_setDataPosition E (p_dataPosition E p) q) = Some (strs_items (Some ss))"
      using assms(2,4) unfolding copies_ok_def q_def by blast
    then have "dispatchStrings E (p_setDataPosition E (p_dataPosition E p) q) =
        OnRequest (VStrs ss) (of_nat (4 * length ss))" by (intro del) auto
    with False rd(1) sint show ?thesis
      by (auto simp: dispatchDataCall_def numParamsRilV3_def Let_def)
  qed
qed

lemma demo_puts: "puts demo_env us (ws, length ws) = (ws @ us, length (ws @ us))"
proof (induction us arbitrary: ws)
  case (Cons u us)
  have "put demo_env u (ws, length ws) = (ws @ [u], length (ws @ [u]))"
    using demo_jstring_ok [of UNIV]
    by (cases u) (auto simp: demo_env_def writeStringToParcel_def jstring_ok_def)
  with Cons.IH [of "ws @ [u]"] show ?case by simp
qed simp

lemma demo_copies_ok: "copies_ok demo_env demo_view"
proof -
  have pos: "p_dataPosition demo_env = snd" "p_setDataPosition demo_env = (\<lambda>n p. (fst p, n))"
    "p_readInt32 demo_env = demo_readInt32"
    "p_appendFrom demo_env q 0 n (p_new demo_env) = (take n (fst q), n)" for q n
    by (simp_all add: demo_env_def)
  have keep: "fst (snd (demo_readInt32 (ws, i))) = ws" for ws i
    by (simp split: list.splits item.splits)
  show ?thesis
    unfolding copies_ok_def pos
  proof (intro conjI allI impI)
    fix p us ws assume "demo_view p = Some us"
    then obtain vs i where "p = (vs, i)" "i \<le> length vs" by (auto dest: demo_view_SomeD)
    then show "demo_view (fst (puts demo_env ws (take (snd p) (fst (snd (demo_readInt32 p))), snd p)),
        snd p) = Some ws"
      using demo_puts [of ws "take i vs"] by (simp add: keep del: demo_readInt32.simps)
  next
    fix p ws assume "demo_view p = Some ws"
    then show "demo_view (fst (snd (demo_readInt32 p)), snd p) = Some ws"
      by (cases p) (simp add: keep del: demo_readInt32.simps)
  qed (auto simp: demo_env_def drop_Suc_tail dest!: demo_view_SomeD split: option.splits prod.splits)
qed

theorem dispatchDataCall_delivers_witness:
  "dispatchDataCall demo_env 3 ([I32 9, I32 1, I32 7, Str (Some ''1''), Str (Some ''0''),
      Str (Some ''apn''), Str (Some ''u''), Str (Some ''p''), Str (Some ''3''), Str (Some ''IP'')], 2) =
   OnRequest (VStrs [Some ''1'', Some ''0'', Some ''apn'', Some ''u'', Some ''p'', Some ''3'']) 24"
  using dispatchDataCall_delivers [OF demo_reads_ok demo_copies_ok demo_jstring_ok,
     of "([I32 9, I32 1, I32 7, Str (Some ''1''), Str (Some ''0''), Str (Some ''apn''),
           Str (Some ''u''), Str (Some ''p''), Str (Some ''3''), Str (Some ''IP'')], 2)"
        "[Some ''1'', Some ''0'', Some ''apn'', Some ''u'', Some ''p'', Some ''3'', Some ''IP'']" 3]
  by (simp add: demo_env_def to16_def)

end
