(* ===== verification/Ril_Response.thy ===== *)
theory Ril_Response
  imports Ril_Dispatch
begin

text \<open>
  The response functions of \<^verbatim>\<open>libril/ril.cpp\<close>: each writes the vendor library's answer to the
  parcel that goes to the telephony process. The result of a function is the integer it
  returns together with the calls it makes on the parcel, in order; None when it reads through
  a null pointer, past the end of an array or a structure of another type.
\<close>

type_synonym resp = "(i32 \<times> item list) option"

definition invalid_resp :: "item list \<Rightarrow> resp" where
  "invalid_resp ws = Some (RIL_ERRNO_INVALID_RESPONSE, ws)"

definition ok_resp :: "item list \<Rightarrow> resp" where
  "ok_resp ws = Some (0, ws)"

text \<open>The first \<open>n\<close> elements of an array, when it has that many.\<close>

definition elems :: "nat \<Rightarrow> 'a list option \<Rightarrow> 'a list option" where
  "elems n a = (case a of None \<Rightarrow> None
     | Some xs \<Rightarrow> if n \<le> length xs then Some (take n xs) else None)"

text \<open>The array a pointer is cast to. No element can be read through NULL.\<close>

definition ints_of :: "void_ptr \<Rightarrow> i32 list option" where
  "ints_of v = (case v of VNull \<Rightarrow> Some [] | VInts xs \<Rightarrow> Some xs | _ \<Rightarrow> None)"

definition strs_of :: "void_ptr \<Rightarrow> cstr list option" where
  "strs_of v = (case v of VNull \<Rightarrow> Some [] | VStrs xs \<Rightarrow> Some xs | _ \<Rightarrow> None)"

definition bytes_of :: "void_ptr \<Rightarrow> u8 list option" where
  "bytes_of v = (case v of VNull \<Rightarrow> Some [] | VBytes xs \<Rightarrow> Some xs | _ \<Rightarrow> None)"

definition calls_of :: "void_ptr \<Rightarrow> RIL_Call list option" where
  "calls_of v = (case v of VNull \<Rightarrow> Some [] | VCalls xs \<Rightarrow> Some xs | _ \<Rightarrow> None)"

definition data4_of :: "void_ptr \<Rightarrow> RIL_Data_Call_Response_v4 list option" where
  "data4_of v = (case v of VNull \<Rightarrow> Some [] | VDataCalls4 xs \<Rightarrow> Some xs | _ \<Rightarrow> None)"

definition data6_of :: "void_ptr \<Rightarrow> RIL_Data_Call_Response_v6 list option" where
  "data6_of v = (case v of VNull \<Rightarrow> Some [] | VDataCalls6 xs \<Rightarrow> Some xs | _ \<Rightarrow> None)"

definition cffs_of :: "void_ptr \<Rightarrow> RIL_CallForwardInfo list option" where
  "cffs_of v = (case v of VNull \<Rightarrow> Some [] | VCallForwards xs \<Rightarrow> Some xs | _ \<Rightarrow> None)"

definition cells_of :: "void_ptr \<Rightarrow> RIL_NeighboringCell list option" where
  "cells_of v = (case v of VNull \<Rightarrow> Some [] | VCells xs \<Rightarrow> Some xs | _ \<Rightarrow> None)"

definition cellInfos_of :: "void_ptr \<Rightarrow> RIL_CellInfo list option" where
  "cellInfos_of v = (case v of VNull \<Rightarrow> Some [] | VCellInfos xs \<Rightarrow> Some xs | _ \<Rightarrow> None)"

definition gsmBcis_of :: "void_ptr \<Rightarrow> RIL_GSM_BroadcastSmsConfigInfo list option" where
  "gsmBcis_of v = (case v of VNull \<Rightarrow> Some [] | VGsmBci xs \<Rightarrow> Some xs | _ \<Rightarrow> None)"

definition cdmaBcis_of :: "void_ptr \<Rightarrow> RIL_CDMA_BroadcastSmsConfigInfo list option" where
  "cdmaBcis_of v = (case v of VNull \<Rightarrow> Some [] | VCdmaBci xs \<Rightarrow> Some xs | _ \<Rightarrow> None)"

text \<open>
  The two checks most functions start with: a null pointer with a length, and a length that
  is not a multiple of the element size. \<open>array_resp\<close> is then the count of elements
  followed by what \<open>f\<close> writes for each.
\<close>

definition array_resp :: "'a list option \<Rightarrow> ('a \<Rightarrow> item list option) \<Rightarrow> void_ptr \<Rightarrow> size_t \<Rightarrow> nat \<Rightarrow> resp" where
  "array_resp a f response responselen sz =
     (if response = VNull \<and> responselen \<noteq> 0 then invalid_resp []
      else if unat responselen mod sz \<noteq> 0 then invalid_resp []
      else let num = unat responselen div sz in
        case elems num a of None \<Rightarrow> None
        | Some xs \<Rightarrow> (case those (map f xs) of None \<Rightarrow> None
            | Some wss \<Rightarrow> ok_resp (I32 (of_nat num) # concat wss)))"

section \<open>Integers and strings\<close>

definition responseInts :: "void_ptr \<Rightarrow> size_t \<Rightarrow> resp" where
  "responseInts response responselen =
     array_resp (ints_of response) (\<lambda>i. Some [I32 i]) response responselen sizeof_int"

text \<open>The loop with \<open>sCount\<close> that leaves out every fifth string.\<close>

fun drop_fifth :: "nat \<Rightarrow> cstr list \<Rightarrow> cstr list" where
  "drop_fifth sCount [] = []"
| "drop_fifth sCount (s # ss) =
     (if Suc sCount mod 5 = 0 then drop_fifth 0 ss else s # drop_fifth (Suc sCount) ss)"

definition responseStrings_search :: "'p env \<Rightarrow> void_ptr \<Rightarrow> size_t \<Rightarrow> bool \<Rightarrow> resp" where
  "responseStrings_search E response responselen network_search =
     (if response = VNull \<and> responselen \<noteq> 0 then invalid_resp []
      else if unat responselen mod sizeof_ptr \<noteq> 0 then invalid_resp []
      else if response = VNull then ok_resp [I32 0]
      else let numStrings = unat responselen div sizeof_ptr;
               skip = NEW_LIBRIL_HTC E \<and> network_search
        in case elems numStrings (strs_of response) of None \<Rightarrow> None
           | Some ss \<Rightarrow> ok_resp
               (I32 (of_nat (if skip then numStrings - numStrings div 5 else numStrings)) #
                map Str (if skip then drop_fifth 0 ss else ss)))"

definition responseStrings :: "'p env \<Rightarrow> void_ptr \<Rightarrow> size_t \<Rightarrow> resp" where
  "responseStrings E response responselen = responseStrings_search E response responselen False"

definition responseStringsNetworks :: "'p env \<Rightarrow> void_ptr \<Rightarrow> size_t \<Rightarrow> resp" where
  "responseStringsNetworks E response responselen =
     responseStrings_search E response responselen True"

definition prefix_resp :: "item list \<Rightarrow> resp \<Rightarrow> resp" where
  "prefix_resp ws r = (case r of None \<Rightarrow> None | Some (ret, us) \<Rightarrow> Some (ret, ws @ us))"

definition responseStringsWithVersion :: "'p env \<Rightarrow> int \<Rightarrow> void_ptr \<Rightarrow> size_t \<Rightarrow> resp" where
  "responseStringsWithVersion E version response responselen =
     prefix_resp [I32 (of_int version)] (responseStrings E response responselen)"

definition responseString :: "void_ptr \<Rightarrow> resp" where
  "responseString response =
     (case response of VNull \<Rightarrow> ok_resp [Str None] | VStr s \<Rightarrow> ok_resp [Str (Some s)] | _ \<Rightarrow> None)"

definition responseVoid :: resp where
  "responseVoid = ok_resp []"

section \<open>Calls and messages\<close>

definition call_items :: "int \<Rightarrow> RIL_Call \<Rightarrow> item list option" where
  "call_items version c =
     (let hdr = [I32 (call_state c), I32 (call_index c), I32 (call_toa c), I32 (call_isMpty c),
            I32 (call_isMT c), I32 (call_als c), I32 (call_isVoice c), I32 (call_isVoicePrivacy c),
            Str (call_number c), I32 (call_numberPresentation c), Str (call_name c),
            I32 (call_namePresentation c)]
      in if version < 3 then Some (hdr @ [I32 0])
         else case call_uusInfo c of
             None \<Rightarrow> Some (hdr @ [I32 0])
           | Some u \<Rightarrow> (case uus_uusData u of
               None \<Rightarrow> Some (hdr @ [I32 0])
             | Some bs \<Rightarrow>
                 (case elems (unat (uus_uusLength u)) (Some bs) of None \<Rightarrow> None
                  | Some b \<Rightarrow> Some (hdr @ [I32 1, I32 (uus_uusType u), I32 (uus_uusDcs u),
                      I32 (uus_uusLength u), Buf b]))))"

definition responseCallList :: "int \<Rightarrow> void_ptr \<Rightarrow> size_t \<Rightarrow> resp" where
  "responseCallList version response responselen =
     array_resp (calls_of response) (call_items version) response responselen sizeof_ptr"

definition responseSMS :: "'p env \<Rightarrow> void_ptr \<Rightarrow> size_t \<Rightarrow> resp" where
  "responseSMS E response responselen =
     (if response = VNull then invalid_resp []
      else if unat responselen \<noteq> sizeof E ''RIL_SMS_Response'' then invalid_resp []
      else case response of
          VSmsResponse p_cur \<Rightarrow> ok_resp [I32 (sr_messageRef p_cur), Str (sr_ackPDU p_cur),
            I32 (sr_errorCode p_cur)]
        | _ \<Rightarrow> None)"

definition responseDataCallListV4 :: "'p env \<Rightarrow> void_ptr \<Rightarrow> size_t \<Rightarrow> resp" where
  "responseDataCallListV4 E response responselen =
     array_resp (data4_of response)
       (\<lambda>d. Some [I32 (dc4_cid d), I32 (dc4_active d), Str (dc4_type d), Str (dc4_address d)])
       response responselen (sizeof E ''RIL_Data_Call_Response_v4'')"

definition data6_items :: "'p env \<Rightarrow> RIL_Data_Call_Response_v6 \<Rightarrow> item list" where
  "data6_items E d = [I32 (dc6_status d)] @
     (if HCRADIO E then [] else [I32 (dc6_suggestedRetryTime d)]) @
     [I32 (dc6_cid d), I32 (dc6_active d), Str (dc6_type d), Str (dc6_ifname d),
      Str (dc6_addresses d), Str (dc6_dnses d), Str (dc6_gateways d)]"

definition responseDataCallList :: "'p env \<Rightarrow> int \<Rightarrow> void_ptr \<Rightarrow> size_t \<Rightarrow> resp" where
  "responseDataCallList E version response responselen =
     prefix_resp [I32 (of_int version)]
       (if version < 5 then responseDataCallListV4 E response responselen
        else array_resp (data6_of response) (\<lambda>d. Some (data6_items E d)) response responselen
               (sizeof E ''RIL_Data_Call_Response_v6''))"

definition responseSetupDataCall :: "'p env \<Rightarrow> int \<Rightarrow> void_ptr \<Rightarrow> size_t \<Rightarrow> resp" where
  "responseSetupDataCall E version response responselen =
     (if version < 5 then responseStringsWithVersion E version response responselen
      else responseDataCallList E version response responselen)"

definition responseRaw :: "void_ptr \<Rightarrow> size_t \<Rightarrow> resp" where
  "responseRaw response responselen =
     (if response = VNull \<and> responselen \<noteq> 0 then invalid_resp []
      else if response = VNull then ok_resp [I32 (- 1)]
      else case elems (unat responselen) (bytes_of response) of None \<Rightarrow> None
        | Some bs \<Rightarrow> ok_resp [I32 responselen, Buf bs])"

definition responseSIM_IO :: "'p env \<Rightarrow> void_ptr \<Rightarrow> size_t \<Rightarrow> resp" where
  "responseSIM_IO E response responselen =
     (if response = VNull then invalid_resp []
      else if unat responselen \<noteq> sizeof E ''RIL_SIM_IO_Response'' then invalid_resp []
      else case response of
          VSimIOResponse p_cur \<Rightarrow> ok_resp [I32 (sior_sw1 p_cur), I32 (sior_sw2 p_cur),
            Str (sior_simResponse p_cur)]
        | _ \<Rightarrow> None)"

definition responseCallForwards :: "void_ptr \<Rightarrow> size_t \<Rightarrow> resp" where
  "responseCallForwards response responselen =
     array_resp (cffs_of response) (\<lambda>c. Some (cff_items c)) response responselen sizeof_ptr"

definition responseSsn :: "'p env \<Rightarrow> void_ptr \<Rightarrow> size_t \<Rightarrow> resp" where
  "responseSsn E response responselen =
     (if response = VNull then invalid_resp []
      else if unat responselen \<noteq> sizeof E ''RIL_SuppSvcNotification'' then invalid_resp []
      else case response of
          VSsn p_cur \<Rightarrow> ok_resp [I32 (ssn_notificationType p_cur), I32 (ssn_code p_cur),
            I32 (ssn_index p_cur), I32 (ssn_type p_cur), Str (ssn_number p_cur)]
        | _ \<Rightarrow> None)"

definition responseCellList :: "void_ptr \<Rightarrow> size_t \<Rightarrow> resp" where
  "responseCellList response responselen =
     array_resp (cells_of response) (\<lambda>c. Some [I32 (nc_rssi c), Str (nc_cid c)])
       response responselen sizeof_ptr"

section \<open>CDMA information records\<close>

definition marshallSignalInfoRecord :: "RIL_CDMA_SignalInfoRecord \<Rightarrow> item list" where
  "marshallSignalInfoRecord s = [I32 (sig_isPresent s), I32 (sig_signalType s),
     I32 (sig_alertPitch s), I32 (sig_signal s)]"

text \<open>The copy of the first \<open>len\<close> characters, read as a C string.\<close>

definition copied_str :: "u8 \<Rightarrow> string \<Rightarrow> cstr option" where
  "copied_str len buf = (case elems (unat len) (Some buf) of None \<Rightarrow> None
     | Some cs \<Rightarrow> Some (Some (takeWhile (\<lambda>c. c \<noteq> CHR 0x00) cs)))"

text \<open>
  One record: the items it writes, and whether the function goes on with the next record or
  returns \<open>RIL_ERRNO_INVALID_RESPONSE\<close>.
\<close>

definition number_items :: "cdma_number \<Rightarrow> item list option" where
  "number_items n = (case copied_str (num_len n) (num_buf n) of None \<Rightarrow> None
     | Some s \<Rightarrow> Some [Str s, I32 (num_number_type n), I32 (num_number_plan n), I32 (num_pi n),
         I32 (num_si n)])"

definition go :: "item list option \<Rightarrow> (bool \<times> item list) option" where
  "go a = map_option (\<lambda>ws. (True, ws)) a"

definition infoRec_items :: "'p env \<Rightarrow> RIL_CDMA_InformationRecord \<Rightarrow> (bool \<times> item list) option" where
  "infoRec_items E r =
     (let name = ir_name r; alpha_max = K E ''CDMA_ALPHA_INFO_BUFFER_LENGTH'';
          number_max = K E ''CDMA_NUMBER_INFO_BUFFER_LENGTH''
      in if name = K E ''RIL_CDMA_EXTENDED_DISPLAY_INFO_REC'' then
           (case ir_rec r of RecDisplay len buf \<Rightarrow>
              if unat len > unat alpha_max then Some (False, [])
              else go (map_option (\<lambda>cs. [I32 (ucast len), Buf (map of_char cs)])
                        (elems (unat len) (Some buf)))
            | _ \<Rightarrow> None)
         else if name = K E ''RIL_CDMA_DISPLAY_INFO_REC'' then
           (case ir_rec r of RecDisplay len buf \<Rightarrow>
              if unat len > unat alpha_max then Some (False, [])
              else go (map_option (\<lambda>s. [Str s]) (copied_str len buf))
            | _ \<Rightarrow> None)
         else if name \<in> {K E ''RIL_CDMA_CALLED_PARTY_NUMBER_INFO_REC'',
                K E ''RIL_CDMA_CALLING_PARTY_NUMBER_INFO_REC'',
                K E ''RIL_CDMA_CONNECTED_NUMBER_INFO_REC''} then
           (case ir_rec r of RecNumber n \<Rightarrow>
              if unat (num_len n) > unat number_max then Some (False, []) else go (number_items n)
            | _ \<Rightarrow> None)
         else if name = K E ''RIL_CDMA_SIGNAL_INFO_REC'' then
           (case ir_rec r of RecSignal s \<Rightarrow> Some (True, marshallSignalInfoRecord s) | _ \<Rightarrow> None)
         else if name = K E ''RIL_CDMA_REDIRECTING_NUMBER_INFO_REC'' then
           (case ir_rec r of RecRedir n reason \<Rightarrow>
              if unat (num_len n) > unat number_max then Some (False, [])
              else go (map_option (\<lambda>ws. ws @ [I32 reason]) (number_items n))
            | _ \<Rightarrow> None)
         else if name = K E ''RIL_CDMA_LINE_CONTROL_INFO_REC'' then
           (case ir_rec r of RecLineCtrl a b c d \<Rightarrow> Some (True, [I32 a, I32 b, I32 c, I32 d])
            | _ \<Rightarrow> None)
         else if name = K E ''RIL_CDMA_T53_CLIR_INFO_REC'' then
           (case ir_rec r of RecClir cause \<Rightarrow> Some (True, [I32 cause]) | _ \<Rightarrow> None)
         else if name = K E ''RIL_CDMA_T53_AUDIO_CONTROL_INFO_REC'' then
           (case ir_rec r of RecAudioCtrl up down \<Rightarrow> Some (True, [I32 up, I32 down]) | _ \<Rightarrow> None)
         else Some (False, []))"

fun infoRecs_loop :: "'p env \<Rightarrow> RIL_CDMA_InformationRecord list \<Rightarrow> resp" where
  "infoRecs_loop E [] = ok_resp []"
| "infoRecs_loop E (r # rs) =
     (case infoRec_items E r of None \<Rightarrow> None
      | Some (False, ws) \<Rightarrow> invalid_resp (I32 (ir_name r) # ws)
      | Some (True, ws) \<Rightarrow> prefix_resp (I32 (ir_name r) # ws) (infoRecs_loop E rs))"

definition responseCdmaInformationRecords :: "'p env \<Rightarrow> void_ptr \<Rightarrow> size_t \<Rightarrow> resp" where
  "responseCdmaInformationRecords E response responselen =
     (if response = VNull \<and> responselen \<noteq> 0 then invalid_resp []
      else if unat responselen \<noteq> sizeof E ''RIL_CDMA_InformationRecords'' then invalid_resp []
      else case response of VInfoRecs n infoRec \<Rightarrow>
          let num = min (sint n) (sint (K E ''RIL_CDMA_MAX_NUMBER_OF_INFO_RECS'')) in
          (case elems (nat num) (Some infoRec) of None \<Rightarrow> None
           | Some rs \<Rightarrow> prefix_resp [I32 (of_int num)] (infoRecs_loop E rs))
        | _ \<Rightarrow> None)"

section \<open>Signal strength\<close>

text \<open>The fix-up of the LTE part for vendor libraries up to version 6, done in place.\<close>

definition lte_fixup :: "RIL_SignalStrength \<Rightarrow> RIL_SignalStrength" where
  "lte_fixup c =
     (let c = (if lte_signalStrength c = - 1 then c\<lparr>lte_signalStrength := 99\<rparr> else c);
          c = (if lte_rsrp c = - 1 then c\<lparr>lte_rsrp := INT_MAX\<rparr>
               else if sint (lte_rsrp c) < - 1 then c\<lparr>lte_rsrp := - lte_rsrp c\<rparr> else c);
          c = (if lte_rsrq c = - 1 then c\<lparr>lte_rsrq := INT_MAX\<rparr> else c);
          c = (if lte_cqi c = - 1 then c\<lparr>lte_cqi := INT_MAX\<rparr> else c)
      in c)"

definition lte_items :: "'p env \<Rightarrow> int \<Rightarrow> RIL_SignalStrength \<Rightarrow> size_t \<Rightarrow> item list" where
  "lte_items E version c responselen =
     (if unat responselen \<ge> sizeof E ''RIL_SignalStrength_v6'' then
        (let c = (if version \<le> 6 then lte_fixup c else c) in
         [I32 (lte_signalStrength c), I32 (lte_rsrp c), I32 (lte_rsrq c), I32 (lte_rssnr c),
          I32 (lte_cqi c)] @
         (if unat responselen \<ge> sizeof E ''RIL_SignalStrength_v8'' then
            [I32 (lte_timingAdvance c),
             I32 (if unat responselen \<ge> sizeof E ''RIL_SignalStrength_v9_CAF'' then tdscdma_rscp c
                  else INT_MAX)]
          else [I32 INT_MAX, I32 INT_MAX]))
      else [I32 99, I32 INT_MAX, I32 INT_MAX, I32 INT_MAX, I32 INT_MAX, I32 INT_MAX, I32 INT_MAX])"

definition responseRilSignalStrength :: "'p env \<Rightarrow> int \<Rightarrow> void_ptr \<Rightarrow> size_t \<Rightarrow> resp" where
  "responseRilSignalStrength E version response responselen =
     (if response = VNull \<and> responselen \<noteq> 0 then invalid_resp []
      else if unat responselen \<ge> sizeof E ''RIL_SignalStrength_v5'' then
        (case response of VSignal c \<Rightarrow>
           ok_resp ([I32 (gw_signalStrength c), I32 (gw_bitErrorRate c), I32 (cdma_dbm c),
             I32 (cdma_ecio c), I32 (evdo_dbm c), I32 (evdo_ecio c), I32 (evdo_signalNoiseRatio c)] @
             lte_items E version c responselen)
         | _ \<Rightarrow> None)
      else invalid_resp [])"

definition responseCdmaSignalInfoRecord :: "'p env \<Rightarrow> void_ptr \<Rightarrow> size_t \<Rightarrow> resp" where
  "responseCdmaSignalInfoRecord E response responselen =
     (if response = VNull \<or> responselen = 0 then invalid_resp []
      else if unat responselen \<noteq> sizeof E ''RIL_CDMA_SignalInfoRecord'' then invalid_resp []
      else case response of VSignalInfo s \<Rightarrow> ok_resp (marshallSignalInfoRecord s) | _ \<Rightarrow> None)"

definition responseCallRing :: "'p env \<Rightarrow> void_ptr \<Rightarrow> size_t \<Rightarrow> resp" where
  "responseCallRing E response responselen =
     (if response = VNull \<or> responselen = 0 then responseVoid
      else responseCdmaSignalInfoRecord E response responselen)"

definition responseCdmaCallWaiting :: "'p env \<Rightarrow> void_ptr \<Rightarrow> size_t \<Rightarrow> resp" where
  "responseCdmaCallWaiting E response responselen =
     (if response = VNull \<and> responselen \<noteq> 0 then invalid_resp []
      else case response of VCallWaiting c \<Rightarrow>
          ok_resp ([Str (cwt_number c), I32 (cwt_numberPresentation c), Str (cwt_name c)] @
            marshallSignalInfoRecord (cwt_signalInfoRecord c) @
            (if unat responselen \<ge> sizeof E ''RIL_CDMA_CallWaiting_v6''
             then [I32 (cwt_number_type c), I32 (cwt_number_plan c)] else [I32 0, I32 0]))
        | _ \<Rightarrow> None)"

definition responseSimRefresh :: "int \<Rightarrow> void_ptr \<Rightarrow> size_t \<Rightarrow> resp" where
  "responseSimRefresh version response responselen =
     (if response = VNull \<and> responselen \<noteq> 0 then invalid_resp []
      else if version \<ge> 7 then
        (case response of VSimRefresh c \<Rightarrow>
           ok_resp [I32 (ref_result c), I32 (ref_ef_id c), Str (ref_aid c)] | _ \<Rightarrow> None)
      else case response of VInts (a # b # _) \<Rightarrow> ok_resp [I32 a, I32 b, Str None] | _ \<Rightarrow> None)"

section \<open>Cell information and supplementary services\<close>

definition gsm_items :: "RIL_CellInfoGsm \<Rightarrow> item list" where
  "gsm_items c = [I32 (gsm_mcc c), I32 (gsm_mnc c), I32 (gsm_lac c), I32 (gsm_cid c),
     I32 (gsm_signalStrength c), I32 (gsm_bitErrorRate c)]"

definition wcdma_items :: "RIL_CellInfoWcdma \<Rightarrow> item list" where
  "wcdma_items c = [I32 (wcdma_mcc c), I32 (wcdma_mnc c), I32 (wcdma_lac c), I32 (wcdma_cid c),
     I32 (wcdma_psc c), I32 (wcdma_signalStrength c), I32 (wcdma_bitErrorRate c)]"

definition cdma_items :: "RIL_CellInfoCdma \<Rightarrow> item list" where
  "cdma_items c = [I32 (cdmac_networkId c), I32 (cdmac_systemId c),
     I32 (cdmac_basestationId c), I32 (cdmac_longitude c), I32 (cdmac_latitude c),
     I32 (cdmac_dbm c), I32 (cdmac_ecio c), I32 (cdmac_evdo_dbm c), I32 (cdmac_evdo_ecio c),
     I32 (cdmac_evdo_signalNoiseRatio c)]"

definition lte_cell_items :: "RIL_CellInfoLte \<Rightarrow> item list" where
  "lte_cell_items c = [I32 (ltec_mcc c), I32 (ltec_mnc c), I32 (ltec_ci c), I32 (ltec_pci c),
     I32 (ltec_tac c), I32 (ltec_signalStrength c), I32 (ltec_rsrp c), I32 (ltec_rsrq c),
     I32 (ltec_rssnr c), I32 (ltec_cqi c), I32 (ltec_timingAdvance c)]"

definition cell_items :: "'p env \<Rightarrow> RIL_CellInfo \<Rightarrow> item list option" where
  "cell_items E c =
     (let hdr = [I32 (ci_cellInfoType c), I32 (ci_registered c), I32 (ci_timeStampType c),
                 I64 (ci_timeStamp c)];
          ty = ci_cellInfoType c
      in if ty = K E ''RIL_CELL_INFO_TYPE_GSM'' then
           (case ci_CellInfo c of CellGsm g \<Rightarrow> Some (hdr @ gsm_items g) | _ \<Rightarrow> None)
         else if ty = K E ''RIL_CELL_INFO_TYPE_WCDMA'' then
           (case ci_CellInfo c of CellWcdma w \<Rightarrow> Some (hdr @ wcdma_items w) | _ \<Rightarrow> None)
         else if ty = K E ''RIL_CELL_INFO_TYPE_CDMA'' then
           (case ci_CellInfo c of CellCdma d \<Rightarrow> Some (hdr @ cdma_items d) | _ \<Rightarrow> None)
         else if ty = K E ''RIL_CELL_INFO_TYPE_LTE'' then
           (case ci_CellInfo c of CellLte l \<Rightarrow> Some (hdr @ lte_cell_items l) | _ \<Rightarrow> None)
         else Some hdr)"

definition responseCellInfoList :: "'p env \<Rightarrow> void_ptr \<Rightarrow> size_t \<Rightarrow> resp" where
  "responseCellInfoList E response responselen =
     array_resp (cellInfos_of response) (cell_items E) response responselen
       (sizeof E ''RIL_CellInfo'')"

definition isServiceTypeCfQuery :: "'p env \<Rightarrow> i32 \<Rightarrow> i32 \<Rightarrow> bool" where
  "isServiceTypeCfQuery E serType reqType \<longleftrightarrow>
     reqType = K E ''SS_INTERROGATION'' \<and>
     serType \<in> set (map (K E) [''SS_CFU'', ''SS_CF_BUSY'', ''SS_CF_NO_REPLY'',
       ''SS_CF_NOT_REACHABLE'', ''SS_CF_ALL'', ''SS_CF_ALL_CONDITIONAL''])"

text \<open>The number of forwarding entries is cut to the size of the array, in place.\<close>

definition valid_indexes :: "'p env \<Rightarrow> i32 \<Rightarrow> i32" where
  "valid_indexes E n =
     (if sint n > sint (K E ''NUM_SERVICE_CLASSES'') then K E ''NUM_SERVICE_CLASSES'' else n)"

definition responseSSData :: "'p env \<Rightarrow> void_ptr \<Rightarrow> size_t \<Rightarrow> resp" where
  "responseSSData E response responselen =
     (if response = VNull \<and> responselen \<noteq> 0 then invalid_resp []
      else if unat responselen \<noteq> sizeof E ''RIL_StkCcUnsolSsResponse'' then invalid_resp []
      else case response of VSSData c \<Rightarrow>
          prefix_resp [I32 (ss_serviceType c), I32 (ss_requestType c), I32 (ss_teleserviceType c),
              I32 (ss_serviceClass c), I32 (ss_result c)]
            (if isServiceTypeCfQuery E (ss_serviceType c) (ss_requestType c) then
               let n = valid_indexes E (ss_numValidIndexes c) in
               (case elems (nat (sint n)) (Some (ss_cfInfo c)) of None \<Rightarrow> None
                | Some cfs \<Rightarrow> ok_resp (I32 n # concat (map cff_items cfs)))
             else
               (case elems (unat (K E ''SS_INFO_MAX'')) (Some (ss_ssInfo c)) of None \<Rightarrow> None
                | Some is \<Rightarrow> ok_resp (I32 (K E ''SS_INFO_MAX'') # map I32 is)))
        | _ \<Rightarrow> None)"

section \<open>SIM status\<close>

definition app_items :: "RIL_AppStatus \<Rightarrow> item list" where
  "app_items a = [I32 (as_app_type a), I32 (as_app_state a), I32 (as_perso_substate a),
     Str (as_aid_ptr a), Str (as_app_label_ptr a), I32 (as_pin1_replaced a), I32 (as_pin1 a),
     I32 (as_pin2 a)]"

definition sendSimStatusAppInfo :: "i32 \<Rightarrow> RIL_AppStatus list \<Rightarrow> resp" where
  "sendSimStatusAppInfo num_apps appStatus =
     (case elems (nat (sint num_apps)) (Some appStatus) of None \<Rightarrow> None
      | Some as \<Rightarrow> ok_resp (I32 num_apps # concat (map app_items as)))"

definition responseSimStatus :: "'p env \<Rightarrow> void_ptr \<Rightarrow> size_t \<Rightarrow> resp" where
  "responseSimStatus E response responselen =
     (if response = VNull \<and> responselen \<noteq> 0 then invalid_resp []
      else if unat responselen = sizeof E ''RIL_CardStatus_v6'' then
        (case response of VCardStatus c \<Rightarrow>
           prefix_resp [I32 (cs_card_state c), I32 (cs_universal_pin_state c),
               I32 (cs_gsm_umts_subscription_app_index c), I32 (cs_cdma_subscription_app_index c),
               I32 (cs_ims_subscription_app_index c)]
             (sendSimStatusAppInfo (cs_num_applications c) (cs_applications c))
         | _ \<Rightarrow> None)
      else if unat responselen = sizeof E ''RIL_CardStatus_v5'' then
        (case response of VCardStatus c \<Rightarrow>
           prefix_resp [I32 (cs_card_state c), I32 (cs_universal_pin_state c),
               I32 (cs_gsm_umts_subscription_app_index c), I32 (cs_cdma_subscription_app_index c),
               I32 (- 1)]
             (sendSimStatusAppInfo (cs_num_applications c) (cs_applications c))
         | _ \<Rightarrow> None)
      else invalid_resp [])"

section \<open>Broadcast configurations and CDMA messages\<close>

definition gsmBci_items :: "RIL_GSM_BroadcastSmsConfigInfo \<Rightarrow> item list" where
  "gsmBci_items b = [I32 (gbc_fromServiceId b), I32 (gbc_toServiceId b),
     I32 (gbc_fromCodeScheme b), I32 (gbc_toCodeScheme b), I32 (ucast (gbc_selected b))]"

definition responseGsmBrSmsCnf :: "void_ptr \<Rightarrow> size_t \<Rightarrow> resp" where
  "responseGsmBrSmsCnf response responselen =
     (let num = unat responselen div sizeof_ptr in
      case elems num (gsmBcis_of response) of None \<Rightarrow> None
      | Some bs \<Rightarrow> ok_resp (I32 (of_nat num) # concat (map gsmBci_items bs)))"

definition cdmaBci_items :: "RIL_CDMA_BroadcastSmsConfigInfo \<Rightarrow> item list" where
  "cdmaBci_items b =
     [I32 (cbc_service_category b), I32 (cbc_language b), I32 (ucast (cbc_selected b))]"

definition responseCdmaBrSmsCnf :: "void_ptr \<Rightarrow> size_t \<Rightarrow> resp" where
  "responseCdmaBrSmsCnf response responselen =
     (let num = unat responselen div sizeof_ptr in
      case elems num (cdmaBcis_of response) of None \<Rightarrow> None
      | Some bs \<Rightarrow> ok_resp (I32 (of_nat num) # concat (map cdmaBci_items bs)))"

text \<open>A run of \<open>p.write(&digits[digitCount], sizeof(uct))\<close>.\<close>

definition byte_items :: "u8 list \<Rightarrow> item list" where
  "byte_items bs = map (\<lambda>b. Buf [b]) bs"

definition responseCdmaSms :: "'p env \<Rightarrow> void_ptr \<Rightarrow> size_t \<Rightarrow> resp" where
  "responseCdmaSms E response responselen =
     (if response = VNull \<and> responselen \<noteq> 0 then invalid_resp []
      else if unat responselen \<noteq> sizeof E ''RIL_CDMA_SMS_Message'' then invalid_resp []
      else case response of VCdmaSms m \<Rightarrow>
        let a = sms_sAddress m; sa = sms_sSubAddress m;
            n1 = min (unat (sa_number_of_digits a)) (ADDRESS_MAX E);
            n2 = min (unat (ssa_number_of_digits sa)) (SUBADDRESS_MAX E);
            n3 = nat (min (sint (sms_uBearerDataLen m)) (int (BEARER_DATA_MAX E)))
        in (case (elems n1 (Some (sa_digits a)), elems n2 (Some (ssa_digits sa)),
                  elems n3 (Some (sms_aBearerData m))) of
              (Some d1, Some d2, Some d3) \<Rightarrow>
                ok_resp ([I32 (sms_uTeleserviceID m), Buf [sms_bIsServicePresent m],
                  I32 (sms_uServicecategory m), I32 (sa_digit_mode a), I32 (sa_number_mode a),
                  I32 (sa_number_type a), I32 (sa_number_plan a), Buf [sa_number_of_digits a]] @
                  byte_items d1 @
                  [I32 (ssa_subaddressType sa), Buf [ssa_odd sa], Buf [ssa_number_of_digits sa]] @
                  byte_items d2 @ [I32 (sms_uBearerDataLen m)] @ byte_items d3)
            | _ \<Rightarrow> None)
      | _ \<Rightarrow> None)"

text \<open>The comparison of the count with the room of the buffer is one of unsigned integers.\<close>

definition responseGetDataCallProfile :: "'p env \<Rightarrow> void_ptr \<Rightarrow> size_t \<Rightarrow> resp" where
  "responseGetDataCallProfile E response responselen =
     (if response = VNull \<and> responselen \<noteq> 0 then invalid_resp []
      else case response of VProfiles n infos \<Rightarrow>
          let room = unat responselen div sizeof E ''RIL_DataCallProfileInfo'';
              num = (if unat n > room then of_nat room else n)
          in (case elems (nat (sint num)) (Some infos) of None \<Rightarrow> None
              | Some is \<Rightarrow> ok_resp (I32 num # concat (map (\<lambda>(i, pr). [I32 i, I32 pr]) is)))
        | _ \<Rightarrow> None)"

section \<open>Lemmas\<close>

lemmas resp_defs = ok_resp_def invalid_resp_def prefix_resp_def RIL_ERRNO_INVALID_RESPONSE_def

lemma elems_Some: "elems n (Some xs) = Some ys \<longleftrightarrow> n \<le> length xs \<and> ys = take n xs"
  by (auto simp: elems_def)

lemma length_drop_fifth: "sCount < 5 \<Longrightarrow>
    length (drop_fifth sCount ss) = length ss - (length ss + sCount) div 5"
proof (induction sCount ss rule: drop_fifth.induct)
  case (2 sCount s ss)
  show ?case
  proof (cases "Suc sCount mod 5 = 0")
    case True
    with 2 have "sCount = 4" by (auto simp: mod_Suc split: if_splits)
    with 2(1) True show ?thesis by (simp add: Suc_diff_le)
  next
    case False
    then have "Suc sCount < 5" using 2(3) by (cases "sCount = 4") auto
    with 2(2) False show ?thesis by (simp add: Suc_diff_le)
  qed
qed simp

lemma rdBytes_items:
  assumes "reads_ok E V" "V p = Some (byte_items bs @ r)"
  obtains u' p' where "rdBytes E (length bs) True u p = (True, u', bs, p')" "V p' = Some r"
  using rdBytes_view [OF assms(1), of p bs r True u] assms(2) by (auto simp: byte_items_def)

text \<open>A message with the bytes behind the counts cleared.\<close>

definition sms_normal :: "'p env \<Rightarrow> RIL_CDMA_SMS_Message \<Rightarrow> RIL_CDMA_SMS_Message" where
  "sms_normal E m =
     (let a = sms_sAddress m; sa = sms_sSubAddress m in
      m\<lparr>sms_sAddress := a\<lparr>sa_digits := pad0 (ADDRESS_MAX E)
            (take (min (unat (sa_number_of_digits a)) (ADDRESS_MAX E)) (sa_digits a))\<rparr>,
        sms_sSubAddress := sa\<lparr>ssa_digits := pad0 (SUBADDRESS_MAX E)
            (take (min (unat (ssa_number_of_digits sa)) (SUBADDRESS_MAX E)) (ssa_digits sa))\<rparr>,
        sms_aBearerData := pad0 (BEARER_DATA_MAX E)
            (take (nat (min (sint (sms_uBearerDataLen m)) (int (BEARER_DATA_MAX E))))
              (sms_aBearerData m))\<rparr>)"

lemma constructCdmaSms_view:
  assumes "reads_ok E V" "responseCdmaSms E (VCdmaSms m) len = Some (0, ws)" "V p = Some (ws @ r)"
  shows "constructCdmaSms E p = Some (sms_normal E m)"
proof -
  note rd = rdI32_view [OF assms(1)] rdU8_view [OF assms(1)]
  let ?a = "sms_sAddress m" and ?s = "sms_sSubAddress m"
  define d1 where "d1 = take (min (unat (sa_number_of_digits ?a)) (ADDRESS_MAX E)) (sa_digits ?a)"
  define d2 where "d2 = take (min (unat (ssa_number_of_digits ?s)) (SUBADDRESS_MAX E)) (ssa_digits ?s)"
  define d3 where "d3 = take (nat (min (sint (sms_uBearerDataLen m)) (int (BEARER_DATA_MAX E))))
    (sms_aBearerData m)"
  have len: "min (unat (sa_number_of_digits ?a)) (ADDRESS_MAX E) = length d1"
    "min (unat (ssa_number_of_digits ?s)) (SUBADDRESS_MAX E) = length d2"
    "nat (min (sint (sms_uBearerDataLen m)) (int (BEARER_DATA_MAX E))) = length d3"
    and ws: "ws = [I32 (sms_uTeleserviceID m), Buf [sms_bIsServicePresent m],
      I32 (sms_uServicecategory m), I32 (sa_digit_mode ?a), I32 (sa_number_mode ?a),
      I32 (sa_number_type ?a), I32 (sa_number_plan ?a), Buf [sa_number_of_digits ?a]] @
      byte_items d1 @
      [I32 (ssa_subaddressType ?s), Buf [ssa_odd ?s], Buf [ssa_number_of_digits ?s]] @
      byte_items d2 @ [I32 (sms_uBearerDataLen m)] @ byte_items d3"
    using assms(2)
    by (auto simp: responseCdmaSms_def resp_defs Let_def elems_Some d1_def d2_def d3_def
        split: if_splits option.splits)
  define p1 where "p1 = afterRead E (Suc 0) (afterI32 E (afterI32 E (afterI32 E (afterI32 E
    (afterI32 E (afterRead E (Suc 0) (afterI32 E p)))))))"
  have "V p1 = Some (byte_items d1 @ [I32 (ssa_subaddressType ?s), Buf [ssa_odd ?s],
      Buf [ssa_number_of_digits ?s]] @ byte_items d2 @ [I32 (sms_uBearerDataLen m)] @
      byte_items d3 @ r)"
    using assms(3) ws by (simp add: p1_def rd)
  then obtain u2 p2 where r1: "rdBytes E (length d1) True (sa_number_of_digits ?a) p1 = (True, u2, d1, p2)"
      "V p2 = Some ([I32 (ssa_subaddressType ?s), Buf [ssa_odd ?s], Buf [ssa_number_of_digits ?s]] @
        byte_items d2 @ [I32 (sms_uBearerDataLen m)] @ byte_items d3 @ r)"
    by (rule rdBytes_items [OF assms(1)])
  define p3 where "p3 = afterRead E (Suc 0) (afterRead E (Suc 0) (afterI32 E p2))"
  have "V p3 = Some (byte_items d2 @ [I32 (sms_uBearerDataLen m)] @ byte_items d3 @ r)"
    using r1(2) by (simp add: p3_def rd)
  then obtain u4 p4 where r2: "rdBytes E (length d2) True (ssa_number_of_digits ?s) p3 = (True, u4, d2, p4)"
      "V p4 = Some ([I32 (sms_uBearerDataLen m)] @ byte_items d3 @ r)"
    by (rule rdBytes_items [OF assms(1)])
  have "V (afterI32 E p4) = Some (byte_items d3 @ r)" using r2(2) by (simp add: rd)
  then obtain u6 p6 where r3: "rdBytes E (length d3) True u4 (afterI32 E p4) = (True, u6, d3, p6)"
    by (rule rdBytes_items [OF assms(1)])
  show ?thesis
    using assms(3) ws r1 r2 r3
    by (simp add: constructCdmaSms_def rd len p1_def p3_def)
      (simp add: sms_normal_def Let_def d1_def d2_def d3_def)
qed

lemma ucast_byte [simp]: "ucast (ucast b :: i32) = (b :: u8)"
  by (rule bit_word_eqI) (simp add: bit_simps)

lemma gsmBci_loop_view:
  assumes "reads_ok E V"
  shows "V p = Some (concat (map gsmBci_items bs) @ r) \<Longrightarrow>
    gsmBci_loop E (length bs) True t p = (True, bs)"
proof (induction bs arbitrary: t p)
  case (Cons b bs)
  have "V (afterI32 E (afterI32 E (afterI32 E (afterI32 E (afterI32 E p))))) =
      Some (concat (map gsmBci_items bs) @ r)"
    using Cons.prems by (simp add: gsmBci_items_def [of b] rdI32_view [OF assms])
  from Cons.IH [OF this] Cons.prems show ?case
    by (simp add: gsmBci_items_def [of b] rdI32_view [OF assms])
qed simp

lemma cdmaBci_loop_view:
  assumes "reads_ok E V"
  shows "V p = Some (concat (map cdmaBci_items bs) @ r) \<Longrightarrow>
    cdmaBci_loop E (length bs) True t p = (True, bs)"
proof (induction bs arbitrary: t p)
  case (Cons b bs)
  have "V (afterI32 E (afterI32 E (afterI32 E p))) = Some (concat (map cdmaBci_items bs) @ r)"
    using Cons.prems by (simp add: cdmaBci_items_def [of b] rdI32_view [OF assms])
  from Cons.IH [OF this] Cons.prems show ?case
    by (simp add: cdmaBci_items_def [of b] rdI32_view [OF assms])
qed simp

lemma vla_ok_of_nat: "n < 2 ^ 30 \<Longrightarrow> vla_ok E (of_nat n) k \<longleftrightarrow> n * (k + 4) \<le> stack_limit E"
  by (simp add: vla_ok_def sint_of_nat_i32 unat_of_nat_i32 sizeof_ptr_def)

lemma unat_size_div: "n < 2 ^ 30 \<Longrightarrow> unat (of_nat (4 * n) :: size_t) div 4 = n"
  using unat_of_nat_i32 [of "4 * n"] by simp

lemma sint_word_of_int: "- (2 ^ 31) \<le> k \<Longrightarrow> k < 2 ^ 31 \<Longrightarrow> sint (word_of_int k :: i32) = k"
  by (simp add: signed_of_int) (rule signed_take_bit_int_eq_self, simp_all)

lemma sint_negate:
  assumes "w \<noteq> (0x80000000 :: i32)"
  shows "sint (- w) = - sint w"
proof -
  have r: "- (2 ^ 31) \<le> sint w" "sint w < 2 ^ 31" using sint_range_size [of w] by (simp_all add: word_size)
  have "sint w \<noteq> - (2 ^ 31)"
  proof
    assume "sint w = - (2 ^ 31)"
    moreover have "word_of_int (sint w) = w" by simp
    ultimately have "w = word_of_int (- (2 ^ 31))" by (simp only:)
    with assms show False by simp
  qed
  with r have "sint (word_of_int (- sint w) :: i32) = - sint w" by (intro sint_word_of_int) auto
  moreover have "word_of_int (- sint w) = - w" by simp
  ultimately show ?thesis by metis
qed

lemma lte_rsrp_nonneg:
  assumes "lte_rsrp c \<noteq> 0x80000000"
  shows "0 \<le> sint (lte_rsrp (lte_fixup c))"
proof -
  have "sint (lte_rsrp c) \<noteq> - 1" if "lte_rsrp c \<noteq> - 1"
  proof
    assume "sint (lte_rsrp c) = - 1"
    moreover have "word_of_int (sint (lte_rsrp c)) = lte_rsrp c" by simp
    ultimately have "lte_rsrp c = word_of_int (- 1)" by (simp only:)
    with that show False by simp
  qed
  then show ?thesis
    using sint_negate [OF assms] by (auto simp: lte_fixup_def Let_def not_less)
qed

section \<open>Properties\<close>

text \<open>C31 A CDMA message that \<open>responseCdmaSms\<close> writes is read back by \<open>constructCdmaSms\<close> as the same
  message with the bytes behind its counts cleared, and \<open>dispatchCdmaSms\<close> hands it to the vendor
  library: both sides agree on the layout and on the limits of the three arrays, also when a
  count exceeds its array.\<close>

theorem cdma_sms_roundtrip:
  assumes "reads_ok E V" "responseCdmaSms E (VCdmaSms m) len = Some (0, ws)" "V p = Some (ws @ r)"
  shows "dispatchCdmaSms E p =
    OnRequest (VCdmaSms (sms_normal E m)) (of_nat (sizeof E ''RIL_CDMA_SMS_Message''))"
  using constructCdmaSms_view [OF assms] by (simp add: dispatchCdmaSms_def)

definition demo_sms :: RIL_CDMA_SMS_Message where
  "demo_sms = \<lparr>sms_uTeleserviceID = 4098, sms_bIsServicePresent = 0, sms_uServicecategory = 0,
     sms_sAddress = \<lparr>sa_digit_mode = 0, sa_number_mode = 0, sa_number_type = 0, sa_number_plan = 0,
       sa_number_of_digits = 2, sa_digits = pad0 36 [1, 1]\<rparr>,
     sms_sSubAddress = \<lparr>ssa_subaddressType = 0, ssa_odd = 0, ssa_number_of_digits = 0,
       ssa_digits = pad0 36 []\<rparr>,
     sms_uBearerDataLen = 3, sms_aBearerData = pad0 255 [7, 8, 9]\<rparr>"

definition demo_sms_items :: "item list" where
  "demo_sms_items = [I32 4098, Buf [0], I32 0, I32 0, I32 0, I32 0, I32 0, Buf [2], Buf [1], Buf [1],
     I32 0, Buf [0], Buf [0], I32 3, Buf [7], Buf [8], Buf [9]]"

lemma demo_max [simp]: "ADDRESS_MAX demo_env = 36" "SUBADDRESS_MAX demo_env = 36"
  "BEARER_DATA_MAX demo_env = 255"
  by (simp_all add: ADDRESS_MAX_def SUBADDRESS_MAX_def BEARER_DATA_MAX_def demo_env_def)

lemma demo_sizeof [simp]: "sizeof demo_env n = 32"
  by (simp add: demo_env_def)

lemma demo_sms_written: "responseCdmaSms demo_env (VCdmaSms demo_sms) 32 = Some (0, demo_sms_items)"
  by (simp add: responseCdmaSms_def demo_sms_def demo_sms_items_def elems_def pad0_def resp_defs
      byte_items_def)

theorem cdma_sms_roundtrip_witness:
  "dispatchCdmaSms demo_env (demo_sms_items, 0) = OnRequest (VCdmaSms demo_sms) 32"
proof -
  have "sms_normal demo_env demo_sms = demo_sms"
    by (simp add: sms_normal_def demo_sms_def pad0_def)
  with cdma_sms_roundtrip [OF demo_reads_ok demo_sms_written, of "(demo_sms_items, 0)" "[]"]
  show ?thesis by simp
qed

text \<open>The GSM broadcast configuration that \<open>responseGsmBrSmsCnf\<close> writes is the one that
  \<open>dispatchGsmBrSmsCnf\<close> delivers, for every number of entries that the stack can hold.\<close>

theorem gsm_broadcast_roundtrip:
  assumes "reads_ok E V" "length bs < 2 ^ 30"
    and "responseGsmBrSmsCnf (VGsmBci bs) (of_nat (4 * length bs)) = Some (0, ws)"
    and "V p = Some (ws @ r)"
    and "length bs * (sizeof E ''RIL_GSM_BroadcastSmsConfigInfo'' + 4) \<le> stack_limit E"
  shows "dispatchGsmBrSmsCnf E p = OnRequest (VGsmBci bs) (of_nat (4 * length bs))"
proof -
  have ws: "ws = I32 (of_nat (length bs)) # concat (map gsmBci_items bs)"
    using assms(2,3) unat_size_div [OF assms(2)]
    by (simp add: responseGsmBrSmsCnf_def sizeof_ptr_def gsmBcis_of_def elems_def resp_defs)
  define q where "q = afterI32 E p"
  have "rdI32 E (uninit E) p = (True, of_nat (length bs), q)"
    "V q = Some (concat (map gsmBci_items bs) @ r)"
    using assms(4) ws by (simp_all add: q_def rdI32_view [OF assms(1)])
  moreover have "unat (of_nat (length bs) :: i32) = length bs"
    using assms(2) by (intro unat_of_nat_i32) simp
  ultimately show ?thesis
    using assms(2,5) by (simp add: dispatchGsmBrSmsCnf_def vla_ok_of_nat sizeof_ptr_def
        gsmBci_loop_view [OF assms(1)] mult.commute)
qed

theorem gsm_broadcast_roundtrip_witness:
  "dispatchGsmBrSmsCnf demo_env ([I32 1, I32 50, I32 60, I32 0, I32 255, I32 1], 0) =
     OnRequest (VGsmBci [\<lparr>gbc_fromServiceId = 50, gbc_toServiceId = 60, gbc_fromCodeScheme = 0,
       gbc_toCodeScheme = 255, gbc_selected = 1\<rparr>]) 4"
  using gsm_broadcast_roundtrip [OF demo_reads_ok,
      of "[\<lparr>gbc_fromServiceId = 50, gbc_toServiceId = 60, gbc_fromCodeScheme = 0,
            gbc_toCodeScheme = 255, gbc_selected = 1\<rparr>]"
         "[I32 1, I32 50, I32 60, I32 0, I32 255, I32 1]"
         "([I32 1, I32 50, I32 60, I32 0, I32 255, I32 1], 0)" "[]"]
  by (simp add: responseGsmBrSmsCnf_def sizeof_ptr_def gsmBcis_of_def elems_def resp_defs
      gsmBci_items_def) (simp add: demo_env_def)

text \<open>The same for CDMA broadcast configurations.\<close>

theorem cdma_broadcast_roundtrip:
  assumes "reads_ok E V" "length bs < 2 ^ 30"
    and "responseCdmaBrSmsCnf (VCdmaBci bs) (of_nat (4 * length bs)) = Some (0, ws)"
    and "V p = Some (ws @ r)"
    and "length bs * (sizeof E ''RIL_CDMA_BroadcastSmsConfigInfo'' + 4) \<le> stack_limit E"
  shows "dispatchCdmaBrSmsCnf E p = OnRequest (VCdmaBci bs) (of_nat (4 * length bs))"
proof -
  have ws: "ws = I32 (of_nat (length bs)) # concat (map cdmaBci_items bs)"
    using assms(2,3) unat_size_div [OF assms(2)]
    by (simp add: responseCdmaBrSmsCnf_def sizeof_ptr_def cdmaBcis_of_def elems_def resp_defs)
  define q where "q = afterI32 E p"
  have "rdI32 E (uninit E) p = (True, of_nat (length bs), q)"
    "V q = Some (concat (map cdmaBci_items bs) @ r)"
    using assms(4) ws by (simp_all add: q_def rdI32_view [OF assms(1)])
  moreover have "unat (of_nat (length bs) :: i32) = length bs"
    using assms(2) by (intro unat_of_nat_i32) simp
  ultimately show ?thesis
    using assms(2,5) by (simp add: dispatchCdmaBrSmsCnf_def vla_ok_of_nat sizeof_ptr_def
        cdmaBci_loop_view [OF assms(1)] mult.commute)
qed

theorem cdma_broadcast_roundtrip_witness:
  "dispatchCdmaBrSmsCnf demo_env ([I32 1, I32 4099, I32 1, I32 1], 0) =
     OnRequest (VCdmaBci [\<lparr>cbc_service_category = 4099, cbc_language = 1, cbc_selected = 1\<rparr>]) 4"
  using cdma_broadcast_roundtrip [OF demo_reads_ok,
      of "[\<lparr>cbc_service_category = 4099, cbc_language = 1, cbc_selected = 1\<rparr>]"
         "[I32 1, I32 4099, I32 1, I32 1]" "([I32 1, I32 4099, I32 1, I32 1], 0)" "[]"]
  by (simp add: responseCdmaBrSmsCnf_def sizeof_ptr_def cdmaBcis_of_def elems_def resp_defs
      cdmaBci_items_def) (simp add: demo_env_def)

text \<open>The number in front of a string list is the number of strings that follow it, also in the
  build that leaves out every fifth string of a network search.\<close>

theorem responseStrings_count:
  assumes "responseStrings_search E response responselen search = Some (0, ws)"
  shows "\<exists>ss. ws = I32 (of_nat (length ss)) # map Str ss \<and>
    length ss = (let n = unat responselen div 4
                 in if NEW_LIBRIL_HTC E \<and> search then n - n div 5 else n)"
proof (cases "response = VNull")
  case True
  with assms show ?thesis
    by (auto simp: responseStrings_search_def resp_defs Let_def split: if_splits)
next
  case False
  with assms obtain ss where "elems (unat responselen div 4) (strs_of response) = Some ss"
    "ws = I32 (of_nat (if NEW_LIBRIL_HTC E \<and> search
          then unat responselen div 4 - unat responselen div 4 div 5 else unat responselen div 4)) #
        map Str (if NEW_LIBRIL_HTC E \<and> search then drop_fifth 0 ss else ss)"
    by (auto simp: responseStrings_search_def resp_defs Let_def sizeof_ptr_def
        split: if_splits option.splits)
  moreover from this(1) have "length ss = unat responselen div 4"
    by (auto simp: elems_def split: option.splits if_splits)
  ultimately show ?thesis
    by (intro exI [of _ "if NEW_LIBRIL_HTC E \<and> search then drop_fifth 0 ss else ss"])
      (simp add: length_drop_fifth Let_def)
qed

theorem responseStrings_count_witness:
  "\<exists>ss. [I32 2, Str (Some ''a''), Str None] = I32 (of_nat (length ss)) # map Str ss \<and> length ss = 2"
  using responseStrings_count [of demo_env "VStrs [Some ''a'', None]" 8 True
      "[I32 2, Str (Some ''a''), Str None]"]
  by (simp add: responseStrings_search_def resp_defs sizeof_ptr_def strs_of_def elems_def)
    (simp add: demo_env_def)

text \<open>Whatever structure version the vendor library uses, an accepted signal strength report has the
  same layout of 14 integers; the fields that its structure does not have are sent as unknown. Up
  to version 6 the LTE values are converted: no RSRP, RSRQ or CQI is sent as \<open>-1\<close> and no RSRP as
  negative, except the one value whose negation overflows.\<close>

theorem signal_strength_layout:
  assumes "responseRilSignalStrength E version (VSignal c) responselen = Some (0, ws)"
  shows "\<exists>vs. ws = map I32 vs \<and> length vs = 14 \<and>
    (unat responselen < sizeof E ''RIL_SignalStrength_v6'' \<longrightarrow>
       drop 7 vs = [99, INT_MAX, INT_MAX, INT_MAX, INT_MAX, INT_MAX, INT_MAX]) \<and>
    (version \<le> 6 \<longrightarrow> vs ! 7 \<noteq> - 1 \<and> vs ! 9 \<noteq> - 1 \<and> vs ! 11 \<noteq> - 1 \<and>
       (lte_rsrp c \<noteq> 0x80000000 \<longrightarrow> 0 \<le> sint (vs ! 8)))"
proof -
  let ?v6 = "sizeof E ''RIL_SignalStrength_v6'' \<le> unat responselen"
  define d where "d = (if version \<le> 6 then lte_fixup c else c)"
  define ta where "ta = (if sizeof E ''RIL_SignalStrength_v8'' \<le> unat responselen
    then lte_timingAdvance d else INT_MAX)"
  define rscp where "rscp = (if sizeof E ''RIL_SignalStrength_v8'' \<le> unat responselen \<and>
    sizeof E ''RIL_SignalStrength_v9_CAF'' \<le> unat responselen then tdscdma_rscp d else INT_MAX)"
  define vs where "vs = [gw_signalStrength c, gw_bitErrorRate c, cdma_dbm c, cdma_ecio c, evdo_dbm c,
    evdo_ecio c, evdo_signalNoiseRatio c] @ (if ?v6
    then [lte_signalStrength d, lte_rsrp d, lte_rsrq d, lte_rssnr d, lte_cqi d, ta, rscp]
    else [99, INT_MAX, INT_MAX, INT_MAX, INT_MAX, INT_MAX, INT_MAX])"
  have "ws = map I32 vs"
    using assms(1) by (auto simp: responseRilSignalStrength_def lte_items_def resp_defs vs_def d_def
        ta_def rscp_def Let_def split: if_splits)
  moreover have "version \<le> 6 \<Longrightarrow> lte_signalStrength d \<noteq> - 1 \<and> lte_rsrq d \<noteq> - 1 \<and> lte_cqi d \<noteq> - 1"
    by (auto simp: d_def lte_fixup_def Let_def)
  moreover have "0 \<le> sint (lte_rsrp d)" if "version \<le> 6" "lte_rsrp c \<noteq> 0x80000000"
    using lte_rsrp_nonneg [OF that(2)] that(1) by (simp add: d_def)
  ultimately show ?thesis
    by (intro exI [of _ vs]) (auto simp: vs_def)
qed

definition demo_signal :: RIL_SignalStrength where
  "demo_signal = \<lparr>gw_signalStrength = 20, gw_bitErrorRate = 0, cdma_dbm = 0, cdma_ecio = 0,
     evdo_dbm = 0, evdo_ecio = 0, evdo_signalNoiseRatio = 0, lte_signalStrength = - 1,
     lte_rsrp = - 100, lte_rsrq = - 1, lte_rssnr = 5, lte_cqi = - 1, lte_timingAdvance = 1,
     tdscdma_rscp = 2\<rparr>"

lemma demo_signal_written:
  "responseRilSignalStrength demo_env 6 (VSignal demo_signal) 32 = Some (0, map I32
     [20, 0, 0, 0, 0, 0, 0, 99, 100, INT_MAX, 5, INT_MAX, 1, 2])"
  by (simp add: responseRilSignalStrength_def lte_items_def lte_fixup_def demo_signal_def resp_defs)

theorem signal_strength_layout_witness:
  "\<exists>vs. map I32 [20, 0, 0, 0, 0, 0, 0, 99, 100, INT_MAX, 5, INT_MAX, 1, 2] = map I32 vs \<and>
     length vs = 14 \<and> 0 \<le> sint (vs ! 8)"
proof -
  have "lte_rsrp demo_signal \<noteq> 0x80000000" by (simp add: demo_signal_def)
  with signal_strength_layout [OF demo_signal_written] show ?thesis
    by (metis order.refl)
qed

text \<open>The supplementary service response never reads past its array of forwarding entries,
  whatever count the vendor library set: the count is cut to the size of the array.\<close>

theorem responseSSData_bounded:
  assumes "unat responselen = sizeof E ''RIL_StkCcUnsolSsResponse''"
    and "int (length (ss_cfInfo c)) = sint (K E ''NUM_SERVICE_CLASSES'')"
    and "length (ss_ssInfo c) = unat (K E ''SS_INFO_MAX'')"
  shows "\<exists>ws. responseSSData E (VSSData c) responselen = Some (0, ws)"
proof -
  have "nat (sint (valid_indexes E (ss_numValidIndexes c))) \<le> length (ss_cfInfo c)"
    using assms(2) by (auto simp: valid_indexes_def)
  with assms(1,3) show ?thesis
    by (auto simp: responseSSData_def resp_defs elems_def Let_def)
qed

definition demo_ss :: "i32 \<Rightarrow> RIL_StkCcUnsolSsResponse" where
  "demo_ss n = \<lparr>ss_serviceType = 1, ss_requestType = 2, ss_teleserviceType = 3, ss_serviceClass = 4,
     ss_result = 0, ss_numValidIndexes = n,
     ss_cfInfo = replicate 19 \<lparr>cff_status = 1, cff_reason = 0, cff_serviceClass = 1, cff_toa = 145,
       cff_number = None, cff_timeSeconds = 0\<rparr>, ss_ssInfo = replicate 11 0\<rparr>"

theorem responseSSData_bounded_witness:
  "\<exists>ws. responseSSData demo_env (VSSData (demo_ss 200)) 32 = Some (0, ws)"
  using responseSSData_bounded [of 32 demo_env "demo_ss 200"]
  by (simp add: demo_ss_def) (simp add: demo_env_def)

text \<open>The SIM status has no such limit: when the vendor library reports more applications than the
  array holds, the loop reads past its end.\<close>

theorem responseSimStatus_unbounded:
  assumes "unat responselen = sizeof E ''RIL_CardStatus_v6''"
    and "int (length (cs_applications c)) < sint (cs_num_applications c)"
  shows "responseSimStatus E (VCardStatus c) responselen = None"
  using assms by (auto simp: responseSimStatus_def sendSimStatusAppInfo_def elems_def resp_defs)

theorem responseSimStatus_unbounded_witness:
  "responseSimStatus demo_env (VCardStatus \<lparr>cs_card_state = 1, cs_universal_pin_state = 0,
     cs_gsm_umts_subscription_app_index = 0, cs_cdma_subscription_app_index = 0,
     cs_ims_subscription_app_index = 0, cs_num_applications = 1, cs_applications = []\<rparr>) 32 = None"
  by (rule responseSimStatus_unbounded) simp_all

text \<open>Three response functions accept a null response of length 0 and then read through the null
  pointer.\<close>

theorem null_response_read:
  "responseCdmaCallWaiting E VNull 0 = None \<and> responseSimRefresh version VNull 0 = None \<and>
   responseGetDataCallProfile E VNull 0 = None"
  by (simp add: responseCdmaCallWaiting_def responseSimRefresh_def responseGetDataCallProfile_def)

text \<open>A data call profile list is written only as far as the buffer goes: a count that is too large,
  a negative one included, is replaced by the number of entries that fit.\<close>

theorem data_profiles_bounded:
  assumes "unat responselen div sizeof E ''RIL_DataCallProfileInfo'' = length infos"
    and "length infos < 2 ^ 31"
  shows "\<exists>k ws. responseGetDataCallProfile E (VProfiles n infos) responselen =
      Some (0, I32 (of_nat k) # ws) \<and> k = min (unat n) (length infos) \<and> length ws = 2 * k"
proof -
  have len: "length (concat (map (\<lambda>(i, pr). [I32 i, I32 pr]) xs)) = 2 * length xs"
    for xs :: "(i32 \<times> i32) list" by (induction xs) auto
  have s: "sint (of_nat (min (unat n) (length infos)) :: i32) = int (min (unat n) (length infos))"
    using assms(2) by (intro sint_of_nat_i32) linarith
  show ?thesis
  proof (cases "unat n > length infos")
    case True
    with assms s show ?thesis
      by (simp add: responseGetDataCallProfile_def elems_def resp_defs len)
  next
    case False
    then have "sint n = int (unat n)" using s by (simp add: min_def)
    with False assms(1) show ?thesis
      by (simp add: responseGetDataCallProfile_def elems_def resp_defs len)
  qed
qed

theorem data_profiles_bounded_witness:
  "\<exists>k ws. responseGetDataCallProfile demo_env (VProfiles 0xFFFFFFFF [(1, 5)]) 36 =
      Some (0, I32 (of_nat k) # ws) \<and> k = 1 \<and> length ws = 2 * k"
  using data_profiles_bounded [of 36 demo_env "[(1, 5)]" "0xFFFFFFFF"] by simp

end
