(* ===== verification/Ril_Tables.thy ===== *)
theory Ril_Tables
  imports Ril_Response
begin

text \<open>
  The request table (\<^verbatim>\<open>libril/ril_commands.h\<close>) and the table of unsolicited responses
  (\<^verbatim>\<open>libril/ril_unsol_commands.h\<close>), row by row, with the conditional parts under the build
  options; the calls through their function pointers; and the functions of \<^verbatim>\<open>libril/ril.cpp\<close>
  that name requests, errors and states for the log.
\<close>

section \<open>Function pointers\<close>

datatype dispatch_fn =
    DispatchVoid | DispatchStrings | DispatchDial | DispatchInts | DispatchString
    | DispatchDataCall | DispatchSIM_IO | DispatchCallForward | DispatchRaw | DispatchSmsWrite
    | DispatchCdmaSms | DispatchCdmaSmsAck | DispatchGsmBrSmsCnf | DispatchCdmaBrSmsCnf
    | DispatchRilCdmaSmsWriteArgs | DispatchCdmaSubscriptionSource | DispatchVoiceRadioTech
    | DispatchSetInitialAttachApn | DispatchImsSms | DispatchUiccSubscripton

datatype response_fn =
    ResponseSimStatus | ResponseInts | ResponseCallList | ResponseVoid | ResponseString
    | ResponseRilSignalStrength | ResponseStrings | ResponseSMS | ResponseSetupDataCall
    | ResponseSIM_IO | ResponseCallForwards | ResponseStringsNetworks | ResponseDataCallList
    | ResponseRaw | ResponseCellList | ResponseGsmBrSmsCnf | ResponseCdmaBrSmsCnf
    | ResponseCellInfoList | ResponseGetDataCallProfile | ResponseSsn | ResponseSimRefresh
    | ResponseCallRing | ResponseCdmaSms | ResponseCdmaCallWaiting
    | ResponseCdmaInformationRecords | ResponseSSData

datatype WakeType = DONT_WAKE | WAKE_PARTIAL

text \<open>
  A row: the request number by the name of its constant (None for the literal 0) and the two
  function pointers, None for \<^verbatim>\<open>NULL\<close>.
\<close>

datatype CommandInfo =
  Cmd (ci_request: "string option") (ci_dispatch: "dispatch_fn option")
    (ci_response: "response_fn option")

datatype UnsolResponseInfo =
  Unsol (ui_request: string) (ui_response: response_fn) (ui_wakeType: WakeType)

definition ci_requestNumber :: "'p env \<Rightarrow> CommandInfo \<Rightarrow> i32" where
  "ci_requestNumber E c = (case ci_request c of None \<Rightarrow> 0 | Some n \<Rightarrow> K E n)"

section \<open>The tables\<close>

definition s_commands :: "'p env \<Rightarrow> CommandInfo list" where
  "s_commands E =
     [Cmd None None None,
      Cmd (Some ''RIL_REQUEST_GET_SIM_STATUS'') (Some DispatchVoid) (Some ResponseSimStatus),
      Cmd (Some ''RIL_REQUEST_ENTER_SIM_PIN'') (Some DispatchStrings) (Some ResponseInts),
      Cmd (Some ''RIL_REQUEST_ENTER_SIM_PUK'') (Some DispatchStrings) (Some ResponseInts),
      Cmd (Some ''RIL_REQUEST_ENTER_SIM_PIN2'') (Some DispatchStrings) (Some ResponseInts),
      Cmd (Some ''RIL_REQUEST_ENTER_SIM_PUK2'') (Some DispatchStrings) (Some ResponseInts),
      Cmd (Some ''RIL_REQUEST_CHANGE_SIM_PIN'') (Some DispatchStrings) (Some ResponseInts),
      Cmd (Some ''RIL_REQUEST_CHANGE_SIM_PIN2'') (Some DispatchStrings) (Some ResponseInts),
      Cmd (Some ''RIL_REQUEST_ENTER_DEPERSONALIZATION_CODE'') (Some DispatchStrings) (Some ResponseInts),
      Cmd (Some ''RIL_REQUEST_GET_CURRENT_CALLS'') (Some DispatchVoid) (Some ResponseCallList),
      Cmd (Some ''RIL_REQUEST_DIAL'') (Some DispatchDial) (Some ResponseVoid),
      Cmd (Some ''RIL_REQUEST_GET_IMSI'') (Some DispatchStrings) (Some ResponseString),
      Cmd (Some ''RIL_REQUEST_HANGUP'') (Some DispatchInts) (Some ResponseVoid),
      Cmd (Some ''RIL_REQUEST_HANGUP_WAITING_OR_BACKGROUND'') (Some DispatchVoid) (Some ResponseVoid),
      Cmd (Some ''RIL_REQUEST_HANGUP_FOREGROUND_RESUME_BACKGROUND'') (Some DispatchVoid) (Some ResponseVoid),
      Cmd (Some ''RIL_REQUEST_SWITCH_WAITING_OR_HOLDING_AND_ACTIVE'') (Some DispatchVoid) (Some ResponseVoid),
      Cmd (Some ''RIL_REQUEST_CONFERENCE'') (Some DispatchVoid) (Some ResponseVoid),
      Cmd (Some ''RIL_REQUEST_UDUB'') (Some DispatchVoid) (Some ResponseVoid),
      Cmd (Some ''RIL_REQUEST_LAST_CALL_FAIL_CAUSE'') (Some DispatchVoid) (Some ResponseInts),
      Cmd (Some ''RIL_REQUEST_SIGNAL_STRENGTH'') (Some DispatchVoid) (Some ResponseRilSignalStrength),
      Cmd (Some ''RIL_REQUEST_VOICE_REGISTRATION_STATE'') (Some DispatchVoid) (Some ResponseStrings),
      Cmd (Some ''RIL_REQUEST_DATA_REGISTRATION_STATE'') (Some DispatchVoid) (Some ResponseStrings),
      Cmd (Some ''RIL_REQUEST_OPERATOR'') (Some DispatchVoid) (Some ResponseStrings),
      Cmd (Some ''RIL_REQUEST_RADIO_POWER'') (Some DispatchInts) (Some ResponseVoid),
      Cmd (Some ''RIL_REQUEST_DTMF'') (Some DispatchString) (Some ResponseVoid),
      Cmd (Some ''RIL_REQUEST_SEND_SMS'') (Some DispatchStrings) (Some ResponseSMS),
      Cmd (Some ''RIL_REQUEST_SEND_SMS_EXPECT_MORE'') (Some DispatchStrings) (Some ResponseSMS),
      Cmd (Some ''RIL_REQUEST_SETUP_DATA_CALL'') (Some DispatchDataCall) (Some ResponseSetupDataCall),
      Cmd (Some ''RIL_REQUEST_SIM_IO'') (Some DispatchSIM_IO) (Some ResponseSIM_IO),
      Cmd (Some ''RIL_REQUEST_SEND_USSD'') (Some DispatchString) (Some ResponseVoid),
      Cmd (Some ''RIL_REQUEST_CANCEL_USSD'') (Some DispatchVoid) (Some ResponseVoid),
      Cmd (Some ''RIL_REQUEST_GET_CLIR'') (Some DispatchVoid) (Some ResponseInts),
      Cmd (Some ''RIL_REQUEST_SET_CLIR'') (Some DispatchInts) (Some ResponseVoid),
      Cmd (Some ''RIL_REQUEST_QUERY_CALL_FORWARD_STATUS'') (Some DispatchCallForward) (Some ResponseCallForwards),
      Cmd (Some ''RIL_REQUEST_SET_CALL_FORWARD'') (Some DispatchCallForward) (Some ResponseVoid),
      Cmd (Some ''RIL_REQUEST_QUERY_CALL_WAITING'') (Some DispatchInts) (Some ResponseInts),
      Cmd (Some ''RIL_REQUEST_SET_CALL_WAITING'') (Some DispatchInts) (Some ResponseVoid),
      Cmd (Some ''RIL_REQUEST_SMS_ACKNOWLEDGE'') (Some DispatchInts) (Some ResponseVoid),
      Cmd (Some ''RIL_REQUEST_GET_IMEI'') (Some DispatchVoid) (Some ResponseString),
      Cmd (Some ''RIL_REQUEST_GET_IMEISV'') (Some DispatchVoid) (Some ResponseString),
      Cmd (Some ''RIL_REQUEST_ANSWER'') (Some DispatchVoid) (Some ResponseVoid),
      Cmd (Some ''RIL_REQUEST_DEACTIVATE_DATA_CALL'') (Some DispatchStrings) (Some ResponseVoid),
      Cmd (Some ''RIL_REQUEST_QUERY_FACILITY_LOCK'') (Some DispatchStrings) (Some ResponseInts),
      Cmd (Some ''RIL_REQUEST_SET_FACILITY_LOCK'') (Some DispatchStrings) (Some ResponseInts),
      Cmd (Some ''RIL_REQUEST_CHANGE_BARRING_PASSWORD'') (Some DispatchStrings) (Some ResponseVoid),
      Cmd (Some ''RIL_REQUEST_QUERY_NETWORK_SELECTION_MODE'') (Some DispatchVoid) (Some ResponseInts),
      Cmd (Some ''RIL_REQUEST_SET_NETWORK_SELECTION_AUTOMATIC'') (Some DispatchVoid) (Some ResponseVoid),
      Cmd (Some ''RIL_REQUEST_SET_NETWORK_SELECTION_MANUAL'') (Some DispatchString) (Some ResponseVoid)] @
     (if RIL_VARIANT_LEGACY E then [Cmd (Some ''RIL_REQUEST_QUERY_AVAILABLE_NETWORKS'') (Some DispatchVoid) (Some ResponseStrings)] else []) @
     (if RIL_VARIANT_LEGACY E then [] else [Cmd (Some ''RIL_REQUEST_QUERY_AVAILABLE_NETWORKS'') (Some DispatchVoid) (Some ResponseStringsNetworks)]) @
     [Cmd (Some ''RIL_REQUEST_DTMF_START'') (Some DispatchString) (Some ResponseVoid),
      Cmd (Some ''RIL_REQUEST_DTMF_STOP'') (Some DispatchVoid) (Some ResponseVoid),
      Cmd (Some ''RIL_REQUEST_BASEBAND_VERSION'') (Some DispatchVoid) (Some ResponseString),
      Cmd (Some ''RIL_REQUEST_SEPARATE_CONNECTION'') (Some DispatchInts) (Some ResponseVoid),
      Cmd (Some ''RIL_REQUEST_SET_MUTE'') (Some DispatchInts) (Some ResponseVoid),
      Cmd (Some ''RIL_REQUEST_GET_MUTE'') (Some DispatchVoid) (Some ResponseInts),
      Cmd (Some ''RIL_REQUEST_QUERY_CLIP'') (Some DispatchVoid) (Some ResponseInts),
      Cmd (Some ''RIL_REQUEST_LAST_DATA_CALL_FAIL_CAUSE'') (Some DispatchVoid) (Some ResponseInts),
      Cmd (Some ''RIL_REQUEST_DATA_CALL_LIST'') (Some DispatchVoid) (Some ResponseDataCallList),
      Cmd (Some ''RIL_REQUEST_RESET_RADIO'') (Some DispatchVoid) (Some ResponseVoid),
      Cmd (Some ''RIL_REQUEST_OEM_HOOK_RAW'') (Some DispatchRaw) (Some ResponseRaw),
      Cmd (Some ''RIL_REQUEST_OEM_HOOK_STRINGS'') (Some DispatchStrings) (Some ResponseStrings),
      Cmd (Some ''RIL_REQUEST_SCREEN_STATE'') (Some DispatchInts) (Some ResponseVoid),
      Cmd (Some ''RIL_REQUEST_SET_SUPP_SVC_NOTIFICATION'') (Some DispatchInts) (Some ResponseVoid),
      Cmd (Some ''RIL_REQUEST_WRITE_SMS_TO_SIM'') (Some DispatchSmsWrite) (Some ResponseInts),
      Cmd (Some ''RIL_REQUEST_DELETE_SMS_ON_SIM'') (Some DispatchInts) (Some ResponseVoid),
      Cmd (Some ''RIL_REQUEST_SET_BAND_MODE'') (Some DispatchInts) (Some ResponseVoid),
      Cmd (Some ''RIL_REQUEST_QUERY_AVAILABLE_BAND_MODE'') (Some DispatchVoid) (Some ResponseInts),
      Cmd (Some ''RIL_REQUEST_STK_GET_PROFILE'') (Some DispatchVoid) (Some ResponseString),
      Cmd (Some ''RIL_REQUEST_STK_SET_PROFILE'') (Some DispatchString) (Some ResponseVoid),
      Cmd (Some ''RIL_REQUEST_STK_SEND_ENVELOPE_COMMAND'') (Some DispatchString) (Some ResponseString),
      Cmd (Some ''RIL_REQUEST_STK_SEND_TERMINAL_RESPONSE'') (Some DispatchString) (Some ResponseVoid),
      Cmd (Some ''RIL_REQUEST_STK_HANDLE_CALL_SETUP_REQUESTED_FROM_SIM'') (Some DispatchInts) (Some ResponseVoid),
      Cmd (Some ''RIL_REQUEST_EXPLICIT_CALL_TRANSFER'') (Some DispatchVoid) (Some ResponseVoid),
      Cmd (Some ''RIL_REQUEST_SET_PREFERRED_NETWORK_TYPE'') (Some DispatchInts) (Some ResponseVoid),
      Cmd (Some ''RIL_REQUEST_GET_PREFERRED_NETWORK_TYPE'') (Some DispatchVoid) (Some ResponseInts),
      Cmd (Some ''RIL_REQUEST_GET_NEIGHBORING_CELL_IDS'') (Some DispatchVoid) (Some ResponseCellList),
      Cmd (Some ''RIL_REQUEST_SET_LOCATION_UPDATES'') (Some DispatchInts) (Some ResponseVoid),
      Cmd (Some ''RIL_REQUEST_CDMA_SET_SUBSCRIPTION_SOURCE'') (Some DispatchInts) (Some ResponseVoid),
      Cmd (Some ''RIL_REQUEST_CDMA_SET_ROAMING_PREFERENCE'') (Some DispatchInts) (Some ResponseVoid),
      Cmd (Some ''RIL_REQUEST_CDMA_QUERY_ROAMING_PREFERENCE'') (Some DispatchVoid) (Some ResponseInts),
      Cmd (Some ''RIL_REQUEST_SET_TTY_MODE'') (Some DispatchInts) (Some ResponseVoid),
      Cmd (Some ''RIL_REQUEST_QUERY_TTY_MODE'') (Some DispatchVoid) (Some ResponseInts),
      Cmd (Some ''RIL_REQUEST_CDMA_SET_PREFERRED_VOICE_PRIVACY_MODE'') (Some DispatchInts) (Some ResponseVoid),
      Cmd (Some ''RIL_REQUEST_CDMA_QUERY_PREFERRED_VOICE_PRIVACY_MODE'') (Some DispatchVoid) (Some ResponseInts),
      Cmd (Some ''RIL_REQUEST_CDMA_FLASH'') (Some DispatchString) (Some ResponseVoid),
      Cmd (Some ''RIL_REQUEST_CDMA_BURST_DTMF'') (Some DispatchStrings) (Some ResponseVoid),
      Cmd (Some ''RIL_REQUEST_CDMA_VALIDATE_AND_WRITE_AKEY'') (Some DispatchString) (Some ResponseVoid),
      Cmd (Some ''RIL_REQUEST_CDMA_SEND_SMS'') (Some DispatchCdmaSms) (Some ResponseSMS),
      Cmd (Some ''RIL_REQUEST_CDMA_SMS_ACKNOWLEDGE'') (Some DispatchCdmaSmsAck) (Some ResponseVoid),
      Cmd (Some ''RIL_REQUEST_GSM_GET_BROADCAST_SMS_CONFIG'') (Some DispatchVoid) (Some ResponseGsmBrSmsCnf),
      Cmd (Some ''RIL_REQUEST_GSM_SET_BROADCAST_SMS_CONFIG'') (Some DispatchGsmBrSmsCnf) (Some ResponseVoid),
      Cmd (Some ''RIL_REQUEST_GSM_SMS_BROADCAST_ACTIVATION'') (Some DispatchInts) (Some ResponseVoid),
      Cmd (Some ''RIL_REQUEST_CDMA_GET_BROADCAST_SMS_CONFIG'') (Some DispatchVoid) (Some ResponseCdmaBrSmsCnf),
      Cmd (Some ''RIL_REQUEST_CDMA_SET_BROADCAST_SMS_CONFIG'') (Some DispatchCdmaBrSmsCnf) (Some ResponseVoid),
      Cmd (Some ''RIL_REQUEST_CDMA_SMS_BROADCAST_ACTIVATION'') (Some DispatchInts) (Some ResponseVoid),
      Cmd (Some ''RIL_REQUEST_CDMA_SUBSCRIPTION'') (Some DispatchVoid) (Some ResponseStrings),
      Cmd (Some ''RIL_REQUEST_CDMA_WRITE_SMS_TO_RUIM'') (Some DispatchRilCdmaSmsWriteArgs) (Some ResponseInts),
      Cmd (Some ''RIL_REQUEST_CDMA_DELETE_SMS_ON_RUIM'') (Some DispatchInts) (Some ResponseVoid),
      Cmd (Some ''RIL_REQUEST_DEVICE_IDENTITY'') (Some DispatchVoid) (Some ResponseStrings),
      Cmd (Some ''RIL_REQUEST_EXIT_EMERGENCY_CALLBACK_MODE'') (Some DispatchVoid) (Some ResponseVoid),
      Cmd (Some ''RIL_REQUEST_GET_SMSC_ADDRESS'') (Some DispatchVoid) (Some ResponseString),
      Cmd (Some ''RIL_REQUEST_SET_SMSC_ADDRESS'') (Some DispatchString) (Some ResponseVoid),
      Cmd (Some ''RIL_REQUEST_REPORT_SMS_MEMORY_STATUS'') (Some DispatchInts) (Some ResponseVoid),
      Cmd (Some ''RIL_REQUEST_REPORT_STK_SERVICE_IS_RUNNING'') (Some DispatchVoid) (Some ResponseVoid),
      Cmd (Some ''RIL_REQUEST_CDMA_GET_SUBSCRIPTION_SOURCE'') (Some DispatchCdmaSubscriptionSource) (Some ResponseInts),
      Cmd (Some ''RIL_REQUEST_ISIM_AUTHENTICATION'') (Some DispatchString) (Some ResponseString),
      Cmd (Some ''RIL_REQUEST_ACKNOWLEDGE_INCOMING_GSM_SMS_WITH_PDU'') (Some DispatchStrings) (Some ResponseVoid),
      Cmd (Some ''RIL_REQUEST_STK_SEND_ENVELOPE_WITH_STATUS'') (Some DispatchString) (Some ResponseSIM_IO),
      Cmd (Some ''RIL_REQUEST_VOICE_RADIO_TECH'') (Some DispatchVoiceRadioTech) (Some ResponseInts)] @
     (if RIL_NO_CELL_INFO_LIST E then [] else [Cmd (Some ''RIL_REQUEST_GET_CELL_INFO_LIST'') (Some DispatchVoid) (Some ResponseCellInfoList),
      Cmd (Some ''RIL_REQUEST_SET_UNSOL_CELL_INFO_LIST_RATE'') (Some DispatchInts) (Some ResponseVoid)]) @
     [Cmd (Some ''RIL_REQUEST_SET_INITIAL_ATTACH_APN'') (Some DispatchSetInitialAttachApn) (Some ResponseVoid),
      Cmd (Some ''RIL_REQUEST_IMS_REGISTRATION_STATE'') (Some DispatchVoid) (Some ResponseInts),
      Cmd (Some ''RIL_REQUEST_IMS_SEND_SMS'') (Some DispatchImsSms) (Some ResponseSMS),
      Cmd (Some ''RIL_REQUEST_GET_DATA_CALL_PROFILE'') (Some DispatchInts) (Some ResponseGetDataCallProfile),
      Cmd (Some ''RIL_REQUEST_SET_UICC_SUBSCRIPTION'') (Some DispatchUiccSubscripton) (Some ResponseVoid),
      Cmd (Some ''RIL_REQUEST_SET_DATA_SUBSCRIPTION'') (Some DispatchVoid) (Some ResponseVoid),
      Cmd (Some ''RIL_REQUEST_SIM_TRANSMIT_BASIC'') (Some DispatchSIM_IO) (Some ResponseSIM_IO),
      Cmd (Some ''RIL_REQUEST_SIM_OPEN_CHANNEL'') (Some DispatchString) (Some ResponseInts),
      Cmd (Some ''RIL_REQUEST_SIM_CLOSE_CHANNEL'') (Some DispatchInts) (Some ResponseVoid),
      Cmd (Some ''RIL_REQUEST_SIM_TRANSMIT_CHANNEL'') (Some DispatchSIM_IO) (Some ResponseSIM_IO)] @
     (if RIL_VARIANT_LEGACY E then [] else [Cmd (Some ''RIL_REQUEST_SIM_GET_ATR'') (Some DispatchInts) (Some ResponseString)])"

definition s_unsolResponses :: "'p env \<Rightarrow> UnsolResponseInfo list" where
  "s_unsolResponses E =
     [Unsol ''RIL_UNSOL_RESPONSE_RADIO_STATE_CHANGED'' ResponseVoid WAKE_PARTIAL,
      Unsol ''RIL_UNSOL_RESPONSE_CALL_STATE_CHANGED'' ResponseVoid WAKE_PARTIAL,
      Unsol ''RIL_UNSOL_RESPONSE_VOICE_NETWORK_STATE_CHANGED'' ResponseVoid WAKE_PARTIAL,
      Unsol ''RIL_UNSOL_RESPONSE_NEW_SMS'' ResponseString WAKE_PARTIAL,
      Unsol ''RIL_UNSOL_RESPONSE_NEW_SMS_STATUS_REPORT'' ResponseString WAKE_PARTIAL,
      Unsol ''RIL_UNSOL_RESPONSE_NEW_SMS_ON_SIM'' ResponseInts WAKE_PARTIAL,
      Unsol ''RIL_UNSOL_ON_USSD'' ResponseStrings WAKE_PARTIAL,
      Unsol ''RIL_UNSOL_ON_USSD_REQUEST'' ResponseVoid DONT_WAKE,
      Unsol ''RIL_UNSOL_NITZ_TIME_RECEIVED'' ResponseString WAKE_PARTIAL,
      Unsol ''RIL_UNSOL_SIGNAL_STRENGTH'' ResponseRilSignalStrength DONT_WAKE,
      Unsol ''RIL_UNSOL_DATA_CALL_LIST_CHANGED'' ResponseDataCallList WAKE_PARTIAL,
      Unsol ''RIL_UNSOL_SUPP_SVC_NOTIFICATION'' ResponseSsn WAKE_PARTIAL,
      Unsol ''RIL_UNSOL_STK_SESSION_END'' ResponseVoid WAKE_PARTIAL,
      Unsol ''RIL_UNSOL_STK_PROACTIVE_COMMAND'' ResponseString WAKE_PARTIAL,
      Unsol ''RIL_UNSOL_STK_EVENT_NOTIFY'' ResponseString WAKE_PARTIAL,
      Unsol ''RIL_UNSOL_STK_CALL_SETUP'' ResponseInts WAKE_PARTIAL,
      Unsol ''RIL_UNSOL_SIM_SMS_STORAGE_FULL'' ResponseVoid WAKE_PARTIAL,
      Unsol ''RIL_UNSOL_SIM_REFRESH'' ResponseSimRefresh WAKE_PARTIAL,
      Unsol ''RIL_UNSOL_CALL_RING'' ResponseCallRing WAKE_PARTIAL,
      Unsol ''RIL_UNSOL_RESPONSE_SIM_STATUS_CHANGED'' ResponseVoid WAKE_PARTIAL,
      Unsol ''RIL_UNSOL_RESPONSE_CDMA_NEW_SMS'' ResponseCdmaSms WAKE_PARTIAL,
      Unsol ''RIL_UNSOL_RESPONSE_NEW_BROADCAST_SMS'' ResponseRaw WAKE_PARTIAL,
      Unsol ''RIL_UNSOL_CDMA_RUIM_SMS_STORAGE_FULL'' ResponseVoid WAKE_PARTIAL,
      Unsol ''RIL_UNSOL_RESTRICTED_STATE_CHANGED'' ResponseInts WAKE_PARTIAL,
      Unsol ''RIL_UNSOL_ENTER_EMERGENCY_CALLBACK_MODE'' ResponseVoid WAKE_PARTIAL,
      Unsol ''RIL_UNSOL_CDMA_CALL_WAITING'' ResponseCdmaCallWaiting WAKE_PARTIAL,
      Unsol ''RIL_UNSOL_CDMA_OTA_PROVISION_STATUS'' ResponseInts WAKE_PARTIAL,
      Unsol ''RIL_UNSOL_CDMA_INFO_REC'' ResponseCdmaInformationRecords WAKE_PARTIAL,
      Unsol ''RIL_UNSOL_OEM_HOOK_RAW'' ResponseRaw WAKE_PARTIAL,
      Unsol ''RIL_UNSOL_RINGBACK_TONE'' ResponseInts WAKE_PARTIAL,
      Unsol ''RIL_UNSOL_RESEND_INCALL_MUTE'' ResponseVoid WAKE_PARTIAL,
      Unsol ''RIL_UNSOL_CDMA_SUBSCRIPTION_SOURCE_CHANGED'' ResponseInts WAKE_PARTIAL,
      Unsol ''RIL_UNSOL_CDMA_PRL_CHANGED'' ResponseInts WAKE_PARTIAL,
      Unsol ''RIL_UNSOL_EXIT_EMERGENCY_CALLBACK_MODE'' ResponseVoid WAKE_PARTIAL,
      Unsol ''RIL_UNSOL_RIL_CONNECTED'' ResponseInts WAKE_PARTIAL,
      Unsol ''RIL_UNSOL_VOICE_RADIO_TECH_CHANGED'' ResponseInts WAKE_PARTIAL] @
     (if RIL_NO_CELL_INFO_LIST E then [] else [Unsol ''RIL_UNSOL_CELL_INFO_LIST'' ResponseCellInfoList WAKE_PARTIAL]) @
     [Unsol ''RIL_UNSOL_RESPONSE_IMS_NETWORK_STATE_CHANGED'' ResponseVoid WAKE_PARTIAL,
      Unsol ''RIL_UNSOL_ON_SS'' ResponseSSData WAKE_PARTIAL,
      Unsol ''RIL_UNSOL_STK_CC_ALPHA_NOTIFY'' ResponseString WAKE_PARTIAL,
      Unsol ''RIL_UNSOL_UICC_SUBSCRIPTION_STATUS_CHANGED'' ResponseInts WAKE_PARTIAL]"

section \<open>Calls through the tables\<close>

fun call_response :: "'p env \<Rightarrow> int \<Rightarrow> response_fn \<Rightarrow> void_ptr \<Rightarrow> size_t \<Rightarrow> resp" where
  "call_response E version ResponseSimStatus d n = responseSimStatus E d n"
| "call_response E version ResponseInts d n = responseInts d n"
| "call_response E version ResponseCallList d n = responseCallList version d n"
| "call_response E version ResponseVoid d n = responseVoid"
| "call_response E version ResponseString d n = responseString d"
| "call_response E version ResponseRilSignalStrength d n = responseRilSignalStrength E version d n"
| "call_response E version ResponseStrings d n = responseStrings E d n"
| "call_response E version ResponseSMS d n = responseSMS E d n"
| "call_response E version ResponseSetupDataCall d n = responseSetupDataCall E version d n"
| "call_response E version ResponseSIM_IO d n = responseSIM_IO E d n"
| "call_response E version ResponseCallForwards d n = responseCallForwards d n"
| "call_response E version ResponseStringsNetworks d n = responseStringsNetworks E d n"
| "call_response E version ResponseDataCallList d n = responseDataCallList E version d n"
| "call_response E version ResponseRaw d n = responseRaw d n"
| "call_response E version ResponseCellList d n = responseCellList d n"
| "call_response E version ResponseGsmBrSmsCnf d n = responseGsmBrSmsCnf d n"
| "call_response E version ResponseCdmaBrSmsCnf d n = responseCdmaBrSmsCnf d n"
| "call_response E version ResponseCellInfoList d n = responseCellInfoList E d n"
| "call_response E version ResponseGetDataCallProfile d n = responseGetDataCallProfile E d n"
| "call_response E version ResponseSsn d n = responseSsn E d n"
| "call_response E version ResponseSimRefresh d n = responseSimRefresh version d n"
| "call_response E version ResponseCallRing d n = responseCallRing E d n"
| "call_response E version ResponseCdmaSms d n = responseCdmaSms E d n"
| "call_response E version ResponseCdmaCallWaiting d n = responseCdmaCallWaiting E d n"
| "call_response E version ResponseCdmaInformationRecords d n = responseCdmaInformationRecords E d n"
| "call_response E version ResponseSSData d n = responseSSData E d n"

text \<open>
  The dispatchers that only read the parcel. The two that look at the radio state give None
  here; they are part of the request component.
\<close>

fun call_dispatch :: "'p env \<Rightarrow> int \<Rightarrow> i32 \<Rightarrow> dispatch_fn \<Rightarrow> 'p \<Rightarrow> dispatch_out option" where
  "call_dispatch E version rq DispatchVoid p = Some (dispatchVoid)"
| "call_dispatch E version rq DispatchStrings p = Some (dispatchStrings E p)"
| "call_dispatch E version rq DispatchDial p = Some (dispatchDial E version p)"
| "call_dispatch E version rq DispatchInts p = Some (dispatchInts E p)"
| "call_dispatch E version rq DispatchString p = Some (dispatchString E p)"
| "call_dispatch E version rq DispatchDataCall p = Some (dispatchDataCall E version p)"
| "call_dispatch E version rq DispatchSIM_IO p = Some (dispatchSIM_IO E version rq p)"
| "call_dispatch E version rq DispatchCallForward p = Some (dispatchCallForward E p)"
| "call_dispatch E version rq DispatchRaw p = Some (dispatchRaw E p)"
| "call_dispatch E version rq DispatchSmsWrite p = Some (dispatchSmsWrite E p)"
| "call_dispatch E version rq DispatchCdmaSms p = Some (dispatchCdmaSms E p)"
| "call_dispatch E version rq DispatchCdmaSmsAck p = Some (dispatchCdmaSmsAck E p)"
| "call_dispatch E version rq DispatchGsmBrSmsCnf p = Some (dispatchGsmBrSmsCnf E p)"
| "call_dispatch E version rq DispatchCdmaBrSmsCnf p = Some (dispatchCdmaBrSmsCnf E p)"
| "call_dispatch E version rq DispatchRilCdmaSmsWriteArgs p = Some (dispatchRilCdmaSmsWriteArgs E p)"
| "call_dispatch E version rq DispatchCdmaSubscriptionSource p = None"
| "call_dispatch E version rq DispatchVoiceRadioTech p = None"
| "call_dispatch E version rq DispatchSetInitialAttachApn p = Some (dispatchSetInitialAttachApn E p)"
| "call_dispatch E version rq DispatchImsSms p = Some (dispatchImsSms E p)"
| "call_dispatch E version rq DispatchUiccSubscripton p = Some (dispatchUiccSubscripton E p)"

section \<open>Names for the log\<close>

text \<open>A \<^verbatim>\<open>switch\<close> over constants: the first case with the value.\<close>

fun switch_name :: "'p env \<Rightarrow> (string \<times> string) list \<Rightarrow> i32 \<Rightarrow> string \<Rightarrow> string" where
  "switch_name E [] v d = d"
| "switch_name E ((c, n) # cs) v d = (if v = K E c then n else switch_name E cs v d)"

definition fail_causes :: "(string \<times> string) list" where
  "fail_causes =
    [(''RIL_E_SUCCESS'', ''E_SUCCESS''),
     (''RIL_E_RADIO_NOT_AVAILABLE'', ''E_RADIO_NOT_AVAILABLE''),
     (''RIL_E_GENERIC_FAILURE'', ''E_GENERIC_FAILURE''),
     (''RIL_E_PASSWORD_INCORRECT'', ''E_PASSWORD_INCORRECT''),
     (''RIL_E_SIM_PIN2'', ''E_SIM_PIN2''),
     (''RIL_E_SIM_PUK2'', ''E_SIM_PUK2''),
     (''RIL_E_REQUEST_NOT_SUPPORTED'', ''E_REQUEST_NOT_SUPPORTED''),
     (''RIL_E_CANCELLED'', ''E_CANCELLED''),
     (''RIL_E_OP_NOT_ALLOWED_DURING_VOICE_CALL'', ''E_OP_NOT_ALLOWED_DURING_VOICE_CALL''),
     (''RIL_E_OP_NOT_ALLOWED_BEFORE_REG_TO_NW'', ''E_OP_NOT_ALLOWED_BEFORE_REG_TO_NW''),
     (''RIL_E_SMS_SEND_FAIL_RETRY'', ''E_SMS_SEND_FAIL_RETRY''),
     (''RIL_E_SIM_ABSENT'', ''E_SIM_ABSENT''),
     (''RIL_E_ILLEGAL_SIM_OR_ME'', ''E_ILLEGAL_SIM_OR_ME'')]"

definition failCauseToString :: "'p env \<Rightarrow> i32 \<Rightarrow> string" where
  "failCauseToString E e = switch_name E fail_causes e ''<unknown error>''"

definition radio_states :: "(string \<times> string) list" where
  "radio_states =
    [(''RADIO_STATE_OFF'', ''RADIO_OFF''),
     (''RADIO_STATE_UNAVAILABLE'', ''RADIO_UNAVAILABLE''),
     (''RADIO_STATE_SIM_NOT_READY'', ''RADIO_SIM_NOT_READY''),
     (''RADIO_STATE_SIM_LOCKED_OR_ABSENT'', ''RADIO_SIM_LOCKED_OR_ABSENT''),
     (''RADIO_STATE_SIM_READY'', ''RADIO_SIM_READY''),
     (''RADIO_STATE_RUIM_NOT_READY'', ''RADIO_RUIM_NOT_READY''),
     (''RADIO_STATE_RUIM_READY'', ''RADIO_RUIM_READY''),
     (''RADIO_STATE_RUIM_LOCKED_OR_ABSENT'', ''RADIO_RUIM_LOCKED_OR_ABSENT''),
     (''RADIO_STATE_NV_NOT_READY'', ''RADIO_NV_NOT_READY''),
     (''RADIO_STATE_NV_READY'', ''RADIO_NV_READY''),
     (''RADIO_STATE_ON'', ''RADIO_ON'')]"

definition radioStateToString :: "'p env \<Rightarrow> i32 \<Rightarrow> string" where
  "radioStateToString E s = switch_name E radio_states s ''<unknown state>''"

definition call_states :: "(string \<times> string) list" where
  "call_states =
    [(''RIL_CALL_ACTIVE'', ''ACTIVE''),
     (''RIL_CALL_HOLDING'', ''HOLDING''),
     (''RIL_CALL_DIALING'', ''DIALING''),
     (''RIL_CALL_ALERTING'', ''ALERTING''),
     (''RIL_CALL_INCOMING'', ''INCOMING''),
     (''RIL_CALL_WAITING'', ''WAITING'')]"

definition callStateToString :: "'p env \<Rightarrow> i32 \<Rightarrow> string" where
  "callStateToString E s = switch_name E call_states s ''<unknown state>''"

definition request_names :: "'p env \<Rightarrow> (string \<times> string) list" where
  "request_names E =
     [(''RIL_REQUEST_GET_SIM_STATUS'', ''GET_SIM_STATUS''),
      (''RIL_REQUEST_ENTER_SIM_PIN'', ''ENTER_SIM_PIN''),
      (''RIL_REQUEST_ENTER_SIM_PUK'', ''ENTER_SIM_PUK''),
      (''RIL_REQUEST_ENTER_SIM_PIN2'', ''ENTER_SIM_PIN2''),
      (''RIL_REQUEST_ENTER_SIM_PUK2'', ''ENTER_SIM_PUK2''),
      (''RIL_REQUEST_CHANGE_SIM_PIN'', ''CHANGE_SIM_PIN''),
      (''RIL_REQUEST_CHANGE_SIM_PIN2'', ''CHANGE_SIM_PIN2''),
      (''RIL_REQUEST_ENTER_DEPERSONALIZATION_CODE'', ''ENTER_DEPERSONALIZATION_CODE''),
      (''RIL_REQUEST_GET_CURRENT_CALLS'', ''GET_CURRENT_CALLS''),
      (''RIL_REQUEST_DIAL'', ''DIAL''),
      (''RIL_REQUEST_GET_IMSI'', ''GET_IMSI''),
      (''RIL_REQUEST_HANGUP'', ''HANGUP''),
      (''RIL_REQUEST_HANGUP_WAITING_OR_BACKGROUND'', ''HANGUP_WAITING_OR_BACKGROUND''),
      (''RIL_REQUEST_HANGUP_FOREGROUND_RESUME_BACKGROUND'', ''HANGUP_FOREGROUND_RESUME_BACKGROUND''),
      (''RIL_REQUEST_SWITCH_WAITING_OR_HOLDING_AND_ACTIVE'', ''SWITCH_WAITING_OR_HOLDING_AND_ACTIVE''),
      (''RIL_REQUEST_CONFERENCE'', ''CONFERENCE''),
      (''RIL_REQUEST_UDUB'', ''UDUB''),
      (''RIL_REQUEST_LAST_CALL_FAIL_CAUSE'', ''LAST_CALL_FAIL_CAUSE''),
      (''RIL_REQUEST_SIGNAL_STRENGTH'', ''SIGNAL_STRENGTH''),
      (''RIL_REQUEST_VOICE_REGISTRATION_STATE'', ''VOICE_REGISTRATION_STATE''),
      (''RIL_REQUEST_DATA_REGISTRATION_STATE'', ''DATA_REGISTRATION_STATE''),
      (''RIL_REQUEST_OPERATOR'', ''OPERATOR''),
      (''RIL_REQUEST_RADIO_POWER'', ''RADIO_POWER''),
      (''RIL_REQUEST_DTMF'', ''DTMF''),
      (''RIL_REQUEST_SEND_SMS'', ''SEND_SMS''),
      (''RIL_REQUEST_SEND_SMS_EXPECT_MORE'', ''SEND_SMS_EXPECT_MORE''),
      (''RIL_REQUEST_SETUP_DATA_CALL'', ''SETUP_DATA_CALL''),
      (''RIL_REQUEST_SIM_IO'', ''SIM_IO''),
      (''RIL_REQUEST_SIM_TRANSMIT_BASIC'', ''SIM_TRANSMIT_BASIC''),
      (''RIL_REQUEST_SIM_OPEN_CHANNEL'', ''SIM_OPEN_CHANNEL''),
      (''RIL_REQUEST_SIM_CLOSE_CHANNEL'', ''SIM_CLOSE_CHANNEL''),
      (''RIL_REQUEST_SIM_TRANSMIT_CHANNEL'', ''SIM_TRANSMIT_CHANNEL''),
      (''RIL_REQUEST_SIM_GET_ATR'', ''SIM_GET_ATR''),
      (''RIL_REQUEST_SEND_USSD'', ''SEND_USSD''),
      (''RIL_REQUEST_CANCEL_USSD'', ''CANCEL_USSD''),
      (''RIL_REQUEST_GET_CLIR'', ''GET_CLIR''),
      (''RIL_REQUEST_SET_CLIR'', ''SET_CLIR''),
      (''RIL_REQUEST_QUERY_CALL_FORWARD_STATUS'', ''QUERY_CALL_FORWARD_STATUS''),
      (''RIL_REQUEST_SET_CALL_FORWARD'', ''SET_CALL_FORWARD''),
      (''RIL_REQUEST_QUERY_CALL_WAITING'', ''QUERY_CALL_WAITING''),
      (''RIL_REQUEST_SET_CALL_WAITING'', ''SET_CALL_WAITING''),
      (''RIL_REQUEST_SMS_ACKNOWLEDGE'', ''SMS_ACKNOWLEDGE''),
      (''RIL_REQUEST_GET_IMEI'', ''GET_IMEI''),
      (''RIL_REQUEST_GET_IMEISV'', ''GET_IMEISV''),
      (''RIL_REQUEST_ANSWER'', ''ANSWER''),
      (''RIL_REQUEST_DEACTIVATE_DATA_CALL'', ''DEACTIVATE_DATA_CALL''),
      (''RIL_REQUEST_QUERY_FACILITY_LOCK'', ''QUERY_FACILITY_LOCK''),
      (''RIL_REQUEST_SET_FACILITY_LOCK'', ''SET_FACILITY_LOCK''),
      (''RIL_REQUEST_CHANGE_BARRING_PASSWORD'', ''CHANGE_BARRING_PASSWORD''),
      (''RIL_REQUEST_QUERY_NETWORK_SELECTION_MODE'', ''QUERY_NETWORK_SELECTION_MODE''),
      (''RIL_REQUEST_SET_NETWORK_SELECTION_AUTOMATIC'', ''SET_NETWORK_SELECTION_AUTOMATIC''),
      (''RIL_REQUEST_SET_NETWORK_SELECTION_MANUAL'', ''SET_NETWORK_SELECTION_MANUAL''),
      (''RIL_REQUEST_QUERY_AVAILABLE_NETWORKS'', ''QUERY_AVAILABLE_NETWORKS ''),
      (''RIL_REQUEST_DTMF_START'', ''DTMF_START''),
      (''RIL_REQUEST_DTMF_STOP'', ''DTMF_STOP''),
      (''RIL_REQUEST_BASEBAND_VERSION'', ''BASEBAND_VERSION''),
      (''RIL_REQUEST_SEPARATE_CONNECTION'', ''SEPARATE_CONNECTION''),
      (''RIL_REQUEST_SET_PREFERRED_NETWORK_TYPE'', ''SET_PREFERRED_NETWORK_TYPE''),
      (''RIL_REQUEST_GET_PREFERRED_NETWORK_TYPE'', ''GET_PREFERRED_NETWORK_TYPE''),
      (''RIL_REQUEST_GET_NEIGHBORING_CELL_IDS'', ''GET_NEIGHBORING_CELL_IDS''),
      (''RIL_REQUEST_SET_MUTE'', ''SET_MUTE''),
      (''RIL_REQUEST_GET_MUTE'', ''GET_MUTE''),
      (''RIL_REQUEST_QUERY_CLIP'', ''QUERY_CLIP''),
      (''RIL_REQUEST_LAST_DATA_CALL_FAIL_CAUSE'', ''LAST_DATA_CALL_FAIL_CAUSE''),
      (''RIL_REQUEST_DATA_CALL_LIST'', ''DATA_CALL_LIST''),
      (''RIL_REQUEST_RESET_RADIO'', ''RESET_RADIO''),
      (''RIL_REQUEST_OEM_HOOK_RAW'', ''OEM_HOOK_RAW''),
      (''RIL_REQUEST_OEM_HOOK_STRINGS'', ''OEM_HOOK_STRINGS''),
      (''RIL_REQUEST_SET_BAND_MODE'', ''SET_BAND_MODE''),
      (''RIL_REQUEST_QUERY_AVAILABLE_BAND_MODE'', ''QUERY_AVAILABLE_BAND_MODE''),
      (''RIL_REQUEST_STK_GET_PROFILE'', ''STK_GET_PROFILE''),
      (''RIL_REQUEST_STK_SET_PROFILE'', ''STK_SET_PROFILE''),
      (''RIL_REQUEST_STK_SEND_ENVELOPE_COMMAND'', ''STK_SEND_ENVELOPE_COMMAND''),
      (''RIL_REQUEST_STK_SEND_TERMINAL_RESPONSE'', ''STK_SEND_TERMINAL_RESPONSE''),
      (''RIL_REQUEST_STK_HANDLE_CALL_SETUP_REQUESTED_FROM_SIM'', ''STK_HANDLE_CALL_SETUP_REQUESTED_FROM_SIM''),
      (''RIL_REQUEST_SCREEN_STATE'', ''SCREEN_STATE''),
      (''RIL_REQUEST_EXPLICIT_CALL_TRANSFER'', ''EXPLICIT_CALL_TRANSFER''),
      (''RIL_REQUEST_SET_LOCATION_UPDATES'', ''SET_LOCATION_UPDATES''),
      (''RIL_REQUEST_CDMA_SET_SUBSCRIPTION_SOURCE'', ''CDMA_SET_SUBSCRIPTION_SOURCE''),
      (''RIL_REQUEST_CDMA_SET_ROAMING_PREFERENCE'', ''CDMA_SET_ROAMING_PREFERENCE''),
      (''RIL_REQUEST_CDMA_QUERY_ROAMING_PREFERENCE'', ''CDMA_QUERY_ROAMING_PREFERENCE''),
      (''RIL_REQUEST_SET_TTY_MODE'', ''SET_TTY_MODE''),
      (''RIL_REQUEST_QUERY_TTY_MODE'', ''QUERY_TTY_MODE''),
      (''RIL_REQUEST_CDMA_SET_PREFERRED_VOICE_PRIVACY_MODE'', ''CDMA_SET_PREFERRED_VOICE_PRIVACY_MODE''),
      (''RIL_REQUEST_CDMA_QUERY_PREFERRED_VOICE_PRIVACY_MODE'', ''CDMA_QUERY_PREFERRED_VOICE_PRIVACY_MODE''),
      (''RIL_REQUEST_CDMA_FLASH'', ''CDMA_FLASH''),
      (''RIL_REQUEST_CDMA_BURST_DTMF'', ''CDMA_BURST_DTMF''),
      (''RIL_REQUEST_CDMA_SEND_SMS'', ''CDMA_SEND_SMS''),
      (''RIL_REQUEST_CDMA_SMS_ACKNOWLEDGE'', ''CDMA_SMS_ACKNOWLEDGE''),
      (''RIL_REQUEST_GSM_GET_BROADCAST_SMS_CONFIG'', ''GSM_GET_BROADCAST_SMS_CONFIG''),
      (''RIL_REQUEST_GSM_SET_BROADCAST_SMS_CONFIG'', ''GSM_SET_BROADCAST_SMS_CONFIG''),
      (''RIL_REQUEST_CDMA_GET_BROADCAST_SMS_CONFIG'', ''CDMA_GET_BROADCAST_SMS_CONFIG''),
      (''RIL_REQUEST_CDMA_SET_BROADCAST_SMS_CONFIG'', ''CDMA_SET_BROADCAST_SMS_CONFIG''),
      (''RIL_REQUEST_CDMA_SMS_BROADCAST_ACTIVATION'', ''CDMA_SMS_BROADCAST_ACTIVATION''),
      (''RIL_REQUEST_CDMA_VALIDATE_AND_WRITE_AKEY'', ''CDMA_VALIDATE_AND_WRITE_AKEY''),
      (''RIL_REQUEST_CDMA_SUBSCRIPTION'', ''CDMA_SUBSCRIPTION''),
      (''RIL_REQUEST_CDMA_WRITE_SMS_TO_RUIM'', ''CDMA_WRITE_SMS_TO_RUIM''),
      (''RIL_REQUEST_CDMA_DELETE_SMS_ON_RUIM'', ''CDMA_DELETE_SMS_ON_RUIM''),
      (''RIL_REQUEST_DEVICE_IDENTITY'', ''DEVICE_IDENTITY''),
      (''RIL_REQUEST_EXIT_EMERGENCY_CALLBACK_MODE'', ''EXIT_EMERGENCY_CALLBACK_MODE''),
      (''RIL_REQUEST_GET_SMSC_ADDRESS'', ''GET_SMSC_ADDRESS''),
      (''RIL_REQUEST_SET_SMSC_ADDRESS'', ''SET_SMSC_ADDRESS''),
      (''RIL_REQUEST_REPORT_SMS_MEMORY_STATUS'', ''REPORT_SMS_MEMORY_STATUS''),
      (''RIL_REQUEST_REPORT_STK_SERVICE_IS_RUNNING'', ''REPORT_STK_SERVICE_IS_RUNNING''),
      (''RIL_REQUEST_CDMA_GET_SUBSCRIPTION_SOURCE'', ''CDMA_GET_SUBSCRIPTION_SOURCE''),
      (''RIL_REQUEST_ISIM_AUTHENTICATION'', ''ISIM_AUTHENTICATION''),
      (''RIL_REQUEST_ACKNOWLEDGE_INCOMING_GSM_SMS_WITH_PDU'', ''RIL_REQUEST_ACKNOWLEDGE_INCOMING_GSM_SMS_WITH_PDU''),
      (''RIL_REQUEST_STK_SEND_ENVELOPE_WITH_STATUS'', ''RIL_REQUEST_STK_SEND_ENVELOPE_WITH_STATUS''),
      (''RIL_REQUEST_VOICE_RADIO_TECH'', ''VOICE_RADIO_TECH''),
      (''RIL_REQUEST_WRITE_SMS_TO_SIM'', ''WRITE_SMS_TO_SIM'')] @
     (if RIL_NO_CELL_INFO_LIST E then [] else [(''RIL_REQUEST_GET_CELL_INFO_LIST'', ''GET_CELL_INFO_LIST''),
      (''RIL_REQUEST_SET_UNSOL_CELL_INFO_LIST_RATE'', ''SET_UNSOL_CELL_INFO_LIST_RATE'')]) @
     [(''RIL_REQUEST_SET_INITIAL_ATTACH_APN'', ''RIL_REQUEST_SET_INITIAL_ATTACH_APN''),
      (''RIL_REQUEST_IMS_REGISTRATION_STATE'', ''IMS_REGISTRATION_STATE''),
      (''RIL_REQUEST_IMS_SEND_SMS'', ''IMS_SEND_SMS''),
      (''RIL_REQUEST_GET_DATA_CALL_PROFILE'', ''GET_DATA_CALL_PROFILE''),
      (''RIL_REQUEST_SET_UICC_SUBSCRIPTION'', ''SET_UICC_SUBSCRIPTION''),
      (''RIL_REQUEST_SET_DATA_SUBSCRIPTION'', ''SET_DATA_SUBSCRIPTION''),
      (''RIL_UNSOL_RESPONSE_RADIO_STATE_CHANGED'', ''UNSOL_RESPONSE_RADIO_STATE_CHANGED''),
      (''RIL_UNSOL_RESPONSE_CALL_STATE_CHANGED'', ''UNSOL_RESPONSE_CALL_STATE_CHANGED''),
      (''RIL_UNSOL_RESPONSE_VOICE_NETWORK_STATE_CHANGED'', ''UNSOL_RESPONSE_VOICE_NETWORK_STATE_CHANGED''),
      (''RIL_UNSOL_RESPONSE_NEW_SMS'', ''UNSOL_RESPONSE_NEW_SMS''),
      (''RIL_UNSOL_RESPONSE_NEW_SMS_STATUS_REPORT'', ''UNSOL_RESPONSE_NEW_SMS_STATUS_REPORT''),
      (''RIL_UNSOL_RESPONSE_NEW_SMS_ON_SIM'', ''UNSOL_RESPONSE_NEW_SMS_ON_SIM''),
      (''RIL_UNSOL_ON_USSD'', ''UNSOL_ON_USSD''),
      (''RIL_UNSOL_ON_USSD_REQUEST'', ''UNSOL_ON_USSD_REQUEST(obsolete)''),
      (''RIL_UNSOL_NITZ_TIME_RECEIVED'', ''UNSOL_NITZ_TIME_RECEIVED''),
      (''RIL_UNSOL_SIGNAL_STRENGTH'', ''UNSOL_SIGNAL_STRENGTH''),
      (''RIL_UNSOL_SUPP_SVC_NOTIFICATION'', ''UNSOL_SUPP_SVC_NOTIFICATION''),
      (''RIL_UNSOL_STK_SESSION_END'', ''UNSOL_STK_SESSION_END''),
      (''RIL_UNSOL_STK_PROACTIVE_COMMAND'', ''UNSOL_STK_PROACTIVE_COMMAND''),
      (''RIL_UNSOL_STK_EVENT_NOTIFY'', ''UNSOL_STK_EVENT_NOTIFY''),
      (''RIL_UNSOL_STK_CALL_SETUP'', ''UNSOL_STK_CALL_SETUP''),
      (''RIL_UNSOL_SIM_SMS_STORAGE_FULL'', ''UNSOL_SIM_SMS_STORAGE_FUL''),
      (''RIL_UNSOL_SIM_REFRESH'', ''UNSOL_SIM_REFRESH''),
      (''RIL_UNSOL_DATA_CALL_LIST_CHANGED'', ''UNSOL_DATA_CALL_LIST_CHANGED''),
      (''RIL_UNSOL_CALL_RING'', ''UNSOL_CALL_RING''),
      (''RIL_UNSOL_RESPONSE_SIM_STATUS_CHANGED'', ''UNSOL_RESPONSE_SIM_STATUS_CHANGED''),
      (''RIL_UNSOL_RESPONSE_CDMA_NEW_SMS'', ''UNSOL_NEW_CDMA_SMS''),
      (''RIL_UNSOL_RESPONSE_NEW_BROADCAST_SMS'', ''UNSOL_NEW_BROADCAST_SMS''),
      (''RIL_UNSOL_CDMA_RUIM_SMS_STORAGE_FULL'', ''UNSOL_CDMA_RUIM_SMS_STORAGE_FULL''),
      (''RIL_UNSOL_RESTRICTED_STATE_CHANGED'', ''UNSOL_RESTRICTED_STATE_CHANGED''),
      (''RIL_UNSOL_ENTER_EMERGENCY_CALLBACK_MODE'', ''UNSOL_ENTER_EMERGENCY_CALLBACK_MODE''),
      (''RIL_UNSOL_CDMA_CALL_WAITING'', ''UNSOL_CDMA_CALL_WAITING''),
      (''RIL_UNSOL_CDMA_OTA_PROVISION_STATUS'', ''UNSOL_CDMA_OTA_PROVISION_STATUS''),
      (''RIL_UNSOL_CDMA_INFO_REC'', ''UNSOL_CDMA_INFO_REC''),
      (''RIL_UNSOL_OEM_HOOK_RAW'', ''UNSOL_OEM_HOOK_RAW''),
      (''RIL_UNSOL_RINGBACK_TONE'', ''UNSOL_RINGBACK_TONE''),
      (''RIL_UNSOL_RESEND_INCALL_MUTE'', ''UNSOL_RESEND_INCALL_MUTE''),
      (''RIL_UNSOL_CDMA_SUBSCRIPTION_SOURCE_CHANGED'', ''UNSOL_CDMA_SUBSCRIPTION_SOURCE_CHANGED''),
      (''RIL_UNSOL_CDMA_PRL_CHANGED'', ''UNSOL_CDMA_PRL_CHANGED''),
      (''RIL_UNSOL_EXIT_EMERGENCY_CALLBACK_MODE'', ''UNSOL_EXIT_EMERGENCY_CALLBACK_MODE''),
      (''RIL_UNSOL_RIL_CONNECTED'', ''UNSOL_RIL_CONNECTED''),
      (''RIL_UNSOL_VOICE_RADIO_TECH_CHANGED'', ''UNSOL_VOICE_RADIO_TECH_CHANGED'')] @
     (if RIL_NO_CELL_INFO_LIST E then [] else [(''RIL_UNSOL_CELL_INFO_LIST'', ''UNSOL_CELL_INFO_LIST'')]) @
     [(''RIL_UNSOL_RESPONSE_IMS_NETWORK_STATE_CHANGED'', ''RESPONSE_IMS_NETWORK_STATE_CHANGED''),
      (''RIL_UNSOL_UICC_SUBSCRIPTION_STATUS_CHANGED'', ''UNSOL_UICC_SUBSCRIPTION_STATUS_CHANGED'')]"

definition requestToString :: "'p env \<Rightarrow> i32 \<Rightarrow> string" where
  "requestToString E request = switch_name E (request_names E) request ''<unknown request>''"

section \<open>Facts\<close>

text \<open>The self-check of \<open>RIL_register\<close>.\<close>

definition tables_aligned :: "'p env \<Rightarrow> bool" where
  "tables_aligned E \<longleftrightarrow>
     (\<forall>i<length (s_commands E). ci_requestNumber E (s_commands E ! i) = of_nat i) \<and>
     (\<forall>i<length (s_unsolResponses E).
        K E (ui_request (s_unsolResponses E ! i)) = of_nat i + K E ''RIL_UNSOL_RESPONSE_BASE'')"

definition callable :: "CommandInfo \<Rightarrow> bool" where
  "callable c \<longleftrightarrow> ci_dispatch c \<noteq> None \<and> ci_response c \<noteq> None \<and> ci_request c \<noteq> None"

lemma commands_rows: "list_all callable (tl (s_commands E))"
  by (simp add: s_commands_def callable_def)

lemma length_commands: "0 < length (s_commands E)" "length (s_commands E) < 200"
  by (simp_all add: s_commands_def)

lemma length_unsol: "length (s_unsolResponses E) < 100"
  by (simp add: s_unsolResponses_def)

lemma nth_callable:
  assumes "1 \<le> i" "i < length (s_commands E)"
  shows "callable (s_commands E ! i)"
proof -
  have "s_commands E ! i = tl (s_commands E) ! (i - 1)" "i - 1 < length (tl (s_commands E))"
    using assms by (auto simp: nth_tl)
  then show ?thesis using commands_rows [of E] by (simp add: list_all_length)
qed

text \<open>Every request number that \<open>processCommandBuffer\<close> lets through has a dispatch and a response
  function, in every build: only row 0 has null pointers.\<close>

theorem commands_callable:
  assumes "1 \<le> sint request" "sint request < int (length (s_commands E))"
  shows "ci_dispatch (s_commands E ! nat (sint request)) \<noteq> None \<and>
    ci_response (s_commands E ! nat (sint request)) \<noteq> None"
  using nth_callable [of "nat (sint request)" E] assms by (simp add: callable_def nat_less_iff)

theorem commands_callable_witness:
  "ci_dispatch (s_commands demo_env ! nat (sint (10 :: i32))) \<noteq> None \<and>
   ci_response (s_commands demo_env ! nat (sint (10 :: i32))) \<noteq> None"
proof -
  have "length (s_commands demo_env) > 10" by (simp add: s_commands_def)
  then show ?thesis by (intro commands_callable) simp_all
qed

lemma unnamed_requests:
  "list_all (\<lambda>c. fst c \<noteq> ''RIL_REQUEST_SET_SUPP_SVC_NOTIFICATION'' \<and>
     fst c \<noteq> ''RIL_REQUEST_DELETE_SMS_ON_SIM'' \<and>
     fst c \<noteq> ''RIL_REQUEST_GSM_SMS_BROADCAST_ACTIVATION'' \<and> fst c \<noteq> ''RIL_UNSOL_ON_SS'' \<and>
     fst c \<noteq> ''RIL_UNSOL_STK_CC_ALPHA_NOTIFY'') (request_names E)"
  by (simp add: request_names_def)

lemma unnamed_in_tables:
  "list_ex (\<lambda>c. ci_request c = Some ''RIL_REQUEST_SET_SUPP_SVC_NOTIFICATION'') (s_commands E)"
  "list_ex (\<lambda>c. ci_request c = Some ''RIL_REQUEST_DELETE_SMS_ON_SIM'') (s_commands E)"
  "list_ex (\<lambda>c. ci_request c = Some ''RIL_REQUEST_GSM_SMS_BROADCAST_ACTIVATION'') (s_commands E)"
  "list_ex (\<lambda>c. ui_request c = ''RIL_UNSOL_ON_SS'') (s_unsolResponses E)"
  "list_ex (\<lambda>c. ui_request c = ''RIL_UNSOL_STK_CC_ALPHA_NOTIFY'') (s_unsolResponses E)"
  by (simp_all add: s_commands_def s_unsolResponses_def)

text \<open>The comment of \<open>requestToString\<close> says that its cases are generated from the two tables. Five
  entries of the tables have no case: they are logged as unknown.\<close>

theorem requests_without_name:
  "list_all (\<lambda>n. list_ex (\<lambda>c. ci_request c = Some n) (s_commands E) \<and>
       list_all (\<lambda>c. fst c \<noteq> n) (request_names E))
     [''RIL_REQUEST_SET_SUPP_SVC_NOTIFICATION'', ''RIL_REQUEST_DELETE_SMS_ON_SIM'',
      ''RIL_REQUEST_GSM_SMS_BROADCAST_ACTIVATION''] \<and>
   list_all (\<lambda>n. list_ex (\<lambda>c. ui_request c = n) (s_unsolResponses E) \<and>
       list_all (\<lambda>c. fst c \<noteq> n) (request_names E))
     [''RIL_UNSOL_ON_SS'', ''RIL_UNSOL_STK_CC_ALPHA_NOTIFY'']"
  using unnamed_in_tables [of E] unnamed_requests [of E] by (auto simp: list_all_iff)

end
