(* ===== verification/Ril_Socket.thy ===== *)
theory Ril_Socket
  imports Ril_Event Ril_Tables
begin

text \<open>
  The state of \<^verbatim>\<open>libril/ril.cpp\<close>, as an extension of the event loop's state, and the sending of
  messages to the telephony process: \<open>blockingWrite\<close>, \<open>sendResponseRaw\<close> and \<open>sendResponse\<close>.

  What the kernel and the vendor library answer is part of the state (\<open>world\<close>): the results
  of \<^verbatim>\<open>write\<close>, the addresses that \<^verbatim>\<open>malloc\<close> returns, the radio state that \<open>onStateRequest\<close>
  reports, the clocks. Calls into the vendor library are recorded in order. After
  \<open>onRequest\<close> returns, the code only frees its own buffers, so a vendor library that completes
  a request inside the call behaves as one that completes it right after.
\<close>

section \<open>State\<close>

record RequestInfo =
  ri_token :: i32
  ri_pCI :: nat          \<comment> \<open>index into \<open>s_commands\<close>\<close>
  ri_next :: ptr
  ri_cancelled :: bool
  ri_local :: bool

text \<open>The embedded event of a \<open>UserCallbackInfo\<close> has the address of the structure.\<close>

record UserCallbackInfo =
  uc_callback :: ptr
  uc_userParam :: ptr

datatype write_result = Written nat | WInterrupted | WError

record world =
  w_writes :: "write_result list"   \<comment> \<open>results of \<^verbatim>\<open>write\<close> on the command socket; then it takes all\<close>
  w_alloc :: "ptr list"             \<comment> \<open>addresses that \<^verbatim>\<open>malloc\<close> and \<^verbatim>\<open>calloc\<close> return\<close>
  w_radio :: i32                    \<comment> \<open>what \<open>s_callbacks.onStateRequest()\<close> returns\<close>
  w_now :: timeval                  \<comment> \<open>\<open>getNow\<close>\<close>
  w_elapsed :: i64                  \<comment> \<open>\<open>elapsedRealtime()\<close>\<close>
  w_dispatch_thread :: bool         \<comment> \<open>whether the caller runs on the event loop's thread\<close>

record ril_state = ev_state +
  s_version :: int                  \<comment> \<open>\<open>s_callbacks.version\<close>\<close>
  s_registerCalled :: bool
  s_started :: bool
  s_fdListen :: int
  s_fdCommand :: int
  s_fdDebug :: int
  s_fdWakeupRead :: int
  s_fdWakeupWrite :: int
  reqs :: "ptr \<Rightarrow> RequestInfo"
  req_live :: "ptr set"             \<comment> \<open>requests allocated and not freed\<close>
  s_pendingRequests :: ptr
  infos :: "ptr \<Rightarrow> UserCallbackInfo"
  info_live :: "ptr set"
  s_last_wake_timeout_info :: ptr
  s_lastNITZTimeData :: "u8 list option"
  voiceRadioTech :: i32
  cdmaSubscriptionSource :: i32
  simRuimStatus :: i32
  extlog :: i32
  wake_lock :: bool
  onRequests :: "(i32 \<times> void_ptr \<times> size_t \<times> ptr) list"
  timer_calls :: "(ptr \<times> ptr) list"   \<comment> \<open>vendor callbacks that a timer has called\<close>
  sent :: "u8 list"                 \<comment> \<open>bytes the command socket has taken\<close>
  closes :: "int list"              \<comment> \<open>descriptors closed\<close>
  wakeups :: nat                    \<comment> \<open>bytes in the wakeup pipe\<close>
  world :: world

section \<open>Sending\<close>

text \<open>
  The loop of \<open>blockingWrite\<close> over the results of \<^verbatim>\<open>write\<close>: whether all is written, the bytes
  that were, and the results not used.
\<close>

fun blockingWrite :: "write_result list \<Rightarrow> u8 list \<Rightarrow> bool \<times> u8 list \<times> write_result list" where
  "blockingWrite rs [] = (True, [], rs)"
| "blockingWrite [] buf = (True, buf, [])"
| "blockingWrite (Written k # rs) buf =
     (let (ok, out, rs') = blockingWrite rs (drop k buf) in (ok, take k buf @ out, rs'))"
| "blockingWrite (WInterrupted # rs) buf = blockingWrite rs buf"
| "blockingWrite (WError # rs) buf = (False, [], rs)"

definition write_fd :: "u8 list \<Rightarrow> ril_state \<Rightarrow> bool \<times> ril_state" where
  "write_fd buf s =
     (let (ok, out, rs) = blockingWrite (w_writes (world s)) buf;
          s = s\<lparr>sent := sent s @ out, world := (world s)\<lparr>w_writes := rs\<rparr>\<rparr>
      in (ok, if ok then s else s\<lparr>closes := closes s @ [s_fdCommand s]\<rparr>))"

text \<open>\<open>htonl\<close>: the four bytes of the length, the most significant first.\<close>

definition be32 :: "nat \<Rightarrow> u8 list" where
  "be32 n = [of_nat (n div 2 ^ 24), of_nat (n div 2 ^ 16), of_nat (n div 2 ^ 8), of_nat n]"

definition sendResponseRaw :: "u8 list \<Rightarrow> ril_state \<Rightarrow> int \<times> ril_state" where
  "sendResponseRaw data s =
     (if s_fdCommand s < 0 then (- 1, s)
      else if length data > MAX_COMMAND_BYTES then (- 1, s)
      else let (ok, s) = write_fd (be32 (length data)) s in
        if \<not> ok then (- 1, s)
        else let (ok, s) = write_fd data s in if \<not> ok then (- 1, s) else (0, s))"

definition sendResponse :: "'p env \<Rightarrow> 'p \<Rightarrow> ril_state \<Rightarrow> int \<times> ril_state" where
  "sendResponse E p s = sendResponseRaw (p_data E p) s"

text \<open>A message on the wire.\<close>

definition frame :: "u8 list \<Rightarrow> u8 list" where
  "frame data = be32 (length data) @ data"

section \<open>Lemmas\<close>

lemma blockingWrite_prefix:
  assumes "blockingWrite rs buf = (ok, out, rs')"
  shows "if ok then out = buf else \<exists>rest. buf = out @ rest \<and> rest \<noteq> []"
  using assms
proof (induction rs buf arbitrary: out rs' rule: blockingWrite.induct)
  case (3 k rs v va)
  obtain o' where o': "blockingWrite rs (drop k (v # va)) = (ok, o', rs')" "out = take k (v # va) @ o'"
    using 3(2) by (auto split: prod.splits)
  then show ?case using 3(1) [OF o'(1)] by (metis append_assoc append_take_drop_id)
qed (auto split: if_splits)

text \<open>What sending leaves alone: everything but the bytes sent, the log of closed descriptors and
  the results of \<^verbatim>\<open>write\<close>.\<close>

definition quiet :: "ril_state \<Rightarrow> ril_state" where
  "quiet s = s\<lparr>sent := [], closes := [], world := (world s)\<lparr>w_writes := []\<rparr>\<rparr>"

lemma quiet_eqD:
  assumes "quiet s' = quiet s"
  shows "mem s' = mem s"
    and "readFds s' = readFds s"
    and "nfds s' = nfds s"
    and "watch_table s' = watch_table s"
    and "s_version s' = s_version s"
    and "s_registerCalled s' = s_registerCalled s"
    and "s_started s' = s_started s"
    and "s_fdListen s' = s_fdListen s"
    and "s_fdCommand s' = s_fdCommand s"
    and "s_fdDebug s' = s_fdDebug s"
    and "s_fdWakeupRead s' = s_fdWakeupRead s"
    and "s_fdWakeupWrite s' = s_fdWakeupWrite s"
    and "reqs s' = reqs s"
    and "req_live s' = req_live s"
    and "s_pendingRequests s' = s_pendingRequests s"
    and "infos s' = infos s"
    and "info_live s' = info_live s"
    and "s_last_wake_timeout_info s' = s_last_wake_timeout_info s"
    and "s_lastNITZTimeData s' = s_lastNITZTimeData s"
    and "voiceRadioTech s' = voiceRadioTech s"
    and "cdmaSubscriptionSource s' = cdmaSubscriptionSource s"
    and "simRuimStatus s' = simRuimStatus s"
    and "extlog s' = extlog s"
    and "wake_lock s' = wake_lock s"
    and "onRequests s' = onRequests s"
    and "timer_calls s' = timer_calls s"
    and "wakeups s' = wakeups s"
    and "w_alloc (world s') = w_alloc (world s)"
    and "w_radio (world s') = w_radio (world s)"
    and "w_now (world s') = w_now (world s)"
    and "w_elapsed (world s') = w_elapsed (world s)"
    and "w_dispatch_thread (world s') = w_dispatch_thread (world s)"
  using
    arg_cong [OF assms, of mem] arg_cong [OF assms, of readFds] arg_cong [OF assms, of nfds]
    arg_cong [OF assms, of watch_table] arg_cong [OF assms, of s_version]
    arg_cong [OF assms, of s_registerCalled] arg_cong [OF assms, of s_started]
    arg_cong [OF assms, of s_fdListen] arg_cong [OF assms, of s_fdCommand]
    arg_cong [OF assms, of s_fdDebug] arg_cong [OF assms, of s_fdWakeupRead]
    arg_cong [OF assms, of s_fdWakeupWrite] arg_cong [OF assms, of reqs]
    arg_cong [OF assms, of req_live] arg_cong [OF assms, of s_pendingRequests]
    arg_cong [OF assms, of infos] arg_cong [OF assms, of info_live]
    arg_cong [OF assms, of s_last_wake_timeout_info] arg_cong [OF assms, of s_lastNITZTimeData]
    arg_cong [OF assms, of voiceRadioTech] arg_cong [OF assms, of cdmaSubscriptionSource]
    arg_cong [OF assms, of simRuimStatus] arg_cong [OF assms, of extlog]
    arg_cong [OF assms, of wake_lock] arg_cong [OF assms, of onRequests]
    arg_cong [OF assms, of timer_calls] arg_cong [OF assms, of wakeups]
    arg_cong [OF assms, of "\<lambda>s. w_alloc (world s)"]
    arg_cong [OF assms, of "\<lambda>s. w_radio (world s)"]
    arg_cong [OF assms, of "\<lambda>s. w_now (world s)"]
    arg_cong [OF assms, of "\<lambda>s. w_elapsed (world s)"]
    arg_cong [OF assms, of "\<lambda>s. w_dispatch_thread (world s)"]
  by (simp_all add: quiet_def)

lemma write_fd_quiet: "quiet (snd (write_fd buf s)) = quiet s"
  by (simp add: write_fd_def quiet_def Let_def split: prod.splits)

lemma sendResponseRaw_quiet: "quiet (snd (sendResponseRaw data s)) = quiet s"
  using write_fd_quiet [of "be32 (length data)" s]
    write_fd_quiet [of data "snd (write_fd (be32 (length data)) s)"]
  by (auto simp: sendResponseRaw_def split: prod.splits)

lemma sendResponse_quiet: "quiet (snd (sendResponse E p s)) = quiet s"
  by (simp add: sendResponse_def sendResponseRaw_quiet)

lemma write_fd_sent:
  assumes "write_fd buf s = (ok, s')"
  shows "if ok then sent s' = sent s @ buf
    else \<exists>out rest. buf = out @ rest \<and> rest \<noteq> [] \<and> sent s' = sent s @ out"
  using assms blockingWrite_prefix [of "w_writes (world s)" buf]
  by (auto simp: write_fd_def Let_def split: prod.splits if_splits)

lemma sendResponseRaw_sent:
  assumes "sendResponseRaw data s = (ret, s')"
  shows "if ret = 0 then sent s' = sent s @ frame data
    else ret = - 1 \<and> (\<exists>out rest. frame data = out @ rest \<and> rest \<noteq> [] \<and> sent s' = sent s @ out)"
proof -
  consider "s_fdCommand s < 0 \<or> length data > MAX_COMMAND_BYTES"
    | s1 where "\<not> s_fdCommand s < 0" "\<not> length data > MAX_COMMAND_BYTES"
        "write_fd (be32 (length data)) s = (False, s1)"
    | s1 where "\<not> s_fdCommand s < 0" "\<not> length data > MAX_COMMAND_BYTES"
        "write_fd (be32 (length data)) s = (True, s1)"
    by (metis (full_types) surj_pair)
  then show ?thesis
  proof cases
    case 1
    then show ?thesis using assms
      by (auto simp: sendResponseRaw_def frame_def be32_def split: if_splits)
  next
    case 2
    then show ?thesis using assms write_fd_sent [OF 2(3)]
      by (auto simp: sendResponseRaw_def frame_def)
  next
    case (3 s1)
    obtain ok s2 where "write_fd data s1 = (ok, s2)" by fastforce
    with 3 assms write_fd_sent [OF 3(3)] write_fd_sent [of data s1] show ?thesis
      by (auto simp: sendResponseRaw_def frame_def split: if_splits)
  qed
qed

lemma be32_inj:
  assumes "be32 m = be32 n" "m < 2 ^ 32" "n < 2 ^ 32"
  shows "m = n"
proof -
  have b: "(of_nat a :: u8) = of_nat b \<longleftrightarrow> a mod 256 = b mod 256" for a b
    using word_of_nat_eq_iff [where 'a = 8, of a b] by (simp add: take_bit_eq_mod)
  have d: "k = 2 ^ 24 * (k div 2 ^ 24 mod 256) + 2 ^ 16 * (k div 2 ^ 16 mod 256) +
      2 ^ 8 * (k div 2 ^ 8 mod 256) + k mod 256" if "k < 2 ^ 32" for k :: nat
  proof -
    define a b c where "a = k div 256" and "b = a div 256" and "c = b div 256"
    have "k div 2 ^ 8 = a" "k div 2 ^ 16 = b" "k div 2 ^ 24 = c"
      unfolding a_def b_def c_def by (simp_all add: div_mult2_eq [symmetric])
    moreover have "c < 256" using that unfolding a_def b_def c_def by simp
    moreover have "k = 256 * a + k mod 256" "a = 256 * b + a mod 256" "b = 256 * c + b mod 256"
      unfolding a_def b_def c_def by simp_all
    ultimately show ?thesis by simp
  qed
  have "m div 2 ^ 24 mod 256 = n div 2 ^ 24 mod 256" "m div 2 ^ 16 mod 256 = n div 2 ^ 16 mod 256"
    "m div 2 ^ 8 mod 256 = n div 2 ^ 8 mod 256" "m mod 256 = n mod 256"
    using assms(1) unfolding be32_def list.inject b by auto
  then show ?thesis using d [OF assms(2)] d [OF assms(3)] by metis
qed

lemma frame_inj:
  assumes "frame a @ x = frame b @ y" "length a < 2 ^ 32" "length b < 2 ^ 32"
  shows "a = b \<and> x = y"
proof -
  have "be32 (length a) @ (a @ x) = be32 (length b) @ (b @ y)"
    using assms(1) by (simp add: frame_def)
  then have "be32 (length a) = be32 (length b)" "a @ x = b @ y"
    by (auto simp: be32_def)
  then show ?thesis using be32_inj assms(2,3) by (metis append_eq_append_conv)
qed

lemma sendResponseRaw_refused:
  "s_fdCommand s < 0 \<or> length data > MAX_COMMAND_BYTES \<Longrightarrow> sendResponseRaw data s = (- 1, s)"
  by (auto simp: sendResponseRaw_def)

section \<open>Properties\<close>

text \<open>C8 \<open>sendResponseRaw\<close> puts a message on the wire whole, as its length in network byte order
  followed by its bytes, however the kernel splits the writes; it does nothing else. When it fails
  only a proper prefix of the message was written, and none of it when there is no connection or
  the message is longer than the limit.\<close>

theorem sendResponseRaw_frames:
  assumes "sendResponseRaw data s = (ret, s')"
  shows "quiet s' = quiet s \<and>
    (if ret = 0 then sent s' = sent s @ frame data
     else \<exists>out rest. frame data = out @ rest \<and> rest \<noteq> [] \<and> sent s' = sent s @ out) \<and>
    (s_fdCommand s < 0 \<or> length data > 8192 \<longrightarrow> ret = - 1 \<and> s' = s)"
proof (intro conjI impI)
  show "quiet s' = quiet s" using sendResponseRaw_quiet [of data s] assms by simp
  show "if ret = 0 then sent s' = sent s @ frame data
     else \<exists>out rest. frame data = out @ rest \<and> rest \<noteq> [] \<and> sent s' = sent s @ out"
    using sendResponseRaw_sent [OF assms] by (auto split: if_splits)
next
  assume "s_fdCommand s < 0 \<or> length data > 8192"
  then have "sendResponseRaw data s = (- 1, s)"
    by (intro sendResponseRaw_refused) (simp add: MAX_COMMAND_BYTES_def)
  with assms show "ret = - 1" "s' = s" by simp_all
qed

text \<open>A state for evaluating the theorems: connected on descriptor 9, nothing pending.\<close>

definition demo_world :: world where
  "demo_world = \<lparr>w_writes = [], w_alloc = [100, 101, 102, 103], w_radio = 10, w_now = Timeval 50 0,
     w_elapsed = 77, w_dispatch_thread = True\<rparr>"

definition demo_ril :: ril_state where
  "demo_ril = ev_state.extend demo_state
     \<lparr>s_version = 9, s_registerCalled = True, s_started = True, s_fdListen = 5, s_fdCommand = 9,
      s_fdDebug = 6, s_fdWakeupRead = 3, s_fdWakeupWrite = 4,
      reqs = (\<lambda>_. \<lparr>ri_token = 0, ri_pCI = 0, ri_next = 0, ri_cancelled = False, ri_local = False\<rparr>),
      req_live = {}, s_pendingRequests = 0, infos = (\<lambda>_. \<lparr>uc_callback = 0, uc_userParam = 0\<rparr>),
      info_live = {}, s_last_wake_timeout_info = 0, s_lastNITZTimeData = None,
      voiceRadioTech = - 1, cdmaSubscriptionSource = - 1, simRuimStatus = - 1, extlog = 0,
      wake_lock = False, onRequests = [], timer_calls = [], sent = [], closes = [], wakeups = 0,
      world = demo_world\<rparr>"

theorem sendResponseRaw_frames_witness:
  "\<exists>s'. sendResponseRaw [1, 2, 3] (demo_ril\<lparr>world := demo_world\<lparr>w_writes :=
       [Written 2, WInterrupted, Written 2, Written 1]\<rparr>\<rparr>) = (0, s') \<and>
     sent s' = [0, 0, 0, 3, 1, 2, 3]"
proof -
  let ?s = "demo_ril\<lparr>world := demo_world\<lparr>w_writes := [Written 2, WInterrupted, Written 2, Written 1]\<rparr>\<rparr>"
  have "\<exists>s'. sendResponseRaw [1, 2, 3] ?s = (0, s')"
    by (simp add: sendResponseRaw_def write_fd_def be32_def demo_ril_def ev_state.defs
        MAX_COMMAND_BYTES_def)
  then obtain s' where s': "sendResponseRaw [1, 2, 3] ?s = (0, s')" ..
  from sendResponseRaw_frames [OF s'] s' show ?thesis
    by (simp add: frame_def be32_def demo_ril_def ev_state.defs)
qed

text \<open>The framing is unambiguous: a sequence of messages can be split again in one way only.\<close>

theorem frames_unambiguous:
  "list_all (\<lambda>d. length d \<le> MAX_COMMAND_BYTES) ds \<Longrightarrow>
   list_all (\<lambda>d. length d \<le> MAX_COMMAND_BYTES) es \<Longrightarrow>
   concat (map frame ds) = concat (map frame es) \<Longrightarrow> ds = es"
proof (induction ds arbitrary: es)
  case Nil
  then show ?case by (cases es) (auto simp: frame_def be32_def)
next
  case (Cons d ds)
  then obtain e es' where es: "es = e # es'" by (cases es) (auto simp: frame_def be32_def)
  have "d = e \<and> concat (map frame ds) = concat (map frame es')"
    using Cons.prems es by (intro frame_inj) (auto simp: MAX_COMMAND_BYTES_def)
  with Cons es show ?case by auto
qed

theorem frames_unambiguous_witness:
  "[[1], [2, 3]] = ([[1], [2, 3]] :: u8 list list)"
  by (rule frames_unambiguous) (simp_all add: MAX_COMMAND_BYTES_def)

text \<open>A write error closes the command descriptor but leaves it in \<open>s_fdCommand\<close>: the next message
  is written to a descriptor number that is closed or already another file's.\<close>

theorem write_error_keeps_fd:
  assumes "0 \<le> s_fdCommand s" "length data \<le> MAX_COMMAND_BYTES"
    and "w_writes (world s) = WError # rs"
  shows "\<exists>s'. sendResponseRaw data s = (- 1, s') \<and> s_fdCommand s \<in> set (closes s') \<and>
    s_fdCommand s' = s_fdCommand s"
  using assms by (simp add: sendResponseRaw_def write_fd_def be32_def not_less)

theorem write_error_keeps_fd_witness:
  "\<exists>s'. sendResponseRaw [1] (demo_ril\<lparr>world := demo_world\<lparr>w_writes := [WError]\<rparr>\<rparr>) = (- 1, s') \<and>
     9 \<in> set (closes s') \<and> s_fdCommand s' = 9"
  using write_error_keeps_fd [of "demo_ril\<lparr>world := demo_world\<lparr>w_writes := [WError]\<rparr>\<rparr>" "[1]" "[]"]
  by (simp add: demo_ril_def ev_state.defs MAX_COMMAND_BYTES_def)

end
