(* ===== verification/Ril_Requests.thy ===== *)
theory Ril_Requests
  imports Ril_Socket
begin

text \<open>
  The requests of \<^verbatim>\<open>libril/ril.cpp\<close> from their arrival to their completion: the linked list of
  pending requests, \<open>processCommandBuffer\<close> and \<open>issueLocalRequest\<close> that put a request on it,
  \<open>RIL_onRequestComplete\<close> that takes it off and answers it, \<open>onCommandsSocketClosed\<close> that marks
  all of them cancelled. The mutex of the list makes each access atomic.
\<close>

section \<open>The pending list\<close>

definition ld_req :: "ril_state \<Rightarrow> ptr \<Rightarrow> RequestInfo option" where
  "ld_req s p = (if p \<noteq> NULL \<and> p \<in> req_live s then Some (reqs s p) else None)"

definition st_req :: "ptr \<Rightarrow> (RequestInfo \<Rightarrow> RequestInfo) \<Rightarrow> ril_state \<Rightarrow> ril_state option" where
  "st_req p f s = (if p \<noteq> NULL \<and> p \<in> req_live s
     then Some (s\<lparr>reqs := (reqs s)(p := f (reqs s p))\<rparr>) else None)"

definition zero_req :: RequestInfo where
  "zero_req = \<lparr>ri_token = 0, ri_pCI = 0, ri_next = NULL, ri_cancelled = False, ri_local = False\<rparr>"

text \<open>\<open>calloc(1, sizeof(RequestInfo))\<close>; the result is not checked for NULL before its use.\<close>

definition calloc_req :: "ril_state \<Rightarrow> (ptr \<times> ril_state) option" where
  "calloc_req s = (case w_alloc (world s) of
       a # as \<Rightarrow> if a = NULL then None
         else Some (a, s\<lparr>reqs := (reqs s)(a := zero_req), req_live := insert a (req_live s),
                        world := (world s)\<lparr>w_alloc := as\<rparr>\<rparr>)
     | [] \<Rightarrow> None)"

definition free_req :: "ptr \<Rightarrow> ril_state \<Rightarrow> ril_state" where
  "free_req p s = s\<lparr>req_live := req_live s - {p}\<rparr>"

text \<open>\<open>pRI->p_next = s_pendingRequests; s_pendingRequests = pRI;\<close>\<close>

definition push_pending :: "ptr \<Rightarrow> ril_state \<Rightarrow> ril_state option" where
  "push_pending pRI s = do {
     s \<leftarrow> st_req pRI (\<lambda>r. r\<lparr>ri_next := s_pendingRequests s\<rparr>) s;
     Some (s\<lparr>s_pendingRequests := pRI\<rparr>) }"

text \<open>\<open>RequestInfo **ppCur\<close>: the address of the list head or of a \<open>p_next\<close> field.\<close>

datatype ppCur = HeadOf | NextOf ptr

fun ld_pp :: "ril_state \<Rightarrow> ppCur \<Rightarrow> ptr option" where
  "ld_pp s HeadOf = Some (s_pendingRequests s)"
| "ld_pp s (NextOf q) = map_option ri_next (ld_req s q)"

fun st_pp :: "ppCur \<Rightarrow> ptr \<Rightarrow> ril_state \<Rightarrow> ril_state option" where
  "st_pp HeadOf p s = Some (s\<lparr>s_pendingRequests := p\<rparr>)"
| "st_pp (NextOf q) p s = st_req q (\<lambda>r. r\<lparr>ri_next := p\<rparr>) s"

partial_function (option) dequeue_loop :: "ptr \<Rightarrow> ppCur \<Rightarrow> ril_state \<Rightarrow> (bool \<times> ril_state) option" where
  "dequeue_loop pRI pp s = do {
     cur \<leftarrow> ld_pp s pp;
     if cur = NULL then Some (False, s)
     else if pRI = cur then do {
       r \<leftarrow> ld_req s cur;
       s \<leftarrow> st_pp pp (ri_next r) s;
       Some (True, s) }
     else dequeue_loop pRI (NextOf cur) s }"

definition checkAndDequeueRequestInfo :: "ptr \<Rightarrow> ril_state \<Rightarrow> (bool \<times> ril_state) option" where
  "checkAndDequeueRequestInfo pRI s =
     (if pRI = NULL then Some (False, s) else dequeue_loop pRI HeadOf s)"

partial_function (option) cancel_loop :: "ptr \<Rightarrow> ril_state \<Rightarrow> ril_state option" where
  "cancel_loop p_cur s =
     (if p_cur = NULL then Some s
      else do {
        s \<leftarrow> st_req p_cur (\<lambda>r. r\<lparr>ri_cancelled := True\<rparr>) s;
        r \<leftarrow> ld_req s p_cur;
        cancel_loop (ri_next r) s })"

definition onCommandsSocketClosed :: "ril_state \<Rightarrow> ril_state option" where
  "onCommandsSocketClosed s = cancel_loop (s_pendingRequests s) s"

section \<open>Completion\<close>

text \<open>The parcel of an answer: when the response function fails, its error replaces \<open>e\<close>.\<close>

definition response_parcel ::
    "'p env \<Rightarrow> int \<Rightarrow> RequestInfo \<Rightarrow> i32 \<Rightarrow> void_ptr \<Rightarrow> size_t \<Rightarrow> 'p option" where
  "response_parcel E version ri e response responselen =
     (let p = p_writeInt32 E RESPONSE_SOLICITED (p_new E);
          p = p_writeInt32 E (ri_token ri) p;
          errorOffset = p_dataPosition E p;
          p = p_writeInt32 E e p
      in if response = VNull then Some p
         else do {
           f \<leftarrow> ci_response (s_commands E ! ri_pCI ri);
           (ret, ws) \<leftarrow> call_response E version f response responselen;
           let p = puts E ws p;
           Some (if ret \<noteq> 0 then p_writeInt32 E ret (p_setDataPosition E errorOffset p) else p) })"

definition RIL_onRequestComplete ::
    "'p env \<Rightarrow> ptr \<Rightarrow> i32 \<Rightarrow> void_ptr \<Rightarrow> size_t \<Rightarrow> ril_state \<Rightarrow> ril_state option" where
  "RIL_onRequestComplete E t e response responselen s = do {
     (found, s) \<leftarrow> checkAndDequeueRequestInfo t s;
     if \<not> found then Some s
     else do {
       ri \<leftarrow> ld_req s t;
       s \<leftarrow> (if ri_local ri then Some s
            else if ri_cancelled ri then Some s
            else do {
              p \<leftarrow> response_parcel E (s_version s) ri e response responselen;
              Some (snd (sendResponse E p s)) });
       Some (free_req t s) } }"

section \<open>Dispatch\<close>

definition call_onRequest :: "i32 \<Rightarrow> void_ptr \<Rightarrow> size_t \<Rightarrow> ptr \<Rightarrow> ril_state \<Rightarrow> ril_state" where
  "call_onRequest request data len t s = s\<lparr>onRequests := onRequests s @ [(request, data, len, t)]\<rparr>"

definition issueLocalRequest :: "'p env \<Rightarrow> i32 \<Rightarrow> void_ptr \<Rightarrow> size_t \<Rightarrow> ril_state \<Rightarrow> ril_state option" where
  "issueLocalRequest E request data len s = do {
     (pRI, s) \<leftarrow> calloc_req s;
     s \<leftarrow> st_req pRI (\<lambda>r. r\<lparr>ri_local := True, ri_token := 0xffffffff, ri_pCI := nat (sint request)\<rparr>) s;
     s \<leftarrow> push_pending pRI s;
     Some (call_onRequest request data len pRI s) }"

definition decodeVoiceRadioTechnology :: "'p env \<Rightarrow> i32 \<Rightarrow> i32" where
  "decodeVoiceRadioTechnology E radioState =
     (if radioState \<in> set (map (K E) [''RADIO_STATE_SIM_NOT_READY'',
           ''RADIO_STATE_SIM_LOCKED_OR_ABSENT'', ''RADIO_STATE_SIM_READY''])
      then K E ''RADIO_TECH_UMTS''
      else if radioState \<in> set (map (K E) [''RADIO_STATE_RUIM_NOT_READY'',
           ''RADIO_STATE_RUIM_READY'', ''RADIO_STATE_RUIM_LOCKED_OR_ABSENT'',
           ''RADIO_STATE_NV_NOT_READY'', ''RADIO_STATE_NV_READY''])
      then K E ''RADIO_TECH_1xRTT''
      else - 1)"

definition decodeCdmaSubscriptionSource :: "'p env \<Rightarrow> i32 \<Rightarrow> i32" where
  "decodeCdmaSubscriptionSource E radioState =
     (if radioState \<in> set (map (K E) [''RADIO_STATE_SIM_NOT_READY'',
           ''RADIO_STATE_SIM_LOCKED_OR_ABSENT'', ''RADIO_STATE_SIM_READY'',
           ''RADIO_STATE_RUIM_NOT_READY'', ''RADIO_STATE_RUIM_READY'',
           ''RADIO_STATE_RUIM_LOCKED_OR_ABSENT''])
      then K E ''CDMA_SUBSCRIPTION_SOURCE_RUIM_SIM''
      else if radioState \<in> set (map (K E) [''RADIO_STATE_NV_NOT_READY'', ''RADIO_STATE_NV_READY''])
      then K E ''CDMA_SUBSCRIPTION_SOURCE_NV''
      else - 1)"

definition dispatchVoiceRadioTech :: "'p env \<Rightarrow> i32 \<Rightarrow> ptr \<Rightarrow> ril_state \<Rightarrow> ril_state option" where
  "dispatchVoiceRadioTech E rq pRI s = (let state = w_radio (world s) in do {
     s \<leftarrow> (if state = K E ''RADIO_STATE_UNAVAILABLE'' \<or> state = K E ''RADIO_STATE_OFF''
          then RIL_onRequestComplete E pRI (K E ''RIL_E_RADIO_NOT_AVAILABLE'') VNull 0 s
          else Some s);
     if state = K E ''RADIO_STATE_ON'' then Some (call_onRequest rq VNull 0 pRI s)
     else let tech = decodeVoiceRadioTechnology E state; s = s\<lparr>voiceRadioTech := tech\<rparr> in
       if sint tech < 0 then RIL_onRequestComplete E pRI (K E ''RIL_E_GENERIC_FAILURE'') VNull 0 s
       else RIL_onRequestComplete E pRI (K E ''RIL_E_SUCCESS'') (VInts [tech])
              (of_nat sizeof_int) s })"

definition dispatchCdmaSubscriptionSource ::
    "'p env \<Rightarrow> i32 \<Rightarrow> ptr \<Rightarrow> ril_state \<Rightarrow> ril_state option" where
  "dispatchCdmaSubscriptionSource E rq pRI s = (let state = w_radio (world s) in do {
     s \<leftarrow> (if state = K E ''RADIO_STATE_UNAVAILABLE'' \<or> state = K E ''RADIO_STATE_OFF''
          then RIL_onRequestComplete E pRI (K E ''RIL_E_RADIO_NOT_AVAILABLE'') VNull 0 s
          else Some s);
     if state = K E ''RADIO_STATE_ON'' then Some (call_onRequest rq VNull 0 pRI s)
     else let src = decodeCdmaSubscriptionSource E state; s = s\<lparr>cdmaSubscriptionSource := src\<rparr> in
       if sint src < 0 then RIL_onRequestComplete E pRI (K E ''RIL_E_GENERIC_FAILURE'') VNull 0 s
       else RIL_onRequestComplete E pRI (K E ''RIL_E_SUCCESS'') (VInts [src])
              (of_nat sizeof_int) s })"

text \<open>\<open>pRI->pCI->dispatchFunction(p, pRI)\<close>\<close>

definition call_dispatchFunction ::
    "'p env \<Rightarrow> CommandInfo \<Rightarrow> 'p \<Rightarrow> ptr \<Rightarrow> ril_state \<Rightarrow> ril_state option" where
  "call_dispatchFunction E c p pRI s = do {
     f \<leftarrow> ci_dispatch c;
     let rq = ci_requestNumber E c;
     (if f = DispatchVoiceRadioTech then dispatchVoiceRadioTech E rq pRI s
      else if f = DispatchCdmaSubscriptionSource then dispatchCdmaSubscriptionSource E rq pRI s
      else case call_dispatch E (s_version s) rq f p of
          Some (OnRequest d n) \<Rightarrow> Some (call_onRequest rq d n pRI s)
        | Some Invalid \<Rightarrow> Some s
        | Some Dropped \<Rightarrow> Some s
        | _ \<Rightarrow> None) }"

definition processCommandBuffer :: "'p env \<Rightarrow> u8 list \<Rightarrow> ril_state \<Rightarrow> ril_state option" where
  "processCommandBuffer E buffer s =
     (let p = p_setData E buffer;
          (_, request, p) = rdI32 E (uninit E) p;
          (ok, token, p) = rdI32 E (uninit E) p
      in if \<not> ok then Some s
         else if sint request < 1 \<or> sint request \<ge> int (length (s_commands E)) then
           let pErr = puts E [I32 RESPONSE_SOLICITED, I32 token, I32 (K E ''RIL_E_GENERIC_FAILURE'')]
                        (p_new E)
           in Some (snd (sendResponse E pErr s))
         else do {
           (pRI, s) \<leftarrow> calloc_req s;
           s \<leftarrow> st_req pRI (\<lambda>r. r\<lparr>ri_token := token, ri_pCI := nat (sint request)\<rparr>) s;
           s \<leftarrow> push_pending pRI s;
           call_dispatchFunction E (s_commands E ! nat (sint request)) p pRI s })"

section \<open>The list that the pointers represent\<close>

fun rpath :: "(ptr \<Rightarrow> RequestInfo) \<Rightarrow> ptr set \<Rightarrow> ptr \<Rightarrow> ptr list \<Rightarrow> bool" where
  "rpath h L p [] \<longleftrightarrow> p = NULL"
| "rpath h L p (x # xs) \<longleftrightarrow> p = x \<and> x \<noteq> NULL \<and> x \<in> L \<and> rpath h L (ri_next (h x)) xs"

definition pending :: "ril_state \<Rightarrow> ptr list \<Rightarrow> bool" where
  "pending s xs \<longleftrightarrow> rpath (reqs s) (req_live s) (s_pendingRequests s) xs \<and> distinct xs"

text \<open>All of the state but the links of the list.\<close>

definition unlinked :: "ril_state \<Rightarrow> ril_state" where
  "unlinked s = s\<lparr>reqs := (\<lambda>p. (reqs s p)\<lparr>ri_next := NULL\<rparr>), s_pendingRequests := NULL\<rparr>"

lemma rpath_upd [simp]: "u \<notin> set xs \<Longrightarrow> rpath (h(u := r)) L p xs = rpath h L p xs"
  by (induction xs arbitrary: p) auto

lemma rpath_append:
  "rpath h L p (xs @ y # ys) \<longleftrightarrow> y \<noteq> NULL \<and> y \<in> L \<and> rpath h L (ri_next (h y)) ys \<and>
     (xs = [] \<longrightarrow> p = y) \<and> (xs \<noteq> [] \<longrightarrow> ri_next (h (last xs)) = y) \<and>
     (xs \<noteq> [] \<longrightarrow> p = hd xs \<and> set xs \<subseteq> L - {NULL} \<and>
        (\<forall>i. Suc i < length xs \<longrightarrow> ri_next (h (xs ! i)) = xs ! Suc i))"
proof (induction xs arbitrary: p)
  case (Cons x xs)
  show ?case
  proof (cases xs)
    case (Cons z zs)
    then show ?thesis using Cons.IH by (auto simp: less_Suc_eq_0_disj)
  qed auto
qed auto

lemma rpath_unlink:
  assumes "rpath h L p (xs @ u # a # ys)" "distinct (xs @ u # a # ys)"
  shows "rpath (h(u := (h u)\<lparr>ri_next := ri_next (h a)\<rparr>)) L p (xs @ u # ys)"
  using assms by (induction xs arbitrary: p) auto

lemma dequeue_loop_out:
  "ld_pp s pp = Some p \<Longrightarrow> rpath (reqs s) (req_live s) p xs \<Longrightarrow> a \<notin> set xs \<Longrightarrow>
    dequeue_loop a pp s = Some (False, s)"
proof (induction xs arbitrary: pp p)
  case Nil
  then show ?case by (subst dequeue_loop.simps) simp
next
  case (Cons x xs)
  have "ld_pp s (NextOf x) = Some (ri_next (reqs s x))" using Cons.prems by (simp add: ld_req_def)
  with Cons show ?case by (subst dequeue_loop.simps) auto
qed

lemma dequeue_loop_in:
  "ld_pp s pp = Some p \<Longrightarrow> rpath (reqs s) (req_live s) p (us @ a # vs) \<Longrightarrow> a \<notin> set us \<Longrightarrow>
    dequeue_loop a pp s = map_option (Pair True)
      (st_pp (if us = [] then pp else NextOf (last us)) (ri_next (reqs s a)) s)"
proof (induction us arbitrary: pp p)
  case Nil
  then show ?case
    by (subst dequeue_loop.simps) (auto simp: ld_req_def Option.map_conv_bind_option comp_def)
next
  case (Cons x us)
  have "ld_pp s (NextOf x) = Some (ri_next (reqs s x))" using Cons.prems by (simp add: ld_req_def)
  with Cons show ?case by (subst dequeue_loop.simps) auto
qed

section \<open>The contract of the pending list\<close>

text \<open>
  What the completion of requests relies on: a queue of tokens from which any element can be
  taken, once; \<open>rest\<close> is the part of the state that the operations leave alone.
\<close>

locale request_queue =
  fixes repr :: "'s \<Rightarrow> ptr list \<Rightarrow> bool"
    and rest :: "'s \<Rightarrow> 'r"
    and fresh :: "ptr \<Rightarrow> 's \<Rightarrow> bool"
    and push :: "ptr \<Rightarrow> 's \<Rightarrow> 's option"
    and deq :: "ptr \<Rightarrow> 's \<Rightarrow> (bool \<times> 's) option"
  assumes repr_distinct: "repr s xs \<Longrightarrow> distinct xs"
    and push_ok: "repr s xs \<Longrightarrow> fresh a s \<Longrightarrow> a \<notin> set xs \<Longrightarrow>
      \<exists>s'. push a s = Some s' \<and> repr s' (a # xs) \<and> rest s' = rest s"
    and deq_in: "repr s xs \<Longrightarrow> a \<in> set xs \<Longrightarrow>
      \<exists>s'. deq a s = Some (True, s') \<and> repr s' (remove1 a xs) \<and> rest s' = rest s"
    and deq_out: "repr s xs \<Longrightarrow> a \<notin> set xs \<Longrightarrow> deq a s = Some (False, s)"
begin

lemma deq_total:
  "repr s xs \<Longrightarrow> \<exists>s'. deq a s = Some (a \<in> set xs, s') \<and> repr s' (remove1 a xs) \<and> rest s' = rest s"
  using deq_in [of s xs a] deq_out [of s xs a] by (cases "a \<in> set xs") (auto simp: remove1_idem)

lemma deq_once:
  assumes "repr s xs" "deq a s = Some (True, s')"
  shows "deq a s' = Some (False, s')"
proof -
  have "repr s' (remove1 a xs)" "a \<notin> set (remove1 a xs)"
    using deq_total [OF assms(1), of a] assms(2) repr_distinct [OF assms(1)] by auto
  then show ?thesis by (rule deq_out)
qed

lemma push_deq:
  assumes "repr s xs" "fresh a s" "a \<notin> set xs"
  shows "\<exists>s1 s2. push a s = Some s1 \<and> deq a s1 = Some (True, s2) \<and> repr s2 xs \<and> rest s2 = rest s"
  using push_ok [OF assms] deq_in [of _ "a # xs" a] by fastforce

end

interpretation pq: request_queue pending unlinked "\<lambda>a s. a \<noteq> NULL \<and> a \<in> req_live s" push_pending
  checkAndDequeueRequestInfo
proof
  show "distinct xs" if "pending s xs" for s xs using that by (simp add: pending_def)
next
  fix s xs a assume p: "pending s xs" "a \<noteq> NULL \<and> a \<in> req_live s" "a \<notin> set xs"
  then have "pending (s\<lparr>reqs := (reqs s)(a := (reqs s a)\<lparr>ri_next := s_pendingRequests s\<rparr>),
      s_pendingRequests := a\<rparr>) (a # xs)"
    by (auto simp: pending_def)
  moreover have "unlinked (s\<lparr>reqs := (reqs s)(a := (reqs s a)\<lparr>ri_next := s_pendingRequests s\<rparr>),
      s_pendingRequests := a\<rparr>) = unlinked s"
    by (auto simp: unlinked_def fun_eq_iff)
  ultimately show "\<exists>s'. push_pending a s = Some s' \<and> pending s' (a # xs) \<and> unlinked s' = unlinked s"
    using p(2) by (simp add: push_pending_def st_req_def)
next
  fix s xs a assume p: "pending s xs" "a \<in> set xs"
  then obtain us vs where xs: "xs = us @ a # vs" "a \<notin> set us" by (meson split_list_first)
  have path: "rpath (reqs s) (req_live s) (s_pendingRequests s) (us @ a # vs)" "distinct xs"
    using p(1) xs(1) by (auto simp: pending_def)
  have nn: "a \<noteq> NULL" "remove1 a xs = us @ vs" using path xs by (auto simp: rpath_append remove1_append)
  note deq = dequeue_loop_in [of s HeadOf "s_pendingRequests s" us a vs, OF _ path(1) xs(2)]
  show "\<exists>s'. checkAndDequeueRequestInfo a s = Some (True, s') \<and> pending s' (remove1 a xs) \<and>
      unlinked s' = unlinked s"
  proof (cases us rule: rev_cases)
    case Nil
    then show ?thesis
      using deq path xs nn by (auto simp: checkAndDequeueRequestInfo_def pending_def unlinked_def)
  next
    case (snoc ws u)
    let ?s = "s\<lparr>reqs := (reqs s)(u := (reqs s u)\<lparr>ri_next := ri_next (reqs s a)\<rparr>)\<rparr>"
    have "rpath (reqs s) (req_live s) (s_pendingRequests s) (ws @ u # a # vs)"
      "distinct (ws @ u # a # vs)"
      using path xs(1) snoc by simp_all
    then have "pending ?s (us @ vs)" "u \<noteq> NULL" "u \<in> req_live s"
      using rpath_unlink snoc by (fastforce simp: pending_def rpath_append)+
    moreover have "unlinked ?s = unlinked s" by (auto simp: unlinked_def fun_eq_iff)
    ultimately show ?thesis
      using deq snoc nn by (simp add: checkAndDequeueRequestInfo_def st_req_def)
  qed
next
  fix s xs a assume "pending s xs" "a \<notin> set xs"
  then show "checkAndDequeueRequestInfo a s = Some (False, s)"
    using dequeue_loop_out [of s HeadOf "s_pendingRequests s" xs a] by (simp add: checkAndDequeueRequestInfo_def pending_def)
qed

lemma unlinked_eqD:
  assumes "unlinked s' = unlinked s"
  shows "mem s' = mem s"
    and "readFds s' = readFds s"
    and "nfds s' = nfds s"
    and "watch_table s' = watch_table s"
    and "s_version s' = s_version s"
    and "s_registerCalled s' = s_registerCalled s"
    and "s_started s' = s_started s"
    and "s_fdListen s' = s_fdListen s"
    and "s_fdCommand s' = s_fdCommand s"
    and "s_fdDebug s' = s_fdDebug s"
    and "s_fdWakeupRead s' = s_fdWakeupRead s"
    and "s_fdWakeupWrite s' = s_fdWakeupWrite s"
    and "req_live s' = req_live s"
    and "infos s' = infos s"
    and "info_live s' = info_live s"
    and "s_last_wake_timeout_info s' = s_last_wake_timeout_info s"
    and "s_lastNITZTimeData s' = s_lastNITZTimeData s"
    and "voiceRadioTech s' = voiceRadioTech s"
    and "cdmaSubscriptionSource s' = cdmaSubscriptionSource s"
    and "simRuimStatus s' = simRuimStatus s"
    and "extlog s' = extlog s"
    and "wake_lock s' = wake_lock s"
    and "onRequests s' = onRequests s"
    and "timer_calls s' = timer_calls s"
    and "sent s' = sent s"
    and "closes s' = closes s"
    and "wakeups s' = wakeups s"
    and "world s' = world s"
    and "ri_token (reqs s' p) = ri_token (reqs s p)"
    and "ri_pCI (reqs s' p) = ri_pCI (reqs s p)"
    and "ri_cancelled (reqs s' p) = ri_cancelled (reqs s p)"
    and "ri_local (reqs s' p) = ri_local (reqs s p)"
  using
    arg_cong [OF assms, of mem] arg_cong [OF assms, of readFds] arg_cong [OF assms, of nfds]
    arg_cong [OF assms, of watch_table] arg_cong [OF assms, of s_version]
    arg_cong [OF assms, of s_registerCalled] arg_cong [OF assms, of s_started]
    arg_cong [OF assms, of s_fdListen] arg_cong [OF assms, of s_fdCommand]
    arg_cong [OF assms, of s_fdDebug] arg_cong [OF assms, of s_fdWakeupRead]
    arg_cong [OF assms, of s_fdWakeupWrite] arg_cong [OF assms, of req_live]
    arg_cong [OF assms, of infos] arg_cong [OF assms, of info_live]
    arg_cong [OF assms, of s_last_wake_timeout_info] arg_cong [OF assms, of s_lastNITZTimeData]
    arg_cong [OF assms, of voiceRadioTech] arg_cong [OF assms, of cdmaSubscriptionSource]
    arg_cong [OF assms, of simRuimStatus] arg_cong [OF assms, of extlog]
    arg_cong [OF assms, of wake_lock] arg_cong [OF assms, of onRequests]
    arg_cong [OF assms, of timer_calls] arg_cong [OF assms, of sent]
    arg_cong [OF assms, of closes] arg_cong [OF assms, of wakeups] arg_cong [OF assms, of world]
    arg_cong [OF assms, of "\<lambda>s. ri_token (reqs s p)"]
    arg_cong [OF assms, of "\<lambda>s. ri_pCI (reqs s p)"]
    arg_cong [OF assms, of "\<lambda>s. ri_cancelled (reqs s p)"]
    arg_cong [OF assms, of "\<lambda>s. ri_local (reqs s p)"]
  by (simp_all add: unlinked_def)

lemma pending_cong:
  "reqs s' = reqs s \<Longrightarrow> req_live s' = req_live s \<Longrightarrow> s_pendingRequests s' = s_pendingRequests s \<Longrightarrow>
    pending s' xs = pending s xs"
  by (simp add: pending_def)

lemma rpath_live: "rpath h L p xs \<Longrightarrow> set xs \<subseteq> L - {NULL}"
  by (induction xs arbitrary: p) auto

lemma rpath_restrict: "rpath h L p xs \<Longrightarrow> a \<notin> set xs \<Longrightarrow> rpath h (L - {a}) p xs"
  by (induction xs arbitrary: p) auto

lemma pending_live: "pending s xs \<Longrightarrow> set xs \<subseteq> req_live s - {NULL}"
  by (auto simp: pending_def dest: rpath_live)

lemma pending_free: "pending s xs \<Longrightarrow> a \<notin> set xs \<Longrightarrow> pending (free_req a s) xs"
  by (auto simp: pending_def free_req_def rpath_restrict)

section \<open>Completing a request\<close>

lemma complete_unknown:
  "pending s xs \<Longrightarrow> t \<notin> set xs \<Longrightarrow> RIL_onRequestComplete E t e d n s = Some s"
  using pq.deq_out [of s xs t] by (simp add: RIL_onRequestComplete_def)

text \<open>
  The part of the state that completing a request leaves alone: all but the links, the set of
  live requests and what sending changes.
\<close>

definition rest_of :: "ril_state \<Rightarrow> ril_state" where
  "rest_of s = (unlinked (quiet s))\<lparr>req_live := {}\<rparr>"

lemma rest_of_quiet: "quiet s' = quiet s \<Longrightarrow> rest_of s' = rest_of s"
  by (simp add: rest_of_def)

lemma rest_of_unlinked: "unlinked s' = unlinked s \<Longrightarrow> rest_of s' = rest_of s"
proof -
  have "unlinked (quiet u) = quiet (unlinked u)" for u by (simp add: unlinked_def quiet_def)
  then show "unlinked s' = unlinked s \<Longrightarrow> rest_of s' = rest_of s" by (simp add: rest_of_def)
qed

lemma rest_of_free: "rest_of (free_req a s) = rest_of s"
  by (simp add: rest_of_def free_req_def unlinked_def quiet_def)

lemma complete_silent:
  assumes "pending s xs" "t \<in> set xs" "ri_local (reqs s t) \<or> ri_cancelled (reqs s t)"
  shows "\<exists>s'. RIL_onRequestComplete E t e d n s = Some s' \<and> pending s' (remove1 t xs) \<and>
    sent s' = sent s \<and> req_live s' = req_live s - {t} \<and> rest_of s' = rest_of s"
proof -
  obtain s1 where s1: "checkAndDequeueRequestInfo t s = Some (True, s1)"
    "pending s1 (remove1 t xs)" "unlinked s1 = unlinked s"
    using pq.deq_in [OF assms(1,2)] by blast
  note eq = unlinked_eqD [OF s1(3)]
  have live: "ld_req s1 t = Some (reqs s1 t)"
    using pending_live [OF assms(1)] assms(2) eq by (auto simp: ld_req_def)
  have "pending (free_req t s1) (remove1 t xs)"
    using s1(2) assms(1) pq.repr_distinct [of s xs] by (intro pending_free) auto
  moreover have "rest_of (free_req t s1) = rest_of s" using rest_of_unlinked [OF s1(3)] by (simp add: rest_of_free)
  ultimately show ?thesis
    using s1(1) live assms(3) eq by (auto simp: RIL_onRequestComplete_def free_req_def)
qed

lemma response_parcel_cong:
  "ri_token r' = ri_token r \<Longrightarrow> ri_pCI r' = ri_pCI r \<Longrightarrow>
    response_parcel E v r' e d n = response_parcel E v r e d n"
  by (simp only: response_parcel_def)

lemma complete_answers:
  assumes "pending s xs" "t \<in> set xs" "\<not> ri_local (reqs s t)" "\<not> ri_cancelled (reqs s t)"
    and "response_parcel E (s_version s) (reqs s t) e d n = Some p"
  shows "\<exists>s1. RIL_onRequestComplete E t e d n s = Some (free_req t (snd (sendResponse E p s1))) \<and>
    unlinked s1 = unlinked s \<and>
    pending (free_req t (snd (sendResponse E p s1))) (remove1 t xs)"
proof -
  obtain s1 where s1: "checkAndDequeueRequestInfo t s = Some (True, s1)"
    "pending s1 (remove1 t xs)" "unlinked s1 = unlinked s"
    using pq.deq_in [OF assms(1,2)] by blast
  have eq: "req_live s1 = req_live s" "s_version s1 = s_version s"
    "ri_token (reqs s1 t) = ri_token (reqs s t)" "ri_pCI (reqs s1 t) = ri_pCI (reqs s t)"
    "ri_local (reqs s1 t) = ri_local (reqs s t)" "ri_cancelled (reqs s1 t) = ri_cancelled (reqs s t)"
    using unlinked_eqD [OF s1(3)] by simp_all
  have live: "ld_req s1 t = Some (reqs s1 t)"
    using pending_live [OF assms(1)] assms(2) eq(1) by (auto simp: ld_req_def)
  have par: "response_parcel E (s_version s1) (reqs s1 t) e d n = Some p"
    using assms(5) response_parcel_cong [of "reqs s1 t" "reqs s t" E] eq by simp
  let ?s2 = "snd (sendResponse E p s1)"
  have "pending ?s2 (remove1 t xs)"
    using s1(2) quiet_eqD(13-15) [OF sendResponse_quiet, of E p s1] pending_cong [of ?s2 s1] by simp
  then have "pending (free_req t ?s2) (remove1 t xs)"
    using assms(1) pq.repr_distinct [of s xs] by (intro pending_free) auto
  then show ?thesis
    using s1(1,3) live par assms(3,4) eq(5,6) by (auto simp: RIL_onRequestComplete_def)
qed

lemma complete_rest:
  assumes "pending s xs" "RIL_onRequestComplete E t e d n s = Some s'"
  shows "pending s' (remove1 t xs) \<and> req_live s' = req_live s - (set xs \<inter> {t}) \<and>
    rest_of s' = rest_of s"
proof (cases "t \<in> set xs")
  case False
  then show ?thesis using complete_unknown [OF assms(1) False, of E e d n] assms by (simp add: remove1_idem)
next
  case True
  show ?thesis
  proof (cases "ri_local (reqs s t) \<or> ri_cancelled (reqs s t)")
    case silent: True
    from complete_silent [OF assms(1) True silent, of E e d n] assms(2) True show ?thesis by auto
  next
    case False
    obtain p where p: "response_parcel E (s_version s) (reqs s t) e d n = Some p"
    proof (cases "response_parcel E (s_version s) (reqs s t) e d n")
      case None
      obtain s1 where s1: "checkAndDequeueRequestInfo t s = Some (True, s1)" "unlinked s1 = unlinked s"
        using pq.deq_in [OF assms(1) True] by blast
      have "response_parcel E (s_version s1) (reqs s1 t) e d n = None"
        using None response_parcel_cong [of "reqs s1 t" "reqs s t" E] unlinked_eqD [OF s1(2)] by simp
      with assms(2) s1(1) False unlinked_eqD(31,32) [OF s1(2)] show thesis
        by (auto simp: RIL_onRequestComplete_def ld_req_def split: if_splits)
    qed
    obtain s1 where s1: "s' = free_req t (snd (sendResponse E p s1))" "unlinked s1 = unlinked s"
      "pending s' (remove1 t xs)"
      using complete_answers [OF assms(1) True _ _ p] False assms(2) by auto
    have "rest_of s' = rest_of s"
      using s1(1) rest_of_unlinked [OF s1(2)] rest_of_quiet [OF sendResponse_quiet, of E p s1]
      by (simp add: rest_of_free)
    moreover have "req_live s' = req_live s - {t}"
      using s1(1) unlinked_eqD(13) [OF s1(2)] quiet_eqD(14) [OF sendResponse_quiet, of E p s1]
      by (simp add: free_req_def)
    ultimately show ?thesis using s1(3) True by (simp add: Int_commute)
  qed
qed

lemma cancel_loop_ok:
  "rpath (reqs s) (req_live s) p xs \<Longrightarrow> distinct xs \<Longrightarrow>
    cancel_loop p s = Some (s\<lparr>reqs := (\<lambda>q. if q \<in> set xs then (reqs s q)\<lparr>ri_cancelled := True\<rparr>
       else reqs s q)\<rparr>)"
proof (induction xs arbitrary: p s)
  case Nil
  then show ?case by (subst cancel_loop.simps) simp
next
  case (Cons x xs)
  let ?s = "s\<lparr>reqs := (reqs s)(x := (reqs s x)\<lparr>ri_cancelled := True\<rparr>)\<rparr>"
  have "rpath (reqs ?s) (req_live ?s) (ri_next (reqs s x)) xs" "distinct xs"
    using Cons.prems by simp_all
  from Cons.IH [OF this] have "cancel_loop (ri_next (reqs s x)) ?s =
      Some (?s\<lparr>reqs := (\<lambda>q. if q \<in> set xs then (reqs ?s q)\<lparr>ri_cancelled := True\<rparr> else reqs ?s q)\<rparr>)" .
  moreover have "(\<lambda>q. if q \<in> set xs then (reqs ?s q)\<lparr>ri_cancelled := True\<rparr> else reqs ?s q) =
      (\<lambda>q. if q \<in> set (x # xs) then (reqs s q)\<lparr>ri_cancelled := True\<rparr> else reqs s q)"
    using Cons.prems by (auto simp: fun_eq_iff)
  ultimately show ?case using Cons.prems
    by (subst cancel_loop.simps) (simp add: st_req_def ld_req_def)
qed

lemma rpath_payload:
  "(\<And>q. ri_next (h' q) = ri_next (h q)) \<Longrightarrow> rpath h' L p xs = rpath h L p xs"
  by (induction xs arbitrary: p) auto

lemma onCommandsSocketClosed_ok:
  assumes "pending s xs"
  shows "\<exists>s'. onCommandsSocketClosed s = Some s' \<and> pending s' xs \<and>
    s' = s\<lparr>reqs := (\<lambda>q. if q \<in> set xs then (reqs s q)\<lparr>ri_cancelled := True\<rparr> else reqs s q)\<rparr>"
proof -
  let ?h = "\<lambda>q. if q \<in> set xs then (reqs s q)\<lparr>ri_cancelled := True\<rparr> else reqs s q"
  have "onCommandsSocketClosed s = Some (s\<lparr>reqs := ?h\<rparr>)"
    using assms cancel_loop_ok by (simp add: onCommandsSocketClosed_def pending_def)
  moreover have "pending (s\<lparr>reqs := ?h\<rparr>) xs"
    using assms rpath_payload [of ?h "reqs s"] by (simp add: pending_def)
  ultimately show ?thesis by blast
qed

section \<open>A new request\<close>

definition queued :: "ptr \<Rightarrow> RequestInfo \<Rightarrow> ril_state \<Rightarrow> ril_state" where
  "queued a r s = s\<lparr>req_live := insert a (req_live s),
     world := (world s)\<lparr>w_alloc := tl (w_alloc (world s))\<rparr>,
     reqs := (reqs s)(a := r\<lparr>ri_next := s_pendingRequests s\<rparr>), s_pendingRequests := a\<rparr>"

lemma enqueue_eq:
  assumes "w_alloc (world s) = a # as" "a \<noteq> NULL"
  shows "(do { (pRI, s) \<leftarrow> calloc_req s; s \<leftarrow> st_req pRI f s; s \<leftarrow> push_pending pRI s; k pRI s }) =
    k a (queued a (f zero_req) s)"
  using assms by (simp add: calloc_req_def st_req_def push_pending_def queued_def)

lemma rpath_mono: "rpath h L p xs \<Longrightarrow> L \<subseteq> L' \<Longrightarrow> rpath h L' p xs"
  by (induction xs arbitrary: p) auto

lemma pending_queued:
  assumes "pending s xs" "a \<noteq> NULL" "a \<notin> req_live s"
  shows "pending (queued a r s) (a # xs)"
proof -
  have "a \<notin> set xs" using pending_live [OF assms(1)] assms(3) by auto
  then show ?thesis
    using assms rpath_mono [of "reqs s" "req_live s" _ xs "insert a (req_live s)"]
    by (auto simp: pending_def queued_def)
qed

section \<open>The request system\<close>

definition alloc_ok :: "ptr list \<Rightarrow> ptr set \<Rightarrow> bool" where
  "alloc_ok as L \<longleftrightarrow> distinct as \<and> NULL \<notin> set as \<and> set as \<inter> L = {}"

text \<open>Every request that was allocated and not freed is on the list, once.\<close>

definition req_inv :: "ril_state \<Rightarrow> bool" where
  "req_inv s \<longleftrightarrow> (\<exists>xs. pending s xs \<and> set xs = req_live s) \<and> alloc_ok (w_alloc (world s)) (req_live s)"

definition req_init :: "ril_state \<Rightarrow> bool" where
  "req_init s \<longleftrightarrow> s_pendingRequests s = NULL \<and> req_live s = {} \<and> alloc_ok (w_alloc (world s)) {}"

text \<open>What can happen to the requests, in any order. The outside changes by \<open>Outside\<close>.\<close>

datatype req_event =
    Command "u8 list"
  | Complete ptr i32 void_ptr size_t
  | Local i32 void_ptr size_t
  | Closed
  | Outside world

inductive req_step :: "'p env \<Rightarrow> req_event \<Rightarrow> ril_state \<Rightarrow> ril_state \<Rightarrow> bool" for E where
  "processCommandBuffer E b s = Some s' \<Longrightarrow> req_step E (Command b) s s'"
| "RIL_onRequestComplete E t e d n s = Some s' \<Longrightarrow> req_step E (Complete t e d n) s s'"
| "issueLocalRequest E rq d n s = Some s' \<Longrightarrow> req_step E (Local rq d n) s s'"
| "onCommandsSocketClosed s = Some s' \<Longrightarrow> req_step E Closed s s'"
| "alloc_ok (w_alloc w) (req_live s) \<Longrightarrow> req_step E (Outside w) s (s\<lparr>world := w\<rparr>)"

inductive_cases req_stepE: "req_step E ev s s'"

lemma rest_of_eqD:
  assumes "rest_of s' = rest_of s"
  shows "w_alloc (world s') = w_alloc (world s)" "onRequests s' = onRequests s"
    "s_fdCommand s' = s_fdCommand s"
  using arg_cong [OF assms, of "\<lambda>s. w_alloc (world s)"] arg_cong [OF assms, of onRequests]
    arg_cong [OF assms, of s_fdCommand]
  by (simp_all add: rest_of_def unlinked_def quiet_def)

lemma alloc_ok_less: "alloc_ok as L \<Longrightarrow> L' \<subseteq> L \<Longrightarrow> alloc_ok as L'"
  by (auto simp: alloc_ok_def)

lemma complete_inv:
  assumes "req_inv s" "RIL_onRequestComplete E t e d n s = Some s'"
  shows "req_inv s'"
proof -
  obtain xs where xs: "pending s xs" "set xs = req_live s" using assms(1) by (auto simp: req_inv_def)
  note c = complete_rest [OF xs(1) assms(2)]
  have "set (remove1 t xs) = req_live s'"
    using c xs(2) pq.repr_distinct [OF xs(1)] by (auto simp: set_remove1_eq)
  moreover have "alloc_ok (w_alloc (world s')) (req_live s')"
    using assms(1) c rest_of_eqD(1) [of s' s] by (auto simp: req_inv_def intro: alloc_ok_less)
  ultimately show ?thesis using c by (auto simp: req_inv_def)
qed

lemma queued_inv:
  assumes "req_inv s" "w_alloc (world s) = a # as"
  shows "req_inv (queued a r s)" "a \<noteq> NULL"
proof -
  obtain xs where xs: "pending s xs" "set xs = req_live s" using assms(1) by (auto simp: req_inv_def)
  have a: "a \<noteq> NULL" "a \<notin> req_live s" "alloc_ok as (insert a (req_live s))"
    using assms by (auto simp: req_inv_def alloc_ok_def)
  show "a \<noteq> NULL" by (rule a(1))
  have "pending (queued a r s) (a # xs)" using pending_queued [OF xs(1) a(1,2)] .
  moreover have "req_live (queued a r s) = insert a (req_live s)"
    "w_alloc (world (queued a r s)) = as" using assms(2) by (simp_all add: queued_def)
  ultimately show "req_inv (queued a r s)" using xs(2) a(3) by (force simp: req_inv_def)
qed

lemma req_inv_cong:
  "reqs s' = reqs s \<Longrightarrow> req_live s' = req_live s \<Longrightarrow> s_pendingRequests s' = s_pendingRequests s \<Longrightarrow>
    w_alloc (world s') = w_alloc (world s) \<Longrightarrow> req_inv s' = req_inv s"
  by (simp add: req_inv_def pending_def)

lemma dispatch_inv:
  assumes "req_inv s" "call_dispatchFunction E c p a s = Some s'"
  shows "req_inv s'"
proof -
  have upd: "req_inv (call_onRequest rq d n t u)" if "req_inv u" for rq d n t u
    using that by (subst req_inv_cong [of _ u]) (simp_all add: call_onRequest_def)
  have set1: "req_inv (u\<lparr>voiceRadioTech := v\<rparr>)" "req_inv (u\<lparr>cdmaSubscriptionSource := v\<rparr>)"
    if "req_inv u" for u v
    using that by (subst req_inv_cong [of _ u]; simp)+
  have voice: "req_inv u'" if "dispatchVoiceRadioTech E rq t u = Some u'" "req_inv u" for rq t u u'
    using that upd set1(1)
    by (auto simp: dispatchVoiceRadioTech_def Let_def bind_eq_Some_conv split: if_splits
        intro: complete_inv) (meson complete_inv)+
  have cdma: "req_inv u'" if "dispatchCdmaSubscriptionSource E rq t u = Some u'" "req_inv u" for rq t u u'
    using that upd set1(2)
    by (auto simp: dispatchCdmaSubscriptionSource_def Let_def bind_eq_Some_conv split: if_splits
        intro: complete_inv) (meson complete_inv)+
  show ?thesis
    using assms voice cdma upd
    by (auto simp: call_dispatchFunction_def bind_eq_Some_conv Let_def split: if_splits option.splits
        dispatch_out.splits)
qed

lemma command_inv:
  assumes "req_inv s" "processCommandBuffer E b s = Some s'"
  shows "req_inv s'"
proof -
  obtain ok0 request p1 where r1: "rdI32 E (uninit E) (p_setData E b) = (ok0, request, p1)"
    by (metis prod_cases3)
  obtain ok token p2 where r2: "rdI32 E (uninit E) p1 = (ok, token, p2)" by (metis prod_cases3)
  have sent: "req_inv (snd (sendResponse E p s))" for p
    using assms(1) quiet_eqD [OF sendResponse_quiet, of E p s] by (subst req_inv_cong [of _ s]) simp_all
  consider "\<not> ok" | "ok" "sint request < 1 \<or> sint request \<ge> int (length (s_commands E))"
    | "ok" "\<not> (sint request < 1 \<or> sint request \<ge> int (length (s_commands E)))" by blast
  then show ?thesis
  proof cases
    case 3
    let ?k = "\<lambda>pRI s. call_dispatchFunction E (s_commands E ! nat (sint request)) p2 pRI s"
    have run: "(do { (pRI, s) \<leftarrow> calloc_req s;
        s \<leftarrow> st_req pRI (\<lambda>r. r\<lparr>ri_token := token, ri_pCI := nat (sint request)\<rparr>) s;
        s \<leftarrow> push_pending pRI s; ?k pRI s }) = Some s'"
      using assms(2) r1 r2 3 unfolding processCommandBuffer_def Let_def by simp
    then obtain a as where a: "w_alloc (world s) = a # as"
      by (auto simp: calloc_req_def bind_eq_Some_conv split: list.splits)
    note q = queued_inv [OF assms(1) a]
    have "?k a (queued a (zero_req\<lparr>ri_token := token, ri_pCI := nat (sint request)\<rparr>) s) = Some s'"
      using run unfolding enqueue_eq [OF a q(2)] .
    then show ?thesis by (rule dispatch_inv [OF q(1)])
  qed (use assms r1 r2 sent in \<open>auto simp: processCommandBuffer_def Let_def\<close>)
qed

lemma local_inv:
  assumes "req_inv s" "issueLocalRequest E rq d n s = Some s'"
  shows "req_inv s'"
proof -
  obtain a as where a: "w_alloc (world s) = a # as"
    using assms(2) by (auto simp: issueLocalRequest_def calloc_req_def bind_eq_Some_conv split: list.splits)
  note q = queued_inv [OF assms(1) a]
  have "s' = call_onRequest rq d n a (queued a (zero_req\<lparr>ri_local := True, ri_token := 0xffffffff,
      ri_pCI := nat (sint rq)\<rparr>) s)"
    using assms(2) unfolding issueLocalRequest_def enqueue_eq [OF a q(2)] by simp
  with q(1) show ?thesis by (subst req_inv_cong) (simp_all add: call_onRequest_def)
qed

lemma closed_inv: "req_inv s \<Longrightarrow> onCommandsSocketClosed s = Some s' \<Longrightarrow> req_inv s'"
  using onCommandsSocketClosed_ok by (fastforce simp: req_inv_def)

lemma outside_inv: "alloc_ok (w_alloc w) (req_live s) \<Longrightarrow> req_inv s \<Longrightarrow> req_inv (s\<lparr>world := w\<rparr>)"
  by (auto simp: req_inv_def pending_def)

interpretation rs: invariant_system req_init "req_step E" req_inv for E
proof
  show "req_inv s" if "req_init s" for s
    using that by (auto simp: req_init_def req_inv_def pending_def intro!: exI [of _ "[]"])
next
  show "req_inv t" if "req_step E e s t" "req_inv s" for e s t
    using that by cases (blast intro: command_inv complete_inv local_inv closed_inv outside_inv)+
qed

abbreviation req_run :: "'p env \<Rightarrow> ril_state \<Rightarrow> req_event list \<Rightarrow> ril_state \<Rightarrow> bool" where
  "req_run E \<equiv> invariant_system.run (req_step E)"

lemma send_all:
  assumes "0 \<le> s_fdCommand s" "w_writes (world s) = []" "length data \<le> MAX_COMMAND_BYTES"
  shows "sent (snd (sendResponseRaw data s)) = sent s @ frame data"
proof -
  have "blockingWrite [] buf = (True, buf, [])" for buf by (cases buf) auto
  with assms show ?thesis
    by (simp add: sendResponseRaw_def write_fd_def frame_def not_less)
qed

text \<open>The answer to a request when its response function accepts the data.\<close>

lemma response_parcel_ok:
  assumes "ci_response (s_commands E ! ri_pCI ri) = Some f"
    and "call_response E version f d n = Some (0, ws)" "d \<noteq> VNull"
  shows "response_parcel E version ri e d n =
    Some (puts E ([I32 RESPONSE_SOLICITED, I32 (ri_token ri), I32 e] @ ws) (p_new E))"
  using assms by (simp add: response_parcel_def Let_def)

lemma processCommandBuffer_accepted:
  assumes "reads_ok E V" "V (p_setData E b) = Some (I32 request # I32 token # r)"
    and "1 \<le> sint request" "sint request < int (length (s_commands E))"
    and "w_alloc (world s) = a # as" "a \<noteq> NULL"
  shows "\<exists>p. V p = Some r \<and> processCommandBuffer E b s =
    call_dispatchFunction E (s_commands E ! nat (sint request)) p a
      (queued a (zero_req\<lparr>ri_token := token, ri_pCI := nat (sint request)\<rparr>) s)"
proof -
  let ?p = "p_setData E b"
  have rd: "rdI32 E (uninit E) ?p = (True, request, afterI32 E ?p)"
    "rdI32 E (uninit E) (afterI32 E ?p) = (True, token, afterI32 E (afterI32 E ?p))"
    "V (afterI32 E (afterI32 E ?p)) = Some r"
    using assms(2) by (simp_all add: rdI32_view [OF assms(1)])
  have "processCommandBuffer E b s = (do { (pRI, s) \<leftarrow> calloc_req s;
      s \<leftarrow> st_req pRI (\<lambda>r. r\<lparr>ri_token := token, ri_pCI := nat (sint request)\<rparr>) s;
      s \<leftarrow> push_pending pRI s;
      call_dispatchFunction E (s_commands E ! nat (sint request)) (afterI32 E (afterI32 E ?p)) pRI s })"
    using rd assms(3,4) unfolding processCommandBuffer_def Let_def by simp
  then show ?thesis using rd(3) unfolding enqueue_eq [OF assms(5,6)] by blast
qed

section \<open>Properties\<close>

text \<open>
  A command that is let through, by what its dispatcher does with the rest of the parcel.
\<close>

lemma command_queued:
  assumes "reads_ok E V" "V (p_setData E b) = Some (I32 request # I32 token # r)"
    and "1 \<le> sint request" "sint request < int (length (s_commands E))"
    and "w_alloc (world s) = a # as" "a \<noteq> NULL" "a \<notin> req_live s" "pending s xs"
    and "ci_dispatch (s_commands E ! nat (sint request)) = Some f"
    and "f \<noteq> DispatchVoiceRadioTech" "f \<noteq> DispatchCdmaSubscriptionSource"
    and "rq = ci_requestNumber E (s_commands E ! nat (sint request))"
    and "\<And>p. V p = Some r \<Longrightarrow> call_dispatch E (s_version s) rq f p = Some out" "out \<noteq> Undef"
  shows "\<exists>s'. processCommandBuffer E b s = Some s' \<and> pending s' (a # xs) \<and> sent s' = sent s \<and>
    reqs s' a = \<lparr>ri_token = token, ri_pCI = nat (sint request), ri_next = s_pendingRequests s,
      ri_cancelled = False, ri_local = False\<rparr> \<and>
    onRequests s' = onRequests s @ (case out of OnRequest d n \<Rightarrow> [(rq, d, n, a)] | _ \<Rightarrow> []) \<and>
    s_version s' = s_version s \<and> s_fdCommand s' = s_fdCommand s \<and>
    w_writes (world s') = w_writes (world s)"
proof -
  define u where "u = queued a (zero_req\<lparr>ri_token := token, ri_pCI := nat (sint request)\<rparr>) s"
  obtain p where p: "V p = Some r" "processCommandBuffer E b s =
      call_dispatchFunction E (s_commands E ! nat (sint request)) p a u"
    using processCommandBuffer_accepted [OF assms(1-6)] unfolding u_def by blast
  have pu: "pending u (a # xs)" unfolding u_def by (rule pending_queued [OF assms(8,6,7)])
  have u: "s_version u = s_version s" "s_fdCommand u = s_fdCommand s"
    "w_writes (world u) = w_writes (world s)" "sent u = sent s" "onRequests u = onRequests s"
    "reqs u a = \<lparr>ri_token = token, ri_pCI = nat (sint request), ri_next = s_pendingRequests s,
      ri_cancelled = False, ri_local = False\<rparr>"
    unfolding u_def by (simp_all add: queued_def zero_req_def)
  have run: "processCommandBuffer E b s =
      (case out of OnRequest d n \<Rightarrow> Some (call_onRequest rq d n a u) | Undef \<Rightarrow> None | _ \<Rightarrow> Some u)"
    using p(2) assms(9-12) assms(13) [OF p(1)] u(1)
    by (simp add: call_dispatchFunction_def split: dispatch_out.split)
  show ?thesis
    unfolding run using pu u assms(14)
    by (cases out) (simp_all add: call_onRequest_def pending_def)
qed

text \<open>A state with one request of the telephony process pending, at address 100.\<close>

definition demo_pending :: ril_state where
  "demo_pending = demo_ril\<lparr>
     reqs := (\<lambda>_. \<lparr>ri_token = 7, ri_pCI = 18, ri_next = 0, ri_cancelled = False, ri_local = False\<rparr>),
     req_live := {100}, s_pendingRequests := 100, world := demo_world\<lparr>w_alloc := [101, 102]\<rparr>\<rparr>"

lemma demo_pending_list: "pending demo_pending [100]"
  by (simp add: pending_def demo_pending_def)

lemma demo_pending_fields [simp]:
  "s_fdCommand demo_pending = 9" "sent demo_pending = []" "s_version demo_pending = 9"
  "reqs demo_pending t = \<lparr>ri_token = 7, ri_pCI = 18, ri_next = 0, ri_cancelled = False, ri_local = False\<rparr>"
  "w_writes (world demo_pending) = []" "w_alloc (world demo_pending) = [101, 102]"
  "req_live demo_pending = {100}" "onRequests demo_pending = []" "w_radio (world demo_pending) = 10"
  by (simp_all add: demo_pending_def demo_ril_def demo_world_def ev_state.defs)

lemma demo_parcel_ops [simp]:
  "p_new demo_env = ([], 0)" "p_writeInt32 demo_env v (ws, i) = (take i ws @ I32 v # drop (Suc i) ws, Suc i)"
  "p_data demo_env (ws, i) = demo_data ws" "p_setData demo_env bs = (demo_setData bs, 0)"
  by (simp_all add: demo_env_def)

lemma length_le_bytes: "length (le_bytes k n) = k"
  by (induction k arbitrary: n) auto

lemma length_demo_i32: "length (demo_data (I32 v # ws)) = 4 + length (demo_data ws)"
  by (simp add: length_le_bytes)

lemma demo_row18: "s_commands demo_env ! 18 = Cmd (Some ''RIL_REQUEST_LAST_CALL_FAIL_CAUSE'')
    (Some DispatchVoid) (Some ResponseInts)"
  by (simp add: s_commands_def)

text \<open>In every sequence of commands, completions (with any token, also repeated or made up), local
  requests and lost connections, the pending list is a well formed list without repetition that
  holds exactly the requests allocated and not yet freed: no request is lost, leaked or freed twice.\<close>

theorem requests_reachable:
  assumes "req_init s" "req_run E s es t"
  shows "\<exists>xs. pending t xs \<and> distinct xs \<and> set xs = req_live t"
  using rs.reachable_inv [OF assms] pq.repr_distinct by (auto simp: req_inv_def)

theorem requests_reachable_witness:
  "\<exists>xs. pending (demo_ril\<lparr>world := demo_world\<rparr>) xs \<and> distinct xs \<and>
     set xs = req_live (demo_ril\<lparr>world := demo_world\<rparr>)"
proof (rule requests_reachable)
  have init: "req_init demo_ril"
    by (simp add: req_init_def alloc_ok_def demo_ril_def demo_world_def ev_state.defs)
  then show "req_init demo_ril" .
  have "req_step demo_env (Outside demo_world) demo_ril (demo_ril\<lparr>world := demo_world\<rparr>)"
    using init by (intro req_step.intros) (simp add: req_init_def demo_ril_def ev_state.defs)
  then show "req_run demo_env demo_ril ([] @ [Outside demo_world]) (demo_ril\<lparr>world := demo_world\<rparr>)"
    by (rule rs.run_snoc [OF rs.run_nil])
qed

text \<open>Completing a pending request that came from the telephony process sends one message: the
  solicited marker, the token of the request, the error code and what the response function
  wrote; and takes the request off the list.\<close>

theorem complete_sends_answer:
  assumes "pending s xs" "t \<in> set xs" "\<not> ri_local (reqs s t)" "\<not> ri_cancelled (reqs s t)"
    and "ci_response (s_commands E ! ri_pCI (reqs s t)) = Some f" "d \<noteq> VNull"
    and "call_response E (s_version s) f d n = Some (0, ws)"
    and "p = puts E ([I32 RESPONSE_SOLICITED, I32 (ri_token (reqs s t)), I32 e] @ ws) (p_new E)"
    and "0 \<le> s_fdCommand s" "w_writes (world s) = []" "length (p_data E p) \<le> MAX_COMMAND_BYTES"
  shows "\<exists>s'. RIL_onRequestComplete E t e d n s = Some s' \<and>
    sent s' = sent s @ frame (p_data E p) \<and> pending s' (remove1 t xs) \<and> t \<notin> req_live s'"
proof -
  have "response_parcel E (s_version s) (reqs s t) e d n = Some p"
    using response_parcel_ok [OF assms(5,7,6)] assms(8) by simp
  from complete_answers [OF assms(1-4) this] obtain s1 where
    s1: "RIL_onRequestComplete E t e d n s = Some (free_req t (snd (sendResponse E p s1)))"
      "unlinked s1 = unlinked s" "pending (free_req t (snd (sendResponse E p s1))) (remove1 t xs)"
    by blast
  have "sent (snd (sendResponse E p s1)) = sent s @ frame (p_data E p)"
    using send_all [of s1 "p_data E p"] assms(9-11) unlinked_eqD [OF s1(2)] by (simp add: sendResponse_def)
  with s1 show ?thesis by (auto simp: free_req_def)
qed

theorem complete_sends_answer_witness:
  "\<exists>s'. RIL_onRequestComplete demo_env 100 0 (VInts [16]) 4 demo_pending = Some s' \<and>
     sent s' = frame (demo_data [I32 0, I32 7, I32 0, I32 1, I32 16]) \<and> pending s' [] \<and>
     100 \<notin> req_live s'"
proof -
  have "call_response demo_env 9 ResponseInts (VInts [16]) 4 = Some (0, [I32 1, I32 16])"
    by (simp add: responseInts_def array_resp_def ints_of_def elems_def resp_defs sizeof_int_def)
  with complete_sends_answer [OF demo_pending_list, of 100 demo_env ResponseInts "VInts [16]" 4
      "[I32 1, I32 16]" "([I32 0, I32 7, I32 0, I32 1, I32 16], 5)" 0]
  show ?thesis
    by (simp add: demo_row18 RESPONSE_SOLICITED_def MAX_COMMAND_BYTES_def length_demo_i32
        del: demo_data.simps(2))
qed

text \<open>C5 A request is answered at most once: completing it a second time, with whatever result, has no
  effect at all, and neither has a token that was never given out.\<close>

theorem complete_at_most_once:
  assumes "pending s xs" "RIL_onRequestComplete E t e d n s = Some s'"
  shows "RIL_onRequestComplete E t e' d' n' s' = Some s' \<and>
    (t \<notin> set xs \<longrightarrow> s' = s)"
proof -
  have "pending s' (remove1 t xs)" "t \<notin> set (remove1 t xs)"
    using complete_rest [OF assms] pq.repr_distinct [OF assms(1)] by auto
  then show ?thesis using complete_unknown assms by (metis option.inject)
qed

theorem complete_at_most_once_witness:
  "\<exists>s'. RIL_onRequestComplete demo_env 100 0 VNull 0 demo_pending = Some s' \<and>
     RIL_onRequestComplete demo_env 100 1 (VStr ''x'') 4 s' = Some s'"
proof -
  obtain s' where s': "RIL_onRequestComplete demo_env 100 0 VNull 0 demo_pending = Some s'"
    using complete_answers [OF demo_pending_list, of 100 demo_env 0 VNull 0]
    by (auto simp: response_parcel_def)
  with complete_at_most_once [OF demo_pending_list s'] show ?thesis by blast
qed

text \<open>C6 When the connection is lost every pending request is marked, and the answer to a request of
  the old connection is not sent to the next one.\<close>

theorem closed_requests_silent:
  assumes "pending s xs" "t \<in> set xs"
  shows "\<exists>s1 s2. onCommandsSocketClosed s = Some s1 \<and>
    RIL_onRequestComplete E t e d n (s1\<lparr>s_fdCommand := fd\<rparr>) = Some s2 \<and>
    sent s2 = sent s \<and> pending s2 (remove1 t xs)"
proof -
  obtain s1 where s1: "onCommandsSocketClosed s = Some s1" "pending s1 xs"
    "s1 = s\<lparr>reqs := (\<lambda>q. if q \<in> set xs then (reqs s q)\<lparr>ri_cancelled := True\<rparr> else reqs s q)\<rparr>"
    using onCommandsSocketClosed_ok [OF assms(1)] by blast
  have "pending (s1\<lparr>s_fdCommand := fd\<rparr>) xs" using s1(2) by (simp add: pending_def)
  from complete_silent [OF this assms(2), of E e d n] assms(2) s1 show ?thesis by auto
qed

theorem closed_requests_silent_witness:
  "\<exists>s1 s2. onCommandsSocketClosed demo_pending = Some s1 \<and>
    RIL_onRequestComplete demo_env 100 0 (VInts [16]) 4 (s1\<lparr>s_fdCommand := 11\<rparr>) = Some s2 \<and>
    sent s2 = sent demo_pending \<and> pending s2 (remove1 100 [100])"
  by (rule closed_requests_silent [OF demo_pending_list]) simp

text \<open>A command with a number outside the table is answered at once with a generic failure for its
  token, and leaves no request behind.\<close>

theorem unsupported_command:
  assumes "reads_ok E V" "V (p_setData E b) = Some (I32 request # I32 token # r)"
    and "sint request < 1 \<or> int (length (s_commands E)) \<le> sint request"
    and "p = puts E [I32 RESPONSE_SOLICITED, I32 token, I32 (K E ''RIL_E_GENERIC_FAILURE'')] (p_new E)"
    and "0 \<le> s_fdCommand s" "w_writes (world s) = []" "length (p_data E p) \<le> MAX_COMMAND_BYTES"
  shows "\<exists>s'. processCommandBuffer E b s = Some s' \<and> sent s' = sent s @ frame (p_data E p) \<and>
    quiet s' = quiet s"
proof -
  have "processCommandBuffer E b s = Some (snd (sendResponse E p s))"
    using assms(2,3,4) by (simp add: processCommandBuffer_def rdI32_view [OF assms(1)])
  then show ?thesis
    using send_all [OF assms(5-7)] sendResponse_quiet [of E p s] by (simp add: sendResponse_def)
qed

theorem unsupported_command_witness:
  "\<exists>s'. processCommandBuffer demo_env [0, 0, 0, 0, 5, 0, 0, 0] demo_pending = Some s' \<and>
     sent s' = frame (demo_data [I32 0, I32 5, I32 21]) \<and> quiet s' = quiet demo_pending"
proof -
  have "K demo_env ''RIL_E_GENERIC_FAILURE'' = 21" by (simp add: demo_env_def)
  then show ?thesis
    using unsupported_command [OF demo_reads_ok, of "[0, 0, 0, 0, 5, 0, 0, 0]" 0 5 "[]"
        "([I32 0, I32 5, I32 21], 3)" demo_pending]
    by (simp add: RESPONSE_SOLICITED_def MAX_COMMAND_BYTES_def length_demo_i32
        del: demo_data.simps(2))
qed

text \<open>A voice technology request while the radio is off is completed twice by its dispatcher, with
  \<open>RADIO_NOT_AVAILABLE\<close> and then with a failure. The second completion finds no request: the
  telephony process gets the first answer only.\<close>

theorem voice_tech_radio_off:
  assumes "pending s xs" "t \<in> set xs" "\<not> ri_local (reqs s t)" "\<not> ri_cancelled (reqs s t)"
    and "w_radio (world s) = K E ''RADIO_STATE_OFF''" "K E ''RADIO_STATE_OFF'' \<noteq> K E ''RADIO_STATE_ON''"
    and "decodeVoiceRadioTechnology E (K E ''RADIO_STATE_OFF'') = - 1"
    and "p = puts E [I32 RESPONSE_SOLICITED, I32 (ri_token (reqs s t)),
           I32 (K E ''RIL_E_RADIO_NOT_AVAILABLE'')] (p_new E)"
    and "0 \<le> s_fdCommand s" "w_writes (world s) = []" "length (p_data E p) \<le> MAX_COMMAND_BYTES"
  shows "\<exists>s'. dispatchVoiceRadioTech E rq t s = Some s' \<and> sent s' = sent s @ frame (p_data E p) \<and>
    pending s' (remove1 t xs) \<and> onRequests s' = onRequests s"
proof -
  have "response_parcel E (s_version s) (reqs s t) (K E ''RIL_E_RADIO_NOT_AVAILABLE'') VNull 0 = Some p"
    using assms(8) by (simp add: response_parcel_def Let_def)
  from complete_answers [OF assms(1-4) this] obtain s1 where
    s1: "RIL_onRequestComplete E t (K E ''RIL_E_RADIO_NOT_AVAILABLE'') VNull 0 s =
        Some (free_req t (snd (sendResponse E p s1)))" "unlinked s1 = unlinked s"
      "pending (free_req t (snd (sendResponse E p s1))) (remove1 t xs)"
    by blast
  define s2 where "s2 = (free_req t (snd (sendResponse E p s1)))\<lparr>voiceRadioTech := - 1\<rparr>"
  have p2: "pending s2 (remove1 t xs)" using s1(3) by (simp add: s2_def pending_def)
  have "RIL_onRequestComplete E t (K E ''RIL_E_GENERIC_FAILURE'') VNull 0 s2 = Some s2"
    using pq.repr_distinct [OF assms(1)] by (intro complete_unknown [OF p2]) simp
  then have "dispatchVoiceRadioTech E rq t s = Some s2"
    using s1(1) assms(5-7) by (simp add: dispatchVoiceRadioTech_def s2_def)
  moreover have "sent s2 = sent s @ frame (p_data E p)"
    using send_all [of s1 "p_data E p"] assms(9-11) unlinked_eqD [OF s1(2)]
    by (simp add: s2_def free_req_def sendResponse_def)
  moreover have "onRequests s2 = onRequests s"
    using quiet_eqD(25) [OF sendResponse_quiet, of E p s1] unlinked_eqD(23) [OF s1(2)]
    by (simp add: s2_def free_req_def)
  ultimately show ?thesis using p2 by blast
qed

theorem voice_tech_radio_off_witness:
  "\<exists>s'. dispatchVoiceRadioTech demo_env 108 100
      (demo_pending\<lparr>world := demo_world\<lparr>w_radio := 15\<rparr>\<rparr>) = Some s' \<and>
     sent s' = frame (demo_data [I32 0, I32 7, I32 25]) \<and> pending s' [] \<and> onRequests s' = []"
proof -
  let ?s = "demo_pending\<lparr>world := demo_world\<lparr>w_radio := 15\<rparr>\<rparr>"
  have "pending ?s [100]" using demo_pending_list by (simp add: pending_def)
  moreover have "decodeVoiceRadioTechnology demo_env (K demo_env ''RADIO_STATE_OFF'') = - 1"
    by (simp add: decodeVoiceRadioTechnology_def demo_env_def)
  moreover have "K demo_env ''RIL_E_RADIO_NOT_AVAILABLE'' = 25" "K demo_env ''RADIO_STATE_OFF'' = 15"
    "K demo_env ''RADIO_STATE_ON'' = 14"
    by (simp_all add: demo_env_def)
  ultimately show ?thesis
    using voice_tech_radio_off [of ?s "[100]" 100 demo_env "([I32 0, I32 7, I32 25], 3)" 108]
    by (simp add: RESPONSE_SOLICITED_def MAX_COMMAND_BYTES_def length_demo_i32 demo_world_def
        del: demo_data.simps(2))
qed

end
