(* ===== verification/Ril_Core.thy ===== *)
theory Ril_Core
  imports Ril_Requests
begin

text \<open>
  The rest of \<^verbatim>\<open>libril/ril.cpp\<close>: unsolicited responses with their wake lock and its timer, the
  radio state of older vendor libraries, the callbacks that the event loop makes (new
  connections, commands, the debug port, timers, the wakeup pipe) and the start-up.
\<close>

section \<open>Waking the event loop\<close>

text \<open>The static events and the functions they call.\<close>

definition s_commands_event :: ptr where "s_commands_event = 3"
definition s_wakeupfd_event :: ptr where "s_wakeupfd_event = 4"
definition s_listen_event :: ptr where "s_listen_event = 5"
definition s_debug_event :: ptr where "s_debug_event = 6"

definition processCommandsCallback_fn :: ptr where "processCommandsCallback_fn = 1"
definition processWakeupCallback_fn :: ptr where "processWakeupCallback_fn = 2"
definition listenCallback_fn :: ptr where "listenCallback_fn = 3"
definition debugCallback_fn :: ptr where "debugCallback_fn = 4"
definition userTimerCallback_fn :: ptr where "userTimerCallback_fn = 5"
definition wakeTimeoutCallback_fn :: ptr where "wakeTimeoutCallback_fn = 6"

definition triggerEvLoop :: "ril_state \<Rightarrow> ril_state" where
  "triggerEvLoop s = (if w_dispatch_thread (world s) then s else s\<lparr>wakeups := Suc (wakeups s)\<rparr>)"

definition rilEventAddWakeup :: "ptr \<Rightarrow> ril_state \<Rightarrow> ril_state option" where
  "rilEventAddWakeup ev s = do { s \<leftarrow> ril_event_add ev s; Some (triggerEvLoop s) }"

definition processWakeupCallback :: "ril_state \<Rightarrow> ril_state" where
  "processWakeupCallback s = s\<lparr>wakeups := 0\<rparr>"

section \<open>Timers\<close>

definition TIMEVAL_WAKE_TIMEOUT :: timeval where
  "TIMEVAL_WAKE_TIMEOUT = Timeval 1 0"

definition malloc_info :: "ril_state \<Rightarrow> (ptr \<times> ril_state) option" where
  "malloc_info s = (case w_alloc (world s) of
       a # as \<Rightarrow> if a = NULL then None
         else Some (a, s\<lparr>info_live := insert a (info_live s), world := (world s)\<lparr>w_alloc := as\<rparr>\<rparr>)
     | [] \<Rightarrow> None)"

definition st_info :: "ptr \<Rightarrow> (UserCallbackInfo \<Rightarrow> UserCallbackInfo) \<Rightarrow> ril_state \<Rightarrow> ril_state option" where
  "st_info p f s = (if p \<noteq> NULL \<and> p \<in> info_live s
     then Some (s\<lparr>infos := (infos s)(p := f (infos s p))\<rparr>) else None)"

definition internalRequestTimedCallback ::
    "ptr \<Rightarrow> ptr \<Rightarrow> timeval option \<Rightarrow> ril_state \<Rightarrow> (ptr \<times> ril_state) option" where
  "internalRequestTimedCallback callback param relativeTime s = do {
     (p_info, s) \<leftarrow> malloc_info s;
     s \<leftarrow> st_info p_info (\<lambda>_. \<lparr>uc_callback = callback, uc_userParam = param\<rparr>) s;
     let myRelativeTime = (case relativeTime of None \<Rightarrow> Timeval 0 0 | Some t \<Rightarrow> t);
     s \<leftarrow> ril_event_set p_info (- 1) False userTimerCallback_fn p_info s;
     s \<leftarrow> ril_timer_add p_info (Some myRelativeTime) (w_now (world s)) s;
     Some (p_info, triggerEvLoop s) }"

definition RIL_requestTimedCallback ::
    "ptr \<Rightarrow> ptr \<Rightarrow> timeval option \<Rightarrow> ril_state \<Rightarrow> ril_state option" where
  "RIL_requestTimedCallback callback param relativeTime s =
     map_option snd (internalRequestTimedCallback callback param relativeTime s)"

definition grabPartialWakeLock :: "ril_state \<Rightarrow> ril_state" where
  "grabPartialWakeLock s = s\<lparr>wake_lock := True\<rparr>"

definition releaseWakeLock :: "ril_state \<Rightarrow> ril_state" where
  "releaseWakeLock s = s\<lparr>wake_lock := False\<rparr>"

definition wakeTimeoutCallback :: "ptr \<Rightarrow> ril_state \<Rightarrow> ril_state" where
  "wakeTimeoutCallback param s = (if param = NULL then releaseWakeLock s else s)"

section \<open>Radio state of older vendor libraries\<close>

definition decodeSimStatus :: "'p env \<Rightarrow> i32 \<Rightarrow> i32" where
  "decodeSimStatus E radioState =
     (if radioState \<in> set (map (K E) [''RADIO_STATE_SIM_NOT_READY'', ''RADIO_STATE_RUIM_NOT_READY'',
           ''RADIO_STATE_NV_NOT_READY'', ''RADIO_STATE_NV_READY'']) then - 1
      else if radioState \<in> set (map (K E) [''RADIO_STATE_SIM_LOCKED_OR_ABSENT'',
           ''RADIO_STATE_SIM_READY'', ''RADIO_STATE_RUIM_READY'',
           ''RADIO_STATE_RUIM_LOCKED_OR_ABSENT'']) then radioState
      else - 1)"

definition is3gpp2 :: "'p env \<Rightarrow> i32 \<Rightarrow> bool" where
  "is3gpp2 E radioTech \<longleftrightarrow> radioTech \<in> set (map (K E) [''RADIO_TECH_IS95A'', ''RADIO_TECH_IS95B'',
     ''RADIO_TECH_1xRTT'', ''RADIO_TECH_EVDO_0'', ''RADIO_TECH_EVDO_A'', ''RADIO_TECH_EVDO_B'',
     ''RADIO_TECH_EHRPD''])"

text \<open>\<open>U\<close> is \<open>RIL_onUnsolicitedResponse\<close>, which this function and the next call mutually.\<close>

type_synonym unsol_fn = "i32 \<Rightarrow> void_ptr \<Rightarrow> size_t \<Rightarrow> ril_state \<Rightarrow> ril_state option"

definition processRadioState :: "'p env \<Rightarrow> unsol_fn \<Rightarrow> i32 \<Rightarrow> ril_state \<Rightarrow> (i32 \<times> ril_state) option" where
  "processRadioState E U newRadioState s =
     (if sint newRadioState > sint (K E ''RADIO_STATE_UNAVAILABLE'') \<and>
         sint newRadioState < sint (K E ''RADIO_STATE_ON'')
      then let newVoiceRadioTech = decodeVoiceRadioTechnology E newRadioState in do {
        s \<leftarrow> (if newVoiceRadioTech \<noteq> voiceRadioTech s
             then U (K E ''RIL_UNSOL_VOICE_RADIO_TECH_CHANGED'') (VInts [newVoiceRadioTech])
                    (of_nat sizeof_int) (s\<lparr>voiceRadioTech := newVoiceRadioTech\<rparr>)
             else Some s);
        s \<leftarrow> (if is3gpp2 E newVoiceRadioTech
             then let newSource = decodeCdmaSubscriptionSource E newRadioState in
               if newSource \<noteq> cdmaSubscriptionSource s
               then U (K E ''RIL_UNSOL_CDMA_SUBSCRIPTION_SOURCE_CHANGED'') (VInts [newSource])
                      (of_nat sizeof_int) (s\<lparr>cdmaSubscriptionSource := newSource\<rparr>)
               else Some s
             else Some s);
        let newSimStatus = decodeSimStatus E newRadioState;
        s \<leftarrow> (if newSimStatus \<noteq> simRuimStatus s
             then U (K E ''RIL_UNSOL_RESPONSE_SIM_STATUS_CHANGED'') VNull 0
                    (s\<lparr>simRuimStatus := newSimStatus\<rparr>)
             else Some s);
        Some (K E ''RADIO_STATE_ON'', s) }
      else Some (newRadioState, s))"

section \<open>Unsolicited responses\<close>

text \<open>The payload that some responses get besides.\<close>

definition more_payload ::
    "'p env \<Rightarrow> unsol_fn \<Rightarrow> i32 \<Rightarrow> i64 \<Rightarrow> 'p \<Rightarrow> ril_state \<Rightarrow> ('p \<times> ril_state) option" where
  "more_payload E U unsolResponse timeReceived p s =
     (if unsolResponse = K E ''RIL_UNSOL_RESPONSE_RADIO_STATE_CHANGED'' then do {
        (newState, s) \<leftarrow> processRadioState E U (w_radio (world s)) s;
        Some (p_writeInt32 E newState p, s) }
      else if unsolResponse = K E ''RIL_UNSOL_NITZ_TIME_RECEIVED'' then
        Some (p_writeInt64 E timeReceived p, s)
      else Some (p, s))"

text \<open>The timer that gives the wake lock back; the one before it is cancelled.\<close>

definition schedule_release :: "ril_state \<Rightarrow> ril_state option" where
  "schedule_release s = do {
     s \<leftarrow> (if s_last_wake_timeout_info s \<noteq> NULL
          then st_info (s_last_wake_timeout_info s) (\<lambda>i. i\<lparr>uc_userParam := 1\<rparr>) s else Some s);
     (p_info, s) \<leftarrow> internalRequestTimedCallback wakeTimeoutCallback_fn NULL
                      (Some TIMEVAL_WAKE_TIMEOUT) s;
     Some (s\<lparr>s_last_wake_timeout_info := p_info\<rparr>) }"

text \<open>The response once its data is written: more payload, sending, the timer.\<close>

definition send_unsol ::
    "'p env \<Rightarrow> unsol_fn \<Rightarrow> i32 \<Rightarrow> i64 \<Rightarrow> bool \<Rightarrow> 'p \<Rightarrow> ril_state \<Rightarrow> ril_state option" where
  "send_unsol E U unsolResponse timeReceived shouldScheduleTimeout p s = do {
     (p, s) \<leftarrow> more_payload E U unsolResponse timeReceived p s;
     let (ret, s) = sendResponse E p s;
     let s = (if ret \<noteq> 0 \<and> unsolResponse = K E ''RIL_UNSOL_NITZ_TIME_RECEIVED''
              then s\<lparr>s_lastNITZTimeData := Some (p_data E p)\<rparr> else s);
     if shouldScheduleTimeout then schedule_release s else Some s }"

text \<open>The response under its wake lock, for the row of the table that it has.\<close>

definition unsol_respond ::
    "'p env \<Rightarrow> unsol_fn \<Rightarrow> i32 \<Rightarrow> void_ptr \<Rightarrow> size_t \<Rightarrow> UnsolResponseInfo \<Rightarrow> ril_state \<Rightarrow>
     ril_state option" where
  "unsol_respond E U unsolResponse data datalen row s =
     (let shouldScheduleTimeout = (ui_wakeType row = WAKE_PARTIAL);
          timeReceived = (if unsolResponse = K E ''RIL_UNSOL_NITZ_TIME_RECEIVED''
                          then w_elapsed (world s) else 0)
      in case call_response E (s_version s) (ui_response row) data datalen of
           None \<Rightarrow> None
         | Some (ret, ws) \<Rightarrow>
             if ret \<noteq> 0 then Some (if shouldScheduleTimeout then releaseWakeLock s else s)
             else send_unsol E U unsolResponse timeReceived shouldScheduleTimeout
                    (puts E ([I32 RESPONSE_UNSOLICITED, I32 unsolResponse] @ ws) (p_new E)) s)"

definition unsol_body ::
    "'p env \<Rightarrow> unsol_fn \<Rightarrow> i32 \<Rightarrow> void_ptr \<Rightarrow> size_t \<Rightarrow> ril_state \<Rightarrow> ril_state option" where
  "unsol_body E U unsolResponse data datalen s =
     (let unsolResponseIndex = sint (unsolResponse - K E ''RIL_UNSOL_RESPONSE_BASE'') in
      if \<not> s_registerCalled s then Some s
      else if unsolResponseIndex < 0 \<or> unsolResponseIndex \<ge> int (length (s_unsolResponses E)) then Some s
      else let row = s_unsolResponses E ! nat unsolResponseIndex in
        unsol_respond E U unsolResponse data datalen row
          (case ui_wakeType row of WAKE_PARTIAL \<Rightarrow> grabPartialWakeLock s | DONT_WAKE \<Rightarrow> s))"

text \<open>
  The recursion is through \<open>processRadioState\<close> only, which sends none of the responses that
  call it: two levels are enough.
\<close>

primrec unsolicited :: "'p env \<Rightarrow> nat \<Rightarrow> unsol_fn" where
  "unsolicited E 0 = (\<lambda>_ _ _ _. None)"
| "unsolicited E (Suc k) = unsol_body E (unsolicited E k)"

definition RIL_onUnsolicitedResponse :: "'p env \<Rightarrow> unsol_fn" where
  "RIL_onUnsolicitedResponse E = unsolicited E 2"

section \<open>Timers that expire\<close>

text \<open>
  A timer calls either \<open>wakeTimeoutCallback\<close> or a function of the vendor library. What the latter
  can do to this library is a sequence of calls of the functions that it exports; \<open>vendor\<close> gives
  the sequence for the function's address, its parameter and the state.
\<close>

datatype vendor_call =
    OnRequestComplete ptr i32 void_ptr size_t
  | OnUnsolicitedResponse i32 void_ptr size_t
  | RequestTimedCallback ptr ptr "timeval option"

type_synonym vendor = "ptr \<Rightarrow> ptr \<Rightarrow> ril_state \<Rightarrow> vendor_call list"

fun vendor_calls :: "'p env \<Rightarrow> vendor_call list \<Rightarrow> ril_state \<Rightarrow> ril_state option" where
  "vendor_calls E [] s = Some s"
| "vendor_calls E (OnRequestComplete t e d n # cs) s = do {
     s \<leftarrow> RIL_onRequestComplete E t e d n s; vendor_calls E cs s }"
| "vendor_calls E (OnUnsolicitedResponse c d n # cs) s = do {
     s \<leftarrow> RIL_onUnsolicitedResponse E c d n s; vendor_calls E cs s }"
| "vendor_calls E (RequestTimedCallback cb param rt # cs) s = do {
     s \<leftarrow> RIL_requestTimedCallback cb param rt s; vendor_calls E cs s }"

definition vendor_callback :: "'p env \<Rightarrow> vendor \<Rightarrow> ptr \<Rightarrow> ptr \<Rightarrow> ril_state \<Rightarrow> ril_state option" where
  "vendor_callback E V callback param s =
     (let s = s\<lparr>timer_calls := timer_calls s @ [(callback, param)]\<rparr>
      in vendor_calls E (V callback param s) s)"

definition userTimerCallback :: "'p env \<Rightarrow> vendor \<Rightarrow> ptr \<Rightarrow> ril_state \<Rightarrow> ril_state option" where
  "userTimerCallback E V p_info s =
     (if p_info = NULL \<or> p_info \<notin> info_live s then None
      else let i = infos s p_info in do {
        s \<leftarrow> (if uc_callback i = wakeTimeoutCallback_fn then Some (wakeTimeoutCallback (uc_userParam i) s)
             else vendor_callback E V (uc_callback i) (uc_userParam i) s);
        let s = (if s_last_wake_timeout_info s \<noteq> NULL \<and> s_last_wake_timeout_info s = p_info
                 then s\<lparr>s_last_wake_timeout_info := NULL\<rparr> else s);
        Some (s\<lparr>info_live := info_live s - {p_info}\<rparr>) })"

section \<open>Connections\<close>

definition onNewCommandConnect :: "'p env \<Rightarrow> ril_state \<Rightarrow> ril_state option" where
  "onNewCommandConnect E s = do {
     s \<leftarrow> RIL_onUnsolicitedResponse E (K E ''RIL_UNSOL_RIL_CONNECTED'')
            (VInts [of_int (s_version s)]) (of_nat sizeof_int) s;
     s \<leftarrow> RIL_onUnsolicitedResponse E (K E ''RIL_UNSOL_RESPONSE_RADIO_STATE_CHANGED'') VNull 0 s;
     Some (case s_lastNITZTimeData s of
         None \<Rightarrow> s
       | Some d \<Rightarrow> (snd (sendResponseRaw d s))\<lparr>s_lastNITZTimeData := None\<rparr>) }"

text \<open>What \<^verbatim>\<open>accept\<close>, \<^verbatim>\<open>getsockopt(SO_PEERCRED)\<close> and \<^verbatim>\<open>getpwuid\<close> answer.\<close>

record connection =
  c_fd :: int
  c_err :: int
  c_szCreds :: nat
  c_pw_name :: "string option"

definition PHONE_PROCESS :: string where
  "PHONE_PROCESS = ''radio''"

definition is_phone_socket :: "connection \<Rightarrow> bool" where
  "is_phone_socket c \<longleftrightarrow> c_err c = 0 \<and> c_szCreds c > 0 \<and> c_pw_name c = Some PHONE_PROCESS"

text \<open>A failed \<^verbatim>\<open>assert\<close> ends the process: no result. \<open>p_rs\<close> is the new record stream.\<close>

definition listenCallback :: "'p env \<Rightarrow> connection \<Rightarrow> ptr \<Rightarrow> int \<Rightarrow> ril_state \<Rightarrow> ril_state option" where
  "listenCallback E c p_rs fd s =
     (if \<not> s_fdCommand s < 0 \<or> fd \<noteq> s_fdListen s then None
      else let s = s\<lparr>s_fdCommand := c_fd c\<rparr> in
        if c_fd c < 0 then rilEventAddWakeup s_listen_event s
        else if \<not> is_phone_socket c then do {
          let s = s\<lparr>closes := closes s @ [s_fdCommand s], s_fdCommand := - 1\<rparr>;
          s \<leftarrow> onCommandsSocketClosed s;
          rilEventAddWakeup s_listen_event s }
        else do {
          s \<leftarrow> ril_event_set s_commands_event (s_fdCommand s) True processCommandsCallback_fn p_rs s;
          s \<leftarrow> rilEventAddWakeup s_commands_event s;
          onNewCommandConnect E s })"

text \<open>Results of \<^verbatim>\<open>record_stream_get_next\<close>; \<open>RError again\<close> with \<^verbatim>\<open>EAGAIN\<close> or \<^verbatim>\<open>EINTR\<close>.\<close>

datatype record_result = Record "u8 list" | EndOfStream | RError bool

text \<open>The loop: whether the connection is to be closed, and the state.\<close>

fun commands_loop :: "'p env \<Rightarrow> record_result list \<Rightarrow> ril_state \<Rightarrow> (bool \<times> ril_state) option" where
  "commands_loop E [] s = Some (False, s)"
| "commands_loop E (EndOfStream # rs) s = Some (True, s)"
| "commands_loop E (RError again # rs) s = Some (\<not> again, s)"
| "commands_loop E (Record b # rs) s = do { s \<leftarrow> processCommandBuffer E b s; commands_loop E rs s }"

definition processCommandsCallback ::
    "'p env \<Rightarrow> record_result list \<Rightarrow> int \<Rightarrow> ril_state \<Rightarrow> ril_state option" where
  "processCommandsCallback E rs fd s =
     (if fd \<noteq> s_fdCommand s then None
      else do {
        (close, s) \<leftarrow> commands_loop E rs s;
        if \<not> close then Some s
        else do {
          let s = s\<lparr>closes := closes s @ [s_fdCommand s], s_fdCommand := - 1\<rparr>;
          s \<leftarrow> ril_event_del s_commands_event s;
          s \<leftarrow> rilEventAddWakeup s_listen_event s;
          onCommandsSocketClosed s } })"

section \<open>The debug port\<close>

text \<open>\<^verbatim>\<open>atoi\<close>: white space, a sign, digits.\<close>

fun digits_value :: "int \<Rightarrow> string \<Rightarrow> int" where
  "digits_value n [] = n"
| "digits_value n (c # cs) =
     (if 48 \<le> (of_char c :: nat) \<and> of_char c \<le> (57 :: nat)
      then digits_value (10 * n + int (of_char c - 48)) cs else n)"

definition atoi :: "string \<Rightarrow> int" where
  "atoi cs = (case dropWhile (\<lambda>c. c \<in> set [CHR '' '', CHR 0x09, CHR 0x0A, CHR 0x0B, CHR 0x0C, CHR 0x0D]) cs of
      [] \<Rightarrow> 0
    | c # r \<Rightarrow> if c = CHR ''-'' then - digits_value 0 r
               else if c = CHR ''+'' then digits_value 0 r else digits_value 0 (c # r))"

definition qxdm_data :: "i32 \<Rightarrow> i32 list" where
  "qxdm_data mode = [65536, 16, mode, 32, 0, 8]"

text \<open>
  The command in \<open>args\<close>. \<open>junk\<close> is what the field \<open>uusInfo\<close>, which the dial command does not
  set, happens to hold.
\<close>

definition debug_command ::
    "'p env \<Rightarrow> RIL_UUS_Info option \<Rightarrow> string list \<Rightarrow> ril_state \<Rightarrow> ril_state option" where
  "debug_command E junk args s =
     (case args of [] \<Rightarrow> None
      | a0 # as \<Rightarrow>
        let cmd = atoi a0; rq = (\<lambda>n. K E n); int_len = of_nat sizeof_int; ptr_len = of_nat sizeof_ptr in
        if cmd = 0 then issueLocalRequest E (rq ''RIL_REQUEST_RESET_RADIO'') VNull 0 s
        else if cmd = 1 then do {
          s \<leftarrow> issueLocalRequest E (rq ''RIL_REQUEST_RADIO_POWER'') (VInts [0]) int_len s;
          Some (s\<lparr>closes := closes s @ [s_fdCommand s], s_fdCommand := - 1\<rparr>) }
        else if cmd = 2 then
          RIL_onUnsolicitedResponse E (rq ''RIL_UNSOL_RESPONSE_VOICE_NETWORK_STATE_CHANGED'') VNull 0 s
        else if cmd = 3 then
          issueLocalRequest E (rq ''RIL_REQUEST_OEM_HOOK_RAW'') (VInts (qxdm_data 1)) (6 * int_len) s
        else if cmd = 4 then
          issueLocalRequest E (rq ''RIL_REQUEST_OEM_HOOK_RAW'') (VInts (qxdm_data 0)) (6 * int_len) s
        else if cmd = 5 then do {
          s \<leftarrow> issueLocalRequest E (rq ''RIL_REQUEST_RADIO_POWER'') (VInts [1]) int_len s;
          issueLocalRequest E (rq ''RIL_REQUEST_SET_NETWORK_SELECTION_AUTOMATIC'') VNull 0 s }
        else if cmd = 6 then (case as of [] \<Rightarrow> None
          | a1 # _ \<Rightarrow> issueLocalRequest E (rq ''RIL_REQUEST_SETUP_DATA_CALL'') (VStrs [Some a1]) ptr_len s)
        else if cmd = 7 then
          issueLocalRequest E (rq ''RIL_REQUEST_DEACTIVATE_DATA_CALL'') (VStrs [Some ''1'']) ptr_len s
        else if cmd = 8 then (case as of [] \<Rightarrow> None
          | a1 # _ \<Rightarrow> issueLocalRequest E (rq ''RIL_REQUEST_DIAL'')
              (VDial \<lparr>dial_address = Some a1, dial_clir = 0, dial_uusInfo = junk\<rparr>)
              (of_nat (sizeof E ''RIL_Dial'')) s)
        else if cmd = 9 then issueLocalRequest E (rq ''RIL_REQUEST_ANSWER'') VNull 0 s
        else if cmd = 10 then issueLocalRequest E (rq ''RIL_REQUEST_HANGUP'') (VInts [1]) int_len s
        else Some s)"

text \<open>
  The results of \<^verbatim>\<open>recv\<close>: the bytes it has read, or None for an error (the value \<open>-1\<close>). The
  integers come in the byte order of the machine.
\<close>

definition int_of_bytes :: "u8 list \<Rightarrow> int" where
  "int_of_bytes bs = sint (foldr (\<lambda>b w. ucast b + 256 * w) bs (0 :: i32))"

text \<open>A received argument as a C string: it ends at its first NUL byte.\<close>

definition arg_string :: "u8 list \<Rightarrow> string" where
  "arg_string bs = takeWhile (\<lambda>c. c \<noteq> CHR 0x00) (map (\<lambda>b. char_of (unat b)) bs)"

definition recv_int :: "u8 list option list \<Rightarrow> (int option \<times> u8 list option list)" where
  "recv_int rs = (case rs of
       Some bs # rs \<Rightarrow> (if length bs = sizeof_int then Some (int_of_bytes bs) else None, rs)
     | _ # rs \<Rightarrow> (None, rs)
     | [] \<Rightarrow> (None, []))"

text \<open>
  The loop over the \<open>n\<close> arguments. \<open>Bad_write\<close>: a length of \<open>-1\<close> equals the error value of
  \<^verbatim>\<open>recv\<close>, and the terminator is stored before the start of the block.
\<close>

datatype recv_args = Args "string list" | Recv_error | Bad_write

fun debug_args :: "nat \<Rightarrow> string list \<Rightarrow> u8 list option list \<Rightarrow> recv_args" where
  "debug_args 0 args rs = Args args"
| "debug_args (Suc n) args rs =
     (case recv_int rs of
        (None, _) \<Rightarrow> Recv_error
      | (Some len, rs) \<Rightarrow>
          (case rs of
             Some bs # rs \<Rightarrow> if int (length bs) = len then debug_args n (args @ [arg_string bs]) rs
                             else Recv_error
           | _ \<Rightarrow> if len = - 1 then Bad_write else Recv_error))"

text \<open>
  \<open>acceptFD\<close> is the result of \<^verbatim>\<open>accept\<close>. After an error in \<^verbatim>\<open>recv\<close> the connection is left open.
\<close>

definition debugCallback ::
    "'p env \<Rightarrow> RIL_UUS_Info option \<Rightarrow> int \<Rightarrow> u8 list option list \<Rightarrow> ril_state \<Rightarrow> ril_state option" where
  "debugCallback E junk acceptFD rs s =
     (if acceptFD < 0 then Some s
      else case recv_int rs of
        (None, _) \<Rightarrow> Some s
      | (Some number, rs) \<Rightarrow>
          (case debug_args (nat number) [] rs of
             Recv_error \<Rightarrow> Some s
           | Bad_write \<Rightarrow> None
           | Args args \<Rightarrow> do {
               s \<leftarrow> debug_command E junk args s;
               Some (s\<lparr>closes := closes s @ [acceptFD]\<rparr>) }))"

section \<open>Start\<close>

text \<open>
  A character array as a C string; an array without a NUL has none (the reader would run past
  its end). \<^verbatim>\<open>strncpy\<close> fills the rest of the target with NULs and writes no NUL when the source
  does not fit.
\<close>

definition cstring :: "string \<Rightarrow> string option" where
  "cstring a = (if CHR 0x00 \<in> set a then Some (takeWhile (\<lambda>c. c \<noteq> CHR 0x00) a) else None)"

definition strncpy :: "string \<Rightarrow> nat \<Rightarrow> string" where
  "strncpy src n = take n src @ replicate (n - length src) CHR 0x00"

definition SOCKET_NAME_RIL :: string where
  "SOCKET_NAME_RIL = ''rild''"

definition SOCKET_NAME_RIL_DEBUG :: string where
  "SOCKET_NAME_RIL_DEBUG = ''rild-debug''"

text \<open>The value of \<open>rild\<close> after the call; \<open>MAX_SOCKET_NAME_LENGTH\<close> is of the vendor header.\<close>

definition RIL_setRilSocketName :: "'p env \<Rightarrow> string \<Rightarrow> string" where
  "RIL_setRilSocketName E s = strncpy s (sizeof E ''MAX_SOCKET_NAME_LENGTH'')"

definition RIL_getRilSocketName :: "string \<Rightarrow> string option" where
  "RIL_getRilSocketName rild = cstring rild"

text \<open>
  The name in \<open>rildebug\<close>. \<^verbatim>\<open>strncat(rildebug, inst, n)\<close> appends up to \<open>n\<close> characters and a NUL;
  where they do not fit into the array there is no result.
\<close>

definition debug_socket_name :: "'p env \<Rightarrow> string \<Rightarrow> string option" where
  "debug_socket_name E name =
     (let n = sizeof E ''MAX_DEBUG_SOCKET_NAME_LENGTH'';
          r = (if length name \<ge> length SOCKET_NAME_RIL
               then SOCKET_NAME_RIL_DEBUG @ take n (drop (length SOCKET_NAME_RIL) name)
               else SOCKET_NAME_RIL_DEBUG)
      in if length r < n then Some r else None)"

text \<open>
  What the kernel, the properties and the control sockets answer at the start, and the array
  \<open>rild\<close>. A failure of a socket ends the process (\<^verbatim>\<open>exit\<close>): no result.
\<close>

record start_env =
  st_rild :: string
  st_version :: "int option"      \<comment> \<open>\<open>callbacks->version\<close>; None for a null pointer\<close>
  st_extlog :: "i32 option"       \<comment> \<open>the property \<^verbatim>\<open>ro.ril.extlog\<close>\<close>
  st_thread :: bool               \<comment> \<open>\<^verbatim>\<open>pthread_create\<close> succeeds\<close>
  st_pipe :: "(int \<times> int) option"
  st_control_socket :: "string \<Rightarrow> int"
  st_listen_ok :: "int \<Rightarrow> bool"

text \<open>
  The new thread up to \<open>ril_event_loop\<close>. It is the dispatch thread, so adding the event writes
  nothing into the pipe.
\<close>

definition eventLoop_start :: "start_env \<Rightarrow> ril_state \<Rightarrow> ril_state option" where
  "eventLoop_start r s = do {
     s \<leftarrow> ril_event_init s;
     let s = s\<lparr>s_started := True\<rparr>;
     (case st_pipe r of
        None \<Rightarrow> Some s
      | Some (rd, wr) \<Rightarrow> do {
          let s = s\<lparr>s_fdWakeupRead := rd, s_fdWakeupWrite := wr\<rparr>;
          s \<leftarrow> ril_event_set s_wakeupfd_event rd True processWakeupCallback_fn NULL s;
          ril_event_add s_wakeupfd_event s }) }"

definition RIL_startEventLoop :: "start_env \<Rightarrow> ril_state \<Rightarrow> ril_state option" where
  "RIL_startEventLoop r s =
     (let s = s\<lparr>s_started := False\<rparr> in if st_thread r then eventLoop_start r s else Some s)"

text \<open>
  What the event loop calls for the function of an event, with the input that is there. The
  loop itself is \<open>ril_event_loop\<close> with this as its callback.
\<close>

record inputs =
  in_connection :: connection
  in_stream :: ptr
  in_records :: "record_result list"
  in_acceptFD :: int
  in_recv :: "u8 list option list"
  in_junk :: "RIL_UUS_Info option"

definition ril_callback :: "'p env \<Rightarrow> vendor \<Rightarrow> inputs \<Rightarrow> ril_state callback" where
  "ril_callback E V i func fd param s =
     (if func = processCommandsCallback_fn then processCommandsCallback E (in_records i) fd s
      else if func = processWakeupCallback_fn then Some (processWakeupCallback s)
      else if func = listenCallback_fn then listenCallback E (in_connection i) (in_stream i) fd s
      else if func = debugCallback_fn then debugCallback E (in_junk i) (in_acceptFD i) (in_recv i) s
      else if func = userTimerCallback_fn then userTimerCallback E V param s
      else None)"

definition RIL_setcallbacks :: "int \<Rightarrow> ril_state \<Rightarrow> ril_state" where
  "RIL_setcallbacks version s = s\<lparr>s_version := version\<rparr>"

text \<open>The delay of the property \<^verbatim>\<open>ro.ril.delay_0\<close> or \<^verbatim>\<open>ro.ril.delay_1\<close> changes no state.\<close>

definition RIL_register :: "'p env \<Rightarrow> start_env \<Rightarrow> ril_state \<Rightarrow> ril_state option" where
  "RIL_register E r s = do {
     name \<leftarrow> RIL_getRilSocketName (st_rild r);
     let s = (case st_extlog r of None \<Rightarrow> s | Some v \<Rightarrow> s\<lparr>extlog := (if sint v < 0 then 0 else v)\<rparr>);
     (case st_version r of
        None \<Rightarrow> Some s
      | Some version \<Rightarrow>
          if version < sint (K E ''RIL_VERSION_MIN'') then Some s
          else if version > sint (K E ''RIL_VERSION'') then Some s
          else if s_registerCalled s then Some s
          else let s = s\<lparr>s_version := version, s_registerCalled := True\<rparr> in
            if \<not> tables_aligned E then None
            else do {
              s \<leftarrow> (if \<not> s_started s then RIL_startEventLoop r s else Some s);
              let fd = st_control_socket r name;
              if fd < 0 \<or> \<not> st_listen_ok r fd then None
              else do {
                s \<leftarrow> ril_event_set s_listen_event fd False listenCallback_fn NULL (s\<lparr>s_fdListen := fd\<rparr>);
                s \<leftarrow> rilEventAddWakeup s_listen_event s;
                rildebug \<leftarrow> debug_socket_name E name;
                let fd = st_control_socket r rildebug;
                if fd < 0 \<or> \<not> st_listen_ok r fd then None
                else do {
                  s \<leftarrow> ril_event_set s_debug_event fd True debugCallback_fn NULL (s\<lparr>s_fdDebug := fd\<rparr>);
                  rilEventAddWakeup s_debug_event s } } }) }"

end
