(* ===== verification/Ril_System.thy ===== *)
theory Ril_System
  imports Ril_Core "HOL-Library.Sublist"
begin

text \<open>
  The daemon as a whole: every entry point of \<^verbatim>\<open>libril/ril.cpp\<close> as a step of one transition
  system, the invariant of the requests and of the wake lock over all interleavings of these
  steps, and the properties of the callbacks of \<open>Ril_Core\<close>.
\<close>

section \<open>What an operation leaves alone\<close>

definition wake_part :: "ril_state \<Rightarrow> (ptr \<Rightarrow> UserCallbackInfo) \<times> ptr set \<times> ptr \<times> bool" where
  "wake_part s = (infos s, info_live s, s_last_wake_timeout_info s, wake_lock s)"

definition req_part :: "ril_state \<Rightarrow> (ptr \<Rightarrow> RequestInfo) \<times> ptr set \<times> ptr" where
  "req_part s = (reqs s, req_live s, s_pendingRequests s)"

text \<open>\<open>s'\<close> comes after \<open>s\<close>: memory has been taken from the allocator, in its order.\<close>

definition later :: "ril_state \<Rightarrow> ril_state \<Rightarrow> bool" where
  "later s s' \<longleftrightarrow> suffix (w_alloc (world s')) (w_alloc (world s))"

lemma later_refl [simp]: "later s s"
  by (simp add: later_def)

lemma later_trans [trans]: "later s t \<Longrightarrow> later t u \<Longrightarrow> later s u"
  unfolding later_def by (rule suffix_order.trans)

lemma later_same: "w_alloc (world s') = w_alloc (world s) \<Longrightarrow> later s s'"
  by (simp add: later_def)

lemma later_tl: "w_alloc (world s') = tl (w_alloc (world s)) \<Longrightarrow> later s s'"
  by (simp add: later_def suffix_tl)

lemma alloc_ok_later: "later s s' \<Longrightarrow> alloc_ok (w_alloc (world s)) L \<Longrightarrow> alloc_ok (w_alloc (world s')) L"
  unfolding later_def alloc_ok_def by (auto simp: suffix_def)

text \<open>The operations of the event loop change nothing beyond its own state.\<close>

lemma add_loop_more: "add_loop ev is s = Some s' \<Longrightarrow> ev_state.more s' = ev_state.more s"
  by (induction ev "is" s rule: add_loop.induct)
    (auto simp: bind_eq_Some_conv Let_def split: if_splits)

lemma removeWatch_more: "removeWatch ev i s = Some s' \<Longrightarrow> ev_state.more s' = ev_state.more s"
  by (auto simp: removeWatch_def bind_eq_Some_conv Let_def split: if_splits)

lemma event_more:
  "ril_event_set ev fd pe f q s = Some s' \<Longrightarrow> ev_state.more s' = ev_state.more s"
  "ril_event_add ev s = Some s' \<Longrightarrow> ev_state.more s' = ev_state.more s"
  "ril_event_del ev s = Some s' \<Longrightarrow> ev_state.more s' = ev_state.more s"
  "ril_timer_add ev tv now s = Some s' \<Longrightarrow> ev_state.more s' = ev_state.more s"
  by (auto simp: ril_event_set_def ril_event_add_def ril_event_del_def ril_timer_add_def
      bind_eq_Some_conv split: if_splits option.splits dest: add_loop_more removeWatch_more)

lemma more_eqD:
  fixes s s' :: ril_state
  assumes "ev_state.more s' = ev_state.more s"
  shows "wake_part s' = wake_part s" "req_part s' = req_part s" "world s' = world s"
    "sent s' = sent s" "closes s' = closes s" "s_fdCommand s' = s_fdCommand s"
    "s_lastNITZTimeData s' = s_lastNITZTimeData s" "s_registerCalled s' = s_registerCalled s"
    "s_version s' = s_version s" "onRequests s' = onRequests s"
    "s_last_wake_timeout_info s' = s_last_wake_timeout_info s" "info_live s' = info_live s"
    "infos s' = infos s" "wake_lock s' = wake_lock s" "s_started s' = s_started s"
    "s_fdListen s' = s_fdListen s" "s_fdDebug s' = s_fdDebug s"
  using assms by (cases s; cases s'; simp add: wake_part_def req_part_def)+

text \<open>The operations on requests leave the wake lock and its timers alone.\<close>

definition keeps_wake :: "ril_state \<Rightarrow> ril_state \<Rightarrow> bool" where
  "keeps_wake s s' \<longleftrightarrow> wake_part s' = wake_part s \<and> later s s'"

lemma keeps_wake_refl [simp]: "keeps_wake s s"
  by (simp add: keeps_wake_def)

lemma keeps_wake_trans: "keeps_wake s t \<Longrightarrow> keeps_wake t u \<Longrightarrow> keeps_wake s u"
  unfolding keeps_wake_def by (auto intro: later_trans)

lemma keeps_wakeI: "wake_part s' = wake_part s \<Longrightarrow> w_alloc (world s') = w_alloc (world s) \<Longrightarrow> keeps_wake s s'"
  by (simp add: keeps_wake_def later_same)

lemma keeps_wake_rest: "rest_of s' = rest_of s \<Longrightarrow> keeps_wake s s'"
proof -
  have "wake_part (rest_of u) = wake_part u" for u
    by (simp add: rest_of_def unlinked_def quiet_def wake_part_def)
  then show "rest_of s' = rest_of s \<Longrightarrow> keeps_wake s s'"
    using rest_of_eqD(1) [of s' s] by (intro keeps_wakeI) metis+
qed

lemma keeps_wake_send: "keeps_wake s (snd (sendResponse E p s))"
  by (rule keeps_wake_rest [OF rest_of_quiet [OF sendResponse_quiet]])

lemma complete_keeps:
  assumes "req_inv s" "RIL_onRequestComplete E t e d n s = Some s'"
  shows "keeps_wake s s'"
proof -
  obtain xs where "pending s xs" using assms(1) by (auto simp: req_inv_def)
  from complete_rest [OF this assms(2)] show ?thesis by (simp add: keeps_wake_rest)
qed

lemma keeps_wake_queued: "keeps_wake s (queued a r s)"
  by (simp add: keeps_wake_def wake_part_def queued_def later_tl)

lemma keeps_wake_upd:
  "keeps_wake s (call_onRequest rq d n a s)" "keeps_wake s (s\<lparr>voiceRadioTech := v\<rparr>)"
  "keeps_wake s (s\<lparr>cdmaSubscriptionSource := v\<rparr>)" "keeps_wake s (s\<lparr>reqs := h\<rparr>)"
  by (simp_all add: keeps_wakeI wake_part_def call_onRequest_def)

text \<open>A request is served: the others stay live.\<close>

definition serves :: "ptr \<Rightarrow> ril_state \<Rightarrow> ril_state \<Rightarrow> bool" where
  "serves a s s' \<longleftrightarrow> keeps_wake s s' \<and> req_live s - {a} \<subseteq> req_live s'"

lemma serves_trans: "serves a s t \<Longrightarrow> serves a t u \<Longrightarrow> serves a s u"
  unfolding serves_def using keeps_wake_trans by blast

lemma complete_serves:
  assumes "req_inv s" "RIL_onRequestComplete E t e d n s = Some s'"
  shows "serves t s s'"
proof -
  obtain xs where "pending s xs" using assms(1) by (auto simp: req_inv_def)
  from complete_rest [OF this assms(2)] complete_keeps [OF assms] show ?thesis by (auto simp: serves_def)
qed

lemma serves_upd [simp]:
  "serves a s (call_onRequest rq d n a' s)" "serves a s (s\<lparr>voiceRadioTech := v\<rparr>)"
  "serves a s (s\<lparr>cdmaSubscriptionSource := v\<rparr>)" "serves a s s"
  using keeps_wake_upd(1-3) by (auto simp: serves_def call_onRequest_def)

lemma radio_off_serves:
  assumes "req_inv t" "serves a s t" "RIL_onRequestComplete E a e d n t = Some u"
  shows "req_inv u \<and> serves a s u"
  using assms complete_inv complete_serves serves_trans by blast

lemma voice_serves:
  assumes "req_inv s" "dispatchVoiceRadioTech E rq a s = Some s'"
  shows "serves a s s'"
proof -
  obtain s1 where s1: "req_inv s1" "serves a s s1"
    "s' = call_onRequest rq VNull 0 a s1 \<or>
     (\<exists>v e d n. RIL_onRequestComplete E a e d n (s1\<lparr>voiceRadioTech := v\<rparr>) = Some s')"
    using assms radio_off_serves [OF assms(1) serves_upd(4), of E a]
    by (auto simp: dispatchVoiceRadioTech_def Let_def bind_eq_Some_conv split: if_splits)
      (use serves_upd(4) in blast)+
  have inv: "req_inv (s1\<lparr>voiceRadioTech := v\<rparr>)" for v
    using s1(1) by (subst req_inv_cong [of _ s1]) simp_all
  have "serves a s1 s'"
    using s1(3) serves_upd(1) [of a s1]
      serves_trans [OF serves_upd(2) complete_serves [OF inv]] by blast
  with s1(2) show ?thesis by (rule serves_trans)
qed

lemma cdma_serves:
  assumes "req_inv s" "dispatchCdmaSubscriptionSource E rq a s = Some s'"
  shows "serves a s s'"
proof -
  obtain s1 where s1: "req_inv s1" "serves a s s1"
    "s' = call_onRequest rq VNull 0 a s1 \<or>
     (\<exists>v e d n. RIL_onRequestComplete E a e d n (s1\<lparr>cdmaSubscriptionSource := v\<rparr>) = Some s')"
    using assms radio_off_serves [OF assms(1) serves_upd(4), of E a]
    by (auto simp: dispatchCdmaSubscriptionSource_def Let_def bind_eq_Some_conv split: if_splits)
      (use serves_upd(4) in blast)+
  have inv: "req_inv (s1\<lparr>cdmaSubscriptionSource := v\<rparr>)" for v
    using s1(1) by (subst req_inv_cong [of _ s1]) simp_all
  have "serves a s1 s'"
    using s1(3) serves_upd(1) [of a s1]
      serves_trans [OF serves_upd(3) complete_serves [OF inv]] by blast
  with s1(2) show ?thesis by (rule serves_trans)
qed

lemma dispatch_serves:
  "req_inv s \<Longrightarrow> call_dispatchFunction E c p a s = Some s' \<Longrightarrow> serves a s s'"
  using voice_serves cdma_serves serves_upd(1,4)
  by (auto simp: call_dispatchFunction_def bind_eq_Some_conv Let_def split: if_splits option.splits
      dispatch_out.splits)

text \<open>A new command leaves the wake lock and all requests that are pending alone.\<close>

definition keeps_all :: "ril_state \<Rightarrow> ril_state \<Rightarrow> bool" where
  "keeps_all s s' \<longleftrightarrow> keeps_wake s s' \<and> req_live s \<subseteq> req_live s'"

lemma keeps_all_trans: "keeps_all s t \<Longrightarrow> keeps_all t u \<Longrightarrow> keeps_all s u"
  unfolding keeps_all_def using keeps_wake_trans by blast

lemma command_keeps:
  assumes "req_inv s" "processCommandBuffer E b s = Some s'"
  shows "keeps_all s s'"
proof (cases "\<exists>p. s' = snd (sendResponse E p s) \<or> s' = s")
  case True
  then show ?thesis
    using keeps_wake_send quiet_eqD(14) [OF sendResponse_quiet] by (fastforce simp: keeps_all_def)
next
  case False
  with assms(2) obtain a s0 c p s1 s2 f where r: "calloc_req s = Some (a, s0)" "st_req a f s0 = Some s1"
      "push_pending a s1 = Some s2" "call_dispatchFunction E c p a s2 = Some s'"
    by (auto simp: processCommandBuffer_def Let_def bind_eq_Some_conv split: prod.splits if_splits)
  then obtain as where a: "w_alloc (world s) = a # as" by (auto simp: calloc_req_def split: list.splits if_splits)
  note q = queued_inv [OF assms(1) a]
  have s2: "s2 = queued a (f zero_req) s"
    using enqueue_eq [OF a q(2), of f "\<lambda>_ s. Some s"] r by simp
  have "serves a s2 s'" using r(4) dispatch_serves [OF q(1), of E c p a] s2 by blast
  moreover have "a \<notin> req_live s" using assms(1) a by (auto simp: req_inv_def alloc_ok_def)
  moreover have "req_live s2 = insert a (req_live s)" by (simp add: s2 queued_def)
  ultimately show ?thesis
    using keeps_wake_trans [OF keeps_wake_queued] unfolding s2 by (auto simp: serves_def keeps_all_def)
qed

lemma local_keeps:
  assumes "req_inv s" "issueLocalRequest E rq d n s = Some s'"
  shows "keeps_all s s'"
proof -
  obtain a as where a: "w_alloc (world s) = a # as"
    using assms(2) by (auto simp: issueLocalRequest_def calloc_req_def bind_eq_Some_conv split: list.splits)
  note q = queued_inv [OF assms(1) a]
  have "keeps_all s (queued a r s)" for r by (auto simp: keeps_all_def keeps_wake_queued) (simp add: queued_def)
  moreover have "keeps_all t (call_onRequest rq d n a t)" for t
    using keeps_wake_upd(1) by (simp add: keeps_all_def call_onRequest_def)
  ultimately show ?thesis
    using assms(2) keeps_all_trans unfolding issueLocalRequest_def enqueue_eq [OF a q(2)] by blast
qed

lemma closed_keeps: "req_inv s \<Longrightarrow> onCommandsSocketClosed s = Some s' \<Longrightarrow> keeps_all s s'"
  using onCommandsSocketClosed_ok [of s] keeps_wake_upd(4) by (fastforce simp: req_inv_def keeps_all_def)

lemma commands_loop_keeps:
  "req_inv s \<Longrightarrow> commands_loop E rs s = Some (c, s') \<Longrightarrow> req_inv s' \<and> keeps_all s s'"
proof (induction E rs s rule: commands_loop.induct)
  case (4 E b rs s)
  then obtain t where "processCommandBuffer E b s = Some t" "commands_loop E rs t = Some (c, s')"
    by (auto simp: bind_eq_Some_conv)
  with 4 command_inv command_keeps keeps_all_trans show ?case by metis
qed (auto simp: keeps_all_def)

section \<open>The wake lock and its timers\<close>

text \<open>
  A live timer that would give the lock back is the last one; every earlier one is cancelled.
\<close>

definition timer_inv :: "ril_state \<Rightarrow> bool" where
  "timer_inv s \<longleftrightarrow>
     (\<forall>p \<in> info_live s. p \<noteq> NULL \<and>
        (infos s p = \<lparr>uc_callback = wakeTimeoutCallback_fn, uc_userParam = NULL\<rparr> \<longrightarrow>
           p = s_last_wake_timeout_info s)) \<and>
     (s_last_wake_timeout_info s \<noteq> NULL \<longrightarrow> s_last_wake_timeout_info s \<in> info_live s \<and>
        infos s (s_last_wake_timeout_info s) =
          \<lparr>uc_callback = wakeTimeoutCallback_fn, uc_userParam = NULL\<rparr>) \<and>
     alloc_ok (w_alloc (world s)) (info_live s)"

text \<open>A lock that is held has a timer that will give it back.\<close>

definition held :: "ril_state \<Rightarrow> bool" where
  "held s \<longleftrightarrow> (wake_lock s \<longrightarrow> s_last_wake_timeout_info s \<noteq> NULL)"

lemma keeps_timer_inv: "keeps_wake s s' \<Longrightarrow> timer_inv s \<Longrightarrow> timer_inv s'"
  using alloc_ok_later by (auto simp: keeps_wake_def wake_part_def timer_inv_def)

lemma keeps_held: "keeps_wake s s' \<Longrightarrow> held s' = held s"
  by (auto simp: keeps_wake_def wake_part_def held_def)

definition wstep :: "ril_state \<Rightarrow> ril_state \<Rightarrow> bool" where
  "wstep s s' \<longleftrightarrow> (timer_inv s \<longrightarrow> timer_inv s' \<and> (held s \<longrightarrow> held s')) \<and>
     req_part s' = req_part s \<and> later s s'"

lemma wstep_refl [simp]: "wstep s s"
  by (simp add: wstep_def)

lemma wstep_trans: "wstep s t \<Longrightarrow> wstep t u \<Longrightarrow> wstep s u"
  unfolding wstep_def by (auto intro: later_trans)

lemma wstep_keeps: "keeps_wake s s' \<Longrightarrow> req_part s' = req_part s \<Longrightarrow> wstep s s'"
  using keeps_timer_inv keeps_held by (auto simp: wstep_def keeps_wake_def)

lemma req_part_quiet: "quiet s' = quiet s \<Longrightarrow> req_part s' = req_part s"
  using quiet_eqD(13-15) [of s' s] by (simp add: req_part_def)

lemma wstep_send: "wstep s (snd (sendResponse E p s))"
  using wstep_keeps [OF keeps_wake_send req_part_quiet [OF sendResponse_quiet]] .

lemma wstep_more: "ev_state.more s' = ev_state.more s \<Longrightarrow> wstep s s'"
  using more_eqD(1-3) [of s' s] by (intro wstep_keeps keeps_wakeI) simp_all

lemma wstep_fields [simp]:
  "wstep s (s\<lparr>voiceRadioTech := v\<rparr>)" "wstep s (s\<lparr>cdmaSubscriptionSource := v\<rparr>)"
  "wstep s (s\<lparr>simRuimStatus := v\<rparr>)" "wstep s (s\<lparr>s_lastNITZTimeData := d\<rparr>)"
  "wstep s (s\<lparr>s_fdCommand := fd\<rparr>)" "wstep s (s\<lparr>closes := cs, s_fdCommand := fd\<rparr>)"
  "wstep s (s\<lparr>closes := cs\<rparr>)" "wstep s (s\<lparr>wakeups := n\<rparr>)"
  by (simp_all add: wstep_keeps keeps_wakeI wake_part_def req_part_def)

lemma wstep_trigger [simp]: "wstep s (triggerEvLoop s)"
  by (simp add: triggerEvLoop_def)

lemma wstep_add: "rilEventAddWakeup ev s = Some s' \<Longrightarrow> wstep s s'"
  using wstep_more [OF event_more(2)] wstep_trans [OF _ wstep_trigger]
  by (fastforce simp: rilEventAddWakeup_def bind_eq_Some_conv)

lemma timed_callbackD:
  assumes "internalRequestTimedCallback cb param rt s = Some (a, s')"
  shows "w_alloc (world s) = a # w_alloc (world s')" "a \<noteq> NULL"
    "infos s' = (infos s)(a := \<lparr>uc_callback = cb, uc_userParam = param\<rparr>)"
    "info_live s' = insert a (info_live s)"
    "s_last_wake_timeout_info s' = s_last_wake_timeout_info s" "wake_lock s' = wake_lock s"
    "req_part s' = req_part s" "sent s' = sent s" "s_fdCommand s' = s_fdCommand s"
    "s_lastNITZTimeData s' = s_lastNITZTimeData s" "w_writes (world s') = w_writes (world s)"
    "w_radio (world s') = w_radio (world s)" "w_now (world s') = w_now (world s)"
    "s_registerCalled s' = s_registerCalled s" "s_version s' = s_version s"
proof -
  obtain as where al: "w_alloc (world s) = a # as" and nn: "a \<noteq> NULL"
    using assms by (auto simp: internalRequestTimedCallback_def malloc_info_def bind_eq_Some_conv
        Let_def split: list.splits if_splits)
  define t where "t = s\<lparr>info_live := insert a (info_live s), world := (world s)\<lparr>w_alloc := as\<rparr>,
    infos := (infos s)(a := \<lparr>uc_callback = cb, uc_userParam = param\<rparr>)\<rparr>"
  obtain u v tv where uv: "ril_event_set a (- 1) False userTimerCallback_fn a t = Some u"
    "ril_timer_add a tv (w_now (world u)) u = Some v" "s' = triggerEvLoop v"
    using assms al nn unfolding t_def
    by (auto simp: internalRequestTimedCallback_def malloc_info_def st_info_def bind_eq_Some_conv Let_def)
  note m = more_eqD [OF event_more(1) [OF uv(1)]] more_eqD [OF event_more(4) [OF uv(2)]]
  show "w_alloc (world s) = a # w_alloc (world s')" "a \<noteq> NULL"
    "infos s' = (infos s)(a := \<lparr>uc_callback = cb, uc_userParam = param\<rparr>)"
    "info_live s' = insert a (info_live s)"
    "s_last_wake_timeout_info s' = s_last_wake_timeout_info s" "wake_lock s' = wake_lock s"
    "req_part s' = req_part s" "sent s' = sent s" "s_fdCommand s' = s_fdCommand s"
    "s_lastNITZTimeData s' = s_lastNITZTimeData s" "w_writes (world s') = w_writes (world s)"
    "w_radio (world s') = w_radio (world s)" "w_now (world s') = w_now (world s)"
    "s_registerCalled s' = s_registerCalled s" "s_version s' = s_version s"
    using m al nn uv(3) by (simp_all add: triggerEvLoop_def req_part_def t_def)
qed

lemma timer_inv_alloc:
  "timer_inv s \<Longrightarrow> w_alloc (world s) = a # as \<Longrightarrow> a \<notin> info_live s \<and> alloc_ok as (insert a (info_live s))"
  by (auto simp: timer_inv_def alloc_ok_def)

lemma vendor_timer_wstep:
  assumes "RIL_requestTimedCallback cb param rt s = Some s'" "cb \<noteq> wakeTimeoutCallback_fn"
  shows "wstep s s'"
proof -
  obtain a where a: "internalRequestTimedCallback cb param rt s = Some (a, s')"
    using assms(1) by (auto simp: RIL_requestTimedCallback_def)
  note d = timed_callbackD [OF a]
  have "timer_inv s'" if "timer_inv s"
    using that timer_inv_alloc [OF that d(1)] assms(2) d(2-5)
    by (auto simp: timer_inv_def)
  moreover have "held s \<longrightarrow> held s'" using d(5,6) by (simp add: held_def)
  ultimately show ?thesis using d(1,7) later_tl [of s' s] by (simp add: wstep_def)
qed

lemma schedule_release_inv:
  assumes "schedule_release s = Some s'"
  shows "(timer_inv s \<longrightarrow> timer_inv s') \<and> s_last_wake_timeout_info s' \<noteq> NULL \<and>
    wake_lock s' = wake_lock s \<and> req_part s' = req_part s \<and> later s s' \<and>
    sent s' = sent s \<and> s_fdCommand s' = s_fdCommand s \<and>
    s_lastNITZTimeData s' = s_lastNITZTimeData s \<and> w_writes (world s') = w_writes (world s)"
proof -
  let ?l = "s_last_wake_timeout_info s"
  define t where "t = (if ?l \<noteq> NULL then s\<lparr>infos := (infos s)(?l := (infos s ?l)\<lparr>uc_userParam := 1\<rparr>)\<rparr> else s)"
  obtain a u where a: "internalRequestTimedCallback wakeTimeoutCallback_fn NULL
      (Some TIMEVAL_WAKE_TIMEOUT) t = Some (a, u)" "s' = u\<lparr>s_last_wake_timeout_info := a\<rparr>"
    using assms
    by (auto simp: schedule_release_def t_def st_info_def bind_eq_Some_conv split: if_splits)
  note d = timed_callbackD [OF a(1)]
  have t: "info_live t = info_live s" "wake_lock t = wake_lock s" "world t = world s"
    "req_part t = req_part s" "sent t = sent s" "s_fdCommand t = s_fdCommand s"
    "s_lastNITZTimeData t = s_lastNITZTimeData s"
    by (simp_all add: t_def req_part_def)
  have "timer_inv s'" if inv: "timer_inv s"
  proof -
    have fresh: "a \<notin> info_live s" "alloc_ok (w_alloc (world s')) (insert a (info_live s))"
      using timer_inv_alloc [OF inv, of a "w_alloc (world s')"] d(1) t(3) a(2) by simp_all
    have "infos t p \<noteq> \<lparr>uc_callback = wakeTimeoutCallback_fn, uc_userParam = NULL\<rparr> \<and> p \<noteq> NULL"
      if p: "p \<in> info_live s" for p
    proof (cases "p = ?l")
      case True
      have "p \<noteq> NULL" using inv p unfolding timer_inv_def by blast
      then show ?thesis using True by (cases "infos s ?l") (simp add: t_def)
    next
      case False
      then have "infos t p = infos s p" by (simp add: t_def)
      then show ?thesis using inv p False unfolding timer_inv_def by metis
    qed
    then show ?thesis
      using fresh a(2) d(2-4) t(1) unfolding timer_inv_def by simp
  qed
  then show ?thesis
    using a(2) d t later_tl [of s' s] by (simp add: req_part_def)
qed

definition good_unsol :: "unsol_fn \<Rightarrow> bool" where
  "good_unsol U \<longleftrightarrow> (\<forall>c d n s s'. U c d n s = Some s' \<longrightarrow> wstep s s')"

lemma good_unsolD: "good_unsol U \<Longrightarrow> U c d n t = Some s' \<Longrightarrow> wstep s t \<Longrightarrow> wstep s s'"
  unfolding good_unsol_def by (blast intro: wstep_trans)

lemma processRadioState_chain:
  assumes "processRadioState E U r s = Some (v, s')"
  shows "\<exists>s1 s2. (s1 = s \<or> (\<exists>c d n x. U c d n (s\<lparr>voiceRadioTech := x\<rparr>) = Some s1)) \<and>
    (s2 = s1 \<or> (\<exists>c d n x. U c d n (s1\<lparr>cdmaSubscriptionSource := x\<rparr>) = Some s2)) \<and>
    (s' = s2 \<or> (\<exists>c d n x. U c d n (s2\<lparr>simRuimStatus := x\<rparr>) = Some s'))"
proof (cases "sint r > sint (K E ''RADIO_STATE_UNAVAILABLE'') \<and> sint r < sint (K E ''RADIO_STATE_ON'')")
  case True
  let ?t = "decodeVoiceRadioTechnology E r" and ?q = "decodeCdmaSubscriptionSource E r"
    and ?m = "decodeSimStatus E r"
  from assms True obtain s1 s2 where c:
    "(if ?t \<noteq> voiceRadioTech s then U (K E ''RIL_UNSOL_VOICE_RADIO_TECH_CHANGED'') (VInts [?t])
        (of_nat sizeof_int) (s\<lparr>voiceRadioTech := ?t\<rparr>) else Some s) = Some s1"
    "(if is3gpp2 E ?t then (if ?q \<noteq> cdmaSubscriptionSource s1
        then U (K E ''RIL_UNSOL_CDMA_SUBSCRIPTION_SOURCE_CHANGED'') (VInts [?q])
          (of_nat sizeof_int) (s1\<lparr>cdmaSubscriptionSource := ?q\<rparr>) else Some s1) else Some s1) = Some s2"
    "(if ?m \<noteq> simRuimStatus s2 then U (K E ''RIL_UNSOL_RESPONSE_SIM_STATUS_CHANGED'') VNull 0
        (s2\<lparr>simRuimStatus := ?m\<rparr>) else Some s2) = Some s'"
    unfolding processRadioState_def Let_def by (auto simp: bind_eq_Some_conv)
  have "s1 = s \<or> (\<exists>c d n x. U c d n (s\<lparr>voiceRadioTech := x\<rparr>) = Some s1)" using c(1) by (auto split: if_splits)
  moreover have "s2 = s1 \<or> (\<exists>c d n x. U c d n (s1\<lparr>cdmaSubscriptionSource := x\<rparr>) = Some s2)"
    using c(2) by (auto split: if_splits)
  moreover have "s' = s2 \<or> (\<exists>c d n x. U c d n (s2\<lparr>simRuimStatus := x\<rparr>) = Some s')" using c(3) by (auto split: if_splits)
  ultimately show ?thesis by blast
next
  case False
  then have "processRadioState E U r s = Some (r, s)" unfolding processRadioState_def by (rule if_not_P)
  with assms have "s' = s" by simp
  then show ?thesis by (intro exI [of _ s]) simp
qed

lemma processRadioState_wstep:
  assumes "good_unsol U" "processRadioState E U r s = Some (v, s')"
  shows "wstep s s'"
proof -
  obtain s1 s2 where "s1 = s \<or> (\<exists>c d n x. U c d n (s\<lparr>voiceRadioTech := x\<rparr>) = Some s1)"
    "s2 = s1 \<or> (\<exists>c d n x. U c d n (s1\<lparr>cdmaSubscriptionSource := x\<rparr>) = Some s2)"
    "s' = s2 \<or> (\<exists>c d n x. U c d n (s2\<lparr>simRuimStatus := x\<rparr>) = Some s')"
    using processRadioState_chain [OF assms(2)] by blast
  then have "wstep s s1" "wstep s1 s2" "wstep s2 s'" by (auto intro: good_unsolD [OF assms(1)])
  then show ?thesis by (blast intro: wstep_trans)
qed

lemma more_payload_wstep:
  "good_unsol U \<Longrightarrow> more_payload E U c t p s = Some (p', s') \<Longrightarrow> wstep s s'"
  by (auto simp: more_payload_def bind_eq_Some_conv split: if_splits dest: processRadioState_wstep)

lemma send_unsol_eq:
  assumes "more_payload E U c t p s = Some (q, u)"
  shows "send_unsol E U c t sched p s = (if sched then schedule_release else Some)
    (if fst (sendResponse E q u) \<noteq> 0 \<and> c = K E ''RIL_UNSOL_NITZ_TIME_RECEIVED''
     then (snd (sendResponse E q u))\<lparr>s_lastNITZTimeData := Some (p_data E q)\<rparr>
     else snd (sendResponse E q u))"
  by (simp add: send_unsol_def assms case_prod_beta Let_def cong: if_cong)

lemma send_unsol_wstep:
  assumes "good_unsol U" "send_unsol E U c t sched p s = Some s'"
  shows "(timer_inv s \<longrightarrow> timer_inv s') \<and> (sched \<or> held s \<and> timer_inv s \<longrightarrow> held s') \<and>
    req_part s' = req_part s \<and> later s s'"
proof -
  obtain q u where q: "more_payload E U c t p s = Some (q, u)"
    using assms(2) by (auto simp: send_unsol_def bind_eq_Some_conv)
  define v where "v = (if fst (sendResponse E q u) \<noteq> 0 \<and> c = K E ''RIL_UNSOL_NITZ_TIME_RECEIVED''
    then (snd (sendResponse E q u))\<lparr>s_lastNITZTimeData := Some (p_data E q)\<rparr>
    else snd (sendResponse E q u))"
  have fin: "(if sched then schedule_release else Some) v = Some s'"
    using assms(2) send_unsol_eq [OF q] by (simp only: v_def)
  have "wstep s v"
    using more_payload_wstep [OF assms(1) q] wstep_send [of u E q] unfolding v_def
    by (auto intro: wstep_trans wstep_fields(4))
  then show ?thesis
    using fin schedule_release_inv [of v s'] later_trans [of s v s']
    by (cases sched) (auto simp: wstep_def held_def)
qed

lemma lock_simps:
  "timer_inv (grabPartialWakeLock s) = timer_inv s" "timer_inv (releaseWakeLock s) = timer_inv s"
  "req_part (grabPartialWakeLock s) = req_part s" "req_part (releaseWakeLock s) = req_part s"
  "later (grabPartialWakeLock s) t = later s t" "later s (releaseWakeLock s)" "held (releaseWakeLock s)"
  by (simp_all add: grabPartialWakeLock_def releaseWakeLock_def timer_inv_def req_part_def
      later_def held_def)

lemma unsol_respond_wstep:
  assumes "good_unsol U" "unsol_respond E U c d n row s = Some s'"
  shows "(timer_inv s \<longrightarrow> timer_inv s') \<and>
    (ui_wakeType row = WAKE_PARTIAL \<or> held s \<and> timer_inv s \<longrightarrow> held s') \<and>
    req_part s' = req_part s \<and> later s s'"
proof (cases "call_response E (s_version s) (ui_response row) d n")
  case None
  then have "unsol_respond E U c d n row s = None" by (simp add: unsol_respond_def)
  with assms(2) show ?thesis by simp
next
  case (Some r)
  obtain ret ws where r: "r = (ret, ws)" by (cases r)
  show ?thesis
  proof (cases "ret = 0")
    case True
    from assms(2) show ?thesis
      unfolding unsol_respond_def Let_def Some r True option.case prod.case simp_thms if_False
      by (rule send_unsol_wstep [OF assms(1)])
  next
    case False
    then have "unsol_respond E U c d n row s =
        Some (if ui_wakeType row = WAKE_PARTIAL then releaseWakeLock s else s)"
      unfolding unsol_respond_def Let_def Some r by simp
    with assms(2) show ?thesis by (auto simp: lock_simps)
  qed
qed

lemma unsol_body_cases:
  assumes "unsol_body E U c d n s = Some s'"
  obtains "s' = s"
    | row where "row \<in> set (s_unsolResponses E)" "ui_wakeType row = WAKE_PARTIAL"
        "unsol_respond E U c d n row (grabPartialWakeLock s) = Some s'"
    | row where "row \<in> set (s_unsolResponses E)" "ui_wakeType row = DONT_WAKE"
        "unsol_respond E U c d n row s = Some s'"
proof -
  let ?i = "sint (c - K E ''RIL_UNSOL_RESPONSE_BASE'')"
  let ?row = "s_unsolResponses E ! nat ?i"
  show thesis
  proof (cases "\<not> s_registerCalled s \<or> ?i < 0 \<or> ?i \<ge> int (length (s_unsolResponses E))")
    case True
    then have "unsol_body E U c d n s = Some s" unfolding unsol_body_def Let_def by auto
    with assms that(1) show ?thesis by simp
  next
    case False
    then have "unsol_respond E U c d n ?row (case ui_wakeType ?row of
        WAKE_PARTIAL \<Rightarrow> grabPartialWakeLock s | DONT_WAKE \<Rightarrow> s) = Some s'"
      using assms unfolding unsol_body_def Let_def by simp
    moreover have "?row \<in> set (s_unsolResponses E)" using False by (intro nth_mem) auto
    ultimately show ?thesis using that(2,3) by (auto split: WakeType.splits)
  qed
qed

lemma unsol_body_good:
  assumes "good_unsol U"
  shows "good_unsol (unsol_body E U)"
  unfolding good_unsol_def
proof (intro allI impI)
  fix c d n s s' assume "unsol_body E U c d n s = Some s'"
  then show "wstep s s'"
  proof (cases rule: unsol_body_cases)
    case (2 row)
    from unsol_respond_wstep [OF assms 2(3)] 2(2) show ?thesis
      unfolding wstep_def lock_simps by blast
  next
    case (3 row)
    with unsol_respond_wstep [OF assms 3(3)] show ?thesis by (auto simp: wstep_def)
  qed simp
qed

lemma unsolicited_good: "good_unsol (unsolicited E k)"
  by (induction k) (simp_all add: unsol_body_good, simp add: good_unsol_def)

lemma unsolicited_wstep: "RIL_onUnsolicitedResponse E c d n s = Some s' \<Longrightarrow> wstep s s'"
  using unsolicited_good [of E 2] by (simp add: RIL_onUnsolicitedResponse_def good_unsol_def)

text \<open>
  A relation between the states before and after that every part of a response keeps, is kept by
  the response, however deep the radio state makes it nest.
\<close>

locale response_relation =
  fixes R :: "ril_state \<Rightarrow> ril_state \<Rightarrow> bool"
  assumes refl: "R s s"
    and trans: "R s t \<Longrightarrow> R t u \<Longrightarrow> R s u"
    and send: "R s (snd (sendResponseRaw bs s))"
    and fields: "R s (s\<lparr>voiceRadioTech := v\<rparr>)" "R s (s\<lparr>cdmaSubscriptionSource := v\<rparr>)"
      "R s (s\<lparr>simRuimStatus := v\<rparr>)" "R s (s\<lparr>s_lastNITZTimeData := d\<rparr>)" "R s (s\<lparr>wake_lock := b\<rparr>)"
    and schedule: "schedule_release s = Some s' \<Longrightarrow> R s s'"
begin

lemma radio_state:
  assumes "\<And>c d n s s'. U c d n s = Some s' \<Longrightarrow> R s s'" "processRadioState E U r s = Some (v, s')"
  shows "R s s'"
proof -
  obtain s1 s2 where "s1 = s \<or> (\<exists>c d n x. U c d n (s\<lparr>voiceRadioTech := x\<rparr>) = Some s1)"
    "s2 = s1 \<or> (\<exists>c d n x. U c d n (s1\<lparr>cdmaSubscriptionSource := x\<rparr>) = Some s2)"
    "s' = s2 \<or> (\<exists>c d n x. U c d n (s2\<lparr>simRuimStatus := x\<rparr>) = Some s')"
    using processRadioState_chain [OF assms(2)] by blast
  then have "R s s1" "R s1 s2" "R s2 s'" by (auto intro: refl trans [OF fields(1)] trans [OF fields(2)] trans [OF fields(3)] assms(1))
  then show ?thesis by (blast intro: trans)
qed

lemma send_response:
  assumes "\<And>c d n s s'. U c d n s = Some s' \<Longrightarrow> R s s'" "send_unsol E U c t sched p s = Some s'"
  shows "R s s'"
proof -
  obtain q u where q: "more_payload E U c t p s = Some (q, u)"
    using assms(2) by (auto simp: send_unsol_def bind_eq_Some_conv)
  then have "R s u" using radio_state [OF assms(1)]
    by (auto simp: more_payload_def bind_eq_Some_conv refl split: if_splits)
  define w where "w = snd (sendResponse E q u)"
  have "R u w" using send by (simp add: w_def sendResponse_def)
  with \<open>R s u\<close> have "R s w" by (rule trans)
  then have "R s (w\<lparr>s_lastNITZTimeData := d\<rparr>)" for d using fields(4) trans by blast
  with \<open>R s w\<close> have v: "R s (if b then w\<lparr>s_lastNITZTimeData := d\<rparr> else w)" for b d by simp
  show ?thesis
    using assms(2) trans [OF v schedule] v unfolding send_unsol_eq [OF q] w_def [symmetric]
    by (cases sched) auto
qed

lemma respond:
  assumes "\<And>c d n s s'. U c d n s = Some s' \<Longrightarrow> R s s'" "unsol_respond E U c d n row s = Some s'"
  shows "R s s'"
proof (cases "call_response E (s_version s) (ui_response row) d n")
  case None
  with assms(2) show ?thesis by (simp add: unsol_respond_def)
next
  case (Some r)
  obtain ret ws where r: "r = (ret, ws)" by (cases r)
  show ?thesis
    using assms(2) send_response [OF assms(1)] refl fields(5) unfolding unsol_respond_def Let_def Some r
    by (auto simp: releaseWakeLock_def split: if_splits)
qed

lemma body:
  assumes "\<And>c d n s s'. U c d n s = Some s' \<Longrightarrow> R s s'" "unsol_body E U c d n s = Some s'"
  shows "R s s'"
  using assms(2)
proof (cases rule: unsol_body_cases)
  case (2 row)
  then have "R (s\<lparr>wake_lock := True\<rparr>) s'" using respond [OF assms(1)] by (simp add: grabPartialWakeLock_def)
  then show ?thesis by (rule trans [OF fields(5)])
next
  case (3 row)
  show ?thesis by (rule respond [OF _ 3(3)]) (rule assms(1))
qed (simp add: refl)

lemma unsolicited: "unsolicited E k c d n s = Some s' \<Longrightarrow> R s s'"
proof (induction k arbitrary: c d n s s')
  case (Suc k)
  then show ?case using body [OF Suc.IH] by simp
qed simp

lemma onUnsolicitedResponse: "RIL_onUnsolicitedResponse E c d n s = Some s' \<Longrightarrow> R s s'"
  unfolding RIL_onUnsolicitedResponse_def by (rule unsolicited)

end

text \<open>The live timers stay what they are, and a new last wake timer is a new block.\<close>

definition timers_stay :: "ril_state \<Rightarrow> ril_state \<Rightarrow> bool" where
  "timers_stay s s' \<longleftrightarrow> (timer_inv s \<longrightarrow> timer_inv s' \<and> later s s' \<and>
     (\<forall>p \<in> info_live s. p \<in> info_live s' \<and> uc_callback (infos s' p) = uc_callback (infos s p)) \<and>
     s_last_wake_timeout_info s' \<in> insert (s_last_wake_timeout_info s) (set (w_alloc (world s))))"

lemma later_alloc: "later s s' \<Longrightarrow> set (w_alloc (world s')) \<subseteq> set (w_alloc (world s))"
  by (simp add: later_def set_mono_suffix)

lemma timers_stay_keeps: "keeps_wake s s' \<Longrightarrow> timers_stay s s'"
  using keeps_timer_inv [of s s'] by (auto simp: timers_stay_def keeps_wake_def wake_part_def)

lemma timers_stay_trans:
  assumes "timers_stay s t" "timers_stay t u"
  shows "timers_stay s u"
  unfolding timers_stay_def
proof (intro impI)
  assume "timer_inv s"
  with assms(1) have t: "timer_inv t" "later s t"
    "\<forall>p \<in> info_live s. p \<in> info_live t \<and> uc_callback (infos t p) = uc_callback (infos s p)"
    "s_last_wake_timeout_info t \<in> insert (s_last_wake_timeout_info s) (set (w_alloc (world s)))"
    by (simp_all add: timers_stay_def)
  with assms(2) have u: "timer_inv u" "later t u"
    "\<forall>p \<in> info_live t. p \<in> info_live u \<and> uc_callback (infos u p) = uc_callback (infos t p)"
    "s_last_wake_timeout_info u \<in> insert (s_last_wake_timeout_info t) (set (w_alloc (world t)))"
    by (simp_all add: timers_stay_def)
  have "later s u" using t(2) u(2) by (rule later_trans)
  with t u later_alloc [OF t(2)]
  show "timer_inv u \<and> later s u \<and>
      (\<forall>p \<in> info_live s. p \<in> info_live u \<and> uc_callback (infos u p) = uc_callback (infos s p)) \<and>
      s_last_wake_timeout_info u \<in> insert (s_last_wake_timeout_info s) (set (w_alloc (world s)))"
    by auto
qed

lemma timers_stay_timed:
  assumes "internalRequestTimedCallback cb param rt s = Some (a, s')" "cb \<noteq> wakeTimeoutCallback_fn"
  shows "timers_stay s s'"
proof -
  have "RIL_requestTimedCallback cb param rt s = Some s'" using assms(1) by (simp add: RIL_requestTimedCallback_def)
  from vendor_timer_wstep [OF this assms(2)] have "timer_inv s \<longrightarrow> timer_inv s'" "later s s'" by (simp_all add: wstep_def)
  then show ?thesis
    using timed_callbackD [OF assms(1)] timer_inv_alloc [of s a] by (auto simp: timers_stay_def)
qed

lemma timers_stay_schedule:
  assumes "schedule_release s = Some s'"
  shows "timers_stay s s'"
proof -
  let ?l = "s_last_wake_timeout_info s"
  define t where "t = (if ?l \<noteq> NULL then s\<lparr>infos := (infos s)(?l := (infos s ?l)\<lparr>uc_userParam := 1\<rparr>)\<rparr> else s)"
  obtain a u where a: "internalRequestTimedCallback wakeTimeoutCallback_fn NULL
      (Some TIMEVAL_WAKE_TIMEOUT) t = Some (a, u)" "s' = u\<lparr>s_last_wake_timeout_info := a\<rparr>"
    using assms by (auto simp: schedule_release_def t_def st_info_def bind_eq_Some_conv split: if_splits)
  note d = timed_callbackD [OF a(1)]
  have t: "info_live t = info_live s" "world t = world s" "uc_callback (infos t p) = uc_callback (infos s p)" for p
    by (simp_all add: t_def)
  have "a \<notin> info_live s" if "timer_inv s" using timer_inv_alloc [OF that] d(1) t(2) by simp
  moreover have "a \<in> set (w_alloc (world s))" using d(1) t(2) by simp
  ultimately show ?thesis
    using schedule_release_inv [OF assms] a(2) d(3,4) t unfolding timers_stay_def by auto
qed

interpretation ts: response_relation timers_stay
proof
  fix s t u s' :: ril_state and bs v d b
  show "timers_stay s t \<Longrightarrow> timers_stay t u \<Longrightarrow> timers_stay s u" by (rule timers_stay_trans)
  show "timers_stay s (snd (sendResponseRaw bs s))"
    by (rule timers_stay_keeps [OF keeps_wake_rest [OF rest_of_quiet [OF sendResponseRaw_quiet]]])
  show "timers_stay s (s\<lparr>wake_lock := b\<rparr>)" by (simp add: timers_stay_def timer_inv_def later_def)
  show "schedule_release s = Some s' \<Longrightarrow> timers_stay s s'" by (rule timers_stay_schedule)
qed (simp_all add: timers_stay_keeps keeps_wakeI wake_part_def)

section \<open>The whole system\<close>

text \<open>
  Every entry point: from the event loop, from the vendor library (completion, unsolicited
  response, timer), and changes outside. The vendor library cannot name the static function
  \<open>wakeTimeoutCallback\<close>, neither in a call of its own nor in one that a timer makes (\<open>vendor_names\<close>).
\<close>

definition nameable :: "vendor_call \<Rightarrow> bool" where
  "nameable c \<longleftrightarrow> (case c of RequestTimedCallback cb _ _ \<Rightarrow> cb \<noteq> wakeTimeoutCallback_fn | _ \<Rightarrow> True)"

definition vendor_names :: "vendor \<Rightarrow> bool" where
  "vendor_names V \<longleftrightarrow> (\<forall>cb param s. list_all nameable (V cb param s))"

datatype 'p core_event =
    EvTimer ptr
  | EvConnection connection ptr int
  | EvCommands "record_result list" int
  | EvDebug "RIL_UUS_Info option" int "u8 list option list"
  | EvWakeup
  | VComplete ptr i32 void_ptr size_t
  | VUnsolicited i32 void_ptr size_t
  | VTimer ptr ptr "timeval option"
  | EvOutside world

inductive core_step :: "'p env \<Rightarrow> vendor \<Rightarrow> 'p core_event \<Rightarrow> ril_state \<Rightarrow> ril_state \<Rightarrow> bool" for E V where
  "userTimerCallback E V p s = Some s' \<Longrightarrow> vendor_names V \<Longrightarrow> core_step E V (EvTimer p) s s'"
| "listenCallback E c p_rs fd s = Some s' \<Longrightarrow> core_step E V (EvConnection c p_rs fd) s s'"
| "processCommandsCallback E rs fd s = Some s' \<Longrightarrow> core_step E V (EvCommands rs fd) s s'"
| "debugCallback E junk fd rs s = Some s' \<Longrightarrow> core_step E V (EvDebug junk fd rs) s s'"
| "processWakeupCallback s = s' \<Longrightarrow> core_step E V EvWakeup s s'"
| "RIL_onRequestComplete E t e d n s = Some s' \<Longrightarrow> core_step E V (VComplete t e d n) s s'"
| "RIL_onUnsolicitedResponse E c d n s = Some s' \<Longrightarrow> core_step E V (VUnsolicited c d n) s s'"
| "RIL_requestTimedCallback cb param rt s = Some s' \<Longrightarrow> cb \<noteq> wakeTimeoutCallback_fn \<Longrightarrow>
     core_step E V (VTimer cb param rt) s s'"
| "alloc_ok (w_alloc w) (req_live s) \<Longrightarrow> alloc_ok (w_alloc w) (info_live s) \<Longrightarrow>
     core_step E V (EvOutside w) s (s\<lparr>world := w\<rparr>)"

text \<open>
  The invariant, together with requests \<open>A\<close> that are not completed: they stay live in every step that
  does not complete one of them.
\<close>

definition core_inv_on :: "ptr set \<Rightarrow> ril_state \<Rightarrow> bool" where
  "core_inv_on A s \<longleftrightarrow> req_inv s \<and> timer_inv s \<and> held s \<and> A \<subseteq> req_live s"

abbreviation core_inv :: "ril_state \<Rightarrow> bool" where
  "core_inv \<equiv> core_inv_on {}"

fun spares_call :: "ptr set \<Rightarrow> vendor_call \<Rightarrow> bool" where
  "spares_call A (OnRequestComplete t e d n) \<longleftrightarrow> t \<notin> A"
| "spares_call A c \<longleftrightarrow> True"

fun spares :: "ptr set \<Rightarrow> 'p core_event \<Rightarrow> bool" where
  "spares A (VComplete t e d n) \<longleftrightarrow> t \<notin> A"
| "spares A ev \<longleftrightarrow> True"

definition vendor_spares :: "ptr set \<Rightarrow> vendor \<Rightarrow> bool" where
  "vendor_spares A V \<longleftrightarrow> (\<forall>cb param s. list_all (spares_call A) (V cb param s))"

lemma spares_none [simp]: "spares_call {} c" "spares {} ev" "vendor_spares {} V"
proof -
  show call: "spares_call {} c" for c by (cases c) simp_all
  then show "vendor_spares {} V" by (simp add: vendor_spares_def list_all_iff)
  show "spares {} ev" by (cases ev) simp_all
qed

definition core_init :: "ril_state \<Rightarrow> bool" where
  "core_init s \<longleftrightarrow> req_init s \<and> info_live s = {} \<and> s_last_wake_timeout_info s = NULL \<and> \<not> wake_lock s"

lemma req_inv_later:
  assumes "req_part s' = req_part s" "later s s'" "req_inv s"
  shows "req_inv s'"
  using assms alloc_ok_later [OF assms(2)] by (auto simp: req_inv_def req_part_def pending_def)

lemma core_inv_wstep: "core_inv_on A s \<Longrightarrow> wstep s s' \<Longrightarrow> core_inv_on A s'"
  unfolding core_inv_on_def wstep_def using req_inv_later [of s' s] by (auto simp: req_part_def)

lemma core_inv_keeps: "core_inv_on A s \<Longrightarrow> req_inv s' \<Longrightarrow> keeps_all s s' \<Longrightarrow> core_inv_on A s'"
  unfolding core_inv_on_def keeps_all_def using keeps_timer_inv keeps_held by blast

lemma core_inv_closed: "core_inv_on A s \<Longrightarrow> onCommandsSocketClosed s = Some s' \<Longrightarrow> core_inv_on A s'"
  by (rule core_inv_keeps) (auto simp: core_inv_on_def intro: closed_inv closed_keeps)

lemma core_inv_local: "core_inv_on A s \<Longrightarrow> issueLocalRequest E rq d n s = Some s' \<Longrightarrow> core_inv_on A s'"
  by (rule core_inv_keeps) (auto simp: core_inv_on_def intro: local_inv local_keeps)

lemma core_inv_complete:
  assumes "core_inv_on A s" "RIL_onRequestComplete E t e d n s = Some s'" "t \<notin> A"
  shows "core_inv_on A s'"
proof -
  have r: "req_inv s" using assms(1) by (simp add: core_inv_on_def)
  have k: "keeps_wake s s'" "req_live s - {t} \<subseteq> req_live s'" using complete_serves [OF r assms(2)] by (simp_all add: serves_def)
  show ?thesis
    using assms(1,3) k(2) complete_inv [OF r assms(2)] keeps_timer_inv [OF k(1)] keeps_held [OF k(1)]
    by (auto simp: core_inv_on_def)
qed

lemma core_inv_connect:
  assumes "core_inv_on A s" "onNewCommandConnect E s = Some s'"
  shows "core_inv_on A s'"
proof -
  obtain s1 s2 where s12: "RIL_onUnsolicitedResponse E (K E ''RIL_UNSOL_RIL_CONNECTED'')
      (VInts [of_int (s_version s)]) (of_nat sizeof_int) s = Some s1"
    "RIL_onUnsolicitedResponse E (K E ''RIL_UNSOL_RESPONSE_RADIO_STATE_CHANGED'') VNull 0 s1 = Some s2"
    "s' = (case s_lastNITZTimeData s2 of None \<Rightarrow> s2
       | Some d \<Rightarrow> (snd (sendResponseRaw d s2))\<lparr>s_lastNITZTimeData := None\<rparr>)"
    using assms(2) by (auto simp: onNewCommandConnect_def bind_eq_Some_conv)
  have raw: "wstep s2 (snd (sendResponseRaw d s2))" for d
    by (rule wstep_keeps [OF keeps_wake_rest [OF rest_of_quiet] req_part_quiet])
      (rule sendResponseRaw_quiet)+
  have "wstep s2 s'"
    using s12(3) wstep_trans [OF raw wstep_fields(4)] by (auto split: option.splits)
  then show ?thesis
    using core_inv_wstep unsolicited_wstep [OF s12(1)] unsolicited_wstep [OF s12(2)] assms(1) by blast
qed

lemma core_inv_listen:
  assumes "core_inv_on A s" "listenCallback E c p_rs fd s = Some s'"
  shows "core_inv_on A s'"
proof -
  let ?s = "s\<lparr>s_fdCommand := c_fd c\<rparr>"
  have inv: "core_inv_on A ?s" using core_inv_wstep [OF assms(1)] by simp
  from assms(2) consider "rilEventAddWakeup s_listen_event ?s = Some s'"
    | t where "onCommandsSocketClosed (?s\<lparr>closes := closes s @ [c_fd c], s_fdCommand := - 1\<rparr>) = Some t"
        "rilEventAddWakeup s_listen_event t = Some s'"
    | t u where "ril_event_set s_commands_event (c_fd c) True processCommandsCallback_fn p_rs ?s = Some t"
        "rilEventAddWakeup s_commands_event t = Some u" "onNewCommandConnect E u = Some s'"
    unfolding listenCallback_def Let_def by (auto simp: bind_eq_Some_conv split: if_splits)
  then show ?thesis
  proof cases
    case 2
    have "core_inv_on A (?s\<lparr>closes := closes s @ [c_fd c], s_fdCommand := - 1\<rparr>)"
      by (rule core_inv_wstep [OF inv wstep_fields(6)])
    with 2 show ?thesis by (blast intro: core_inv_closed core_inv_wstep wstep_add)
  next
    case 3
    have "core_inv_on A t" by (rule core_inv_wstep [OF inv wstep_more [OF event_more(1) [OF 3(1)]]])
    with 3 show ?thesis by (blast intro: core_inv_connect core_inv_wstep wstep_add)
  qed (use inv wstep_add core_inv_wstep in blast)
qed

lemma core_inv_commands:
  assumes "core_inv_on A s" "processCommandsCallback E rs fd s = Some s'"
  shows "core_inv_on A s'"
proof -
  obtain close s1 where s1: "commands_loop E rs s = Some (close, s1)"
    using assms(2) by (auto simp: processCommandsCallback_def bind_eq_Some_conv split: if_splits)
  have "req_inv s" using assms(1) by (simp add: core_inv_on_def)
  from commands_loop_keeps [OF this s1] have inv: "core_inv_on A s1"
    using core_inv_keeps [OF assms(1)] by blast
  show ?thesis
  proof (cases close)
    case True
    obtain t u where tu: "ril_event_del s_commands_event
        (s1\<lparr>closes := closes s1 @ [s_fdCommand s1], s_fdCommand := - 1\<rparr>) = Some t"
      "rilEventAddWakeup s_listen_event t = Some u" "onCommandsSocketClosed u = Some s'"
      using assms(2) s1 True
      by (auto simp: processCommandsCallback_def bind_eq_Some_conv Let_def split: if_splits)
    have "core_inv_on A t"
      using core_inv_wstep [OF core_inv_wstep [OF inv wstep_fields(6)] wstep_more [OF event_more(3) [OF tu(1)]]] .
    with tu show ?thesis by (blast intro: core_inv_closed core_inv_wstep wstep_add)
  next
    case False
    with assms(2) s1 inv show ?thesis by (auto simp: processCommandsCallback_def split: if_splits)
  qed
qed

lemma core_inv_debug_command:
  assumes "core_inv_on A s" "debug_command E junk args s = Some s'"
  shows "core_inv_on A s'"
proof -
  have off: "core_inv_on A (u\<lparr>closes := cs, s_fdCommand := - 1\<rparr>)" if "core_inv_on A u" for u cs
    by (rule core_inv_wstep [OF that wstep_fields(6)])
  have run: "(\<exists>c d n. RIL_onUnsolicitedResponse E c d n s = Some s') \<or>
      (\<exists>r d n. issueLocalRequest E r d n s = Some s') \<or> s' = s \<or>
      (\<exists>r d n u. issueLocalRequest E r d n s = Some u \<and>
         ((\<exists>cs. s' = u\<lparr>closes := cs, s_fdCommand := - 1\<rparr>) \<or>
          (\<exists>r' d' n'. issueLocalRequest E r' d' n' u = Some s')))"
    using assms(2) unfolding debug_command_def Let_def
    by (simp add: bind_eq_Some_conv split: list.splits if_splits) blast+
  then show ?thesis
  proof (elim disjE exE conjE)
    fix c d n assume "RIL_onUnsolicitedResponse E c d n s = Some s'"
    from core_inv_wstep [OF assms(1) unsolicited_wstep [OF this]] show ?thesis .
  next
    fix r d n assume "issueLocalRequest E r d n s = Some s'"
    from core_inv_local [OF assms(1) this] show ?thesis .
  next
    fix r d n u cs assume u: "issueLocalRequest E r d n s = Some u" "s' = u\<lparr>closes := cs, s_fdCommand := - 1\<rparr>"
    show ?thesis unfolding u(2) by (rule off [OF core_inv_local [OF assms(1) u(1)]])
  next
    fix r d n u r' d' n'
    assume u: "issueLocalRequest E r d n s = Some u" "issueLocalRequest E r' d' n' u = Some s'"
    show ?thesis by (rule core_inv_local [OF core_inv_local [OF assms(1) u(1)] u(2)])
  qed (simp add: assms(1))
qed

lemma core_inv_debug:
  assumes "core_inv_on A s" "debugCallback E junk fd rs s = Some s'"
  shows "core_inv_on A s'"
proof -
  from assms(2) consider "s' = s" | args t where "debug_command E junk args s = Some t"
      "s' = t\<lparr>closes := closes t @ [fd]\<rparr>"
    unfolding debugCallback_def
    by (auto simp: bind_eq_Some_conv split: if_splits prod.splits option.splits recv_args.splits)
  then show ?thesis
  proof cases
    case 2
    show ?thesis
      unfolding 2(2) by (rule core_inv_wstep [OF core_inv_debug_command [OF assms(1) 2(1)] wstep_fields(7)])
  qed (simp add: assms(1))
qed

lemma core_inv_outside:
  assumes "core_inv_on A s" "alloc_ok (w_alloc w) (req_live s)" "alloc_ok (w_alloc w) (info_live s)"
  shows "core_inv_on A (s\<lparr>world := w\<rparr>)"
proof -
  have fields: "info_live (s\<lparr>world := w\<rparr>) = info_live s" "infos (s\<lparr>world := w\<rparr>) = infos s"
    "s_last_wake_timeout_info (s\<lparr>world := w\<rparr>) = s_last_wake_timeout_info s"
    "world (s\<lparr>world := w\<rparr>) = w"
    by simp_all
  have "timer_inv (s\<lparr>world := w\<rparr>)"
    using assms(1,3) unfolding core_inv_on_def timer_inv_def fields by blast
  moreover have "held (s\<lparr>world := w\<rparr>)" using assms(1) by (simp add: core_inv_on_def held_def)
  ultimately show ?thesis using assms outside_inv by (auto simp: core_inv_on_def)
qed

text \<open>The calls of the vendor library, and a timer that expires.\<close>

lemma core_inv_vendor:
  assumes "core_inv_on A s" "list_all nameable cs" "list_all (spares_call A) cs" "vendor_calls E cs s = Some s'"
  shows "core_inv_on A s' \<and> timers_stay s s'"
  using assms
proof (induction E cs s rule: vendor_calls.induct)
  case (1 E s)
  then show ?case by (simp add: ts.refl)
next
  case (2 E t e d n cs s)
  then obtain u where u: "RIL_onRequestComplete E t e d n s = Some u" "vendor_calls E cs u = Some s'"
    by (auto simp: bind_eq_Some_conv)
  have "core_inv_on A u" "timers_stay s u"
    using core_inv_complete [OF 2(2) u(1)] timers_stay_keeps [OF complete_keeps [OF _ u(1)]] 2(2,4)
    by (simp_all add: core_inv_on_def)
  with 2(1) [OF u(1) this(1) _ _ u(2)] 2(3,4) show ?case by (auto intro: ts.trans)
next
  case (3 E c d n cs s)
  then obtain u where u: "RIL_onUnsolicitedResponse E c d n s = Some u" "vendor_calls E cs u = Some s'"
    by (auto simp: bind_eq_Some_conv)
  have "core_inv_on A u" "timers_stay s u"
    using core_inv_wstep [OF 3(2) unsolicited_wstep [OF u(1)]] ts.onUnsolicitedResponse [OF u(1)] by simp_all
  with 3(1) [OF u(1) this(1) _ _ u(2)] 3(3,4) show ?case by (auto intro: ts.trans)
next
  case (4 E cb param rt cs s)
  then obtain a u where u: "RIL_requestTimedCallback cb param rt s = Some u" "vendor_calls E cs u = Some s'"
    "internalRequestTimedCallback cb param rt s = Some (a, u)"
    by (auto simp: bind_eq_Some_conv RIL_requestTimedCallback_def)
  have cb: "cb \<noteq> wakeTimeoutCallback_fn" using 4(3) by (simp add: nameable_def)
  have "core_inv_on A u" "timers_stay s u"
    using core_inv_wstep [OF 4(2) vendor_timer_wstep [OF u(1) cb]] timers_stay_timed [OF u(3) cb] by simp_all
  with 4(1) [OF u(1) this(1) _ _ u(2)] 4(3,4) show ?case by (auto intro: ts.trans)
qed

lemma core_inv_callback:
  assumes "core_inv_on A s" "vendor_names V" "vendor_spares A V" "vendor_callback E V cb param s = Some s'"
  shows "core_inv_on A s' \<and> timers_stay s s'"
proof -
  let ?s = "s\<lparr>timer_calls := timer_calls s @ [(cb, param)]\<rparr>"
  have k: "keeps_wake s ?s" by (simp add: keeps_wakeI wake_part_def)
  have "core_inv_on A ?s" by (rule core_inv_wstep [OF assms(1)]) (simp add: wstep_keeps [OF k] req_part_def)
  then show ?thesis
    using core_inv_vendor [of A ?s "V cb param ?s" E s'] assms(2-4) ts.trans [OF timers_stay_keeps [OF k]]
    by (auto simp: vendor_callback_def vendor_names_def vendor_spares_def Let_def)
qed

lemma wake_timer_expires:
  assumes "timer_inv s" "p \<in> info_live s" "uc_callback (infos s p) = wakeTimeoutCallback_fn"
  shows "userTimerCallback E V p s = Some
    (if p = s_last_wake_timeout_info s
     then s\<lparr>wake_lock := False, s_last_wake_timeout_info := NULL, info_live := info_live s - {p}\<rparr>
     else s\<lparr>info_live := info_live s - {p}\<rparr>)"
proof -
  have nn: "p \<noteq> NULL" using assms unfolding timer_inv_def by blast
  have "uc_userParam (infos s p) = NULL \<longleftrightarrow> p = s_last_wake_timeout_info s"
    using assms nn unfolding timer_inv_def by (metis UserCallbackInfo.surjective old.unit.exhaust UserCallbackInfo.select_convs(2))
  then show ?thesis
    using nn assms(2,3) by (auto simp: userTimerCallback_def Let_def wakeTimeoutCallback_def releaseWakeLock_def)
qed

lemma last_wake_timer:
  assumes "timer_inv s" "s_last_wake_timeout_info s \<in> info_live s"
  shows "uc_callback (infos s (s_last_wake_timeout_info s)) = wakeTimeoutCallback_fn"
proof -
  have "s_last_wake_timeout_info s \<noteq> NULL" using assms unfolding timer_inv_def by blast
  then have "infos s (s_last_wake_timeout_info s) = \<lparr>uc_callback = wakeTimeoutCallback_fn, uc_userParam = NULL\<rparr>"
    using assms(1) unfolding timer_inv_def by blast
  then show ?thesis by simp
qed

lemma vendor_timer_expires:
  assumes "core_inv s" "vendor_names V" "p \<in> info_live s" "uc_callback (infos s p) \<noteq> wakeTimeoutCallback_fn"
  shows "userTimerCallback E V p s = map_option (\<lambda>t. t\<lparr>info_live := info_live t - {p}\<rparr>)
    (vendor_callback E V (uc_callback (infos s p)) (uc_userParam (infos s p)) s)"
proof (cases "vendor_callback E V (uc_callback (infos s p)) (uc_userParam (infos s p)) s")
  case None
  then show ?thesis using assms(4) by (simp add: userTimerCallback_def)
next
  case (Some t)
  have nn: "p \<noteq> NULL" using assms(1,3) unfolding core_inv_on_def timer_inv_def by blast
  have "core_inv t" "timers_stay s t" using core_inv_callback [OF assms(1,2) spares_none(3) Some] by simp_all
  then have "p \<in> info_live t" "uc_callback (infos t p) \<noteq> wakeTimeoutCallback_fn" "timer_inv t"
    using assms by (simp_all add: timers_stay_def core_inv_on_def)
  then have "s_last_wake_timeout_info t \<noteq> p" using last_wake_timer by blast
  then show ?thesis using Some assms(3,4) nn by (simp add: userTimerCallback_def)
qed

lemma core_inv_free:
  assumes "core_inv_on A s" "p \<noteq> s_last_wake_timeout_info s"
  shows "core_inv_on A (s\<lparr>info_live := info_live s - {p}\<rparr>)"
proof -
  have "timer_inv (s\<lparr>info_live := info_live s - {p}\<rparr>)"
    using assms alloc_ok_less [of "w_alloc (world s)" "info_live s" "info_live s - {p}"]
    unfolding timer_inv_def core_inv_on_def by auto
  then show ?thesis
    using assms by (simp add: core_inv_on_def held_def) (subst req_inv_cong [of _ s], simp_all)
qed

lemma core_inv_timer:
  assumes "core_inv_on A s" "vendor_names V" "vendor_spares A V" "userTimerCallback E V p s = Some s'"
  shows "core_inv_on A s'"
proof -
  have p: "p \<in> info_live s" using assms(4) by (auto simp: userTimerCallback_def split: if_splits)
  have c: "core_inv s" and ti: "timer_inv s" using assms(1) by (simp_all add: core_inv_on_def)
  show ?thesis
  proof (cases "uc_callback (infos s p) = wakeTimeoutCallback_fn")
    case wake: True
    show ?thesis
    proof (cases "p = s_last_wake_timeout_info s")
      case True
      let ?u = "s\<lparr>wake_lock := False, s_last_wake_timeout_info := NULL, info_live := info_live s - {p}\<rparr>"
      have "timer_inv ?u"
        using ti True alloc_ok_less [of "w_alloc (world s)" "info_live s" "info_live s - {p}"]
        unfolding timer_inv_def by auto
      moreover have "req_inv ?u" using assms(1) by (subst req_inv_cong [of _ s]) (simp_all add: core_inv_on_def)
      ultimately have "core_inv_on A ?u" using assms(1) by (simp add: core_inv_on_def held_def)
      then show ?thesis
        using assms(4) unfolding wake_timer_expires [OF ti p wake] if_P [OF True] option.inject by blast
    next
      case False
      then show ?thesis
        using assms(4) core_inv_free [OF assms(1) False] unfolding wake_timer_expires [OF ti p wake] by simp
    qed
  next
    case False
    then obtain t where t: "vendor_callback E V (uc_callback (infos s p)) (uc_userParam (infos s p)) s = Some t"
      "s' = t\<lparr>info_live := info_live t - {p}\<rparr>"
      using assms(4) unfolding vendor_timer_expires [OF c assms(2) p False] by auto
    have "core_inv_on A t" "timers_stay s t" using core_inv_callback [OF assms(1-3) t(1)] by simp_all
    moreover have "p \<noteq> s_last_wake_timeout_info t"
      using calculation last_wake_timer [of t] p False ti by (auto simp: timers_stay_def core_inv_on_def)
    ultimately show ?thesis unfolding t(2) by (intro core_inv_free)
  qed
qed

lemma core_inv_step:
  assumes "core_step E V e s t" "core_inv_on A s" "spares A e" "vendor_spares A V"
  shows "core_inv_on A t"
  using assms(1)
proof cases
  case (1 p)
  from core_inv_timer [OF assms(2) 1(3) assms(4) 1(2)] show ?thesis .
next
  case (2 c p_rs fd)
  from core_inv_listen [OF assms(2) 2(2)] show ?thesis .
next
  case (3 rs fd)
  from core_inv_commands [OF assms(2) 3(2)] show ?thesis .
next
  case (4 junk fd rs)
  from core_inv_debug [OF assms(2) 4(2)] show ?thesis .
next
  case 5
  with core_inv_wstep [OF assms(2) wstep_fields(8)] show ?thesis by (auto simp: processWakeupCallback_def)
next
  case (6 t e d n)
  from core_inv_complete [OF assms(2) 6(2)] 6(1) assms(3) show ?thesis by simp
next
  case (7 c d n)
  from core_inv_wstep [OF assms(2) unsolicited_wstep [OF 7(2)]] show ?thesis .
next
  case (8 cb param rt)
  from core_inv_wstep [OF assms(2) vendor_timer_wstep [OF 8(2,3)]] show ?thesis .
next
  case (9 w)
  with core_inv_outside [OF assms(2)] show ?thesis by simp
qed

interpretation cs: invariant_system core_init "core_step E V" core_inv for E V
proof
  show "core_inv s" if "core_init s" for s
    using that rs.inv_init by (auto simp: core_init_def core_inv_on_def timer_inv_def held_def req_init_def)
  show "core_inv t" if "core_step E V e s t" "core_inv s" for e s t
    using core_inv_step [OF that] by simp
qed

lemma run_spares:
  assumes "cs.run E V s es t" "core_inv_on A s" "list_all (spares A) es" "vendor_spares A V"
  shows "core_inv_on A t"
  using assms
proof (induction rule: cs.run.induct)
  case (run_snoc s es t e u)
  then have "core_inv_on A t" "spares A e" by simp_all
  with run_snoc(2,5,6) show ?case using core_inv_step by blast
qed simp

abbreviation core_run :: "'p env \<Rightarrow> vendor \<Rightarrow> ril_state \<Rightarrow> 'p core_event list \<Rightarrow> ril_state \<Rightarrow> bool" where
  "core_run E V \<equiv> invariant_system.run (core_step E V)"

end
