(* ===== verification/Ril_Behaviour.thy ===== *)
theory Ril_Behaviour
  imports Ril_System
begin

text \<open>
  What the entry points of \<open>Ril_Core\<close> do on each of their branches, and the properties of the
  whole system: the wake lock and the one timer that gives it back, unsolicited responses, the
  stored network time, connections and the start.
\<close>

section \<open>A response that runs to its end\<close>

text \<open>The new timer is in the list at its place, and its event calls \<open>userTimerCallback\<close> with it.\<close>

lemma lists_ok_upd:
  assumes "lists_ok h ts ps" "a \<notin> set (timer_list # pending_list # ts @ ps)"
  shows "lists_ok (h(a := e)) ts ps"
proof -
  have "dll (h(a := e)) timer_list ts" "dll (h(a := e)) pending_list ps"
    using assms by (auto simp: lists_ok_def intro!: evl.repr_frame [of h _ _ "h(a := e)"])
  moreover have "map (\<lambda>x. ev_timeout ((h(a := e)) x)) ts = map (\<lambda>x. ev_timeout (h x)) ts"
    using assms(2) by (intro map_cong) auto
  ultimately show ?thesis using assms(1) unfolding lists_ok_def by (simp only: simp_thms)
qed

lemma timed_callback_runs:
  assumes ok: "lists_ok (mem s) ts ps" and al: "w_alloc (world s) = a # as"
    and new: "a \<noteq> NULL" "a \<notin> set (timer_list # pending_list # ts @ ps)"
  shows "\<exists>s' xs ys. internalRequestTimedCallback cb param (Some tv) s = Some (a, s') \<and>
    ts = xs @ ys \<and> lists_ok (mem s') (xs @ a # ys) ps \<and>
    ev_timeout (mem s' a) = timeradd (w_now (world s)) tv \<and>
    ev_func (mem s' a) = userTimerCallback_fn \<and> ev_param (mem s' a) = a \<and>
    (\<forall>x. x \<noteq> a \<longrightarrow> payload (mem s' x) = payload (mem s x))"
proof -
  let ?e = "zero_event\<lparr>ev_fd := - 1, ev_index := - 1, ev_persist := False,
    ev_func := userTimerCallback_fn, ev_param := a\<rparr>"
  define u where "u = s\<lparr>info_live := insert a (info_live s), world := (world s)\<lparr>w_alloc := as\<rparr>,
    infos := (infos s)(a := \<lparr>uc_callback = cb, uc_userParam = param\<rparr>), mem := (mem s)(a := ?e)\<rparr>"
  have "lists_ok (mem u) ts ps"
    using lists_ok_upd [OF ok new(2)] by (simp add: u_def)
  from ril_timer_add_lists [OF this new, of tv "w_now (world u)"] obtain h where h:
    "ril_timer_add a (Some tv) (w_now (world u)) u = Some (u\<lparr>mem := h\<rparr>)"
    "lists_ok h (takeWhile (expired (timeradd (w_now (world u)) tv) (mem u)) ts @ a #
       dropWhile (expired (timeradd (w_now (world u)) tv) (mem u)) ts) ps"
    "ev_timeout (h a) = timeradd (w_now (world u)) tv" "ev_func (h a) = ev_func (mem u a)"
    "ev_param (h a) = ev_param (mem u a)" "\<forall>x. x \<noteq> a \<longrightarrow> payload (h x) = payload (mem u x)"
    by blast
  have "internalRequestTimedCallback cb param (Some tv) s = Some (a, triggerEvLoop (u\<lparr>mem := h\<rparr>))"
    using h(1) al new(1)
    by (simp add: internalRequestTimedCallback_def malloc_info_def st_info_def ril_event_set_def u_def)
  moreover have "mem (triggerEvLoop (u\<lparr>mem := h\<rparr>)) = h" by (simp add: triggerEvLoop_def)
  moreover have "w_now (world u) = w_now (world s)" "ev_func (mem u a) = userTimerCallback_fn"
    "ev_param (mem u a) = a" "\<forall>x. x \<noteq> a \<longrightarrow> mem u x = mem s x"
    by (simp_all add: u_def)
  ultimately show ?thesis
    using h(2-6) takeWhile_dropWhile_id [of _ ts, symmetric] by metis
qed

text \<open>What a response that was sent leaves as it was.\<close>

definition calm :: "ril_state \<Rightarrow> int \<times> int \<times> bool \<times> i32 \<times> timeval" where
  "calm s = (s_fdCommand s, s_version s, s_registerCalled s, w_radio (world s), w_now (world s))"

text \<open>The state after the wake timer of a response is set: \<open>a\<close> is the timer, \<open>l\<close> the one before.\<close>

definition timer_set :: "ptr \<Rightarrow> ptr \<Rightarrow> timeval \<Rightarrow> ptr list \<Rightarrow> ptr list \<Rightarrow> ril_state \<Rightarrow> bool" where
  "timer_set a l now ts ps s' \<longleftrightarrow>
     (\<exists>xs ys. ts = xs @ ys \<and> lists_ok (mem s') (xs @ a # ys) ps) \<and>
     ev_timeout (mem s' a) = timeradd now TIMEVAL_WAKE_TIMEOUT \<and>
     ev_func (mem s' a) = userTimerCallback_fn \<and> ev_param (mem s' a) = a \<and>
     s_last_wake_timeout_info s' = a \<and> a \<in> info_live s' \<and>
     infos s' a = \<lparr>uc_callback = wakeTimeoutCallback_fn, uc_userParam = NULL\<rparr> \<and>
     (l \<notin> {NULL, a} \<longrightarrow> uc_userParam (infos s' l) \<noteq> NULL)"

lemma schedule_release_runs:
  assumes ok: "lists_ok (mem s) ts ps" and al: "w_alloc (world s) = a # as"
    and new: "a \<noteq> NULL" "a \<notin> set (timer_list # pending_list # ts @ ps)"
    and last: "s_last_wake_timeout_info s = NULL \<or> s_last_wake_timeout_info s \<in> info_live s"
  shows "\<exists>s'. schedule_release s = Some s' \<and>
    timer_set a (s_last_wake_timeout_info s) (w_now (world s)) ts ps s' \<and>
    calm s' = calm s \<and> w_alloc (world s') = as \<and> w_writes (world s') = w_writes (world s)"
proof -
  let ?l = "s_last_wake_timeout_info s"
  define u where "u = (if ?l \<noteq> NULL then s\<lparr>infos := (infos s)(?l := (infos s ?l)\<lparr>uc_userParam := 1\<rparr>)\<rparr> else s)"
  have u: "mem u = mem s" "world u = world s" by (simp_all add: u_def)
  obtain s' xs ys where r: "internalRequestTimedCallback wakeTimeoutCallback_fn NULL
      (Some TIMEVAL_WAKE_TIMEOUT) u = Some (a, s')"
    "ts = xs @ ys" "lists_ok (mem s') (xs @ a # ys) ps"
    "ev_timeout (mem s' a) = timeradd (w_now (world s)) TIMEVAL_WAKE_TIMEOUT"
    "ev_func (mem s' a) = userTimerCallback_fn" "ev_param (mem s' a) = a"
    using timed_callback_runs [of u ts ps a as, unfolded u, OF ok al new,
        of wakeTimeoutCallback_fn NULL TIMEVAL_WAKE_TIMEOUT] by blast
  note d = timed_callbackD [OF r(1)]
  have "(if ?l \<noteq> NULL then st_info ?l (\<lambda>i. i\<lparr>uc_userParam := 1\<rparr>) s else Some s) = Some u"
    using last by (auto simp: st_info_def u_def)
  with r(1) have run: "schedule_release s = Some (s'\<lparr>s_last_wake_timeout_info := a\<rparr>)"
    unfolding schedule_release_def by simp
  have i: "infos s' = (infos u)(a := \<lparr>uc_callback = wakeTimeoutCallback_fn, uc_userParam = NULL\<rparr>)"
    "a \<in> info_live s'" using d(3,4) by simp_all
  have "?l \<noteq> NULL \<longrightarrow> uc_userParam (infos u ?l) = 1" by (simp add: u_def)
  then have "timer_set a ?l (w_now (world s)) ts ps (s'\<lparr>s_last_wake_timeout_info := a\<rparr>)"
    using r(2-6) i by (auto simp: timer_set_def)
  moreover have "calm u = calm s" by (simp add: calm_def u_def)
  then have "calm (s'\<lparr>s_last_wake_timeout_info := a\<rparr>) = calm s" using d(9,12-15) by (simp add: calm_def)
  ultimately show ?thesis using run d(1,11) al u(2) by auto
qed

lemma sendResponse_zero:
  assumes "0 \<le> s_fdCommand s" "w_writes (world s) = []" "length (p_data E p) \<le> MAX_COMMAND_BYTES"
  shows "sent (snd (sendResponse E p s)) = sent s @ frame (p_data E p)"
    "fst (sendResponse E p s) = 0" "w_writes (world (snd (sendResponse E p s))) = []"
proof -
  have "blockingWrite [] buf = (True, buf, [])" for buf by (cases buf) auto
  with assms show "fst (sendResponse E p s) = 0" "w_writes (world (snd (sendResponse E p s))) = []"
    by (simp_all add: sendResponse_def sendResponseRaw_def write_fd_def not_less)
  show "sent (snd (sendResponse E p s)) = sent s @ frame (p_data E p)"
    using send_all [OF assms] by (simp add: sendResponse_def)
qed

lemma sendResponse_closed: "s_fdCommand s < 0 \<Longrightarrow> sendResponse E p s = (- 1, s)"
  by (simp add: sendResponse_def sendResponseRaw_def)

lemma unsolicited_row:
  assumes "s_registerCalled s" "i < length (s_unsolResponses E)"
    "sint (c - K E ''RIL_UNSOL_RESPONSE_BASE'') = int i"
    "ui_wakeType (s_unsolResponses E ! i) = WAKE_PARTIAL"
  shows "RIL_onUnsolicitedResponse E c d n s =
    unsol_respond E (unsolicited E 1) c d n (s_unsolResponses E ! i) (grabPartialWakeLock s)"
  using assms
  by (simp add: RIL_onUnsolicitedResponse_def numeral_2_eq_2 unsol_body_def)

lemma grab_fields:
  "s_version (grabPartialWakeLock s) = s_version s" "s_fdCommand (grabPartialWakeLock s) = s_fdCommand s"
  "world (grabPartialWakeLock s) = world s" "sent (grabPartialWakeLock s) = sent s"
  "wake_lock (grabPartialWakeLock s)" "mem (grabPartialWakeLock s) = mem s"
  "infos (grabPartialWakeLock s) = infos s" "info_live (grabPartialWakeLock s) = info_live s"
  "s_last_wake_timeout_info (grabPartialWakeLock s) = s_last_wake_timeout_info s"
  "s_lastNITZTimeData (grabPartialWakeLock s) = s_lastNITZTimeData s"
  "s_registerCalled (grabPartialWakeLock s) = s_registerCalled s"
  by (simp_all add: grabPartialWakeLock_def)

text \<open>
  A response of the table that takes the wake lock, whose payload \<open>q\<close> is complete: what is sent
  is what \<open>sendResponse\<close> sends.
\<close>

lemma unsolicited_runs:
  fixes s :: ril_state and E :: "'p env"
  defines "g \<equiv> grabPartialWakeLock s"
  assumes row: "s_registerCalled s" "i < length (s_unsolResponses E)"
    "sint (c - K E ''RIL_UNSOL_RESPONSE_BASE'') = int i"
    "ui_wakeType (s_unsolResponses E ! i) = WAKE_PARTIAL"
    and resp: "call_response E (s_version s) (ui_response (s_unsolResponses E ! i)) d n = Some (0, ws)"
    and pay: "more_payload E (unsolicited E 1) c
        (if c = K E ''RIL_UNSOL_NITZ_TIME_RECEIVED'' then w_elapsed (world s) else 0)
        (puts E ([I32 RESPONSE_UNSOLICITED, I32 c] @ ws) (p_new E)) g = Some (q, g)"
    and t: "lists_ok (mem s) ts ps" "w_alloc (world s) = a # as"
      "a \<noteq> NULL" "a \<notin> set (timer_list # pending_list # ts @ ps)"
      "s_last_wake_timeout_info s = NULL \<or> s_last_wake_timeout_info s \<in> info_live s"
  shows "\<exists>s'. RIL_onUnsolicitedResponse E c d n s = Some s' \<and> wake_lock s' \<and>
    timer_set a (s_last_wake_timeout_info s) (w_now (world s)) ts ps s' \<and>
    sent s' = sent (snd (sendResponse E q g)) \<and> calm s' = calm s \<and> w_alloc (world s') = as \<and>
    w_writes (world s') = w_writes (world (snd (sendResponse E q g))) \<and>
    s_lastNITZTimeData s' =
      (if fst (sendResponse E q g) \<noteq> 0 \<and> c = K E ''RIL_UNSOL_NITZ_TIME_RECEIVED''
       then Some (p_data E q) else s_lastNITZTimeData s)"
proof -
  define w where "w = snd (sendResponse E q g)"
  define v where "v = (if fst (sendResponse E q g) \<noteq> 0 \<and> c = K E ''RIL_UNSOL_NITZ_TIME_RECEIVED''
    then w\<lparr>s_lastNITZTimeData := Some (p_data E q)\<rparr> else w)"
  have run: "RIL_onUnsolicitedResponse E c d n s = schedule_release v"
  proof -
    have g: "s_version g = s_version s" "world g = world s" by (simp_all add: g_def grab_fields)
    show ?thesis
      unfolding unsolicited_row [OF row] unsol_respond_def Let_def g_def [symmetric] g resp
        option.case prod.case row(4) simp_thms if_False send_unsol_eq [OF pay] v_def w_def if_True ..
  qed
  have q: "quiet w = quiet g" unfolding w_def by (rule sendResponse_quiet)
  have w: "mem w = mem s" "w_alloc (world w) = w_alloc (world s)" "w_now (world w) = w_now (world s)"
    "info_live w = info_live s" "infos w = infos s" "wake_lock w" "calm w = calm s"
    "s_last_wake_timeout_info w = s_last_wake_timeout_info s" "s_lastNITZTimeData w = s_lastNITZTimeData s"
    using quiet_eqD(1,5,6,9,16,17,18,19,24,28,29,30) [OF q] grab_fields
    by (simp_all add: g_def calm_def)
  have v: "mem v = mem s" "w_alloc (world v) = w_alloc (world s)" "w_now (world v) = w_now (world s)"
    "info_live v = info_live s" "infos v = infos s" "wake_lock v"
    "s_last_wake_timeout_info v = s_last_wake_timeout_info s" "calm v = calm s" "sent v = sent w"
    "w_writes (world v) = w_writes (world w)"
    using w by (simp_all add: v_def calm_def)
  obtain s' where s': "schedule_release v = Some s'"
    "timer_set a (s_last_wake_timeout_info s) (w_now (world s)) ts ps s'"
    "calm s' = calm s" "w_alloc (world s') = as" "w_writes (world s') = w_writes (world w)"
    using schedule_release_runs [of v ts ps a as, unfolded v, OF t] by blast
  have "sent s' = sent v" "wake_lock s' = wake_lock v" "s_lastNITZTimeData s' = s_lastNITZTimeData v"
    using schedule_release_inv [OF s'(1)] by simp_all
  with run s' v w(9) show ?thesis by (auto simp: v_def w_def)
qed

section \<open>Properties\<close>

text \<open>Concrete values for the witnesses: the numbers of some unsolicited responses.\<close>

definition sys_env :: "demo_parcel env" where
  "sys_env = demo_env\<lparr>K := (\<lambda>n.
     if n = ''RIL_UNSOL_RESPONSE_BASE'' then 1000
     else if n = ''RIL_UNSOL_RESPONSE_RADIO_STATE_CHANGED'' then 1000
     else if n = ''RIL_UNSOL_NITZ_TIME_RECEIVED'' then 1008
     else if n = ''RIL_UNSOL_RESPONSE_SIM_STATUS_CHANGED'' then 1019
     else if n = ''RIL_UNSOL_CDMA_SUBSCRIPTION_SOURCE_CHANGED'' then 1031
     else if n = ''RIL_UNSOL_RIL_CONNECTED'' then 1034
     else if n = ''RIL_UNSOL_VOICE_RADIO_TECH_CHANGED'' then 1035
     else if n = ''RIL_VERSION_MIN'' then 6 else if n = ''RIL_VERSION'' then 13
     else K demo_env n)\<rparr>"

lemma sys_env_K [simp]:
  "K sys_env ''RIL_UNSOL_RESPONSE_BASE'' = 1000"
  "K sys_env ''RIL_UNSOL_RESPONSE_RADIO_STATE_CHANGED'' = 1000"
  "K sys_env ''RIL_UNSOL_NITZ_TIME_RECEIVED'' = 1008"
  "K sys_env ''RIL_UNSOL_RESPONSE_SIM_STATUS_CHANGED'' = 1019"
  "K sys_env ''RIL_UNSOL_CDMA_SUBSCRIPTION_SOURCE_CHANGED'' = 1031"
  "K sys_env ''RIL_UNSOL_RIL_CONNECTED'' = 1034"
  "K sys_env ''RIL_UNSOL_VOICE_RADIO_TECH_CHANGED'' = 1035"
  by (simp_all add: sys_env_def)

lemma sys_env_ops [simp]:
  "p_new sys_env = ([], 0)" "p_writeInt32 sys_env v (ws, i) = (take i ws @ I32 v # drop (Suc i) ws, Suc i)"
  "p_writeInt64 sys_env x (ws, i) = (take i ws @ I64 x # drop (Suc i) ws, Suc i)"
  "p_data sys_env (ws, i) = demo_data ws"
  by (simp_all add: sys_env_def demo_env_def)

lemma demo_ril_fields [simp]:
  "s_registerCalled demo_ril" "s_version demo_ril = 9" "s_fdCommand demo_ril = 9" "sent demo_ril = []"
  "w_writes (world demo_ril) = []" "w_alloc (world demo_ril) = [100, 101, 102, 103]"
  "w_now (world demo_ril) = Timeval 50 0" "s_last_wake_timeout_info demo_ril = NULL"
  "mem demo_ril = demo_heap"
  by (simp_all add: demo_ril_def demo_world_def ev_state.defs demo_state_def)

lemma sys_row1: "s_unsolResponses sys_env ! 1 = Unsol ''RIL_UNSOL_RESPONSE_CALL_STATE_CHANGED'' ResponseVoid WAKE_PARTIAL"
  "1 < length (s_unsolResponses sys_env)"
  by (simp_all add: s_unsolResponses_def)

lemma demo_core_init: "core_init demo_ril"
  by (simp add: core_init_def req_init_def alloc_ok_def)
    (simp add: demo_ril_def ev_state.defs)

lemma demo_unsolicited:
  "\<exists>s'. RIL_onUnsolicitedResponse sys_env 1001 VNull 0 demo_ril = Some s' \<and> wake_lock s' \<and> s_registerCalled s'"
  using unsolicited_runs [of demo_ril 1 sys_env 1001 VNull 0 "[]" _ "[10, 11]" "[]" 100 "[101, 102, 103]"]
    sys_row1 demo_lists
  by (auto simp: responseVoid_def ok_resp_def timer_list_def pending_list_def more_payload_def calm_def)

text \<open>A vendor library whose timed callbacks report a change of the calls, while there is memory.\<close>

definition demo_vendor :: vendor where
  "demo_vendor cb param s = (if s_registerCalled s \<and> w_alloc (world s) \<noteq> []
     then [OnUnsolicitedResponse 1001 VNull 0] else [])"

lemma demo_vendor_names: "vendor_names demo_vendor"
  by (simp add: vendor_names_def demo_vendor_def nameable_def)

text \<open>C4 In every state that the daemon can reach, whatever the order of connections, commands,
  debug commands, completions, unsolicited responses and timers: when the wake lock is held, there is
  exactly one live wake timer whose expiry gives it back. Every other wake timer leaves the lock alone,
  and a timer of the vendor library leaves it as the calls that its callback makes leave it. (The lock
  is not lost by timers alone: a response whose data is refused also drops it.)\<close>

theorem wake_lock_one_timer:
  assumes "core_init s0" "core_run E V s0 es s" "wake_lock s" "vendor_names V"
  shows "\<exists>p \<in> info_live s. (\<exists>s'. userTimerCallback E V p s = Some s' \<and> \<not> wake_lock s') \<and>
    (\<forall>q \<in> info_live s - {p}.
       if uc_callback (infos s q) = wakeTimeoutCallback_fn
       then \<exists>s'. userTimerCallback E V q s = Some s' \<and> wake_lock s'
       else map_option wake_lock (userTimerCallback E V q s) =
         map_option wake_lock (vendor_callback E V (uc_callback (infos s q)) (uc_userParam (infos s q)) s))"
proof -
  have c: "core_inv s" using cs.reachable_inv [OF assms(1,2)] .
  then have inv: "timer_inv s" "held s" by (simp_all add: core_inv_on_def)
  let ?p = "s_last_wake_timeout_info s"
  have p: "?p \<in> info_live s" using inv assms(3) unfolding timer_inv_def held_def by blast
  have "\<exists>s'. userTimerCallback E V ?p s = Some s' \<and> \<not> wake_lock s'"
    unfolding wake_timer_expires [OF inv(1) p last_wake_timer [OF inv(1) p]] by simp
  moreover have "\<exists>s'. userTimerCallback E V q s = Some s' \<and> wake_lock s'"
    if q: "q \<in> info_live s" "q \<noteq> ?p" "uc_callback (infos s q) = wakeTimeoutCallback_fn" for q
    using wake_timer_expires [OF inv(1) q(1,3), of E V] q(2) assms(3) by simp
  moreover have "map_option wake_lock (userTimerCallback E V q s) =
      map_option wake_lock (vendor_callback E V (uc_callback (infos s q)) (uc_userParam (infos s q)) s)"
    if q: "q \<in> info_live s" "uc_callback (infos s q) \<noteq> wakeTimeoutCallback_fn" for q
    unfolding vendor_timer_expires [OF c assms(4) q] by (simp add: option.map_comp comp_def)
  ultimately show ?thesis using p by (intro bexI [of _ ?p]) auto
qed

theorem wake_lock_one_timer_witness:
  "\<exists>s. core_run sys_env demo_vendor demo_ril [VUnsolicited 1001 VNull 0] s \<and> wake_lock s \<and>
     (\<exists>p \<in> info_live s. \<exists>s'. userTimerCallback sys_env demo_vendor p s = Some s' \<and> \<not> wake_lock s')"
proof -
  obtain s where s: "RIL_onUnsolicitedResponse sys_env 1001 VNull 0 demo_ril = Some s" "wake_lock s"
    using demo_unsolicited by blast
  have run: "core_run sys_env demo_vendor demo_ril ([] @ [VUnsolicited 1001 VNull 0]) s"
    by (rule cs.run_snoc [OF cs.run_nil]) (rule core_step.intros(7) [OF s(1)])
  from wake_lock_one_timer [OF demo_core_init run s(2) demo_vendor_names] run s(2) show ?thesis by auto
qed

text \<open>C3 In every state that the daemon can reach the pending list is well formed and without
  repetition and holds exactly the requests that are allocated: no request is lost, leaked or freed
  twice, in all interleavings of the two threads' entry points.\<close>

theorem system_requests:
  assumes "core_init s0" "core_run E V s0 es s"
  shows "\<exists>xs. pending s xs \<and> distinct xs \<and> set xs = req_live s"
  using cs.reachable_inv [OF assms] pq.repr_distinct by (auto simp: core_inv_on_def req_inv_def)

theorem system_requests_witness:
  "\<exists>s xs. core_run sys_env demo_vendor demo_ril [VUnsolicited 1001 VNull 0] s \<and> pending s xs \<and> set xs = req_live s"
proof -
  obtain s where s: "RIL_onUnsolicitedResponse sys_env 1001 VNull 0 demo_ril = Some s"
    using demo_unsolicited by blast
  have run: "core_run sys_env demo_vendor demo_ril ([] @ [VUnsolicited 1001 VNull 0]) s"
    by (rule cs.run_snoc [OF cs.run_nil]) (rule core_step.intros(7) [OF s(1)])
  from system_requests [OF demo_core_init run] run show ?thesis by auto
qed

text \<open>C38 A command whose parcel cannot be read is logged and forgotten: nothing is sent and the vendor
  library is not called, so it never learns of the request. The request stays on the pending list, and it is
  still there after everything that happens later (commands, lost and new connections, debug commands,
  responses, timers), unless the vendor library completes this request that it was never given.\<close>

theorem invalid_command_left_pending:
  assumes "reads_ok E V" "V (p_setData E b) = Some (I32 request # I32 token # r)"
    and "1 \<le> sint request" "sint request < int (length (s_commands E))"
    and inv: "core_inv s" and alloc: "w_alloc (world s) = a # as"
    and "ci_dispatch (s_commands E ! nat (sint request)) = Some f"
    and "f \<noteq> DispatchVoiceRadioTech" "f \<noteq> DispatchCdmaSubscriptionSource"
    and "rq = ci_requestNumber E (s_commands E ! nat (sint request))"
    and "\<And>p. V p = Some r \<Longrightarrow> call_dispatch E (s_version s) rq f p = Some Invalid"
  shows "\<exists>s'. processCommandBuffer E b s = Some s' \<and> onRequests s' = onRequests s \<and> sent s' = sent s \<and>
    ri_token (reqs s' a) = token \<and> (\<exists>xs. pending s' (a # xs)) \<and>
    (\<forall>W es u. core_run E W s' es u \<and> list_all (spares {a}) es \<and> vendor_spares {a} W \<longrightarrow>
       (\<exists>xs. pending u xs \<and> a \<in> set xs))"
proof -
  have ri: "req_inv s" using inv by (simp add: core_inv_on_def)
  then obtain xs where xs: "pending s xs" by (auto simp: req_inv_def)
  have new: "a \<noteq> NULL" "a \<notin> req_live s" using ri alloc by (auto simp: req_inv_def alloc_ok_def)
  obtain s' where s': "processCommandBuffer E b s = Some s'" "pending s' (a # xs)" "sent s' = sent s"
    "ri_token (reqs s' a) = token" "onRequests s' = onRequests s"
    using command_queued [OF assms(1-4) alloc new xs assms(7-11)] by auto
  have "core_inv s'" by (rule core_inv_keeps [OF inv command_inv [OF ri s'(1)] command_keeps [OF ri s'(1)]])
  then have on: "core_inv_on {a} s'" using pending_live [OF s'(2)] by (simp add: core_inv_on_def)
  have "\<exists>xs. pending u xs \<and> a \<in> set xs" if "core_run E W s' es u" "list_all (spares {a}) es" "vendor_spares {a} W" for W es u
    using run_spares [OF that(1) on that(2,3)] by (auto simp: core_inv_on_def req_inv_def)
  with s' show ?thesis by blast
qed

theorem invalid_command_left_pending_witness:
  "\<exists>s'. processCommandBuffer demo_env [12, 0, 0, 0, 5, 0, 0, 0] demo_pending = Some s' \<and>
     (\<exists>xs. pending s' (101 # xs)) \<and> onRequests s' = [] \<and> sent s' = [] \<and>
     (\<forall>es u. core_run demo_env demo_vendor s' es u \<and> list_all (spares {101}) es \<longrightarrow> (\<exists>xs. pending u xs \<and> 101 \<in> set xs))"
proof -
  have row: "s_commands demo_env ! 12 = Cmd (Some ''RIL_REQUEST_HANGUP'') (Some DispatchInts)
      (Some ResponseVoid)" and len: "12 < length (s_commands demo_env)"
    by (simp_all add: s_commands_def)
  have bad: "call_dispatch demo_env 9 rq DispatchInts p = Some Invalid" if "demo_view p = Some []" for rq p
    using rdI32_view(3) [OF demo_reads_ok that] by (simp add: dispatchInts_def)
  have live: "req_live demo_pending = {100}" by (simp add: demo_pending_def)
  have "core_inv demo_pending"
    using demo_pending_list live demo_core_init
    by (auto simp: core_inv_on_def req_inv_def alloc_ok_def timer_inv_def held_def core_init_def demo_pending_def)
  then have "\<exists>s'. processCommandBuffer demo_env [12, 0, 0, 0, 5, 0, 0, 0] demo_pending = Some s' \<and>
     onRequests s' = onRequests demo_pending \<and> sent s' = sent demo_pending \<and> ri_token (reqs s' 101) = 5 \<and>
     (\<exists>xs. pending s' (101 # xs)) \<and>
     (\<forall>W es u. core_run demo_env W s' es u \<and> list_all (spares {101}) es \<and> vendor_spares {101} W \<longrightarrow>
       (\<exists>xs. pending u xs \<and> 101 \<in> set xs))"
    by (intro invalid_command_left_pending [OF demo_reads_ok, where request = 12 and token = 5 and
          r = "[]" and f = DispatchInts and as = "[102]"])
      (use row len bad in simp_all)
  moreover have "vendor_spares {101} demo_vendor" by (simp add: vendor_spares_def demo_vendor_def)
  ultimately show ?thesis by auto
qed

text \<open>What the radio state and the network time carry behind the data of the response function. A radio
  state of an older vendor library, below \<open>RADIO_STATE_ON\<close>, is left out: it makes further responses.\<close>

definition current_radio :: "'p env \<Rightarrow> i32 \<Rightarrow> bool" where
  "current_radio E r \<longleftrightarrow> \<not> (sint (K E ''RADIO_STATE_UNAVAILABLE'') < sint r \<and> sint r < sint (K E ''RADIO_STATE_ON''))"

definition extra_items :: "'p env \<Rightarrow> i32 \<Rightarrow> ril_state \<Rightarrow> item list" where
  "extra_items E c s = (if c = K E ''RIL_UNSOL_RESPONSE_RADIO_STATE_CHANGED'' then [I32 (w_radio (world s))]
     else if c = K E ''RIL_UNSOL_NITZ_TIME_RECEIVED'' then [I64 (w_elapsed (world s))] else [])"

lemma more_payload_items:
  assumes "c = K E ''RIL_UNSOL_RESPONSE_RADIO_STATE_CHANGED'' \<longrightarrow> current_radio E (w_radio (world s))" "world g = world s"
  shows "more_payload E U c (if c = K E ''RIL_UNSOL_NITZ_TIME_RECEIVED'' then w_elapsed (world s) else 0) p g =
    Some (puts E (extra_items E c s) p, g)"
proof -
  have "processRadioState E U (w_radio (world s)) g = Some (w_radio (world s), g)" if "current_radio E (w_radio (world s))"
    unfolding processRadioState_def using that [unfolded current_radio_def] by (rule if_not_P)
  then show ?thesis using assms by (simp add: more_payload_def extra_items_def)
qed

lemma unsolicited_quiet:
  assumes "s_registerCalled s" "i < length (s_unsolResponses E)"
    "sint (c - K E ''RIL_UNSOL_RESPONSE_BASE'') = int i"
    "ui_wakeType (s_unsolResponses E ! i) = DONT_WAKE"
    and resp: "call_response E (s_version s) (ui_response (s_unsolResponses E ! i)) d n = Some (0, ws)"
    and pay: "more_payload E (unsolicited E 1) c
        (if c = K E ''RIL_UNSOL_NITZ_TIME_RECEIVED'' then w_elapsed (world s) else 0)
        (puts E ([I32 RESPONSE_UNSOLICITED, I32 c] @ ws) (p_new E)) s = Some (q, s)"
    and "fst (sendResponse E q s) = 0"
  shows "RIL_onUnsolicitedResponse E c d n s = Some (snd (sendResponse E q s))"
proof -
  have "RIL_onUnsolicitedResponse E c d n s = unsol_respond E (unsolicited E 1) c d n (s_unsolResponses E ! i) s"
    using assms(1-4) by (simp add: RIL_onUnsolicitedResponse_def numeral_2_eq_2 unsol_body_def)
  also have "\<dots> = send_unsol E (unsolicited E 1) c
      (if c = K E ''RIL_UNSOL_NITZ_TIME_RECEIVED'' then w_elapsed (world s) else 0) False
      (puts E ([I32 RESPONSE_UNSOLICITED, I32 c] @ ws) (p_new E)) s"
    unfolding unsol_respond_def Let_def resp option.case prod.case assms(4) by simp
  also have "\<dots> = Some (snd (sendResponse E q s))" unfolding send_unsol_eq [OF pay] using assms(7) by simp
  finally show ?thesis .
qed

text \<open>C9 An unsolicited response on an open socket: one message goes out whole, with the data of its
  response function and, for the radio state and the network time, what they carry besides (the radio
  states of older vendor libraries excepted, which make further responses first). For a row that wakes
  the telephony process the wake lock is held, a timer that gives it back one second later is in the
  timer list at its place with \<open>userTimerCallback\<close> as its function, and the timer of an earlier response
  is cancelled; for a row that does not, the lock, the timers and the event lists are as before.\<close>

theorem unsolicited_delivers:
  assumes row: "s_registerCalled s" "i < length (s_unsolResponses E)"
    "sint (c - K E ''RIL_UNSOL_RESPONSE_BASE'') = int i"
    and c: "c = K E ''RIL_UNSOL_RESPONSE_RADIO_STATE_CHANGED'' \<longrightarrow> current_radio E (w_radio (world s))"
    and resp: "call_response E (s_version s) (ui_response (s_unsolResponses E ! i)) d n = Some (0, ws)"
    and p: "p = p_data E (puts E ([I32 RESPONSE_UNSOLICITED, I32 c] @ ws @ extra_items E c s) (p_new E))"
      "length p \<le> MAX_COMMAND_BYTES" "0 \<le> s_fdCommand s" "w_writes (world s) = []"
    and t: "ui_wakeType (s_unsolResponses E ! i) = WAKE_PARTIAL \<longrightarrow> lists_ok (mem s) ts ps \<and>
      w_alloc (world s) = a # as \<and> a \<noteq> NULL \<and> a \<notin> set (timer_list # pending_list # ts @ ps) \<and>
      (s_last_wake_timeout_info s = NULL \<or> s_last_wake_timeout_info s \<in> info_live s)"
  shows "\<exists>s'. RIL_onUnsolicitedResponse E c d n s = Some s' \<and> sent s' = sent s @ frame p \<and>
    (case ui_wakeType (s_unsolResponses E ! i) of
       WAKE_PARTIAL \<Rightarrow> wake_lock s' \<and> timer_set a (s_last_wake_timeout_info s) (w_now (world s)) ts ps s'
     | DONT_WAKE \<Rightarrow> wake_part s' = wake_part s \<and> mem s' = mem s)"
proof -
  let ?q = "puts E (extra_items E c s) (puts E ([I32 RESPONSE_UNSOLICITED, I32 c] @ ws) (p_new E))"
  let ?g = "grabPartialWakeLock s"
  have q: "p_data E ?q = p" using p(1) by simp
  show ?thesis
  proof (cases "ui_wakeType (s_unsolResponses E ! i)")
    case WAKE_PARTIAL
    have "sent (snd (sendResponse E ?q ?g)) = sent s @ frame p"
      using sendResponse_zero(1) [of ?g E ?q] p(2-4) q by (simp add: grab_fields)
    then show ?thesis
      using unsolicited_runs [OF row WAKE_PARTIAL resp more_payload_items [OF c grab_fields(3)], of ts ps a as] t WAKE_PARTIAL
      by auto
  next
    case DONT_WAKE
    note send = sendResponse_zero [of s E ?q, unfolded q, OF p(3,4,2)]
    have "wake_part (snd (sendResponse E ?q s)) = wake_part s" "mem (snd (sendResponse E ?q s)) = mem s"
      using keeps_wake_send [of s E ?q] quiet_eqD(1) [OF sendResponse_quiet, of E ?q s] by (simp_all add: keeps_wake_def)
    then show ?thesis
      using unsolicited_quiet [OF row DONT_WAKE resp more_payload_items [OF c refl] send(2)] send(1) DONT_WAKE by simp
  qed
qed

theorem unsolicited_delivers_witness:
  "\<exists>s'. RIL_onUnsolicitedResponse sys_env 1001 VNull 0 demo_ril = Some s' \<and> wake_lock s' \<and>
     s_last_wake_timeout_info s' = 100 \<and> sent s' = frame (demo_data [I32 1, I32 1001]) \<and>
     ev_timeout (mem s' 100) = Timeval 51 0"
proof -
  have len: "length (demo_data [I32 1, I32 1001]) \<le> MAX_COMMAND_BYTES"
    by (simp add: length_le_bytes MAX_COMMAND_BYTES_def)
  show ?thesis
    using unsolicited_delivers [of demo_ril 1 sys_env 1001 VNull 0 "[]"
        "demo_data [I32 1, I32 1001]" "[10, 11]" "[]" 100 "[101, 102, 103]"] sys_row1 demo_lists len
    by (auto simp: RESPONSE_UNSOLICITED_def responseVoid_def ok_resp_def timer_list_def pending_list_def
        extra_items_def timeradd_def timer_set_def TIMEVAL_WAKE_TIMEOUT_def)
qed

text \<open>C28 \<open>RIL_onUnsolicitedResponse\<close> and \<open>processRadioState\<close> call each other, but not forever: with
  the response codes distinct, as in the header, no nested response reports the radio state again, and
  any number of levels gives what two levels give.\<close>

theorem unsolicited_depth:
  assumes "list_all (\<lambda>n. K E n \<noteq> K E ''RIL_UNSOL_RESPONSE_RADIO_STATE_CHANGED'')
    [''RIL_UNSOL_VOICE_RADIO_TECH_CHANGED'', ''RIL_UNSOL_CDMA_SUBSCRIPTION_SOURCE_CHANGED'',
     ''RIL_UNSOL_RESPONSE_SIM_STATUS_CHANGED'']"
  shows "unsolicited E (Suc (Suc k)) = RIL_onUnsolicitedResponse E"
proof -
  have payload: "more_payload E U c t p s = more_payload E U' c t p s"
    if "c \<noteq> K E ''RIL_UNSOL_RESPONSE_RADIO_STATE_CHANGED''" for U U' c t p s
    using that by (simp add: more_payload_def)
  have nested: "unsol_body E U c = unsol_body E U' c"
    if "c \<noteq> K E ''RIL_UNSOL_RESPONSE_RADIO_STATE_CHANGED''" for U U' c
    unfolding unsol_body_def unsol_respond_def send_unsol_def payload [OF that, of U _ _ _ U'] ..
  have three: "unsol_body E U (K E ''RIL_UNSOL_VOICE_RADIO_TECH_CHANGED'') =
        unsol_body E U' (K E ''RIL_UNSOL_VOICE_RADIO_TECH_CHANGED'')"
      "unsol_body E U (K E ''RIL_UNSOL_CDMA_SUBSCRIPTION_SOURCE_CHANGED'') =
        unsol_body E U' (K E ''RIL_UNSOL_CDMA_SUBSCRIPTION_SOURCE_CHANGED'')"
      "unsol_body E U (K E ''RIL_UNSOL_RESPONSE_SIM_STATUS_CHANGED'') =
        unsol_body E U' (K E ''RIL_UNSOL_RESPONSE_SIM_STATUS_CHANGED'')" for U U'
    using assms by (simp_all add: nested [of _ U U'])
  have radio: "processRadioState E (unsol_body E U) r s = processRadioState E (unsol_body E U') r s"
    for U U' r s
    unfolding processRadioState_def three [of U U'] ..
  have "unsol_body E (unsol_body E U) = unsol_body E (unsol_body E U')" for U U'
    unfolding unsol_body_def [of E "unsol_body E U" for U] unsol_respond_def send_unsol_def
      more_payload_def radio [of U _ _ U'] ..
  then show ?thesis by (simp add: RIL_onUnsolicitedResponse_def numeral_2_eq_2)
qed

theorem unsolicited_depth_witness:
  "unsolicited sys_env (Suc (Suc 5)) = RIL_onUnsolicitedResponse sys_env"
  by (rule unsolicited_depth) simp

text \<open>A network time that arrives while the telephony process is not connected is kept, with the time
  of its arrival, and nothing is sent.\<close>

theorem nitz_kept:
  assumes "s_registerCalled s" "K E ''RIL_UNSOL_NITZ_TIME_RECEIVED'' = K E ''RIL_UNSOL_RESPONSE_BASE'' + 8"
    and base: "K E ''RIL_UNSOL_RESPONSE_RADIO_STATE_CHANGED'' = K E ''RIL_UNSOL_RESPONSE_BASE''"
    and closed: "s_fdCommand s < 0"
    and t: "lists_ok (mem s) ts ps" "w_alloc (world s) = a # as"
      "a \<noteq> NULL" "a \<notin> set (timer_list # pending_list # ts @ ps)"
      "s_last_wake_timeout_info s = NULL \<or> s_last_wake_timeout_info s \<in> info_live s"
  shows "\<exists>s'. RIL_onUnsolicitedResponse E (K E ''RIL_UNSOL_NITZ_TIME_RECEIVED'') (VStr time) n s = Some s' \<and>
    sent s' = sent s \<and> wake_lock s' \<and>
    s_lastNITZTimeData s' = Some (p_data E (puts E [I32 RESPONSE_UNSOLICITED,
       I32 (K E ''RIL_UNSOL_NITZ_TIME_RECEIVED''), Str (Some time), I64 (w_elapsed (world s))] (p_new E)))"
proof -
  let ?c = "K E ''RIL_UNSOL_NITZ_TIME_RECEIVED''" and ?g = "grabPartialWakeLock s"
  let ?q = "puts E [I32 RESPONSE_UNSOLICITED, I32 ?c, Str (Some time), I64 (w_elapsed (world s))] (p_new E)"
  have row: "8 < length (s_unsolResponses E)"
    "s_unsolResponses E ! 8 = Unsol ''RIL_UNSOL_NITZ_TIME_RECEIVED'' ResponseString WAKE_PARTIAL"
    by (simp_all add: s_unsolResponses_def)
  have "sendResponse E ?q ?g = (- 1, ?g)" using closed by (intro sendResponse_closed) (simp add: grab_fields)
  moreover have "more_payload E (unsolicited E 1) ?c (if ?c = ?c then w_elapsed (world s) else 0)
      (puts E ([I32 RESPONSE_UNSOLICITED, I32 ?c] @ [Str (Some time)]) (p_new E)) ?g = Some (?q, ?g)"
    using assms(2) base by (simp add: more_payload_def)
  moreover have "call_response E (s_version s) (ui_response (s_unsolResponses E ! 8)) (VStr time) n
      = Some (0, [Str (Some time)])"
    using row by (simp add: responseString_def ok_resp_def)
  ultimately show ?thesis
    using unsolicited_runs [of s 8 E ?c "VStr time" n "[Str (Some time)]" ?q ts ps a as] assms(1,2) row t
    by (auto simp: grab_fields)
qed

theorem nitz_kept_witness:
  "\<exists>s'. RIL_onUnsolicitedResponse sys_env 1008 (VStr ''15/01/01'') 8 (demo_ril\<lparr>s_fdCommand := - 1\<rparr>) = Some s' \<and>
     sent s' = [] \<and> s_lastNITZTimeData s' \<noteq> None"
proof -
  let ?s = "demo_ril\<lparr>s_fdCommand := - 1\<rparr>"
  have "lists_ok (mem ?s) [10, 11] []" "w_alloc (world ?s) = 100 # [101, 102, 103]" using demo_lists by simp_all
  then show ?thesis
    using nitz_kept [of ?s sys_env "[10, 11]" "[]" 100 "[101, 102, 103]" "''15/01/01''" 8]
    by (auto simp: timer_list_def pending_list_def)
qed

text \<open>A response that goes out completely on an open socket.\<close>

lemma unsolicited_sent:
  fixes s :: ril_state and E :: "'p env"
  assumes row: "s_registerCalled s" "i < length (s_unsolResponses E)"
    "sint (c - K E ''RIL_UNSOL_RESPONSE_BASE'') = int i"
    "ui_wakeType (s_unsolResponses E ! i) = WAKE_PARTIAL"
    and resp: "call_response E (s_version s) (ui_response (s_unsolResponses E ! i)) d n = Some (0, ws)"
    and pay: "more_payload E (unsolicited E 1) c
        (if c = K E ''RIL_UNSOL_NITZ_TIME_RECEIVED'' then w_elapsed (world s) else 0)
        (puts E ([I32 RESPONSE_UNSOLICITED, I32 c] @ ws) (p_new E)) (grabPartialWakeLock s) = Some (q, grabPartialWakeLock s)"
    and t: "lists_ok (mem s) ts ps" "w_alloc (world s) = a # as"
      "a \<noteq> NULL" "a \<notin> set (timer_list # pending_list # ts @ ps)"
      "s_last_wake_timeout_info s = NULL \<or> s_last_wake_timeout_info s \<in> info_live s"
    and open_fd: "0 \<le> s_fdCommand s" "w_writes (world s) = []" "length (p_data E q) \<le> MAX_COMMAND_BYTES"
  shows "\<exists>s'. RIL_onUnsolicitedResponse E c d n s = Some s' \<and> sent s' = sent s @ frame (p_data E q) \<and> calm s' = calm s \<and>
    w_alloc (world s') = as \<and> w_writes (world s') = [] \<and> s_lastNITZTimeData s' = s_lastNITZTimeData s \<and>
    s_last_wake_timeout_info s' = a \<and> a \<in> info_live s' \<and> (\<exists>xs ys. ts = xs @ ys \<and> lists_ok (mem s') (xs @ a # ys) ps)"
proof -
  have "sent (snd (sendResponse E q (grabPartialWakeLock s))) = sent s @ frame (p_data E q)"
    "fst (sendResponse E q (grabPartialWakeLock s)) = 0" "w_writes (world (snd (sendResponse E q (grabPartialWakeLock s)))) = []"
    using sendResponse_zero [of "grabPartialWakeLock s" E q] open_fd by (simp_all add: grab_fields)
  then show ?thesis
    using unsolicited_runs [OF row resp pay t] by (auto simp: timer_set_def)
qed

lemma greeting_rows:
  "34 < length (s_unsolResponses E)" "0 < length (s_unsolResponses E)"
  "s_unsolResponses E ! 34 = Unsol ''RIL_UNSOL_RIL_CONNECTED'' ResponseInts WAKE_PARTIAL"
  "s_unsolResponses E ! 0 = Unsol ''RIL_UNSOL_RESPONSE_RADIO_STATE_CHANGED'' ResponseVoid WAKE_PARTIAL"
  by (simp_all add: s_unsolResponses_def)

text \<open>What the two messages of the greeting carry behind their codes.\<close>

lemma connected_payload:
  "call_response E v (ui_response (s_unsolResponses E ! 34)) (VInts [of_int w]) (of_nat sizeof_int) = Some (0, [I32 1, I32 (of_int w)])"
  "K E ''RIL_UNSOL_RIL_CONNECTED'' \<noteq> K E ''RIL_UNSOL_NITZ_TIME_RECEIVED'' \<Longrightarrow>
   K E ''RIL_UNSOL_RIL_CONNECTED'' \<noteq> K E ''RIL_UNSOL_RESPONSE_RADIO_STATE_CHANGED'' \<Longrightarrow>
   more_payload E U (K E ''RIL_UNSOL_RIL_CONNECTED'') el p g = Some (p, g)"
  by (simp_all add: greeting_rows responseInts_def ok_resp_def sizeof_int_def array_resp_def ints_of_def elems_def more_payload_def)

lemma radio_state_payload:
  assumes "\<not> (sint (K E ''RADIO_STATE_UNAVAILABLE'') < sint (w_radio (world g)) \<and> sint (w_radio (world g)) < sint (K E ''RADIO_STATE_ON''))"
  shows "call_response E v (ui_response (s_unsolResponses E ! 0)) VNull 0 = Some (0, [])"
    "more_payload E U (K E ''RIL_UNSOL_RESPONSE_RADIO_STATE_CHANGED'') el p g = Some (p_writeInt32 E (w_radio (world g)) p, g)"
proof -
  have "processRadioState E U (w_radio (world g)) g = Some (w_radio (world g), g)"
    unfolding processRadioState_def using assms by (rule if_not_P)
  then show "more_payload E U (K E ''RIL_UNSOL_RESPONSE_RADIO_STATE_CHANGED'') el p g = Some (p_writeInt32 E (w_radio (world g)) p, g)"
    by (simp add: more_payload_def)
qed (simp add: greeting_rows responseVoid_def ok_resp_def)

text \<open>C29 A new connection of the telephony process is greeted with the interface version and the radio
  state, and gets the network time that was kept for it, in this order; the copy is then gone.\<close>

theorem new_connection_greeted:
  assumes reg: "s_registerCalled s"
    and k: "K E ''RIL_UNSOL_RIL_CONNECTED'' = K E ''RIL_UNSOL_RESPONSE_BASE'' + 34"
      "K E ''RIL_UNSOL_NITZ_TIME_RECEIVED'' = K E ''RIL_UNSOL_RESPONSE_BASE'' + 8"
      "K E ''RIL_UNSOL_RESPONSE_RADIO_STATE_CHANGED'' = K E ''RIL_UNSOL_RESPONSE_BASE''"
    and radio: "\<not> (sint (K E ''RADIO_STATE_UNAVAILABLE'') < sint (w_radio (world s)) \<and>
      sint (w_radio (world s)) < sint (K E ''RADIO_STATE_ON''))"
    and open_fd: "0 \<le> s_fdCommand s" "w_writes (world s) = []"
    and m: "m1 = p_data E (puts E [I32 RESPONSE_UNSOLICITED, I32 (K E ''RIL_UNSOL_RIL_CONNECTED''),
        I32 1, I32 (of_int (s_version s))] (p_new E))"
      "m2 = p_data E (puts E [I32 RESPONSE_UNSOLICITED,
        I32 (K E ''RIL_UNSOL_RESPONSE_RADIO_STATE_CHANGED''), I32 (w_radio (world s))] (p_new E))"
      "s_lastNITZTimeData s = Some m3" "list_all (\<lambda>m. length m \<le> MAX_COMMAND_BYTES) [m1, m2, m3]"
    and t: "lists_ok (mem s) ts ps" "w_alloc (world s) = a # b # as" "a \<noteq> NULL" "b \<noteq> NULL" "a \<noteq> b"
      "a \<notin> set (timer_list # pending_list # ts @ ps)" "b \<notin> set (timer_list # pending_list # ts @ ps)"
      "s_last_wake_timeout_info s = NULL \<or> s_last_wake_timeout_info s \<in> info_live s"
  shows "\<exists>s'. onNewCommandConnect E s = Some s' \<and> s_lastNITZTimeData s' = None \<and>
    sent s' = sent s @ frame m1 @ frame m2 @ frame m3"
proof -
  let ?c1 = "K E ''RIL_UNSOL_RIL_CONNECTED''" and ?c2 = "K E ''RIL_UNSOL_RESPONSE_RADIO_STATE_CHANGED''"
  have pay: "more_payload E (unsolicited E 1) ?c1 (if ?c1 = K E ''RIL_UNSOL_NITZ_TIME_RECEIVED'' then w_elapsed (world s) else 0)
      (puts E ([I32 RESPONSE_UNSOLICITED, I32 ?c1] @ [I32 1, I32 (of_int (s_version s))]) (p_new E)) (grabPartialWakeLock s)
      = Some (puts E ([I32 RESPONSE_UNSOLICITED, I32 ?c1] @ [I32 1, I32 (of_int (s_version s))]) (p_new E), grabPartialWakeLock s)"
    using k by (intro connected_payload(2)) simp_all
  have row1: "sint (?c1 - K E ''RIL_UNSOL_RESPONSE_BASE'') = int 34" "ui_wakeType (s_unsolResponses E ! 34) = WAKE_PARTIAL"
    "sint (?c2 - K E ''RIL_UNSOL_RESPONSE_BASE'') = int 0" "ui_wakeType (s_unsolResponses E ! 0) = WAKE_PARTIAL"
    using k by (simp_all add: greeting_rows)
  obtain s1 where s1:
    "RIL_onUnsolicitedResponse E ?c1 (VInts [of_int (s_version s)]) (of_nat sizeof_int) s = Some s1"
    "sent s1 = sent s @ frame m1" "calm s1 = calm s" "w_alloc (world s1) = b # as" "w_writes (world s1) = []"
    "s_lastNITZTimeData s1 = Some m3" "s_last_wake_timeout_info s1 = a" "a \<in> info_live s1"
    "\<exists>xs ys. ts = xs @ ys \<and> lists_ok (mem s1) (xs @ a # ys) ps"
    using unsolicited_sent [OF reg greeting_rows(1) row1(1,2) connected_payload(1) pay t(1,2,3,6,8) open_fd] m by auto
  then obtain xs ys where xy: "ts = xs @ ys" "lists_ok (mem s1) (xs @ a # ys) ps" by blast
  have c: "s_fdCommand s1 = s_fdCommand s" "s_registerCalled s1" "w_radio (world (grabPartialWakeLock s1)) = w_radio (world s)"
    using s1(3) reg by (simp_all add: calm_def grab_fields)
  note radio1 = radio_state_payload [of E "grabPartialWakeLock s1", unfolded c(3), OF radio]
  obtain s2 where s2: "RIL_onUnsolicitedResponse E ?c2 VNull 0 s1 = Some s2" "sent s2 = sent s1 @ frame m2" "calm s2 = calm s1"
    "w_writes (world s2) = []" "s_lastNITZTimeData s2 = Some m3"
    using unsolicited_sent [OF c(2) greeting_rows(2) row1(3,4) radio1(1) radio1(2) xy(2) s1(4)] c(1) t xy(1) s1 open_fd m by auto
  have "sent (snd (sendResponseRaw m3 s2)) = sent s2 @ frame m3"
    using s2(3,4) c(1) s1(3) open_fd m(4) by (intro send_all) (simp_all add: calm_def)
  then show ?thesis
    using s1(1,2) s2 by (simp add: onNewCommandConnect_def)
qed

theorem new_connection_greeted_witness:
  "\<exists>s'. onNewCommandConnect sys_env (demo_ril\<lparr>s_lastNITZTimeData := Some [7]\<rparr>) = Some s' \<and>
     sent s' = frame (demo_data [I32 1, I32 1034, I32 1, I32 9]) @ frame (demo_data [I32 1, I32 1000, I32 10]) @
       [0, 0, 0, 1, 7]"
proof -
  let ?s = "demo_ril\<lparr>s_lastNITZTimeData := Some [7]\<rparr>"
  have "w_radio (world ?s) = 10" "K sys_env ''RADIO_STATE_UNAVAILABLE'' = 23"
    by (simp_all add: demo_ril_def demo_world_def ev_state.defs sys_env_def demo_env_def)
  moreover have "frame [7] = [0, 0, 0, 1, 7 :: u8]" by (simp add: frame_def be32_def)
  moreover have "lists_ok (mem ?s) [10, 11] []" using demo_lists by simp
  ultimately show ?thesis
    using new_connection_greeted [of ?s sys_env _ _ "[7]" "[10, 11]" "[]" 100 101 "[102, 103]"]
    by (auto simp: timer_list_def pending_list_def RESPONSE_UNSOLICITED_def length_le_bytes MAX_COMMAND_BYTES_def)
qed

section \<open>Connections\<close>

text \<open>The listening event is watched again after it was not.\<close>

definition listen_ready :: "ril_state \<Rightarrow> bool" where
  "listen_ready s \<longleftrightarrow> s_listen_event \<notin> watched s \<and> 0 \<le> ev_fd (mem s s_listen_event) \<and>
     ev_fd (mem s s_listen_event) < FD_SETSIZE \<and> ev_fd (mem s s_listen_event) \<notin> readFds s"

lemma listen_again:
  assumes "watch_ok s" "NULL \<in> set (watch_table s)" "listen_ready s"
  shows "\<exists>s'. rilEventAddWakeup s_listen_event s = Some s' \<and> watch_ok s' \<and>
    watched s' = insert s_listen_event (watched s) \<and> closes s' = closes s \<and> sent s' = sent s \<and>
    s_fdCommand s' = s_fdCommand s \<and> onRequests s' = onRequests s \<and> req_part s' = req_part s"
proof -
  obtain s1 where s1: "ril_event_add s_listen_event s = Some s1" "watch_ok s1"
    "watched s1 = insert s_listen_event (watched s)"
    using ril_event_add_ok [OF assms(1,2), of s_listen_event] assms(3)
    by (auto simp: listen_ready_def s_listen_event_def)
  note m = more_eqD [OF event_more(2) [OF s1(1)]]
  have "rilEventAddWakeup s_listen_event s = Some (triggerEvLoop s1)"
    using s1(1) by (simp add: rilEventAddWakeup_def)
  then show ?thesis
    using s1 m by (auto simp: triggerEvLoop_def watch_ok_def watched_def req_part_def)
qed

text \<open>A connection from any process but the telephony process is closed at once: no byte is sent
  to it, no command of it is read, every pending request is cancelled, and the daemon listens again.\<close>

theorem connection_refused:
  assumes "s_fdCommand s < 0" "0 \<le> c_fd c" "\<not> is_phone_socket c"
    and "pending s xs" "watch_ok s" "NULL \<in> set (watch_table s)" "listen_ready s"
  shows "\<exists>s'. listenCallback E c p_rs (s_fdListen s) s = Some s' \<and> s_fdCommand s' = - 1 \<and>
    closes s' = closes s @ [c_fd c] \<and> sent s' = sent s \<and> onRequests s' = onRequests s \<and>
    pending s' xs \<and> list_all (\<lambda>x. ri_cancelled (reqs s' x)) xs \<and>
    watch_ok s' \<and> watched s' = insert s_listen_event (watched s)"
proof -
  let ?u = "s\<lparr>closes := closes s @ [c_fd c], s_fdCommand := - 1\<rparr>"
  have "pending ?u xs" using assms(4) by (simp add: pending_def)
  then obtain v where v: "onCommandsSocketClosed ?u = Some v" "pending v xs"
    "v = ?u\<lparr>reqs := (\<lambda>q. if q \<in> set xs then (reqs ?u q)\<lparr>ri_cancelled := True\<rparr> else reqs ?u q)\<rparr>"
    using onCommandsSocketClosed_ok by blast
  have "watch_ok v" "NULL \<in> set (watch_table v)" "listen_ready v" "watched v = watched s"
    using assms(5-7) v(3) by (simp_all add: watch_ok_def watched_def listen_ready_def)
  then obtain s' where s': "rilEventAddWakeup s_listen_event v = Some s'" "watch_ok s'"
    "watched s' = insert s_listen_event (watched s)" "closes s' = closes v" "sent s' = sent v"
    "s_fdCommand s' = s_fdCommand v" "onRequests s' = onRequests v" "req_part s' = req_part v"
    using listen_again [of v] by auto
  have "listenCallback E c p_rs (s_fdListen s) s = Some s'"
    using assms(1-3) v(1) s'(1) by (simp add: listenCallback_def)
  moreover have "pending s' xs" "list_all (\<lambda>x. ri_cancelled (reqs s' x)) xs"
    using v(2,3) s'(8) by (auto simp: pending_def req_part_def list_all_iff)
  ultimately show ?thesis using s' v(3) by auto
qed

text \<open>A state of the daemon with a connection on descriptor 9 and no event list entries.\<close>

definition conn_ril :: ril_state where
  "conn_ril = demo_ril\<lparr>mem := (\<lambda>_. zero_event)(s_commands_event := zero_event\<lparr>ev_fd := 9, ev_index := 0\<rparr>,
       s_listen_event := zero_event\<lparr>ev_fd := 5, ev_index := - 1\<rparr>),
     watch_table := [s_commands_event, 0, 0, 0, 0, 0, 0, 0], readFds := {9}, nfds := 10\<rparr>"

lemma conn_ril_ok:
  "watch_ok conn_ril" "watched conn_ril = {s_commands_event}" "listen_ready conn_ril"
  "NULL \<in> set (watch_table conn_ril)" "pending conn_ril []" "s_fdCommand conn_ril = 9"
  "closes conn_ril = []" "s_fdListen conn_ril = 5" "sent conn_ril = []" "onRequests conn_ril = []"
proof -
  show w: "watched conn_ril = {s_commands_event}"
    by (auto simp: watched_def conn_ril_def s_commands_event_def)
  show "watch_ok conn_ril"
    unfolding watch_ok_def w
    by (auto simp: conn_ril_def s_commands_event_def s_listen_event_def MAX_FD_EVENTS_def FD_SETSIZE_def
        nth_Cons' less_Suc_eq numeral_eq_Suc)
  show "listen_ready conn_ril"
    unfolding listen_ready_def w
    by (simp add: conn_ril_def s_commands_event_def s_listen_event_def FD_SETSIZE_def)
qed (simp_all add: conn_ril_def pending_def demo_ril_def ev_state.defs)

theorem connection_refused_witness:
  "\<exists>s'. listenCallback sys_env \<lparr>c_fd = 12, c_err = 0, c_szCreds = 12, c_pw_name = Some ''shell''\<rparr> 0 5
       (conn_ril\<lparr>s_fdCommand := - 1\<rparr>) = Some s' \<and> s_fdCommand s' = - 1 \<and> closes s' = [12] \<and> sent s' = []"
proof -
  let ?s = "conn_ril\<lparr>s_fdCommand := - 1\<rparr>"
  have "watch_ok ?s" "listen_ready ?s" "pending ?s []"
    using conn_ril_ok(1,3,5) by (simp_all add: watch_ok_def watched_def listen_ready_def pending_def)
  then show ?thesis
    using connection_refused [of ?s "\<lparr>c_fd = 12, c_err = 0, c_szCreds = 12, c_pw_name = Some ''shell''\<rparr>" "[]" sys_env 0]
      conn_ril_ok by (auto simp: is_phone_socket_def PHONE_PROCESS_def)
qed

text \<open>C30 When the stream of commands ends or fails, the descriptor is closed, its event is no longer
  watched, every pending request is cancelled and the daemon listens for a new connection.\<close>

theorem connection_lost:
  assumes "commands_loop E rs s = Some (True, s1)" "pending s1 xs" "watch_ok s1"
    "s_commands_event \<in> watched s1" "listen_ready s1"
  shows "\<exists>s'. processCommandsCallback E rs (s_fdCommand s) s = Some s' \<and> s_fdCommand s' = - 1 \<and>
    closes s' = closes s1 @ [s_fdCommand s1] \<and> pending s' xs \<and>
    list_all (\<lambda>x. ri_cancelled (reqs s' x)) xs \<and> watch_ok s' \<and>
    watched s' = insert s_listen_event (watched s1 - {s_commands_event})"
proof -
  let ?u = "s1\<lparr>closes := closes s1 @ [s_fdCommand s1], s_fdCommand := - 1\<rparr>"
  have ne: "s_listen_event \<noteq> s_commands_event" by (simp add: s_listen_event_def s_commands_event_def)
  have "watch_ok ?u" "s_commands_event \<in> watched ?u" "watched ?u = watched s1"
    using assms(3,4) by (simp_all add: watch_ok_def watched_def)
  then obtain t where t: "ril_event_del s_commands_event ?u = Some t" "watch_ok t"
    "watched t = watched s1 - {s_commands_event}"
    "mem t = (mem s1)(s_commands_event := (mem s1 s_commands_event)\<lparr>ev_index := - 1\<rparr>)"
    "ev_state.more t = ev_state.more ?u" and tbl: "NULL \<in> set (watch_table t)"
    using ril_event_del_ok [of ?u s_commands_event] by auto
  have rdy: "listen_ready t"
    using assms(5) t(2-4) assms(3) ne by (auto simp: listen_ready_def watch_ok_def)
  obtain v where v: "rilEventAddWakeup s_listen_event t = Some v" "watch_ok v"
    "watched v = insert s_listen_event (watched t)" "closes v = closes t"
    "s_fdCommand v = s_fdCommand t" "req_part v = req_part t"
    using listen_again [OF t(2) tbl rdy] by auto
  note m = more_eqD [OF t(5)]
  have "pending v xs" using assms(2) v(6) m(2) by (simp add: pending_def req_part_def)
  then obtain s' where s': "onCommandsSocketClosed v = Some s'" "pending s' xs"
    "s' = v\<lparr>reqs := (\<lambda>q. if q \<in> set xs then (reqs v q)\<lparr>ri_cancelled := True\<rparr> else reqs v q)\<rparr>"
    using onCommandsSocketClosed_ok by blast
  have "processCommandsCallback E rs (s_fdCommand s) s = Some s'"
    using assms(1) t(1) v(1) s'(1) by (simp add: processCommandsCallback_def)
  moreover have "watch_ok s'" "watched s' = watched v"
    using s'(3) v(2) by (simp_all add: watch_ok_def watched_def)
  ultimately show ?thesis using s' v m t(3) by (auto simp: list_all_iff)
qed

theorem connection_lost_witness:
  "\<exists>s'. processCommandsCallback sys_env [EndOfStream] 9 conn_ril = Some s' \<and> s_fdCommand s' = - 1 \<and>
     closes s' = [9] \<and> watched s' = {s_listen_event}"
  using connection_lost [of sys_env "[EndOfStream]" conn_ril conn_ril "[]"] conn_ril_ok by auto

text \<open>C39 A response with data that its response function refuses gives the wake lock back at once, also
  when an earlier response still holds it: the lock is gone although the timer of the earlier response
  is live and not cancelled.\<close>

theorem refused_response_drops_lock:
  assumes "s_registerCalled s" "i < length (s_unsolResponses E)"
    "sint (c - K E ''RIL_UNSOL_RESPONSE_BASE'') = int i"
    "ui_wakeType (s_unsolResponses E ! i) = WAKE_PARTIAL"
    "call_response E (s_version s) (ui_response (s_unsolResponses E ! i)) d n = Some (ret, ws)" "ret \<noteq> 0"
    "timer_inv s" "wake_lock s" "held s"
  shows "\<exists>s'. RIL_onUnsolicitedResponse E c d n s = Some s' \<and> \<not> wake_lock s' \<and> sent s' = sent s \<and>
    s_last_wake_timeout_info s' \<in> info_live s' \<and>
    uc_userParam (infos s' (s_last_wake_timeout_info s')) = NULL"
proof -
  have "RIL_onUnsolicitedResponse E c d n s = Some (releaseWakeLock (grabPartialWakeLock s))"
    unfolding unsolicited_row [OF assms(1-4)] unsol_respond_def Let_def grab_fields assms(4,5)
    using assms(6) by simp
  moreover have "s_last_wake_timeout_info s \<in> info_live s"
    "uc_userParam (infos s (s_last_wake_timeout_info s)) = NULL"
    using assms(7-9) unfolding timer_inv_def held_def by simp_all
  ultimately show ?thesis by (simp add: releaseWakeLock_def grabPartialWakeLock_def)
qed

theorem refused_response_drops_lock_witness:
  "\<exists>s s'. wake_lock s \<and> RIL_onUnsolicitedResponse sys_env 1005 (VInts [1]) 3 s = Some s' \<and> \<not> wake_lock s' \<and>
     s_last_wake_timeout_info s' \<in> info_live s'"
proof -
  obtain s where s: "RIL_onUnsolicitedResponse sys_env 1001 VNull 0 demo_ril = Some s" "wake_lock s"
      "s_registerCalled s"
    using demo_unsolicited by blast
  have "core_step sys_env demo_vendor (VUnsolicited 1001 VNull 0) demo_ril s" by (rule core_step.intros(7) [OF s(1)])
  then have inv: "timer_inv s" "held s"
    using cs.inv_step [OF _ cs.inv_init [OF demo_core_init]] by (auto simp: core_inv_on_def)
  have row: "5 < length (s_unsolResponses sys_env)"
    "s_unsolResponses sys_env ! 5 = Unsol ''RIL_UNSOL_RESPONSE_NEW_SMS_ON_SIM'' ResponseInts WAKE_PARTIAL"
    by (simp_all add: s_unsolResponses_def)
  have "call_response sys_env (s_version s) ResponseInts (VInts [1]) 3 = Some (RIL_ERRNO_INVALID_RESPONSE, [])"
    by (simp add: responseInts_def array_resp_def sizeof_int_def invalid_resp_def)
  then show ?thesis
    using refused_response_drops_lock [of s 5 sys_env 1005 "VInts [1]" 3] s row inv
    by (auto simp: RIL_ERRNO_INVALID_RESPONSE_def)
qed

section \<open>The debug port and the start\<close>

text \<open>The debug command that switches the radio off closes the command descriptor, but unlike a lost
  connection it neither stops watching it nor cancels the pending requests nor listens again.\<close>

theorem debug_power_off:
  assumes "pending s xs" "w_alloc (world s) = a # as" "a \<noteq> NULL" "a \<notin> req_live s" "args = ''1'' # rest"
  shows "\<exists>s'. debug_command E junk args s = Some s' \<and> s_fdCommand s' = - 1 \<and>
    closes s' = closes s @ [s_fdCommand s] \<and>
    onRequests s' = onRequests s @ [(K E ''RIL_REQUEST_RADIO_POWER'', VInts [0], of_nat sizeof_int, a)] \<and>
    pending s' (a # xs) \<and> list_all (\<lambda>x. ri_cancelled (reqs s' x) = ri_cancelled (reqs s x)) xs \<and>
    watch_table s' = watch_table s \<and> readFds s' = readFds s"
proof -
  let ?r = "zero_req\<lparr>ri_local := True, ri_token := 0xffffffff,
    ri_pCI := nat (sint (K E ''RIL_REQUEST_RADIO_POWER''))\<rparr>"
  let ?u = "call_onRequest (K E ''RIL_REQUEST_RADIO_POWER'') (VInts [0]) (of_nat sizeof_int) a (queued a ?r s)"
  have issue: "issueLocalRequest E (K E ''RIL_REQUEST_RADIO_POWER'') (VInts [0]) (of_nat sizeof_int) s = Some ?u"
    unfolding issueLocalRequest_def enqueue_eq [OF assms(2,3)] ..
  have "atoi ''1'' = 1" by (simp add: atoi_def of_char_def)
  then have "debug_command E junk args s = Some (?u\<lparr>closes := closes ?u @ [s_fdCommand ?u], s_fdCommand := - 1\<rparr>)"
    unfolding debug_command_def assms(5) list.case Let_def using issue by simp
  moreover have "pending (?u\<lparr>closes := cs, s_fdCommand := - 1\<rparr>) (a # xs)" for cs
    using pending_queued [OF assms(1,3,4), of ?r] by (simp add: pending_def call_onRequest_def)
  moreover have "a \<notin> set xs" using pending_live [OF assms(1)] assms(4) by auto
  ultimately show ?thesis by (auto simp: call_onRequest_def queued_def list_all_iff)
qed

theorem debug_power_off_witness:
  "\<exists>s'. debug_command sys_env None [''1''] conn_ril = Some s' \<and> s_fdCommand s' = - 1 \<and> closes s' = [9] \<and>
     9 \<in> readFds s'"
  using debug_power_off [of conn_ril "[]" 100 "[101, 102, 103]" "[''1'']" "[]" sys_env None] conn_ril_ok
  by (auto simp: conn_ril_def demo_ril_def demo_world_def ev_state.defs)

text \<open>The name of the debug socket fits its array for every socket name that fits the array of the
  socket name, provided the array of the debug name is six longer, as in the header; a longer name leaves
  the array of the socket name without a terminator.\<close>

theorem socket_names:
  assumes "CHR 0x00 \<notin> set name"
    "sizeof E ''MAX_SOCKET_NAME_LENGTH'' + 6 \<le> sizeof E ''MAX_DEBUG_SOCKET_NAME_LENGTH''"
    "10 < sizeof E ''MAX_DEBUG_SOCKET_NAME_LENGTH''"
  shows "if length name < sizeof E ''MAX_SOCKET_NAME_LENGTH''
    then RIL_getRilSocketName (RIL_setRilSocketName E name) = Some name \<and>
      debug_socket_name E name = Some (''rild-debug'' @ drop 4 name)
    else RIL_getRilSocketName (RIL_setRilSocketName E name) = None"
proof (cases "length name < sizeof E ''MAX_SOCKET_NAME_LENGTH''")
  case True
  let ?n = "sizeof E ''MAX_SOCKET_NAME_LENGTH''"
  have z: "takeWhile (\<lambda>c. c \<noteq> CHR 0x00) (name @ replicate (Suc k) CHR 0x00) = name" for k
    using assms(1) by (subst takeWhile_append2) (auto simp: takeWhile_replicate)
  obtain k where "?n - length name = Suc k" using True by (metis Suc_diff_Suc)
  then have "RIL_getRilSocketName (RIL_setRilSocketName E name) = Some name"
    using True z [of k] by (simp add: RIL_getRilSocketName_def RIL_setRilSocketName_def strncpy_def cstring_def)
  moreover have "debug_socket_name E name = Some (''rild-debug'' @ drop 4 name)"
    using True assms(2,3)
    by (auto simp: debug_socket_name_def SOCKET_NAME_RIL_def SOCKET_NAME_RIL_DEBUG_def Let_def
        eval_nat_numeral)
  ultimately show ?thesis using True by simp
next
  case False
  have "CHR 0x00 \<notin> set (take (sizeof E ''MAX_SOCKET_NAME_LENGTH'') name)"
    using assms(1) by (meson in_set_takeD)
  then show ?thesis
    using False by (simp add: RIL_getRilSocketName_def RIL_setRilSocketName_def strncpy_def cstring_def)
qed

theorem socket_names_witness:
  "debug_socket_name (sys_env\<lparr>sizeof := (\<lambda>n. if n = ''MAX_SOCKET_NAME_LENGTH'' then 6 else 12)\<rparr>) ''rild1''
     = Some ''rild-debug1''"
  using socket_names [of "''rild1''" "sys_env\<lparr>sizeof := (\<lambda>n. if n = ''MAX_SOCKET_NAME_LENGTH'' then 6 else 12)\<rparr>"]
  by simp

lemma free_slot:
  assumes "watch_ok s" "card (watched s) < MAX_FD_EVENTS"
  shows "NULL \<in> set (watch_table s)"
proof (rule ccontr)
  assume no: "NULL \<notin> set (watch_table s)"
  have len: "length (watch_table s) = MAX_FD_EVENTS" using assms(1) by (simp add: watch_ok_def)
  have "distinct (watch_table s)"
    unfolding distinct_conv_nth len
  proof (intro allI impI)
    fix i j assume ij: "i < MAX_FD_EVENTS" "j < MAX_FD_EVENTS" "i \<noteq> j"
    then have "watch_table s ! i \<noteq> NULL" "watch_table s ! j \<noteq> NULL" using no len by (metis nth_mem)+
    with ij show "watch_table s ! i \<noteq> watch_table s ! j"
      using assms(1) unfolding watch_ok_def by (metis of_nat_eq_iff)
  qed
  then have "card (set (watch_table s)) = MAX_FD_EVENTS" by (simp add: distinct_card len)
  with assms(2) no show False by (simp add: watched_def)
qed

lemma watch_ok_upd: "watch_ok s \<Longrightarrow> ev \<notin> watched s \<Longrightarrow> watch_ok (s\<lparr>mem := (mem s)(ev := e)\<rparr>)"
  by (subst watch_ok_payload) auto

text \<open>Setting up an event and adding it.\<close>

lemma set_and_add:
  fixes s :: ril_state
  assumes "watch_ok s" "card (watched s) < MAX_FD_EVENTS" "ev \<noteq> NULL" "ev \<notin> watched s"
    "0 \<le> fd" "fd < FD_SETSIZE" "\<forall>w \<in> watched s. ev_fd (mem s w) \<noteq> fd"
  shows "\<exists>s1 s'. ril_event_set ev fd pe f q s = Some s1 \<and> ril_event_add ev s1 = Some s' \<and>
    watch_ok s' \<and> watched s' = insert ev (watched s) \<and> ev_state.more s' = ev_state.more s \<and>
    (\<forall>x. x \<noteq> ev \<longrightarrow> mem s' x = mem s x) \<and>
    ev_fd (mem s' ev) = fd \<and> ev_func (mem s' ev) = f \<and> ev_persist (mem s' ev) = pe"
proof -
  let ?e = "zero_event\<lparr>ev_fd := fd, ev_index := - 1, ev_persist := pe, ev_func := f, ev_param := q\<rparr>"
  let ?s1 = "s\<lparr>mem := (mem s)(ev := ?e)\<rparr>"
  have "watch_ok ?s1" by (rule watch_ok_upd [OF assms(1,4)])
  moreover have "watch_table ?s1 = watch_table s" "watched ?s1 = watched s" "readFds ?s1 = readFds s" by simp_all
  moreover have "fd \<notin> readFds s" using assms(1,7) by (auto simp: watch_ok_def)
  ultimately obtain s' j where s': "ril_event_add ev ?s1 = Some s'" "watch_ok s'"
      "watched s' = insert ev (watched s)" "ev_state.more s' = ev_state.more s"
      "mem s' = ((mem s)(ev := ?e))(ev := ?e\<lparr>ev_index := int j\<rparr>)"
    using ril_event_add_ok [of ?s1 ev] free_slot [OF assms(1,2)] assms(3-6) by auto
  moreover have "ril_event_set ev fd pe f q s = Some ?s1" using assms(3) by (simp add: ril_event_set_def)
  ultimately show ?thesis by auto
qed

lemma event_init_empty:
  fixes s :: ril_state
  shows "\<exists>s'. ril_event_init s = Some s' \<and> watch_ok s' \<and> watched s' = {} \<and>
    ev_state.more s' = ev_state.more s"
proof -
  obtain s' where s': "ril_event_init s = Some s'" "ev_ok s' [] []" "ev_state.more s' = ev_state.more s"
    using ril_event_init_ok [of s] by blast
  then have "watch_table s' = replicate MAX_FD_EVENTS NULL"
    by (auto simp: ril_event_init_def bind_eq_Some_conv)
  with s' show ?thesis by (auto simp: ev_ok_def watched_def)
qed

text \<open>The event loop after its start, and after the two sockets have been added.\<close>

lemma startEventLoop_watches:
  assumes "\<not> s_started s" "st_thread r" "st_pipe r = Some (rd, wr)" "0 \<le> rd" "rd < FD_SETSIZE"
  shows "\<exists>a. RIL_startEventLoop r s = Some a \<and> watch_ok a \<and> watched a = {s_wakeupfd_event} \<and>
    ev_state.more a = ev_state.more (s\<lparr>s_started := True, s_fdWakeupRead := rd, s_fdWakeupWrite := wr\<rparr>) \<and>
    ev_fd (mem a s_wakeupfd_event) = rd \<and> ev_func (mem a s_wakeupfd_event) = processWakeupCallback_fn \<and>
    ev_persist (mem a s_wakeupfd_event)"
proof -
  obtain i where i: "ril_event_init (s\<lparr>s_started := False\<rparr>) = Some i" "watch_ok i" "watched i = {}"
    "ev_state.more i = ev_state.more (s\<lparr>s_started := False\<rparr>)"
    using event_init_empty by blast
  let ?i = "i\<lparr>s_started := True, s_fdWakeupRead := rd, s_fdWakeupWrite := wr\<rparr>"
  have "watch_ok ?i" "watched ?i = {}" using i by (simp_all add: watch_ok_def watched_def)
  then obtain a1 a where a: "ril_event_set s_wakeupfd_event rd True processWakeupCallback_fn NULL ?i = Some a1"
    "ril_event_add s_wakeupfd_event a1 = Some a" "watch_ok a" "watched a = {s_wakeupfd_event}"
    "ev_state.more a = ev_state.more ?i" "ev_fd (mem a s_wakeupfd_event) = rd"
    "ev_func (mem a s_wakeupfd_event) = processWakeupCallback_fn" "ev_persist (mem a s_wakeupfd_event)"
    using set_and_add [of ?i s_wakeupfd_event rd True processWakeupCallback_fn NULL] assms(4,5)
    by (auto simp: MAX_FD_EVENTS_def s_wakeupfd_event_def)
  have "RIL_startEventLoop r s = Some a"
    using i(1) a(1,2) assms(2,3) by (simp add: RIL_startEventLoop_def eventLoop_start_def)
  moreover have "ev_state.more ?i = ev_state.more (s\<lparr>s_started := True, s_fdWakeupRead := rd, s_fdWakeupWrite := wr\<rparr>)"
    using i(4) by (cases i; cases s) simp
  ultimately show ?thesis using a(3-8) by simp
qed

lemma sockets_added:
  assumes a: "watch_ok a" "watched a = {s_wakeupfd_event}" "ev_fd (mem a s_wakeupfd_event) = rd"
    and fds: "distinct [rd, fl, fd]" "list_all (\<lambda>x. 0 \<le> x \<and> x < FD_SETSIZE) [rd, fl, fd]"
  shows "\<exists>b1 b c1 c. ril_event_set s_listen_event fl False listenCallback_fn NULL (a\<lparr>s_fdListen := fl\<rparr>) = Some b1 \<and>
    ril_event_add s_listen_event b1 = Some b \<and>
    ril_event_set s_debug_event fd True debugCallback_fn NULL ((triggerEvLoop b)\<lparr>s_fdDebug := fd\<rparr>) = Some c1 \<and>
    ril_event_add s_debug_event c1 = Some c \<and>
    ev_state.more b = ev_state.more (a\<lparr>s_fdListen := fl\<rparr>) \<and>
    ev_state.more c = ev_state.more ((triggerEvLoop b)\<lparr>s_fdDebug := fd\<rparr>) \<and>
    watch_ok c \<and> watched c = {s_debug_event, s_listen_event, s_wakeupfd_event} \<and>
    mem c s_wakeupfd_event = mem a s_wakeupfd_event \<and>
    ev_fd (mem c s_listen_event) = fl \<and> ev_func (mem c s_listen_event) = listenCallback_fn \<and>
    \<not> ev_persist (mem c s_listen_event) \<and>
    ev_fd (mem c s_debug_event) = fd \<and> ev_func (mem c s_debug_event) = debugCallback_fn \<and>
    ev_persist (mem c s_debug_event)"
proof -
  let ?a = "a\<lparr>s_fdListen := fl\<rparr>"
  have "watch_ok ?a" "watched ?a = {s_wakeupfd_event}" using a(1,2) by (simp_all add: watch_ok_def watched_def)
  then obtain b1 b where b: "ril_event_set s_listen_event fl False listenCallback_fn NULL ?a = Some b1"
    "ril_event_add s_listen_event b1 = Some b" "watch_ok b" "watched b = {s_listen_event, s_wakeupfd_event}"
    "ev_state.more b = ev_state.more ?a" "mem b s_wakeupfd_event = mem a s_wakeupfd_event"
    "ev_fd (mem b s_listen_event) = fl" "ev_func (mem b s_listen_event) = listenCallback_fn"
    "\<not> ev_persist (mem b s_listen_event)"
    using set_and_add [of ?a s_listen_event fl False listenCallback_fn NULL] fds a(3)
    by (auto simp: MAX_FD_EVENTS_def s_wakeupfd_event_def s_listen_event_def)
  let ?b = "(triggerEvLoop b)\<lparr>s_fdDebug := fd\<rparr>"
  have "watch_ok ?b" "watched ?b = {s_listen_event, s_wakeupfd_event}" "mem ?b = mem b"
    using b(3,4) by (simp_all add: triggerEvLoop_def watch_ok_def watched_def)
  then obtain c1 c where c: "ril_event_set s_debug_event fd True debugCallback_fn NULL ?b = Some c1"
    "ril_event_add s_debug_event c1 = Some c" "watch_ok c"
    "watched c = {s_debug_event, s_listen_event, s_wakeupfd_event}"
    "ev_state.more c = ev_state.more ?b" "mem c s_wakeupfd_event = mem a s_wakeupfd_event"
    "mem c s_listen_event = mem b s_listen_event"
    "ev_fd (mem c s_debug_event) = fd" "ev_func (mem c s_debug_event) = debugCallback_fn"
    "ev_persist (mem c s_debug_event)"
    using set_and_add [of ?b s_debug_event fd True debugCallback_fn NULL] fds a(3) b(6,7)
    by (auto simp: MAX_FD_EVENTS_def s_wakeupfd_event_def s_listen_event_def s_debug_event_def)
  show ?thesis
    by (rule exI [of _ b1], rule exI [of _ b], rule exI [of _ c1], rule exI [of _ c])
      (intro conjI b(1,2,5) c(1-6,8-10) b(7-9) [folded c(7)])
qed

text \<open>Registration of a vendor library: unless the self-check of the tables ends the process, the event
  loop is running afterwards and watches exactly the wakeup pipe, the listening socket and the debug
  socket, each with its callback.\<close>

theorem register_listens:
  assumes name: "cstring (st_rild r) = Some name" "debug_socket_name E name = Some dname"
    and v: "st_version r = Some v" "sint (K E ''RIL_VERSION_MIN'') \<le> v" "v \<le> sint (K E ''RIL_VERSION'')"
    and s: "\<not> s_registerCalled s" "\<not> s_started s"
    and r: "st_thread r" "st_pipe r = Some (rd, wr)" "fl = st_control_socket r name"
      "fd = st_control_socket r dname" "st_listen_ok r fl" "st_listen_ok r fd" "distinct [rd, fl, fd]"
      "list_all (\<lambda>x. 0 \<le> x \<and> x < FD_SETSIZE) [rd, fl, fd]"
  shows "\<exists>s'. RIL_register E r s = (if tables_aligned E then Some s' else None) \<and> s_registerCalled s' \<and> s_started s' \<and> s_version s' = v \<and>
    s_fdListen s' = fl \<and> s_fdDebug s' = fd \<and> watch_ok s' \<and>
    watched s' = {s_wakeupfd_event, s_listen_event, s_debug_event} \<and>
    map (\<lambda>e. (ev_fd (mem s' e), ev_func (mem s' e), ev_persist (mem s' e)))
      [s_wakeupfd_event, s_listen_event, s_debug_event] =
      [(rd, processWakeupCallback_fn, True), (fl, listenCallback_fn, False), (fd, debugCallback_fn, True)]"
proof -
  define s0 where "s0 = (case st_extlog r of None \<Rightarrow> s | Some x \<Rightarrow> s\<lparr>extlog := (if sint x < 0 then 0 else x)\<rparr>)"
  define s1 where "s1 = s0\<lparr>s_version := v, s_registerCalled := True\<rparr>"
  have s0: "s_registerCalled s0 = s_registerCalled s" "s_started s0 = s_started s"
    by (simp_all add: s0_def split: option.split)
  have s1: "\<not> s_started s1" using s(2) s0 by (simp add: s1_def)
  obtain a where a: "RIL_startEventLoop r s1 = Some a" "watch_ok a" "watched a = {s_wakeupfd_event}"
    "ev_state.more a = ev_state.more (s1\<lparr>s_started := True, s_fdWakeupRead := rd, s_fdWakeupWrite := wr\<rparr>)"
    "ev_fd (mem a s_wakeupfd_event) = rd" "ev_func (mem a s_wakeupfd_event) = processWakeupCallback_fn"
    "ev_persist (mem a s_wakeupfd_event)"
    using startEventLoop_watches [OF s1 r(1,2)] r(8) by auto
  obtain b1 b c1 c where bc: "ril_event_set s_listen_event fl False listenCallback_fn NULL (a\<lparr>s_fdListen := fl\<rparr>) = Some b1"
    "ril_event_add s_listen_event b1 = Some b"
    "ril_event_set s_debug_event fd True debugCallback_fn NULL ((triggerEvLoop b)\<lparr>s_fdDebug := fd\<rparr>) = Some c1"
    "ril_event_add s_debug_event c1 = Some c"
    and more: "ev_state.more b = ev_state.more (a\<lparr>s_fdListen := fl\<rparr>)"
      "ev_state.more c = ev_state.more ((triggerEvLoop b)\<lparr>s_fdDebug := fd\<rparr>)"
    and c: "watch_ok c" "watched c = {s_debug_event, s_listen_event, s_wakeupfd_event}"
      "mem c s_wakeupfd_event = mem a s_wakeupfd_event"
      "ev_fd (mem c s_listen_event) = fl" "ev_func (mem c s_listen_event) = listenCallback_fn"
      "\<not> ev_persist (mem c s_listen_event)" "ev_fd (mem c s_debug_event) = fd"
      "ev_func (mem c s_debug_event) = debugCallback_fn" "ev_persist (mem c s_debug_event)"
    using sockets_added [OF a(2,3,5) r(7,8)] by blast
  have run: "RIL_register E r s = (if tables_aligned E then Some (triggerEvLoop c) else None)"
    unfolding RIL_register_def RIL_getRilSocketName_def name(1) s0_def [symmetric]
    using v s s0 a(1) r(3-6,8) bc name(2) s1
    by (simp add: s1_def [symmetric] rilEventAddWakeup_def)
  have g: "s_registerCalled (triggerEvLoop c)" "s_started (triggerEvLoop c)" "s_version (triggerEvLoop c) = v"
    "s_fdListen (triggerEvLoop c) = fl" "s_fdDebug (triggerEvLoop c) = fd" "mem (triggerEvLoop c) = mem c"
    using more_eqD(8,9,15-17) [OF more(2)] more_eqD(8,9,15-17) [OF more(1)] more_eqD(8,9,15-17) [OF a(4)]
    by (simp_all add: triggerEvLoop_def s1_def)
  have w: "watch_ok (triggerEvLoop c)"
    "watched (triggerEvLoop c) = {s_wakeupfd_event, s_listen_event, s_debug_event}"
    using c(1,2) by (auto simp: triggerEvLoop_def watch_ok_def watched_def)
  show ?thesis
    by (rule exI [of _ "triggerEvLoop c"]) (use run g w c(3-9) a(5-7) in simp)
qed

theorem register_listens_witness:
  "\<exists>s'. RIL_register (sys_env\<lparr>sizeof := (\<lambda>n. if n = ''MAX_SOCKET_NAME_LENGTH'' then 6 else 12)\<rparr>)
       \<lparr>st_rild = ''rild'' @ [CHR 0x00, CHR 0x00], st_version = Some 13, st_extlog = None, st_thread = True,
        st_pipe = Some (3, 4), st_control_socket = (\<lambda>n. if n = ''rild'' then 5 else 6), st_listen_ok = (\<lambda>_. True)\<rparr>
       (demo_ril\<lparr>s_registerCalled := False, s_started := False\<rparr>) =
       (if tables_aligned (sys_env\<lparr>sizeof := (\<lambda>n. if n = ''MAX_SOCKET_NAME_LENGTH'' then 6 else 12)\<rparr>)
        then Some s' else None) \<and>
     watched s' = {s_wakeupfd_event, s_listen_event, s_debug_event}"
proof -
  let ?E = "sys_env\<lparr>sizeof := (\<lambda>n. if n = ''MAX_SOCKET_NAME_LENGTH'' then 6 else 12)\<rparr>"
  let ?r = "\<lparr>st_rild = ''rild'' @ [CHR 0x00, CHR 0x00], st_version = Some 13, st_extlog = None, st_thread = True,
    st_pipe = Some (3, 4), st_control_socket = (\<lambda>n. if n = ''rild'' then 5 else 6), st_listen_ok = (\<lambda>_. True)\<rparr>
    :: start_env"
  have "cstring (st_rild ?r) = Some ''rild''" by (simp add: cstring_def)
  moreover have "debug_socket_name ?E ''rild'' = Some ''rild-debug''"
    by (simp add: debug_socket_name_def SOCKET_NAME_RIL_def SOCKET_NAME_RIL_DEBUG_def)
  moreover have "K ?E ''RIL_VERSION_MIN'' = 6" "K ?E ''RIL_VERSION'' = 13" by (simp_all add: sys_env_def)
  ultimately show ?thesis
    using register_listens [of ?r "''rild''" ?E "''rild-debug''" 13 "demo_ril\<lparr>s_registerCalled := False, s_started := False\<rparr>"
        3 4 5 6] by (auto simp: FD_SETSIZE_def)
qed

end
