(* ===== verification/Ril_Loop.thy ===== *)
theory Ril_Loop
  imports Ril_Behaviour
begin

text \<open>
  A turn of the event loop in which timers expire: the lists of the loop while the vendor library,
  called by a timer, calls back into the library, and the firing of all timers that are due.
\<close>

section \<open>The lists of the loop during the calls of the vendor library\<close>

text \<open>Every listed timer is a live \<open>UserCallbackInfo\<close> whose event calls \<open>userTimerCallback\<close> with it.\<close>

definition timers_ok :: "ril_state \<Rightarrow> ptr list \<Rightarrow> bool" where
  "timers_ok s ts \<longleftrightarrow> (\<forall>t \<in> set ts. t \<in> info_live s \<and>
     ev_func (mem s t) = userTimerCallback_fn \<and> ev_param (mem s t) = t)"

text \<open>
  The state between two calls: the requests and the timers are well formed, \<open>ts\<close> is the timer list
  and \<open>ps\<close> the timers that are still to fire, and the allocator does not hand out the list heads.
\<close>

definition turn_ok :: "ril_state \<Rightarrow> ptr list \<Rightarrow> ptr list \<Rightarrow> bool" where
  "turn_ok s ts ps \<longleftrightarrow> req_inv s \<and> timer_inv s \<and> lists_ok (mem s) ts ps \<and> timers_ok s (ts @ ps) \<and>
     set (w_alloc (world s)) \<inter> {timer_list, pending_list} = {}"

text \<open>A call adds timers, all of them new blocks, and leaves those that are to fire alone.\<close>

definition grown :: "ril_state \<Rightarrow> ptr list \<Rightarrow> ril_state \<Rightarrow> ptr list \<Rightarrow> bool" where
  "grown s ts s' ts' \<longleftrightarrow> later s s' \<and> info_live s' = info_live s \<union> set ts' \<and>
     set ts \<subseteq> set ts' \<and> set ts' \<subseteq> set ts \<union> set (w_alloc (world s))"

definition adds_timers :: "ril_state \<Rightarrow> ril_state \<Rightarrow> bool" where
  "adds_timers s s' \<longleftrightarrow> (\<forall>ts ps. turn_ok s ts ps \<longrightarrow> (\<exists>ts'. turn_ok s' ts' ps \<and> grown s ts s' ts'))"

lemma turn_live: "turn_ok s ts ps \<Longrightarrow> set ts \<union> set ps \<subseteq> info_live s"
  by (auto simp: turn_ok_def timers_ok_def)

lemma turn_fresh: "turn_ok s ts ps \<Longrightarrow> set (w_alloc (world s)) \<inter> info_live s = {}"
  by (auto simp: turn_ok_def timer_inv_def alloc_ok_def)

lemma grown_trans:
  assumes "grown s ts t ts1" "grown t ts1 u ts2"
  shows "grown s ts u ts2"
proof -
  have "later s u" using assms later_trans [of s t u] by (simp add: grown_def)
  moreover have "set (w_alloc (world t)) \<subseteq> set (w_alloc (world s))" using assms(1) by (simp add: grown_def later_alloc)
  ultimately show ?thesis using assms unfolding grown_def by auto
qed

lemma adds_timers_trans: "adds_timers s t \<Longrightarrow> adds_timers t u \<Longrightarrow> adds_timers s u"
  unfolding adds_timers_def by (meson grown_trans)

lemma adds_timers_same:
  assumes "\<And>ts ps. turn_ok s ts ps \<Longrightarrow> turn_ok s' ts ps" "info_live s' = info_live s" "later s s'"
  shows "adds_timers s s'"
  unfolding adds_timers_def
proof (intro allI impI)
  fix ts ps assume ok: "turn_ok s ts ps"
  then have "grown s ts s' ts" using assms(2,3) turn_live [OF ok] by (auto simp: grown_def)
  with assms(1) [OF ok] show "\<exists>ts'. turn_ok s' ts' ps \<and> grown s ts s' ts'" by blast
qed

lemma adds_timers_keeps:
  assumes "keeps_wake s s'" "mem s' = mem s" "req_inv s \<Longrightarrow> req_inv s'"
  shows "adds_timers s s'"
proof (rule adds_timers_same)
  show live: "info_live s' = info_live s" and "later s s'" using assms(1) by (auto simp: keeps_wake_def wake_part_def)
  then have "set (w_alloc (world s')) \<subseteq> set (w_alloc (world s))" by (intro later_alloc)
  then show "turn_ok s' ts ps" if "turn_ok s ts ps" for ts ps
    using that assms(2,3) live keeps_timer_inv [OF assms(1)] unfolding turn_ok_def timers_ok_def by auto
qed

text \<open>A new timer in the lists.\<close>

lemma timed_callback_lists:
  assumes "internalRequestTimedCallback cb param rt s = Some (a, s')"
    and "lists_ok (mem s) ts ps" "timers_ok s (ts @ ps)" "alloc_ok (w_alloc (world s)) (info_live s)"
    and "set (w_alloc (world s)) \<inter> {timer_list, pending_list} = {}"
  shows "\<exists>xs ys. ts = xs @ ys \<and> lists_ok (mem s') (xs @ a # ys) ps \<and> timers_ok s' ((xs @ a # ys) @ ps) \<and> a \<notin> info_live s"
proof -
  note d = timed_callbackD [OF assms(1)]
  have fresh: "a \<notin> info_live s" using assms(4) d(1) by (auto simp: alloc_ok_def)
  have new: "a \<notin> set (timer_list # pending_list # ts @ ps)"
    using assms(3,5) fresh d(1) by (auto simp: timers_ok_def)
  define tv where "tv = (case rt of None \<Rightarrow> Timeval 0 0 | Some t \<Rightarrow> t)"
  have run: "internalRequestTimedCallback cb param (Some tv) s = Some (a, s')"
    using assms(1) by (cases rt) (simp_all add: internalRequestTimedCallback_def tv_def)
  obtain s0 xs ys where r0: "internalRequestTimedCallback cb param (Some tv) s = Some (a, s0)" "ts = xs @ ys"
    "lists_ok (mem s0) (xs @ a # ys) ps" "ev_func (mem s0 a) = userTimerCallback_fn" "ev_param (mem s0 a) = a"
    "\<forall>x. x \<noteq> a \<longrightarrow> payload (mem s0 x) = payload (mem s x)"
    using timed_callback_runs [OF assms(2) d(1,2) new, of cb param tv] by blast
  have "s0 = s'" using r0(1) run by simp
  note r = r0(2-6) [unfolded this]
  have "ev_func (mem s' x) = userTimerCallback_fn \<and> ev_param (mem s' x) = x" if "x \<in> set (ts @ ps)" for x
    using r(3-5) assms(3) that by (cases "x = a") (simp_all add: timers_ok_def payload_def)
  then have "timers_ok s' ((xs @ a # ys) @ ps)"
    using assms(3) r(1,3,4) d(4) unfolding timers_ok_def by auto
  with r fresh show ?thesis by blast
qed

lemma adds_timers_new:
  assumes "internalRequestTimedCallback cb param rt u = Some (a, s')"
    and "lists_ok (mem u) ts ps" "timers_ok u (ts @ ps)" "alloc_ok (w_alloc (world u)) (info_live u)"
    and "set (w_alloc (world u)) \<inter> {timer_list, pending_list} = {}" "req_inv s'" "timer_inv s''"
    and s'': "mem s'' = mem s'" "info_live s'' = info_live s'" "world s'' = world s'" "req_part s'' = req_part s'"
  shows "\<exists>ts'. turn_ok s'' ts' ps \<and> grown u ts s'' ts'"
proof -
  note d = timed_callbackD [OF assms(1)]
  obtain xs ys where r: "ts = xs @ ys" "lists_ok (mem s') (xs @ a # ys) ps" "timers_ok s' ((xs @ a # ys) @ ps)"
    "a \<notin> info_live u"
    using timed_callback_lists [OF assms(1-5)] by blast
  have "req_inv s''" using assms(6) s''(3,4) req_inv_later [of s'' s'] by (simp add: later_same)
  moreover have "set (w_alloc (world s'')) \<inter> {timer_list, pending_list} = {}" using assms(5) d(1) s''(3) by auto
  ultimately have "turn_ok s'' (xs @ a # ys) ps" using r assms(7) s'' by (simp add: turn_ok_def timers_ok_def)
  moreover have "grown u ts s'' (xs @ a # ys)"
    using d(1,4) s''(2,3) assms(3) r(1) later_tl [of s'' u] by (auto simp: timers_ok_def grown_def)
  ultimately show ?thesis by blast
qed

lemma adds_timers_timed:
  assumes "RIL_requestTimedCallback cb param rt s = Some s'" "cb \<noteq> wakeTimeoutCallback_fn"
  shows "adds_timers s s'"
  unfolding adds_timers_def
proof (intro allI impI)
  fix ts ps assume ok: "turn_ok s ts ps"
  obtain a where a: "internalRequestTimedCallback cb param rt s = Some (a, s')"
    using assms(1) by (auto simp: RIL_requestTimedCallback_def)
  have "wstep s s'" by (rule vendor_timer_wstep [OF assms])
  then have "req_inv s'" "timer_inv s'" using ok req_inv_later [of s' s] by (auto simp: wstep_def turn_ok_def)
  with adds_timers_new [OF a, of ts ps s'] ok
  show "\<exists>ts'. turn_ok s' ts' ps \<and> grown s ts s' ts'" by (simp add: turn_ok_def timer_inv_def)
qed

lemma adds_timers_schedule:
  assumes "schedule_release s = Some s'"
  shows "adds_timers s s'"
  unfolding adds_timers_def
proof (intro allI impI)
  fix ts ps assume ok: "turn_ok s ts ps"
  let ?l = "s_last_wake_timeout_info s"
  define t where "t = (if ?l \<noteq> NULL then s\<lparr>infos := (infos s)(?l := (infos s ?l)\<lparr>uc_userParam := 1\<rparr>)\<rparr> else s)"
  obtain a u where a: "internalRequestTimedCallback wakeTimeoutCallback_fn NULL
      (Some TIMEVAL_WAKE_TIMEOUT) t = Some (a, u)" "s' = u\<lparr>s_last_wake_timeout_info := a\<rparr>"
    using assms by (auto simp: schedule_release_def t_def st_info_def bind_eq_Some_conv split: if_splits)
  have t: "mem t = mem s" "info_live t = info_live s" "world t = world s" by (simp_all add: t_def)
  have s': "timer_inv s'" "req_part s' = req_part s" "later s s'"
    using schedule_release_inv [OF assms] ok by (simp_all add: turn_ok_def)
  have "req_part u = req_part s'" "later s u" using a(2) s'(3) by (simp_all add: req_part_def later_def)
  then have "req_inv u" using req_inv_later [of u s] s'(2) ok by (simp add: turn_ok_def)
  with adds_timers_new [OF a(1), of ts ps s'] ok s'(1) a(2) t
  show "\<exists>ts'. turn_ok s' ts' ps \<and> grown s ts s' ts'"
    by (simp add: turn_ok_def timers_ok_def grown_def later_def timer_inv_def req_part_def)
qed

interpretation at: response_relation adds_timers
proof
  fix s t u s' :: ril_state and bs v d b
  have same: "adds_timers s x" if "wake_part x = wake_part s" "req_part x = req_part s" "world x = world s" "mem x = mem s" for x
    using that req_inv_later [of x s] by (intro adds_timers_keeps keeps_wakeI) (simp_all add: later_same)
  show "adds_timers s s" by (rule same) simp_all
  show "adds_timers s t \<Longrightarrow> adds_timers t u \<Longrightarrow> adds_timers s u" by (rule adds_timers_trans)
  show "adds_timers s (s\<lparr>voiceRadioTech := v\<rparr>)" "adds_timers s (s\<lparr>cdmaSubscriptionSource := v\<rparr>)"
    "adds_timers s (s\<lparr>simRuimStatus := v\<rparr>)" "adds_timers s (s\<lparr>s_lastNITZTimeData := d\<rparr>)"
    by (rule same; simp add: wake_part_def req_part_def)+
  show "adds_timers s (s\<lparr>wake_lock := b\<rparr>)"
    by (rule adds_timers_same) (simp_all add: turn_ok_def timers_ok_def timer_inv_def req_inv_def pending_def later_def)
  show "adds_timers s (snd (sendResponseRaw bs s))"
  proof (rule adds_timers_keeps)
    note q = sendResponseRaw_quiet [of bs s]
    show "keeps_wake s (snd (sendResponseRaw bs s))" by (rule keeps_wake_rest [OF rest_of_quiet [OF q]])
    then show "req_inv s \<Longrightarrow> req_inv (snd (sendResponseRaw bs s))"
      using req_inv_later [OF req_part_quiet [OF q]] by (simp add: keeps_wake_def)
    show "mem (snd (sendResponseRaw bs s)) = mem s" by (rule quiet_eqD(1) [OF q])
  qed
  show "schedule_release s = Some s' \<Longrightarrow> adds_timers s s'" by (rule adds_timers_schedule)
qed

lemma adds_timers_complete:
  assumes "RIL_onRequestComplete E t e d n s = Some s'"
  shows "adds_timers s s'"
proof (cases "req_inv s")
  case True
  then obtain xs where "pending s xs" by (auto simp: req_inv_def)
  then have "rest_of s' = rest_of s" using complete_rest [OF _ assms] by simp
  then have "mem (rest_of s') = mem (rest_of s)" by simp
  then have "mem s' = mem s" by (simp add: rest_of_def unlinked_def quiet_def)
  with complete_keeps [OF True assms] complete_inv [OF True assms] show ?thesis by (intro adds_timers_keeps)
next
  case False
  then show ?thesis by (simp add: adds_timers_def turn_ok_def)
qed

lemma vendor_calls_add: "list_all nameable cs \<Longrightarrow> vendor_calls E cs s = Some s' \<Longrightarrow> adds_timers s s'"
proof (induction E cs s rule: vendor_calls.induct)
  case (2 E t e d n cs s)
  then show ?case using at.trans [OF adds_timers_complete] by (auto simp: bind_eq_Some_conv)
next
  case (3 E c d n cs s)
  then show ?case using at.trans [OF at.onUnsolicitedResponse] by (auto simp: bind_eq_Some_conv)
next
  case (4 E cb param rt cs s)
  then show ?case using at.trans [OF adds_timers_timed] by (auto simp: bind_eq_Some_conv nameable_def)
qed (simp add: at.refl)

section \<open>Timers that are due\<close>

text \<open>What is asked of the vendor library: the calls that its timed callbacks make do not fault.\<close>

definition vendor_runs :: "'p env \<Rightarrow> vendor \<Rightarrow> bool" where
  "vendor_runs E V \<longleftrightarrow> (\<forall>cb param s ts ps. turn_ok s ts ps \<and> held s \<longrightarrow> vendor_calls E (V cb param s) s \<noteq> None)"

lemma vendor_callback_runs:
  assumes "turn_ok s ts ps" "held s" "vendor_names V" "vendor_runs E V"
  shows "\<exists>t ts'. vendor_callback E V cb param s = Some t \<and> turn_ok t ts' ps \<and>
    grown s ts t ts'"
proof -
  let ?s = "s\<lparr>timer_calls := timer_calls s @ [(cb, param)]\<rparr>"
  have ok: "turn_ok ?s ts ps" "held ?s" "grown ?s ts t ts' = grown s ts t ts'" for t ts'
    using assms(1,2) by (simp_all add: turn_ok_def timers_ok_def timer_inv_def req_inv_def pending_def held_def grown_def later_def)
  then obtain t where t: "vendor_calls E (V cb param ?s) ?s = Some t" using assms(4) unfolding vendor_runs_def by blast
  have "adds_timers ?s t" using vendor_calls_add [OF _ t] assms(3) by (simp add: vendor_names_def)
  then obtain ts' where "turn_ok t ts' ps" "grown s ts t ts'" using ok unfolding adds_timers_def by blast
  then show ?thesis using t by (auto simp: vendor_callback_def Let_def)
qed

text \<open>One timer that expires, taken off the list of those to fire.\<close>

definition fired :: "ptr set \<Rightarrow> ril_state \<Rightarrow> ptr list \<Rightarrow> ril_state \<Rightarrow> ptr list \<Rightarrow> bool" where
  "fired D s ts s' ts' \<longleftrightarrow> held s' \<and> later s s' \<and> info_live s' = (info_live s - D) \<union> set ts' \<and>
     set ts \<subseteq> set ts' \<and> set ts' \<subseteq> set ts \<union> set (w_alloc (world s)) \<and>
     (\<forall>p \<in> info_live s - D. uc_callback (infos s' p) = uc_callback (infos s p)) \<and>
     s_last_wake_timeout_info s' \<in> {NULL, s_last_wake_timeout_info s} \<union> set (w_alloc (world s)) \<and>
     ((\<forall>p \<in> D. uc_callback (infos s p) = wakeTimeoutCallback_fn) \<longrightarrow>
        set ts' = set ts \<and> s_last_wake_timeout_info s' \<in> {NULL, s_last_wake_timeout_info s})"

lemma fired_trans:
  assumes "fired A s ts t ts1" "fired B t ts1 u ts2" "B \<subseteq> info_live s - A" "B \<inter> set ts1 = {}"
  shows "fired (A \<union> B) s ts u ts2"
proof -
  have a: "later s t" "info_live t = (info_live s - A) \<union> set ts1" "set ts \<subseteq> set ts1"
    "set ts1 \<subseteq> set ts \<union> set (w_alloc (world s))"
    "\<forall>p \<in> info_live s - A. uc_callback (infos t p) = uc_callback (infos s p)"
    "s_last_wake_timeout_info t \<in> {NULL, s_last_wake_timeout_info s} \<union> set (w_alloc (world s))"
    "(\<forall>p \<in> A. uc_callback (infos s p) = wakeTimeoutCallback_fn) \<longrightarrow>
       set ts1 = set ts \<and> s_last_wake_timeout_info t \<in> {NULL, s_last_wake_timeout_info s}"
    using assms(1) by (simp_all add: fired_def)
  have b: "held u" "later t u" "info_live u = (info_live t - B) \<union> set ts2" "set ts1 \<subseteq> set ts2"
    "set ts2 \<subseteq> set ts1 \<union> set (w_alloc (world t))"
    "\<forall>p \<in> info_live t - B. uc_callback (infos u p) = uc_callback (infos t p)"
    "s_last_wake_timeout_info u \<in> {NULL, s_last_wake_timeout_info t} \<union> set (w_alloc (world t))"
    "(\<forall>p \<in> B. uc_callback (infos t p) = wakeTimeoutCallback_fn) \<longrightarrow>
       set ts2 = set ts1 \<and> s_last_wake_timeout_info u \<in> {NULL, s_last_wake_timeout_info t}"
    using assms(2) by (simp_all add: fired_def)
  have l: "later s u" by (rule later_trans [OF a(1) b(2)])
  have w: "set (w_alloc (world t)) \<subseteq> set (w_alloc (world s))" by (rule later_alloc [OF a(1)])
  have live: "info_live u = (info_live s - (A \<union> B)) \<union> set ts2" using a(2) b(3,4) assms(4) by auto
  have sub: "set ts \<subseteq> set ts2" "set ts2 \<subseteq> set ts \<union> set (w_alloc (world s))" using a(3,4) b(4,5) w by auto
  have cb: "\<forall>p \<in> info_live s - (A \<union> B). uc_callback (infos u p) = uc_callback (infos s p)" using a(2,5) b(6) by auto
  have last: "s_last_wake_timeout_info u \<in> {NULL, s_last_wake_timeout_info s} \<union> set (w_alloc (world s))"
    using a(6) b(7) w by auto
  have "set ts2 = set ts \<and> s_last_wake_timeout_info u \<in> {NULL, s_last_wake_timeout_info s}"
    if wake: "\<forall>p \<in> A \<union> B. uc_callback (infos s p) = wakeTimeoutCallback_fn"
  proof -
    have "\<forall>p \<in> B. uc_callback (infos t p) = wakeTimeoutCallback_fn" using wake a(5) assms(3) by auto
    then show ?thesis using a(7) b(8) wake by auto
  qed
  then show ?thesis unfolding fired_def using b(1) l live sub cb last by simp
qed

lemma timer_fires:
  assumes "turn_ok s ts xs" "held s" "timers_ok s [x]" "x \<notin> set (ts @ xs)" "vendor_names V" "vendor_runs E V"
  shows "\<exists>s1 ts1. userTimerCallback E V x s = Some s1 \<and> turn_ok s1 ts1 xs \<and> fired {x} s ts s1 ts1"
proof -
  have c: "core_inv s" and ti: "timer_inv s" and x: "x \<in> info_live s"
    using assms(1-3) by (simp_all add: turn_ok_def core_inv_on_def timers_ok_def)
  have step: "turn_ok s1 ts1 xs \<and> held s1"
    if "userTimerCallback E V x s = Some s1" "turn_ok t ts1 xs" "mem s1 = mem t" "world s1 = world t"
      "info_live s1 = info_live t - {x}" "x \<notin> set ts1" for s1 t ts1
    using core_inv_timer [OF c assms(5) spares_none(3) that(1)] that(2-6) assms(4)
    by (auto simp: turn_ok_def timers_ok_def core_inv_on_def)
  show ?thesis
  proof (cases "uc_callback (infos s x) = wakeTimeoutCallback_fn")
    case True
    then obtain s1 where s1: "userTimerCallback E V x s = Some s1" "mem s1 = mem s" "world s1 = world s"
      "info_live s1 = info_live s - {x}" "infos s1 = infos s" "s_last_wake_timeout_info s1 \<in> {NULL, s_last_wake_timeout_info s}"
      using wake_timer_expires [OF ti x True, of E V] by (auto split: if_splits)
    have "x \<notin> set ts" "set ts \<subseteq> info_live s" using assms(4) turn_live [OF assms(1)] by auto
    with s1 step [OF s1(1) assms(1) s1(2-4)] show ?thesis by (auto simp: fired_def later_def)
  next
    case False
    obtain t ts1 where t: "vendor_callback E V (uc_callback (infos s x)) (uc_userParam (infos s x)) s = Some t"
      "turn_ok t ts1 xs" "grown s ts t ts1"
      using vendor_callback_runs [OF assms(1,2,5,6)] by blast
    let ?s1 = "t\<lparr>info_live := info_live t - {x}\<rparr>"
    have run: "userTimerCallback E V x s = Some ?s1"
      unfolding vendor_timer_expires [OF c assms(5) x False] t(1) by simp
    have stay: "timers_stay s t" using core_inv_callback [OF c assms(5) spares_none(3) t(1)] by simp
    have n: "x \<notin> set ts1" using t(3) x assms(4) turn_fresh [OF assms(1)] by (auto simp: grown_def)
    have "turn_ok ?s1 ts1 xs \<and> held ?s1" by (rule step [OF run t(2)]) (simp_all add: n)
    moreover have "fired {x} s ts ?s1 ts1"
      using calculation stay ti t(3) n False by (auto simp: fired_def timers_stay_def grown_def later_def)
    ultimately show ?thesis using run by blast
  qed
qed

lemma callback_timer: "ril_callback E V inp userTimerCallback_fn fd p s = userTimerCallback E V p s"
  by (simp add: ril_callback_def processCommandsCallback_fn_def processWakeupCallback_fn_def
      listenCallback_fn_def debugCallback_fn_def userTimerCallback_fn_def)

text \<open>All of them.\<close>

lemma turn_unlink:
  assumes ok: "turn_ok s ts (x # xs)"
  shows "\<exists>h. removeFromList x (mem s) = Some h \<and> ev_next (mem s x) = hd (xs @ [pending_list]) \<and>
    turn_ok (s\<lparr>mem := h\<rparr>) ts xs \<and> timers_ok (s\<lparr>mem := h\<rparr>) [x]"
proof -
  note o = ok [unfolded turn_ok_def]
  have l: "dll (mem s) timer_list ts" "dll (mem s) pending_list (x # xs)" "sep timer_list ts pending_list (x # xs)"
    "sorted (map (\<lambda>a. ev_timeout (mem s a)) ts)"
    using o by (simp_all add: lists_ok_def)
  obtain h where h: "removeFromList x (mem s) = Some h" "dll h pending_list xs"
    "\<forall>a. a \<notin> set (pending_list # x # xs) \<longrightarrow> h a = mem s a" "\<forall>a. payload (h a) = payload (mem s a)"
    using evl.remove_elem [of "mem s" pending_list "[]" x xs] l(2) by auto
  have eq: "ev_timeout (h a) = ev_timeout (mem s a)" "ev_func (h a) = ev_func (mem s a)" "ev_param (h a) = ev_param (mem s a)" for a
    using h(4) by (simp_all add: payload_def)
  have "h a = mem s a" if "a \<in> set (timer_list # ts)" for a using that h(3) l(3) by (auto simp: sep_def disjoint_iff)
  then have "dll h timer_list ts" using evl.repr_frame [OF l(1)] by blast
  then have "lists_ok h ts xs" using h(2) l(3,4) by (auto simp: lists_ok_def sep_def eq)
  then have "turn_ok (s\<lparr>mem := h\<rparr>) ts xs" "timers_ok (s\<lparr>mem := h\<rparr>) [x]"
    using o by (simp_all add: turn_ok_def timers_ok_def eq timer_inv_def req_inv_def pending_def)
  moreover have "ev_next (mem s x) = hd (xs @ [pending_list])"
    using dll_next_elem [of "mem s" pending_list "[]" x xs] l(2) by simp
  ultimately show ?thesis using h(1) by blast
qed

lemma timers_fire:
  assumes "turn_ok s ts ps" "held s" "vendor_names V" "vendor_runs E V"
  shows "\<exists>s' ts'. fire_loop (ril_callback E V inp) (hd (ps @ [pending_list])) s = Some s' \<and>
    turn_ok s' ts' [] \<and> fired (set ps) s ts s' ts'"
  using assms(1,2)
proof (induction ps arbitrary: s ts)
  case Nil
  moreover have "fired {} s ts s ts" using Nil turn_live [of s ts "[]"] by (auto simp: fired_def)
  ultimately show ?case by (subst fire_loop.simps) auto
next
  case (Cons x xs)
  obtain h where h: "removeFromList x (mem s) = Some h" "ev_next (mem s x) = hd (xs @ [pending_list])"
    "turn_ok (s\<lparr>mem := h\<rparr>) ts xs" "timers_ok (s\<lparr>mem := h\<rparr>) [x]"
    using turn_unlink [OF Cons.prems(1)] by blast
  have nn: "x \<noteq> NULL" "x \<noteq> pending_list" "distinct (x # xs)" "x \<notin> set ts" "set xs \<inter> set ts = {}"
    using Cons.prems(1) by (auto simp: turn_ok_def lists_ok_def dll_def sep_def)
  have "held (s\<lparr>mem := h\<rparr>)" using Cons.prems(2) by (simp add: held_def)
  from timer_fires [OF h(3) this h(4) _ assms(3,4)] nn obtain s1 ts1 where
    s1: "userTimerCallback E V x (s\<lparr>mem := h\<rparr>) = Some s1" "turn_ok s1 ts1 xs" "fired {x} (s\<lparr>mem := h\<rparr>) ts s1 ts1"
    by auto
  have f1: "fired {x} s ts s1 ts1" using s1(3) by (simp add: fired_def later_def)
  then obtain s' ts' where s': "fire_loop (ril_callback E V inp) (hd (xs @ [pending_list])) s1 = Some s'"
    "turn_ok s' ts' []" "fired (set xs) s1 ts1 s' ts'"
    using Cons.IH [OF s1(2)] by (auto simp: fired_def)
  have xf: "ev_func (h x) = userTimerCallback_fn" "ev_param (h x) = x" using h(4) by (simp_all add: timers_ok_def)
  have "fire_loop (ril_callback E V inp) (hd ((x # xs) @ [pending_list])) s = Some s'"
    using nn(1,2) h(1,2) s'(1) s1(1) xf by (subst fire_loop.simps) (simp add: callback_timer)
  moreover have xs: "set xs \<subseteq> info_live s - {x}" using turn_live [OF Cons.prems(1)] nn(3) by auto
  moreover have "set ts1 \<subseteq> set ts \<union> set (w_alloc (world s))" using f1 by (simp add: fired_def)
  then have "set xs \<inter> set ts1 = {}" using xs turn_fresh [OF Cons.prems(1)] nn(5) by blast
  then have "fired ({x} \<union> set xs) s ts s' ts'" by (rule fired_trans [OF f1 s'(3) xs])
  ultimately show ?case using s'(2) by auto
qed

text \<open>The vendor library of the examples meets what is asked of it.\<close>

lemma demo_vendor_runs: "vendor_runs sys_env demo_vendor"
  unfolding vendor_runs_def
proof (intro allI impI)
  fix cb param s ts ps assume "turn_ok s ts ps \<and> held s"
  then have ok: "lists_ok (mem s) ts ps" "timers_ok s (ts @ ps)" "timer_inv s"
    "set (w_alloc (world s)) \<inter> {timer_list, pending_list} = {}"
    by (simp_all add: turn_ok_def)
  show "vendor_calls sys_env (demo_vendor cb param s) s \<noteq> None"
  proof (cases "s_registerCalled s \<and> w_alloc (world s) \<noteq> []")
    case True
    then obtain a as where a: "w_alloc (world s) = a # as" by (cases "w_alloc (world s)") auto
    have "a \<noteq> NULL" "a \<notin> info_live s" using ok(3) a by (auto simp: timer_inv_def alloc_ok_def)
    moreover have "a \<notin> set (timer_list # pending_list # ts @ ps)" using ok(2,4) a calculation(2) by (auto simp: timers_ok_def)
    moreover have "s_last_wake_timeout_info s = NULL \<or> s_last_wake_timeout_info s \<in> info_live s"
      using ok(3) by (auto simp: timer_inv_def)
    ultimately show ?thesis
      using unsolicited_runs [of s 1 sys_env 1001 VNull 0 "[]" _ ts ps a as] sys_row1 ok(1) a True
      by (auto simp: demo_vendor_def responseVoid_def ok_resp_def more_payload_def)
  next
    case False
    then have "demo_vendor cb param s = []" unfolding demo_vendor_def by (rule if_not_P)
    then show ?thesis by simp
  qed
qed

end
