(* ===== verification/Byte_Words.thy ===== *)
theory Byte_Words
  imports Ril_Prelude
begin

text \<open>
  What the components outside \<^verbatim>\<open>libril\<close> share. Bytes of 32-bit words, for the code that packs and unpacks them
  with shifts and masks: the value of a byte as a quotient and a remainder, and shifts of a non-negative
  \<^verbatim>\<open>int\<close>. Numbers as text, as \<^verbatim>\<open>printf\<close> writes and \<^verbatim>\<open>strtol\<close> reads them, and copying into an array.
\<close>

unbundle bit_operations_syntax

section \<open>Shifts and masks\<close>

text \<open>Signed and unsigned reading and shifting of a non-negative \<^verbatim>\<open>int\<close> agree.\<close>

lemma sint_small:
  fixes w :: "32 word"
  assumes "unat w < 2 ^ 31"
  shows "sint w = int (unat w)"
proof -
  have "int (unat w) < int (2 ^ 31)" using assms by (simp only: of_nat_less_iff)
  then have "uint w < 2 ^ 31" by simp
  moreover have "- (2 ^ 31) \<le> uint w" by (rule order.trans [OF _ unsigned_greater_eq]) simp
  ultimately have "signed_take_bit 31 (uint w) = uint w" by (intro signed_take_bit_int_eq_self)
  then show ?thesis by (simp add: sint_uint)
qed

lemma unat_byte_less: "unat w < 256" for w :: u8
proof -
  have "unat w < 2 ^ LENGTH(8)" by (rule unsigned_less)
  then show ?thesis by simp
qed

lemma unat_word_less: "unat w < 2 ^ 32" for w :: "32 word"
proof -
  have "unat w < 2 ^ LENGTH(32)" by (rule unsigned_less)
  then show ?thesis by simp
qed

lemma unat_shift: "unat (drop_bit n w) = unat w div 2 ^ n"
  unfolding unat_drop_bit_eq by (rule drop_bit_eq_div)

lemma signed_shift_small: "unat w < 2 ^ 31 \<Longrightarrow> signed_drop_bit n w = drop_bit n w" for w :: "32 word"
proof -
  assume w: "unat w < 2 ^ 31"
  then have "unat (drop_bit n w) < 2 ^ 31" unfolding unat_shift by (rule le_less_trans [OF div_le_dividend])
  then have "sint (drop_bit n w) = int (unat w) div 2 ^ n" by (simp add: sint_small unat_shift zdiv_int)
  with w have "sint (signed_drop_bit n w) = sint (drop_bit n w)"
    by (simp add: sint_signed_drop_bit_eq sint_small drop_bit_eq_div [where 'a=int])
  then show ?thesis by (rule signed_word_eqI)
qed

lemma byte_mod: "n mod 16777216 div 65536 mod 256 = n div 65536 mod 256"
   "n mod 16777216 div 256 mod 256 = n div 256 mod 256" "n mod 16777216 mod 256 = n mod 256" for n :: nat
proof -
  show "n mod 16777216 div 65536 mod 256 = n div 65536 mod 256" using mod_mult2_eq [of n 65536 256] by simp
  show "n mod 16777216 div 256 mod 256 = n div 256 mod 256" "n mod 16777216 mod 256 = n mod 256"
    using mod_mult2_eq [of n 256 65536] by (simp_all add: mod_mod_cancel)
qed

lemma mask_mod:
  "unat (c AND 0xFF) = unat c mod 256" "unat (c AND 0xFFFFFF) = unat c mod 16777216" for c :: "32 word"
proof -
  have "c AND 0xFF = take_bit 8 c" "c AND 0xFFFFFF = take_bit 24 c"
    by (simp_all add: take_bit_eq_mask mask_eq_exp_minus_1)
  then show "unat (c AND 0xFF) = unat c mod 256" "unat (c AND 0xFFFFFF) = unat c mod 16777216"
    by (simp_all add: unat_mod_distrib take_bit_eq_mod)
qed

lemma byte_div:
  "unat (drop_bit 16 c AND 0xFF) = unat c div 65536 mod 256"
  "unat (drop_bit 8 c AND 0xFF) = unat c div 256 mod 256" for c :: "32 word"
  by (simp_all add: mask_mod unat_shift)

lemma mod_bytes: "n mod 16777216 = 65536 * (n div 65536 mod 256) + 256 * (n div 256 mod 256) + n mod 256"
  for n :: nat
  using mod_mult2_eq [of n 256 65536] mod_mult2_eq [of "n div 256" 256 256]
  by (simp add: div_mult2_eq [symmetric])

lemma byte_eq: "z < 256 \<Longrightarrow> b < 256 \<Longrightarrow> 256 * u + z = 256 * v + b \<longleftrightarrow> u = v \<and> z = b" for z b :: nat
  by (metis (no_types, lifting) add_diff_cancel_right' mod_less mod_mult_self4 mult_left_cancel zero_neq_numeral)

section \<open>Words put together from bytes\<close>

lemma byte_digits:
  fixes a r g b :: nat
  assumes "r < 256" "g < 256" "b < 256"
  shows "(16777216 * a + 65536 * r + 256 * g + b) div 65536 mod 256 = r"
    "(16777216 * a + 65536 * r + 256 * g + b) div 256 mod 256 = g"
    "(16777216 * a + 65536 * r + 256 * g + b) mod 256 = b"
proof -
  let ?n = "16777216 * a + 65536 * r + 256 * g + b"
  have n: "?n = ((a * 256 + r) * 256 + g) * 256 + b" by simp
  have d: "?n div 256 = (a * 256 + r) * 256 + g" unfolding n using assms(3) by simp
  have "?n div 65536 = ?n div 256 div 256" by (simp add: div_mult2_eq [symmetric])
  also have "\<dots> = a * 256 + r" unfolding d using assms(2) by simp
  finally show "?n div 65536 mod 256 = r" using assms(1) by simp
  show "?n div 256 mod 256 = g" unfolding d using assms(2) by (simp only: mod_mult_self3 mod_less)
  show "?n mod 256 = b" unfolding n using assms(3) by (simp only: mod_mult_self3 mod_less)
qed

lemma or_shift_int: "0 \<le> k \<Longrightarrow> k < 2 ^ n \<Longrightarrow> push_bit n l OR k = l * 2 ^ n + k" for k l :: int
  using concat_bit_eq [of n k l] by (simp add: concat_bit_def take_bit_int_eq_self push_bit_eq_mult or.commute)

lemma or_shift_bytes:
  "0 \<le> b \<Longrightarrow> b < 256 \<Longrightarrow> 0 \<le> c \<Longrightarrow> c < 256 \<Longrightarrow> push_bit 16 a OR push_bit 8 b OR c = 65536 * a + 256 * b + c"
  for a b c :: int
proof -
  assume r: "0 \<le> b" "b < 256" "0 \<le> c" "c < 256"
  have "push_bit 16 a OR push_bit 8 b OR c = push_bit 8 (push_bit 8 a OR b) OR c"
    by (simp add: push_bit_push_bit or.assoc)
  also have "\<dots> = (a * 2 ^ 8 + b) * 2 ^ 8 + c"
    using r or_shift_int [of b 8 a] or_shift_int [of c 8 "a * 2 ^ 8 + b"] by simp
  finally show ?thesis by simp
qed

lemma uint_ucast_byte: "uint (ucast a :: 32 word) = uint a" for a :: u8
proof -
  have "uint a < 2 ^ 32" using uint_lt2p [of a] by simp
  then show ?thesis by (simp add: unsigned_ucast_eq take_bit_int_eq_self)
qed

lemma uint_byte: "uint (push_bit n (ucast a) :: 32 word) = push_bit n (uint a)" if "n \<le> 24" for a :: u8
proof -
  have "uint a * 2 ^ n \<le> uint a * 2 ^ 24" using that by (intro mult_left_mono power_increasing) simp_all
  also have "\<dots> < 2 ^ 32" using unsigned_less [of a] by simp
  finally have "push_bit n (uint a) < 2 ^ 32" by (simp add: push_bit_eq_mult)
  then have "take_bit 32 (push_bit n (uint a)) = push_bit n (uint a)" by (intro take_bit_int_eq_self) simp_all
  then show ?thesis by (simp add: unsigned_push_bit_eq uint_ucast_byte)
qed

lemma unat_bytes3:
  "unat (push_bit 16 (ucast a) OR push_bit 8 (ucast b) OR ucast c :: 32 word) = 65536 * unat a + 256 * unat b + unat c"
  for a b c :: u8
proof -
  have r: "uint b < 256" "uint c < 256" using unsigned_less [of b] unsigned_less [of c] by simp_all
  have "uint (push_bit 16 (ucast a) OR push_bit 8 (ucast b) OR ucast c :: 32 word)
     = push_bit 16 (uint a) OR push_bit 8 (uint b) OR uint c"
    by (simp add: unsigned_or_eq uint_byte uint_ucast_byte)
  also have "\<dots> = 65536 * uint a + 256 * uint b + uint c" using r by (intro or_shift_bytes) simp_all
  finally have "int (unat (push_bit 16 (ucast a) OR push_bit 8 (ucast b) OR ucast c :: 32 word))
     = int (65536 * unat a + 256 * unat b + unat c)" by simp
  then show ?thesis by (simp only: of_nat_eq_iff)
qed

lemma unat_bytes4:
  "unat (push_bit 24 (ucast a) OR push_bit 16 (ucast b) OR push_bit 8 (ucast c) OR ucast d :: 32 word)
     = 16777216 * unat a + 65536 * unat b + 256 * unat c + unat d"
  for a b c d :: u8
proof -
  have r: "uint b < 256" "uint c < 256" "uint d < 256" using uint_lt2p [of b] uint_lt2p [of c] uint_lt2p [of d] by simp_all
  have "uint (push_bit 24 (ucast a) OR push_bit 16 (ucast b) OR push_bit 8 (ucast c) OR ucast d :: 32 word)
     = push_bit 16 (push_bit 8 (uint a)) OR push_bit 16 (uint b) OR push_bit 8 (uint c) OR uint d"
    by (simp add: unsigned_or_eq uint_byte uint_ucast_byte)
  also have "\<dots> = push_bit 16 (push_bit 8 (uint a) OR uint b) OR push_bit 8 (uint c) OR uint d"
    by (simp add: or.assoc push_bit_or)
  also have "\<dots> = 65536 * (uint a * 2 ^ 8 + uint b) + 256 * uint c + uint d"
    using r by (simp add: or_shift_bytes or_shift_int)
  finally have "int (unat (push_bit 24 (ucast a) OR push_bit 16 (ucast b) OR push_bit 8 (ucast c) OR ucast d :: 32 word))
     = int (16777216 * unat a + 65536 * unat b + 256 * unat c + unat d)" by simp
  then show ?thesis by (simp only: of_nat_eq_iff)
qed

lemma unat_low_byte: "unat (ucast w :: u8) = unat w mod 256" for w :: "32 word"
  by (simp add: unsigned_ucast_eq take_bit_eq_mod)


text \<open>Two bytes are equal when their eight bits are.\<close>

lemma byte_eqI:
  "bit v 0 = bit w 0 \<Longrightarrow> bit v 1 = bit w 1 \<Longrightarrow> bit v 2 = bit w 2 \<Longrightarrow> bit v 3 = bit w 3 \<Longrightarrow> bit v 4 = bit w 4 \<Longrightarrow>
   bit v 5 = bit w 5 \<Longrightarrow> bit v 6 = bit w 6 \<Longrightarrow> bit v 7 = bit w 7 \<Longrightarrow> v = w" for v w :: u8
proof (rule bit_word_eqI)
  fix n assume b: "bit v 0 = bit w 0" "bit v 1 = bit w 1" "bit v 2 = bit w 2" "bit v 3 = bit w 3" "bit v 4 = bit w 4"
    "bit v 5 = bit w 5" "bit v 6 = bit w 6" "bit v 7 = bit w 7" and "n < LENGTH(8)"
  then have "n < 8" by simp
  then have "n = 0 \<or> n = 1 \<or> n = 2 \<or> n = 3 \<or> n = 4 \<or> n = 5 \<or> n = 6 \<or> n = 7" by arith
  then show "bit v n = bit w n" using b by (elim disjE) (simp_all only:)
qed

section \<open>Numbers as text\<close>

text \<open>The decimal digits that \<^verbatim>\<open>printf\<close> writes for a number that is not negative.\<close>

fun digits :: "nat \<Rightarrow> string" where
  "digits n = (if n < 10 then [char_of (48 + n)] else digits (n div 10) @ [char_of (48 + n mod 10)])"

declare digits.simps [simp del]

text \<open>The text of a number, read back.\<close>

definition value_of :: "string \<Rightarrow> nat" where
  "value_of ds = foldl (\<lambda>a c. 10 * a + (of_char c - 48)) 0 ds"

lemma value_of_digits: "value_of (digits n) = n"
proof (induction n rule: digits.induct)
  case (1 n)
  then show ?case by (subst digits.simps) (auto simp: value_of_def)
qed

lemma length_digits: "n < 10 ^ Suc k \<Longrightarrow> length (digits n) \<le> Suc k"
proof (induction k arbitrary: n)
  case (Suc k)
  have "n div 10 < 10 ^ Suc k" using Suc.prems by (simp add: less_mult_imp_div_less)
  then show ?case using Suc.IH [of "n div 10"] by (subst digits.simps) simp
qed (simp add: digits.simps)

lemma digits_range: "c \<in> set (digits n) \<Longrightarrow> 48 \<le> (of_char c :: nat) \<and> of_char c < (58 :: nat)"
proof (induction n rule: digits.induct)
  case (1 n)
  then show ?case by (cases "n < 10") (auto simp: digits.simps [of n])
qed

lemma digits_no_minus: "CHR ''-'' \<notin> set (digits n)"
  using digits_range by fastforce

text \<open>\<open>%d\<close> of \<open>printf\<close>.\<close>

definition decimal :: "int \<Rightarrow> string" where
  "decimal n = (if n < 0 then CHR ''-'' # digits (nat (- n)) else digits (nat n))"

text \<open>\<open>%x\<close> of \<open>printf\<close>, and with zeros in front up to a width.\<close>

definition hex_digit :: "nat \<Rightarrow> char" where
  "hex_digit k = (if k < 10 then char_of (48 + k) else char_of (87 + k))"

fun hex :: "nat \<Rightarrow> string" where
  "hex n = (if n < 16 then [hex_digit n] else hex (n div 16) @ [hex_digit (n mod 16)])"

declare hex.simps [simp del]

definition hex0 :: "nat \<Rightarrow> nat \<Rightarrow> string" where
  "hex0 width n = replicate (width - length (hex n)) CHR ''0'' @ hex n"

text \<open>The text read back.\<close>

definition hex_digit_value :: "char \<Rightarrow> nat" where
  "hex_digit_value c = (if of_char c < (58 :: nat) then of_char c - 48 else of_char c - 87)"

definition hex_value :: "string \<Rightarrow> nat" where
  "hex_value ds = foldl (\<lambda>a c. 16 * a + hex_digit_value c) 0 ds"

lemma hex_digit_inverse: "k < 16 \<Longrightarrow> hex_digit_value (hex_digit k) = k"
  by (auto simp: hex_digit_value_def hex_digit_def)

lemma hex_value_hex: "hex_value (hex n) = n"
proof (induction n rule: hex.induct)
  case (1 n)
  then show ?case by (subst hex.simps) (auto simp: hex_value_def hex_digit_inverse)
qed

lemma hex_value_hex0: "hex_value (hex0 width n) = n"
proof -
  have "foldl (\<lambda>a c. 16 * a + hex_digit_value c) 0 (replicate k CHR ''0'') = 0" for k
    by (induction k) (simp_all add: hex_digit_value_def)
  then show ?thesis using hex_value_hex [of n] by (simp add: hex0_def hex_value_def)
qed

section \<open>Text as numbers\<close>

text \<open>
  \<open>strtol\<close>: white space, a sign, and for base 0 a prefix that gives the base; the value is kept within
  the limits of the 32-bit \<^verbatim>\<open>long\<close>, and \<^verbatim>\<open>errno\<close> is set when it was outside them.
\<close>

definition digit_val :: "char \<Rightarrow> nat option" where
  "digit_val c = (let n = of_char c in
     if 48 \<le> n \<and> n \<le> 57 then Some (n - 48) else if 97 \<le> n \<and> n \<le> 122 then Some (n - 87)
     else if 65 \<le> n \<and> n \<le> 90 then Some (n - 55) else None)"

fun digits_val :: "nat \<Rightarrow> nat \<Rightarrow> string \<Rightarrow> nat" where
  "digits_val b a [] = a"
| "digits_val b a (c # cs) = (case digit_val c of
     Some v \<Rightarrow> if v < b then digits_val b (b * a + v) cs else a | None \<Rightarrow> a)"

definition is_space :: "char \<Rightarrow> bool" where
  "is_space c \<longleftrightarrow> c \<in> {CHR '' '', CHR 0x09, CHR 0x0A, CHR 0x0B, CHR 0x0C, CHR 0x0D}"

definition hex_prefix :: "string \<Rightarrow> bool" where
  "hex_prefix s \<longleftrightarrow> length s \<ge> 3 \<and> s ! 0 = CHR ''0'' \<and> s ! 1 \<in> {CHR ''x'', CHR ''X''} \<and>
     (case digit_val (s ! 2) of Some v \<Rightarrow> v < 16 | None \<Rightarrow> False)"

definition strtol_value :: "string \<Rightarrow> nat \<Rightarrow> int" where
  "strtol_value str base =
     (let s = dropWhile is_space str;
          neg = (s \<noteq> [] \<and> hd s = CHR ''-'');
          s = (if s \<noteq> [] \<and> hd s \<in> {CHR ''-'', CHR ''+''} then tl s else s);
          v = (if base = 0 then
                 if hex_prefix s then digits_val 16 0 (drop 2 s)
                 else if s \<noteq> [] \<and> hd s = CHR ''0'' then digits_val 8 0 s
                 else digits_val 10 0 s
               else digits_val base 0 s)
      in if neg then - int v else int v)"

definition strtol :: "string \<Rightarrow> nat \<Rightarrow> int" where
  "strtol str base = max (- (2 ^ 31)) (min (2 ^ 31 - 1) (strtol_value str base))"

definition strtol_errno :: "string \<Rightarrow> nat \<Rightarrow> bool" where
  "strtol_errno str base \<longleftrightarrow> strtol_value str base < - (2 ^ 31) \<or> 2 ^ 31 \<le> strtol_value str base"

section \<open>Copying into a buffer\<close>

text \<open>\<open>memcpy(dst + i, src, length src)\<close> into an array.\<close>

definition memcpy_at :: "'a list \<Rightarrow> nat \<Rightarrow> 'a list \<Rightarrow> 'a list" where
  "memcpy_at dst i src = take i dst @ src @ drop (i + length src) dst"

lemma length_memcpy [simp]: "i + length src \<le> length dst \<Longrightarrow> length (memcpy_at dst i src) = length dst"
  by (simp add: memcpy_at_def)

lemma take_memcpy: "i \<le> length dst \<Longrightarrow> take (i + length src) (memcpy_at dst i src) = take i dst @ src"
  by (simp add: memcpy_at_def)

section \<open>Error numbers\<close>

definition EINVAL :: int where "EINVAL = 22"

end
