(* ===== verification/Lights.thy ===== *)
theory Lights
  imports Byte_Words
begin

text \<open>
  The lights module, \<^verbatim>\<open>liblight/lights.c\<close>: the state of the three requests the framework makes for
  the one indicator light, the choice between them, and what is written to the files of the LED
  driver. The mutex makes each \<open>set_light_...\<close> function atomic. Log messages are left out; the two
  flags that limit them are kept.
\<close>

unbundle bit_operations_syntax

section \<open>State\<close>

text \<open>\<open>struct light_state_t\<close> and the constants of \<^verbatim>\<open>hardware/lights.h\<close>, which is outside the repository.\<close>

record light_state_t =
  color :: "32 word"
  flashMode :: i32
  flashOnMS :: i32
  flashOffMS :: i32

record light_env =
  LIGHT_FLASH_NONE :: i32
  LIGHT_FLASH_HARDWARE :: i32
  LIGHT_ID_BACKLIGHT :: string
  LIGHT_ID_ATTENTION :: string
  LIGHT_ID_NOTIFICATIONS :: string
  LIGHT_ID_BATTERY :: string
  LIGHT_ID_BUTTONS :: string

text \<open>
  What a file answers: to \<open>open\<close> and \<open>write\<close> of a driver file (with \<^verbatim>\<open>errno\<close>), and to \<open>open\<close> and
  \<open>read\<close> of the battery status.
\<close>

datatype led_file = Writable | OpenFails int | WriteFails int
datatype status_file = StatusOpenFails | StatusReadFails | StatusText string

record lights =
  g_notification :: light_state_t
  g_battery :: light_state_t
  g_attention :: i32
  already_warned :: bool
  already_warn_2 :: bool
  led_files :: "string \<Rightarrow> led_file"           \<comment> \<open>the driver's files\<close>
  battery_file :: status_file              \<comment> \<open>the battery status file\<close>
  led_contents :: "string \<rightharpoonup> string"  \<comment> \<open>what each file was last given\<close>

definition LCD_FILE :: string where "LCD_FILE = ''/sys/class/leds/lcd-backlight/brightness''"
definition BUTTON_FILE :: string where "BUTTON_FILE = ''/sys/class/leds/button-backlight/brightness''"
definition BLUE_LED_FILE :: string where "BLUE_LED_FILE = ''/sys/class/leds/blue/brightness''"
definition BLUE_BLINK_FILE :: string where "BLUE_BLINK_FILE = ''/sys/class/leds/blue/blink''"

section \<open>Reading and writing files\<close>

text \<open>\<open>sprintf(buffer, "%d\n", value)\<close>\<close>

definition print_int :: "i32 \<Rightarrow> string" where
  "print_int v = decimal (sint v) @ [CHR 0x0A]"

definition write_int :: "string \<Rightarrow> i32 \<Rightarrow> lights \<Rightarrow> int \<times> lights" where
  "write_int path v s = (case led_files s path of
       Writable \<Rightarrow> (0, s\<lparr>led_contents := (led_contents s)(path \<mapsto> print_int v)\<rparr>)
     | WriteFails errno \<Rightarrow> (- errno, s)
     | OpenFails errno \<Rightarrow> (- errno, s\<lparr>already_warned := True\<rparr>))"

text \<open>
  The status that was read: at most 22 bytes, the last one cut off when it ends the line, compared up to
  the first null character.
\<close>

definition lit_text :: "string \<Rightarrow> bool" where
  "lit_text text =
     (let buf = take 22 text; len = length buf in
      if len < 3 then False
      else let buf = (if buf ! (len - 1) = CHR 0x0A then buf[len - 1 := CHR 0x00] else buf);
               str = takeWhile (\<lambda>c. c \<noteq> CHR 0x00) buf
        in str = ''Charging'' \<or> str = ''Full'')"

definition is_lit :: "lights \<Rightarrow> bool \<times> lights" where
  "is_lit s = (case battery_file s of
       StatusOpenFails \<Rightarrow> (False, s\<lparr>already_warn_2 := True\<rparr>)
     | StatusReadFails \<Rightarrow> (False, s)
     | StatusText text \<Rightarrow> (lit_text text, s))"

section \<open>The lights\<close>

definition rgb_to_brightness :: "light_state_t \<Rightarrow> i32" where
  "rgb_to_brightness state =
     (let color = color state AND 0x00ffffff
      in signed_drop_bit 8 (77 * (signed_drop_bit 16 color AND 0x00ff)
           + 150 * (signed_drop_bit 8 color AND 0x00ff) + 29 * (color AND 0x00ff)))"

definition set_light_backlight :: "light_state_t \<Rightarrow> lights \<Rightarrow> int \<times> lights" where
  "set_light_backlight state s = write_int LCD_FILE (rgb_to_brightness state) s"

definition set_speaker_light_locked :: "light_state_t \<Rightarrow> lights \<Rightarrow> lights" where
  "set_speaker_light_locked state s =
     (let colorRGB = color state;
          red = drop_bit 16 colorRGB AND 0xFF;
          green = drop_bit 8 colorRGB AND 0xFF;
          blue = colorRGB AND 0xFF;
          blink = flashMode state;
          (colorRGB, blue, blink) =
            (if red = 255 \<and> green = 255 \<and> blue = 0 then (0xFFFF, 255, 2)
             else if red = 0 \<and> green = 0 \<and> blue = 0 then
               (if blink = 1 then (colorRGB, 0, 3) else (colorRGB, blue, 0))
             else if red = 0 \<and> green = 255 \<and> blue = 0 then (colorRGB, 255, blink)
             else (colorRGB, blue, blink))
      in if blink = 0 then
           let (_, s) = write_int BLUE_BLINK_FILE 0 s; (_, s) = write_int BLUE_LED_FILE blue s in s
         else if colorRGB = 0 then
           let (_, s) = write_int BLUE_BLINK_FILE (if blue \<noteq> 0 then 1 else 0) s;
               (_, s) = write_int BLUE_LED_FILE blue s in s
         else
           let (_, s) = write_int BLUE_LED_FILE 0 s in
           if blue \<noteq> 0 then snd (write_int BLUE_BLINK_FILE blink s) else s)"

definition handle_speaker_battery_locked :: "lights \<Rightarrow> lights" where
  "handle_speaker_battery_locked s =
     (let (lit, s) = is_lit s;
          x = (if \<not> lit \<and> color (g_battery s) AND 0xFFFFFF \<noteq> 0 then g_battery s
               else if lit \<and> color (g_notification s) AND 0xFFFFFF = 0 then g_battery s
               else g_notification s)
      in set_speaker_light_locked x s)"

definition set_light_notifications :: "light_state_t \<Rightarrow> lights \<Rightarrow> int \<times> lights" where
  "set_light_notifications state s = (0, handle_speaker_battery_locked (s\<lparr>g_notification := state\<rparr>))"

definition set_light_attention :: "light_env \<Rightarrow> light_state_t \<Rightarrow> lights \<Rightarrow> int \<times> lights" where
  "set_light_attention L state s =
     (let s = (if flashMode state = LIGHT_FLASH_HARDWARE L then s\<lparr>g_attention := flashOnMS state\<rparr>
               else if flashMode state = LIGHT_FLASH_NONE L then s\<lparr>g_attention := 0\<rparr> else s)
      in (0, handle_speaker_battery_locked s))"

text \<open>Only this function tests its pointers: \<open>None\<close> is \<^verbatim>\<open>NULL\<close>.\<close>

definition set_light_buttons :: "ptr \<Rightarrow> light_state_t option \<Rightarrow> lights \<Rightarrow> int \<times> lights" where
  "set_light_buttons dev state s = (case state of
       None \<Rightarrow> (- 1, s)
     | Some state \<Rightarrow> if dev = NULL then (- 1, s)
         else write_int BUTTON_FILE (color state AND 0xFF) s)"

definition set_light_battery :: "light_state_t \<Rightarrow> lights \<Rightarrow> int \<times> lights" where
  "set_light_battery state s = (0, handle_speaker_battery_locked (s\<lparr>g_battery := state\<rparr>))"

section \<open>The module\<close>

datatype set_light = Backlight | Attention | Notifications | Battery | Buttons

text \<open>The block for the device is not checked for \<^verbatim>\<open>NULL\<close> before it is filled.\<close>

definition open_lights :: "light_env \<Rightarrow> string \<Rightarrow> ptr \<Rightarrow> (int + ptr \<times> set_light) option" where
  "open_lights L name block =
     (let opened = (\<lambda>f. if block = NULL then None else Some (Inr (block, f))) in
      if name = LIGHT_ID_BACKLIGHT L then opened Backlight
      else if name = LIGHT_ID_ATTENTION L then opened Attention
      else if name = LIGHT_ID_NOTIFICATIONS L then opened Notifications
      else if name = LIGHT_ID_BATTERY L then opened Battery
      else if name = LIGHT_ID_BUTTONS L then opened Buttons
      else Some (Inl (- EINVAL)))"

text \<open>The call \<open>dev->set_light(dev, state)\<close> through the function a device was opened with.\<close>

definition call_set_light ::
    "light_env \<Rightarrow> ptr \<times> set_light \<Rightarrow> light_state_t \<Rightarrow> lights \<Rightarrow> int \<times> lights" where
  "call_set_light L d state s = (case snd d of
       Backlight \<Rightarrow> set_light_backlight state s
     | Attention \<Rightarrow> set_light_attention L state s
     | Notifications \<Rightarrow> set_light_notifications state s
     | Battery \<Rightarrow> set_light_battery state s
     | Buttons \<Rightarrow> set_light_buttons (fst d) (Some state) s)"


section \<open>Lemmas\<close>

lemmas light_defs = set_light_notifications_def set_light_attention_def set_light_battery_def
  set_light_backlight_def set_light_buttons_def

lemma led_paths [simp]:
  "BLUE_LED_FILE \<noteq> BLUE_BLINK_FILE" "BLUE_BLINK_FILE \<noteq> BLUE_LED_FILE"
  by (simp_all add: BLUE_LED_FILE_def BLUE_BLINK_FILE_def)

lemma write_int_frame [simp]:
  "g_notification (snd (write_int path v s)) = g_notification s"
  "g_battery (snd (write_int path v s)) = g_battery s"
  "led_files (snd (write_int path v s)) = led_files s" "battery_file (snd (write_int path v s)) = battery_file s"
  by (simp_all add: write_int_def split: led_file.splits)

lemma write_int_writable [simp]:
  "led_files s path = Writable \<Longrightarrow>
   write_int path v s = (0, s\<lparr>led_contents := (led_contents s)(path \<mapsto> print_int v)\<rparr>)"
  by (simp add: write_int_def)

lemma speaker_frame [simp]:
  "g_notification (set_speaker_light_locked x s) = g_notification s"
  "g_battery (set_speaker_light_locked x s) = g_battery s"
  "led_files (set_speaker_light_locked x s) = led_files s" "battery_file (set_speaker_light_locked x s) = battery_file s"
  by (simp_all add: set_speaker_light_locked_def Let_def split_beta)


text \<open>The bytes of a colour.\<close>

lemma rgb_bytes:
  fixes c :: "32 word"
  assumes "r < 256" "g < 256" "b < 256"
  shows "unat (drop_bit 16 c AND 0xFF) = r \<and> unat (drop_bit 8 c AND 0xFF) = g \<and> unat (c AND 0xFF) = b
    \<longleftrightarrow> unat (c AND 0xFFFFFF) = 65536 * r + 256 * g + b"
proof -
  have "x = r \<and> y = g \<and> z = b \<longleftrightarrow> 65536 * x + 256 * y + z = 65536 * r + 256 * g + b"
    if "x < 256" "y < 256" "z < 256" for x y z :: nat
    using byte_eq [of z b "256 * x + y" "256 * r + g"] byte_eq [of y g x r] that assms by auto
  then show ?thesis
    unfolding byte_div unfolding mask_mod mod_bytes [of "unat c"] by simp
qed

lemma rgb_colours:
  fixes c :: "32 word"
  shows "drop_bit 16 c AND 0xFF = 255 \<and> drop_bit 8 c AND 0xFF = 255 \<and> c AND 0xFF = 0
      \<longleftrightarrow> c AND 0xFFFFFF = 0xFFFF00"
    "drop_bit 16 c AND 0xFF = 0 \<and> drop_bit 8 c AND 0xFF = 0 \<and> c AND 0xFF = 0 \<longleftrightarrow> c AND 0xFFFFFF = 0"
    "drop_bit 16 c AND 0xFF = 0 \<and> drop_bit 8 c AND 0xFF = 255 \<and> c AND 0xFF = 0
      \<longleftrightarrow> c AND 0xFFFFFF = 0xFF00"
  using rgb_bytes [of 255 255 0 c] rgb_bytes [of 0 0 0 c] rgb_bytes [of 0 255 0 c]
  by (simp_all only: word_unat_eq_iff) simp_all


lemma weights_fit: "unat r < 256 \<Longrightarrow> unat g < 256 \<Longrightarrow> unat b < 256 \<Longrightarrow>
  unat (77 * r + 150 * g + 29 * b) = 77 * unat r + 150 * unat g + 29 * unat b" for r g b :: "32 word"
  by (simp add: unat_word_ariths)

lemma brightness_value:
  "unat (rgb_to_brightness x) = (77 * (unat (color x) div 65536 mod 256)
     + 150 * (unat (color x) div 256 mod 256) + 29 * (unat (color x) mod 256)) div 256"
proof -
  let ?c = "color x AND 0x00ffffff"
  define r where "r = drop_bit 16 ?c AND 0x00ff"
  define g where "g = drop_bit 8 ?c AND 0x00ff"
  define b where "b = ?c AND 0x00ff"
  have u: "unat r = unat (color x) div 65536 mod 256" "unat g = unat (color x) div 256 mod 256"
    "unat b = unat (color x) mod 256"
    unfolding r_def g_def b_def byte_div unfolding mask_mod by (simp_all only: byte_mod)
  then have small: "unat r < 256" "unat g < 256" "unat b < 256" by simp_all
  note sum = weights_fit [OF small]
  have "unat ?c < 2 ^ 31" by (simp add: mask_mod)
  then have "rgb_to_brightness x = signed_drop_bit 8 (77 * r + 150 * g + 29 * b)"
    by (simp only: rgb_to_brightness_def Let_def signed_shift_small r_def g_def b_def)
  also have "\<dots> = drop_bit 8 (77 * r + 150 * g + 29 * b)"
    using small by (intro signed_shift_small) (simp add: sum)
  finally show ?thesis by (simp add: unat_shift sum u)
qed


text \<open>Which request the indicator shows: the notification first while charging, the battery first otherwise.\<close>

definition has_colour :: "light_state_t \<Rightarrow> bool" where
  "has_colour x \<longleftrightarrow> color x AND 0xFFFFFF \<noteq> 0"

definition shown :: "bool \<Rightarrow> light_state_t \<Rightarrow> light_state_t \<Rightarrow> light_state_t" where
  "shown charging notification battery =
     (if charging then if has_colour notification then notification else battery
      else if has_colour battery then battery else notification)"

definition charging :: "status_file \<Rightarrow> bool" where
  "charging b = (case b of StatusText text \<Rightarrow> lit_text text | _ \<Rightarrow> False)"

lemma is_lit_charging [simp]: "fst (is_lit s) = charging (battery_file s)"
  by (simp add: is_lit_def charging_def split: status_file.splits)

lemma is_lit_frame [simp]:
  "g_notification (snd (is_lit s)) = g_notification s" "g_battery (snd (is_lit s)) = g_battery s"
  "led_files (snd (is_lit s)) = led_files s" "led_contents (snd (is_lit s)) = led_contents s"
  "battery_file (snd (is_lit s)) = battery_file s"
  by (simp_all add: is_lit_def split: status_file.splits)

lemma handle_shows:
  "handle_speaker_battery_locked s =
     set_speaker_light_locked (shown (charging (battery_file s)) (g_notification s) (g_battery s)) (snd (is_lit s))"
  by (simp add: handle_speaker_battery_locked_def shown_def has_colour_def split_beta Let_def)

lemma write_int_contents:
  "led_contents (snd (write_int path v s)) =
     (if led_files s path = Writable then (led_contents s)(path \<mapsto> print_int v) else led_contents s)"
  by (simp add: write_int_def split: led_file.splits)

lemma speaker_contents_cong:
  "led_contents s = led_contents s' \<Longrightarrow> led_files s = led_files s' \<Longrightarrow>
   led_contents (set_speaker_light_locked x s) = led_contents (set_speaker_light_locked x s')"
  by (simp add: set_speaker_light_locked_def Let_def split_beta write_int_contents)

text \<open>A call of the framework, with what the battery status file holds at that time.\<close>

type_synonym light_call = "status_file \<times> (ptr \<times> set_light) \<times> light_state_t"

definition light_step :: "light_env \<Rightarrow> lights \<Rightarrow> light_call \<Rightarrow> lights" where
  "light_step L s c = (case c of (b, d, x) \<Rightarrow> snd (call_set_light L d x (s\<lparr>battery_file := b\<rparr>)))"

definition latest :: "set_light \<Rightarrow> light_state_t \<Rightarrow> light_call list \<Rightarrow> light_state_t" where
  "latest k x cs = last (x # [y. (_, d, y) \<leftarrow> cs, snd d = k])"

lemma light_step_requests:
  "g_notification (light_step L s (b, d, x)) = (if snd d = Notifications then x else g_notification s)"
  "g_battery (light_step L s (b, d, x)) = (if snd d = Battery then x else g_battery s)"
  by (simp_all add: light_step_def call_set_light_def light_defs handle_shows Let_def split: set_light.splits)

lemma light_step_files [simp]: "led_files (light_step L s c) = led_files s"
  by (simp add: light_step_def call_set_light_def light_defs handle_shows Let_def split: prod.splits set_light.splits)

lemma requests_latest:
  "g_notification (foldl (light_step L) s cs) = latest Notifications (g_notification s) cs"
  "g_battery (foldl (light_step L) s cs) = latest Battery (g_battery s) cs"
  by (induction cs rule: rev_induct) (auto simp: latest_def light_step_requests split: if_splits)


section \<open>Properties\<close>

text \<open>
  C18 The indicator follows the requests, not their order: after any sequence of calls for any of the
  lights, a call for the attention, notification or battery light gives the indicator the light of
  the last notification or the last battery request. While the battery is charging or full the
  notification comes first if it has a colour, otherwise the battery does.
\<close>

theorem indicator_follows_requests:
  assumes "snd d \<in> {Attention, Notifications, Battery}" and calls: "cs' = cs @ [(b, d, x)]"
  shows "led_contents (foldl (light_step L) s cs') =
    led_contents (set_speaker_light_locked
      (shown (charging b) (latest Notifications (g_notification s) cs') (latest Battery (g_battery s) cs'))
      (foldl (light_step L) s cs))"
proof -
  let ?s = "foldl (light_step L) s cs"
  have handle: "led_contents (handle_speaker_battery_locked t) =
      led_contents (set_speaker_light_locked (shown (charging b) (g_notification t) (g_battery t)) ?s)"
    if "led_contents t = led_contents ?s" "led_files t = led_files ?s" "battery_file t = b" for t
    using that by (auto simp: handle_shows intro!: speaker_contents_cong)
  obtain t where t: "light_step L ?s (b, d, x) = handle_speaker_battery_locked t"
    "led_contents t = led_contents ?s" "led_files t = led_files ?s" "battery_file t = b"
    using assms(1) by (auto simp: light_step_def call_set_light_def light_defs Let_def)
  have "g_notification t = latest Notifications (g_notification s) cs'" "g_battery t = latest Battery (g_battery s) cs'"
    using requests_latest [of L s cs'] t(1) calls by (simp_all add: handle_shows)
  then show ?thesis using handle [OF t(2-4)] t(1) calls by simp
qed


text \<open>Concrete requests, and a device whose files can all be written.\<close>

definition light :: "32 word \<Rightarrow> i32 \<Rightarrow> light_state_t" where
  "light c m = \<lparr>color = c, flashMode = m, flashOnMS = 0, flashOffMS = 0\<rparr>"

definition demo_env_l :: light_env where
  "demo_env_l = \<lparr>LIGHT_FLASH_NONE = 0, LIGHT_FLASH_HARDWARE = 2, LIGHT_ID_BACKLIGHT = ''backlight'',
     LIGHT_ID_ATTENTION = ''attention'', LIGHT_ID_NOTIFICATIONS = ''notifications'',
     LIGHT_ID_BATTERY = ''battery'', LIGHT_ID_BUTTONS = ''buttons''\<rparr>"

definition demo_lights :: lights where
  "demo_lights = \<lparr>g_notification = light 0 0, g_battery = light 0 0, g_attention = 0,
     already_warned = False, already_warn_2 = False, led_files = (\<lambda>_. Writable),
     battery_file = StatusReadFails, led_contents = Map.empty\<rparr>"

lemmas demo_light_defs = light_def demo_env_l_def demo_lights_def

theorem indicator_follows_requests_witness:
  "led_contents (foldl (light_step demo_env_l) demo_lights
     [(StatusReadFails, (9, Battery), light 0xFF00FF00 0),
      (StatusText ''Charging\<newline>'', (8, Notifications), light 0xFF0000FF 1)]) BLUE_BLINK_FILE
     = Some (print_int 1)"
proof -
  have "charging (StatusText ''Charging\<newline>'')" by (simp add: charging_def lit_text_def Let_def)
  then show ?thesis
    using indicator_follows_requests [of "(8, Notifications)"
      "[(StatusReadFails, (9, Battery), light 0xFF00FF00 0),
        (StatusText ''Charging\<newline>'', (8, Notifications), light 0xFF0000FF 1)]"
      "[(StatusReadFails, (9, Battery), light 0xFF00FF00 0)]"
      "StatusText ''Charging\<newline>''" "light 0xFF0000FF 1" demo_env_l demo_lights]
    by (simp add: latest_def shown_def has_colour_def set_speaker_light_locked_def Let_def
        write_int_contents split_beta demo_light_defs)
qed

text \<open>
  What the indicator is given for a request, when its files can be written: yellow blinks at rate 2
  whatever the mode; any other colour without flashing is a steady light of its blue part, green shown
  as full blue; a flashing colour with a blue part blinks at the rate of its mode with the steady light
  off; black without timed flashing is off. A flashing colour without a blue part switches the steady
  light off and leaves the blinking as it was.
\<close>

theorem indicator_light:
  fixes s :: lights and x :: light_state_t
  defines "rgb \<equiv> color x AND 0xFFFFFF"
  defines "blue \<equiv> if rgb = 0xFF00 then 255 else color x AND 0xFF"
  defines "after \<equiv> \<lambda>f. led_contents (set_speaker_light_locked x s) f"
  assumes "led_files s BLUE_LED_FILE = Writable" "led_files s BLUE_BLINK_FILE = Writable"
  shows "if rgb = 0xFFFF00 then after BLUE_LED_FILE = Some (print_int 0) \<and> after BLUE_BLINK_FILE = Some (print_int 2)
    else if rgb = 0 \<and> flashMode x \<noteq> 1 \<or> rgb \<noteq> 0 \<and> flashMode x = 0 then
      after BLUE_LED_FILE = Some (print_int blue) \<and> after BLUE_BLINK_FILE = Some (print_int 0)
    else if blue \<noteq> 0 then
      after BLUE_LED_FILE = Some (print_int 0) \<and> after BLUE_BLINK_FILE = Some (print_int (flashMode x))
    else after BLUE_LED_FILE = Some (print_int 0) \<and>
      (color x \<noteq> 0 \<longrightarrow> after BLUE_BLINK_FILE = led_contents s BLUE_BLINK_FILE)"
  using assms(4,5) rgb_colours [of "color x"]
  unfolding after_def set_speaker_light_locked_def Let_def blue_def rgb_def by auto


theorem indicator_light_witness:
  "led_contents (set_speaker_light_locked (light 0xFFFFFF00 1) demo_lights) BLUE_BLINK_FILE = Some (print_int 2)"
  using indicator_light [of demo_lights "light 0xFFFFFF00 1"] by (simp add: demo_light_defs)

text \<open>
  The backlight gets the luminance of the colour: the weighted sum of its parts divided by 256, in
  decimal, which is between 0 and 255, and for a grey it is the grey itself. The call returns 0, or the
  error of the file with nothing written.
\<close>

theorem backlight_brightness:
  assumes "r < 256" "g < 256" "b < 256"
    and c: "color x = of_nat (16777216 * a + (65536 * r + 256 * g + b))"
  defines "y \<equiv> (77 * r + 150 * g + 29 * b) div 256"
  shows "(case led_files s LCD_FILE of
      Writable \<Rightarrow> set_light_backlight x s =
        (0, s\<lparr>led_contents := (led_contents s)(LCD_FILE \<mapsto> digits y @ [CHR 0x0A])\<rparr>)
    | OpenFails e \<Rightarrow> set_light_backlight x s = (- e, s\<lparr>already_warned := True\<rparr>)
    | WriteFails e \<Rightarrow> set_light_backlight x s = (- e, s)) \<and>
    y \<le> 255 \<and> (r = b \<and> g = b \<longrightarrow> y = b)"
proof -
  let ?n = "65536 * r + 256 * g + b"
  have y: "y \<le> 255" "r = b \<and> g = b \<longrightarrow> y = b" using assms(1-3) by (simp_all add: y_def)
  have "unat (color x) mod 16777216 = (16777216 * a + ?n) mod 16777216"
    unfolding c unat_of_nat by (simp add: mod_mod_cancel)
  also have "\<dots> = ?n" using assms(1-3) by (simp only: mod_mult_self4) simp
  finally have n: "unat (color x) mod 16777216 = ?n" .
  have "unat (color x) div 65536 mod 256 = r" "unat (color x) div 256 mod 256 = g" "unat (color x) mod 256 = b"
    using rgb_bytes [OF assms(1-3), of "color x"] n unfolding byte_div unfolding mask_mod by simp_all
  then have "unat (rgb_to_brightness x) = y" unfolding brightness_value y_def by simp
  then have "sint (rgb_to_brightness x) = int y" using y(1) by (subst sint_small) simp_all
  then have "print_int (rgb_to_brightness x) = digits y @ [CHR 0x0A]" unfolding print_int_def decimal_def by simp
  then show ?thesis using y
    by (simp add: set_light_backlight_def write_int_def split: led_file.splits)
qed

theorem backlight_brightness_witness:
  "led_contents (snd (set_light_backlight (light 0xFF808080 0) demo_lights)) LCD_FILE = Some (digits 128 @ [CHR 0x0A])"
  using backlight_brightness [of 128 128 128 "light 0xFF808080 0" 255 demo_lights] by (simp add: demo_light_defs)

text \<open>
  The text of a number is never longer than twelve characters, so that with its terminator it fits the
  buffer of 20 bytes, and different numbers have different texts.
\<close>

theorem written_number:
  "length (print_int v) + 1 \<le> 20 \<and> (print_int v = print_int w \<longleftrightarrow> v = w)"
proof
  have "- 2147483648 \<le> sint v" "sint v < 2147483648"
    using sint_range_size [of v] by (simp_all add: word_size)
  then have "nat (sint v) < 10 ^ Suc 9" "nat (- sint v) < 10 ^ Suc 9" by simp_all
  then show "length (print_int v) + 1 \<le> 20"
    using length_digits [of _ 9] by (force simp: print_int_def decimal_def)
next
  have inj: "digits m = digits n \<longleftrightarrow> m = n" for m n by (metis value_of_digits)
  have sign: "digits m \<noteq> CHR ''-'' # ds" for m ds using digits_no_minus [of m] by auto
  have "sint v = sint w" if "print_int v = print_int w"
    using that by (auto simp: print_int_def decimal_def inj sign sign [symmetric] eq_nat_nat_iff split: if_splits)
  then show "print_int v = print_int w \<longleftrightarrow> v = w" by (auto intro: signed_word_eqI)
qed

end
