(* ===== verification/Mmc_Args.thy ===== *)
theory Mmc_Args
  imports Byte_Words "HOL-Library.Sublist"
begin

text \<open>
  The command line of the \<^verbatim>\<open>mmc\<close> tool, \<^verbatim>\<open>mmc_utils/mmc.c\<close>: the table of commands, their words, the search
  for the command that the arguments abbreviate, the test for ambiguity, the help. Strings have no null
  character; \<open>None\<close> is an access through a null pointer. The result of \<open>parse_args\<close> is the exit of the
  tool with its two outputs, or the function that is called with its arguments.
\<close>

section \<open>The table\<close>

datatype CommandFunction =
  Do_dump_extcsd | Do_read_extcsd | Do_write_extcsd_byte | Do_writeprotect_get | Do_writeprotect_set
    | Do_disable_512B_emulation | Do_create_gp_partition | Do_enh_area_set
    | Do_write_reliability_set | Do_status_get | Do_write_boot_en | Do_boot_bus_conditions_set
    | Do_write_bkops_en | Do_hwreset_en | Do_hwreset_dis | Do_sanitize | Do_rpmb_write_key
    | Do_rpmb_read_counter | Do_rpmb_read_block | Do_rpmb_write_block | Do_cache_en | Do_cache_dis

text \<open>The run-time fields \<open>cmds\<close> and \<open>ncmds\<close> are a function of the verb, \<open>cmds\<close> below.\<close>

record Command =
  func :: CommandFunction
  nargs :: int
  verb :: string
  help_text :: string
  adv_help :: "string option"

definition commands :: "Command list" where
  "commands = [
    \<lparr>func = Do_dump_extcsd, nargs = - 1, verb = ''extcsd dump'',
       help_text = ''<device>\<newline>Dump extcsd data from <device>.'', adv_help = None\<rparr>,
    \<lparr>func = Do_read_extcsd, nargs = - 1, verb = ''extcsd read'',
       help_text = ''<device>\<newline>Print extcsd data from <device>.'', adv_help = None\<rparr>,
    \<lparr>func = Do_write_extcsd_byte, nargs = - 3, verb = ''extcsd write'',
       help_text = ''<offset> <value> <device>\<newline>Set byte in extcsd of <device>.'', adv_help = None\<rparr>,
    \<lparr>func = Do_writeprotect_get, nargs = - 1, verb = ''writeprotect get'',
       help_text = ''<device>\<newline>Determine the eMMC writeprotect status of <device>.'', adv_help = None\<rparr>,
    \<lparr>func = Do_writeprotect_set, nargs = - 1, verb = ''writeprotect set'',
       help_text = ''<device>\<newline>Set the eMMC writeprotect status of <device>.\<newline>This sets '' @
         ''the eMMC to be write-protected until next boot.'', adv_help = None\<rparr>,
    \<lparr>func = Do_disable_512B_emulation, nargs = - 1, verb = ''disable 512B emulation'',
       help_text = ''<device>\<newline>Set the eMMC data sector size to 4KB by disabling emulation on\<newline><device>.'', adv_help = None\<rparr>,
    \<lparr>func = Do_create_gp_partition, nargs = - 6, verb = ''gp create'',
       help_text = ''<-y|-n> <length KiB> <partition> <enh_attr> <ext_attr> <device>\<newline>create general '' @
         ''purpose partition for the <device>.\<newline>Dry-run only unless -y is passed.\<newline>NOTE! '' @
         '' This is a one-time programmable (unreversible) change.\<newline>To set enhanced '' @
         ''attribute to general partition being created set\<newline> <enh_attr> to 1 else set '' @
         ''it to 0.\<newline>To set extended attribute to general partition\<newline> set <ext_attr> '' @
         ''to 1,2 else set it to 0'', adv_help = None\<rparr>,
    \<lparr>func = Do_enh_area_set, nargs = - 4, verb = ''enh_area set'',
       help_text = ''<-y|-n> <start KiB> <length KiB> <device>\<newline>Enable the enhanced user area '' @
         ''for the <device>.\<newline>Dry-run only unless -y is passed.\<newline>NOTE!  This '' @
         ''is a one-time programmable (unreversible) change.'', adv_help = None\<rparr>,
    \<lparr>func = Do_write_reliability_set, nargs = - 2, verb = ''write_reliability set'',
       help_text = ''<-y|-n> <partition> <device>\<newline>Enable write reliability per partition for '' @
         ''the <device>.\<newline>Dry-run only unless -y is passed.\<newline>NOTE!  This is '' @
         ''a one-time programmable (unreversible) change.'', adv_help = None\<rparr>,
    \<lparr>func = Do_status_get, nargs = - 1, verb = ''status get'',
       help_text = ''<device>\<newline>Print the response to STATUS_SEND (CMD13).'', adv_help = None\<rparr>,
    \<lparr>func = Do_write_boot_en, nargs = - 3, verb = ''bootpart enable'',
       help_text = ''<boot_partition> <send_ack> <device>\<newline>Enable the boot partition for the <device>.\<newline>To '' @
         ''receive acknowledgment of boot from the card set <send_ack>\<newline>to 1, else set '' @
         ''it to 0.'', adv_help = None\<rparr>,
    \<lparr>func = Do_boot_bus_conditions_set, nargs = - 4, verb = ''bootbus set'',
       help_text = ''<boot_mode> <reset_boot_bus_conditions> <boot_bus_width> <device>\<newline>Set Boot '' @
         ''Bus Conditions.\<newline><boot_mode> must be '' @ [CHR 0x22] @
         ''single_backward|single_hs|dual'' @ [CHR 0x22] @
         ''\<newline><reset_boot_bus_conditions> must be '' @ [CHR 0x22] @ ''x1|retain'' @
         [CHR 0x22] @ ''\<newline><boot_bus_width> must be '' @ [CHR 0x22] @ ''x1|x4|x8'' @
         [CHR 0x22], adv_help = None\<rparr>,
    \<lparr>func = Do_write_bkops_en, nargs = - 1, verb = ''bkops enable'',
       help_text = ''<device>\<newline>Enable the eMMC BKOPS feature on <device>.\<newline>NOTE!  This '' @
         ''is a one-time programmable (unreversible) change.'', adv_help = None\<rparr>,
    \<lparr>func = Do_hwreset_en, nargs = - 1, verb = ''hwreset enable'',
       help_text = ''<device>\<newline>Permanently enable the eMMC H/W Reset feature on <device>.\<newline>NOTE! '' @
         '' This is a one-time programmable (unreversible) change.'', adv_help = None\<rparr>,
    \<lparr>func = Do_hwreset_dis, nargs = - 1, verb = ''hwreset disable'',
       help_text = ''<device>\<newline>Permanently disable the eMMC H/W Reset feature on <device>.\<newline>NOTE! '' @
         '' This is a one-time programmable (unreversible) change.'', adv_help = None\<rparr>,
    \<lparr>func = Do_sanitize, nargs = - 1, verb = ''sanitize'',
       help_text = ''<device>\<newline>Send Sanitize command to the <device>.\<newline>This will delete '' @
         ''the unmapped memory region of the device.'', adv_help = None\<rparr>,
    \<lparr>func = Do_rpmb_write_key, nargs = - 1, verb = ''rpmb write-key'',
       help_text = ''<rpmb device> <key file>\<newline>Program authentication key which is 32 bytes length '' @
         ''and stored\<newline>in the specified file. Also you can specify '' @ [CHR 0x27] @
         ''-'' @ [CHR 0x27] @
         '' instead of\<newline>key file path to read the key from stdin.\<newline>NOTE!  This '' @
         ''is a one-time programmable (unreversible) change.\<newline>Example:\<newline>  $ '' @
         ''echo -n AAAABBBBCCCCDDDDEEEEFFFFGGGGHHHH | '' @ [CHR 0x5C] @
         ''\<newline>    mmc rpmb write-key /dev/mmcblk0rpmb -'', adv_help = None\<rparr>,
    \<lparr>func = Do_rpmb_read_counter, nargs = - 1, verb = ''rpmb read-counter'',
       help_text = ''<rpmb device>\<newline>Counter value for the <rpmb device> will be read to stdout.'', adv_help = None\<rparr>,
    \<lparr>func = Do_rpmb_read_block, nargs = - 1, verb = ''rpmb read-block'',
       help_text = ''<rpmb device> <address> <blocks count> <output file> [key file]\<newline>Blocks of '' @
         ''256 bytes will be read from <rpmb device> to output\<newline>file or stdout if '' @
         [CHR 0x27] @ ''-'' @ [CHR 0x27] @
         '' is specified. If key is specified - read\<newline>data will be verified. Instead '' @
         ''of regular path you can specify\<newline>'' @ [CHR 0x27] @ ''-'' @ [CHR 0x27] @
         '' to read key from stdin.\<newline>Example:\<newline>  $ echo -n AAAABBBBCCCCDDDDEEEEFFFFGGGGHHHH '' @
         ''| '' @ [CHR 0x5C] @
         ''\<newline>    mmc rpmb read-block /dev/mmcblk0rpmb 0x02 2 /tmp/block -\<newline>or '' @
         ''read two blocks without verification\<newline>  $ mmc rpmb read-block /dev/mmcblk0rpmb '' @
         ''0x02 2 /tmp/block'', adv_help = None\<rparr>,
    \<lparr>func = Do_rpmb_write_block, nargs = - 1, verb = ''rpmb write-block'',
       help_text = ''<rpmb device> <address> <256 byte data file> <key file>\<newline>Block of 256 bytes '' @
         ''will be written from data file to\<newline><rpmb device>. Also you can specify '' @
         [CHR 0x27] @ ''-'' @ [CHR 0x27] @
         '' instead of key\<newline>file path or data file to read the data from stdin.\<newline>Example:\<newline> '' @
         '' $ (awk '' @ [CHR 0x27] @ ''BEGIN {while (c++<256) printf '' @ [CHR 0x22] @ ''a'' @
         [CHR 0x22] @ ''}'' @ [CHR 0x27] @ '' | '' @ [CHR 0x5C] @
         ''\<newline>    echo -n AAAABBBBCCCCDDDDEEEEFFFFGGGGHHHH) | '' @ [CHR 0x5C] @
         ''\<newline>    mmc rpmb write-block /dev/mmcblk0rpmb 0x02 - -'', adv_help = None\<rparr>,
    \<lparr>func = Do_cache_en, nargs = - 1, verb = ''cache enable'',
       help_text = ''<device>\<newline>Enable the eMMC cache feature on <device>.\<newline>NOTE! The cache '' @
         ''is an optional feature on devices >= eMMC4.5.'', adv_help = None\<rparr>,
    \<lparr>func = Do_cache_dis, nargs = - 1, verb = ''cache disable'',
       help_text = ''<device>\<newline>Disable the eMMC cache feature on <device>.\<newline>NOTE! The '' @
         ''cache is an optional feature on devices >= eMMC4.5.'', adv_help = None\<rparr>]"

section \<open>Words\<close>

text \<open>\<open>strrchr\<close>: what follows the last slash.\<close>

definition get_prgname :: "string \<Rightarrow> string" where
  "get_prgname programname = rev (takeWhile (\<lambda>c. c \<noteq> CHR ''/'') (rev programname))"

text \<open>
  The loop of \<open>split_command\<close>: \<open>s\<close> is the text from the start of the word, \<open>p\<close> the text still to read. The
  loop header counts \<open>l\<close> up also after it has been reset, so that it starts with 1 for a new word.
\<close>

fun split_loop :: "nat \<Rightarrow> string \<Rightarrow> string \<Rightarrow> string list" where
  "split_loop l s [] = [take l s]"
| "split_loop l s (c # p) = (if c \<noteq> CHR '' '' then split_loop (l + 1) s p else take l s # split_loop 1 p p)"

definition split_command :: "string \<Rightarrow> string list" where
  "split_command cmd = split_loop 0 cmd cmd"

abbreviation cmds :: "Command \<Rightarrow> string list" where
  "cmds c \<equiv> split_command (verb c)"

text \<open>
  \<open>for (...; *s1 == *s2 && *s1; s1++, s2++);\<close>: what is left of \<open>s1\<close>.
\<close>

fun advance :: "string \<Rightarrow> string \<Rightarrow> string" where
  "advance (a # s1) (b # s2) = (if a = b then advance s1 s2 else a # s1)"
| "advance s1 _ = s1"

section \<open>Help\<close>

definition indented :: "string \<Rightarrow> string" where
  "indented text = concat (map (\<lambda>c. if c = CHR 0x0A then [c, CHR 0x09, CHR 0x09] else [c]) text)"

definition print_help :: "string \<Rightarrow> Command \<Rightarrow> bool \<Rightarrow> string" where
  "print_help programname cmd advanced =
     [CHR 0x09] @ programname @ '' '' @ verb cmd @ '' '' @
     (case adv_help cmd of Some text \<Rightarrow> indented (if advanced then text else help_text cmd)
        | None \<Rightarrow> indented (help_text cmd)) @ [CHR 0x0A]"

definition MMC_VERSION :: string where "MMC_VERSION = ''0.1''"

definition help_page :: "string \<Rightarrow> string" where
  "help_page np = ''Usage:\<newline>'' @ concat (map (\<lambda>c. print_help np c False) commands) @
     [CHR 0x0A, CHR 0x09] @ np @ '' help|--help|-h\<newline>'' @ [CHR 0x09, CHR 0x09] @ ''Show the help.\<newline>'' @
     [CHR 0x0A, CHR 0x09] @ np @ '' <cmd> --help\<newline>'' @ [CHR 0x09, CHR 0x09] @
     ''Show detailed help for a command or subset of commands.\<newline>'' @
     [CHR 0x0A] @ MMC_VERSION @ [CHR 0x0A]"

section \<open>Ambiguity\<close>

text \<open>
  Whether \<open>cp\<close> counts as a second match for word \<open>i\<close> of \<open>cmd\<close>. A command with exactly \<open>i\<close> words has a null
  pointer there.
\<close>

definition other_match :: "Command \<Rightarrow> string list \<Rightarrow> nat \<Rightarrow> Command \<Rightarrow> bool option" where
  "other_match cmd args i cp =
     (if length (cmds cp) < i then Some False
      else if take i (cmds cmd) \<noteq> take i (cmds cp) then Some False
      else if length (cmds cp) = i then None
      else if cmds cmd ! i = cmds cp ! i then Some False
      else Some (advance (args ! i) (cmds cp ! i) = []))"

fun count_matches :: "Command \<Rightarrow> string list \<Rightarrow> nat \<Rightarrow> Command list \<Rightarrow> nat option" where
  "count_matches cmd args i [] = Some 0"
| "count_matches cmd args i (cp # cps) = do {
     m \<leftarrow> other_match cmd args i cp;
     n \<leftarrow> count_matches cmd args i cps;
     Some (if m then n + 1 else n) }"

text \<open>The first word that is ambiguous, if there is one; \<open>args\<close> is \<open>argv + 1\<close>.\<close>

fun ambiguity_loop :: "Command \<Rightarrow> string list \<Rightarrow> nat list \<Rightarrow> nat option option" where
  "ambiguity_loop cmd args [] = Some None"
| "ambiguity_loop cmd args (i # is) = do {
     match \<leftarrow> count_matches cmd args i commands;
     if match > 0 then Some (Some i) else ambiguity_loop cmd args is }"

definition check_ambiguity :: "Command \<Rightarrow> string list \<Rightarrow> nat option option" where
  "check_ambiguity cmd args = ambiguity_loop cmd args [0..<length (cmds cmd)]"

section \<open>The search\<close>

text \<open>Whether all words match, and the index at which the loop over them stops.\<close>

fun match_loop :: "string list \<Rightarrow> string list \<Rightarrow> bool \<times> nat" where
  "match_loop [] args = (True, 0)"
| "match_loop (w # ws) (a # args) =
     (if advance a w \<noteq> [] then (False, 0) else let (match, i) = match_loop ws args in (match, i + 1))"
| "match_loop (w # ws) [] = (False, 0)"   \<comment> \<open>not reached: there are enough arguments\<close>

text \<open>The commands whose help is printed, and the command that matches.\<close>

fun search_loop :: "string list \<Rightarrow> Command list \<Rightarrow> Command list \<times> Command option" where
  "search_loop args [] = ([], None)"
| "search_loop args (cp # cps) =
     (if length args < length (cmds cp) then search_loop args cps
      else let (match, i) = match_loop (cmds cp) args in
        if length args > i \<and> args ! i = ''--help'' then
          let (hs, m) = search_loop args cps in (cp # hs, m)
        else if \<not> match then search_loop args cps
        else ([], Some cp))"

text \<open>\<open>memory\<close> tells whether the two blocks can be allocated.\<close>

definition prepare_args :: "bool \<Rightarrow> string list \<Rightarrow> string \<Rightarrow> Command \<Rightarrow> string list option" where
  "prepare_args memory av prgname cmd = (if memory then Some ((prgname @ '' '' @ verb cmd) # av) else None)"

datatype parsed = Stop int string string | Call CommandFunction "string list"

definition parse_args :: "bool \<Rightarrow> string list \<Rightarrow> parsed option" where
  "parse_args memory argv = (case argv of [] \<Rightarrow> None
     | programname # args \<Rightarrow> let prgname = get_prgname programname in
       if args = [] \<or> hd args = ''help'' \<or> hd args = ''-h'' \<or> hd args = ''--help'' then
         Some (Stop 0 (help_page prgname) [])
       else (case search_loop args commands of
           (h # hs, _) \<Rightarrow> Some (Stop 0 (''Usage:\<newline>'' @
               concat (map (\<lambda>c. print_help prgname c True) (h # hs)) @ [CHR 0x0A] @ MMC_VERSION @ [CHR 0x0A]) [])
         | ([], None) \<Rightarrow> Some (Stop (- 1) (help_page prgname) (''ERROR: unknown command '' @ [CHR 0x27] @ hd args @
               [CHR 0x27, CHR 0x0A]))
         | ([], Some c) \<Rightarrow> do {
             amb \<leftarrow> check_ambiguity c args;
             case amb of
               Some i \<Rightarrow> Some (Stop (- 2) [] (''ERROR: in command '' @ [CHR 0x27] @
                  concat (map (\<lambda>j. (if j > 0 then '' '' else []) @ args ! j) [0..<Suc i]) @ [CHR 0x27] @
                  '', '' @ [CHR 0x27] @ args ! i @ [CHR 0x27] @ '' is ambiguous\<newline>''))
             | None \<Rightarrow>
                 let rest = drop (length (cmds c)) args; n = int (length rest) in
                 if nargs c < 0 \<and> nargs c < - n then
                   Some (Stop (- 2) [] (''ERROR: '' @ [CHR 0x27] @ verb c @ [CHR 0x27] @ '' requires minimum '' @
                     digits (nat (- nargs c)) @ '' arg(s)\<newline>''))
                 else if nargs c \<ge> 0 \<and> nargs c \<noteq> n \<and> nargs c \<noteq> 999 then
                   Some (Stop (- 2) [] (''ERROR: '' @ [CHR 0x27] @ verb c @ [CHR 0x27] @ '' requires '' @
                     digits (nat (nargs c)) @ '' arg(s)\<newline>''))
                 else (case prepare_args memory rest prgname c of
                     None \<Rightarrow> Some (Stop (- 20) [] (''ERROR: not enough memory'' @ [CHR 0x5C] @ ''n''))
                   | Some args \<Rightarrow> Some (Call (func c) args)) }))"

section \<open>What the arguments abbreviate\<close>

definition abbreviates :: "string list \<Rightarrow> Command \<Rightarrow> bool" where
  "abbreviates args c \<longleftrightarrow> length (cmds c) \<le> length args \<and> list_all2 prefix (take (length (cmds c)) args) (cmds c)"

text \<open>Another command with the same words before word \<open>i\<close>, whose word \<open>i\<close> the argument abbreviates too.\<close>

definition rival :: "string list \<Rightarrow> Command \<Rightarrow> nat \<Rightarrow> Command \<Rightarrow> bool" where
  "rival args c i d \<longleftrightarrow> i < length (cmds d) \<and> take i (cmds c) = take i (cmds d) \<and> cmds c ! i \<noteq> cmds d ! i \<and>
     prefix (args ! i) (cmds d ! i)"

lemma advance_prefix [simp]: "advance s1 s2 = [] \<longleftrightarrow> prefix s1 s2"
  by (induction s1 s2 rule: advance.induct) auto

lemma command_words: "map cmds commands =
   [[''extcsd'', ''dump''], [''extcsd'', ''read''], [''extcsd'', ''write''], [''writeprotect'', ''get''],
    [''writeprotect'', ''set''], [''disable'', ''512B '', ''emulation''], [''gp'', ''create''],
    [''enh_area'', ''set''], [''write_reliability'', ''set''], [''status'', ''get''], [''bootpart'', ''enable''],
    [''bootbus'', ''set''], [''bkops'', ''enable''], [''hwreset'', ''enable''], [''hwreset'', ''disable''],
    [''sanitize''], [''rpmb'', ''write-key''], [''rpmb'', ''read-counter''], [''rpmb'', ''read-block''],
    [''rpmb'', ''write-block''], [''cache'', ''enable''], [''cache'', ''disable'']]"
  by (simp add: commands_def split_command_def)

lemma words_distinct: "distinct (map cmds commands)"
  unfolding command_words by simp

lemma words_prefix_free:
  assumes "c \<in> set commands" "d \<in> set commands" "prefix (cmds c) (cmds d)"
  shows "c = d"
proof -
  have free: "list_all (\<lambda>v. list_all (\<lambda>w. prefix v w \<longrightarrow> v = w) (map cmds commands)) (map cmds commands)"
    unfolding command_words by simp
  then have "cmds c = cmds d" using assms unfolding list_all_iff by simp
  then show ?thesis using words_distinct assms(1,2) by (auto simp: distinct_map dest: inj_onD)
qed

lemma nargs_negative: "c \<in> set commands \<Longrightarrow> nargs c < 0"
proof -
  have "list_all (\<lambda>n. n < 0) (map nargs commands)" by (simp add: commands_def)
  then show "c \<in> set commands \<Longrightarrow> nargs c < 0" by (simp add: list_all_iff)
qed

lemma words_nonempty: "c \<in> set commands \<Longrightarrow> cmds c \<noteq> []"
proof -
  have "list_all (\<lambda>w. w \<noteq> []) (map cmds commands)" unfolding command_words by simp
  then show "c \<in> set commands \<Longrightarrow> cmds c \<noteq> []" by (simp add: list_all_iff)
qed

lemma match_loop_abbreviates:
  "length ws \<le> length args \<Longrightarrow> fst (match_loop ws args) \<longleftrightarrow> list_all2 prefix (take (length ws) args) ws"
  by (induction ws args rule: match_loop.induct) (auto simp: split_beta Let_def)

lemma search_find: "''--help'' \<notin> set args \<Longrightarrow> search_loop args cps = ([], find (abbreviates args) cps)"
proof (induction cps)
  case (Cons cp cps)
  have "args ! i \<noteq> ''--help''" if "i < length args" for i
    using Cons.prems that by (metis nth_mem)
  then show ?case
    using Cons match_loop_abbreviates [of "cmds cp" args]
    by (auto simp: abbreviates_def split_beta Let_def)
qed simp

lemma other_match_rival:
  assumes "c \<in> set commands" "d \<in> set commands" "i < length (cmds c)"
  shows "other_match c args i d = Some (rival args c i d)"
proof -
  have "length (cmds d) \<noteq> i" if "take i (cmds c) = take i (cmds d)"
  proof
    assume "length (cmds d) = i"
    with that have "prefix (cmds d) (cmds c)" by (metis take_all_iff order_refl take_is_prefix)
    then have "d = c" using words_prefix_free assms(1,2) by blast
    with \<open>length (cmds d) = i\<close> assms(3) show False by simp
  qed
  then consider "length (cmds d) < i" | "take i (cmds c) \<noteq> take i (cmds d)"
    | "i < length (cmds d)" "take i (cmds c) = take i (cmds d)" by linarith
  then show ?thesis by cases (simp_all add: other_match_def rival_def)
qed

lemma count_rivals:
  assumes "c \<in> set commands" "set cps \<subseteq> set commands" "i < length (cmds c)"
  shows "count_matches c args i cps = Some (length (filter (rival args c i) cps))"
  using assms(2) by (induction cps) (auto simp: other_match_rival [OF assms(1) _ assms(3)])

lemma ambiguity_rivals:
  assumes "c \<in> set commands" "\<And>i. i \<in> set is \<Longrightarrow> i < length (cmds c)"
  shows "ambiguity_loop c args is = Some (find (\<lambda>i. \<exists>d \<in> set commands. rival args c i d) is)"
  using assms(2)
proof (induction "is")
  case (Cons i "is")
  then show ?case
    using count_rivals [OF assms(1) order_refl, of i args] by (auto simp: filter_empty_conv)
qed simp

lemma check_ambiguity_find:
  "c \<in> set commands \<Longrightarrow>
   check_ambiguity c args = Some (find (\<lambda>i. \<exists>d \<in> set commands. rival args c i d) [0..<length (cmds c)])"
  unfolding check_ambiguity_def by (rule ambiguity_rivals) simp_all


text \<open>Two commands that the same arguments abbreviate differ at a word that is ambiguous.\<close>

lemma abbreviated_rival:
  assumes "c \<in> set commands" "d \<in> set commands" "c \<noteq> d" "abbreviates args d"
  shows "\<exists>i < length (cmds c). rival args c i d"
proof -
  have "\<not> prefix (cmds c) (cmds d)" "\<not> prefix (cmds d) (cmds c)"
    using words_prefix_free assms(1-3) by blast+
  then have "cmds c \<parallel> cmds d" by (simp add: parallel_def)
  then obtain us v vs w ws where w: "v \<noteq> w" "cmds c = us @ v # vs" "cmds d = us @ w # ws"
    using parallel_decomp by blast
  have "prefix (args ! length us) w"
    using assms(4) w(3) by (auto simp: abbreviates_def list_all2_conv_all_nth dest!: spec [of _ "length us"])
  then have "rival args c (length us) d" using w by (simp add: rival_def)
  moreover have "length us < length (cmds c)" using w(2) by simp
  ultimately show ?thesis by blast
qed

text \<open>Without a request for help, the first command that is abbreviated is tested further.\<close>

definition plain :: "string list \<Rightarrow> bool" where
  "plain args \<longleftrightarrow> args \<noteq> [] \<and> hd args \<notin> {''help'', ''-h''} \<and> ''--help'' \<notin> set args"

definition accepted :: "string list \<Rightarrow> Command \<Rightarrow> bool" where
  "accepted args c \<longleftrightarrow> abbreviates args c \<and> (\<forall>i < length (cmds c). \<forall>d \<in> set commands. \<not> rival args c i d) \<and>
     - nargs c \<le> int (length args - length (cmds c))"

lemma parse_plain:
  assumes "plain args"
  shows "parse_args memory (p # args) = Some (Call f xs) \<longleftrightarrow> memory \<and>
    (\<exists>c. find (abbreviates args) commands = Some c \<and> accepted args c \<and> f = func c \<and>
      xs = (get_prgname p @ '' '' @ verb c) # drop (length (cmds c)) args)"
proof -
  have h: "hd args \<noteq> ''--help''" using assms hd_in_set by (fastforce simp: plain_def)
  show ?thesis
  proof (cases "find (abbreviates args) commands")
    case None
    then show ?thesis using assms h search_find [of args commands] by (simp add: parse_args_def plain_def Let_def)
  next
    case (Some c)
    then have c: "c \<in> set commands" "abbreviates args c" by (auto simp: find_Some_iff)
    obtain r where r: "check_ambiguity c args = Some r"
        "r = None \<longleftrightarrow> (\<forall>i < length (cmds c). \<forall>d \<in> set commands. \<not> rival args c i d)"
      using check_ambiguity_find [OF c(1), of args] by (auto simp: find_None_iff)
    from c show ?thesis
      using assms h Some search_find [of args commands] nargs_negative [OF c(1)] r
      by (cases r) (auto simp: parse_args_def prepare_args_def plain_def Let_def accepted_def)
  qed
qed

lemma find_accepted:
  assumes "c \<in> set commands" "accepted args c"
  shows "find (abbreviates args) commands = Some c"
proof -
  obtain d where d: "find (abbreviates args) commands = Some d"
    using assms by (cases "find (abbreviates args) commands") (auto simp: find_None_iff accepted_def)
  then have "d \<in> set commands" "abbreviates args d" by (auto simp: find_Some_iff)
  then have "c = d" using abbreviated_rival [OF assms(1)] assms(2) unfolding accepted_def by blast
  with d show ?thesis by simp
qed

section \<open>Properties\<close>

text \<open>
  C23 The arguments are accepted exactly when they abbreviate a command of the table word by word, no
  other command with the same words before has a word that the argument there abbreviates too, and
  enough arguments follow; then its function is called with the program name and the verb as the first
  argument and the arguments that follow. The command is the only one that the arguments abbreviate.
\<close>

theorem parse_args_accepts:
  assumes "plain args"
  shows "parse_args True (p # args) = Some (Call f xs) \<longleftrightarrow>
    (\<exists>c \<in> set commands. accepted args c \<and> f = func c \<and>
      xs = (get_prgname p @ '' '' @ verb c) # drop (length (cmds c)) args \<and>
      (\<forall>d \<in> set commands. abbreviates args d \<longrightarrow> d = c))"
proof -
  have "d = c" if "c \<in> set commands" "accepted args c" "d \<in> set commands" "abbreviates args d" for c d
    using abbreviated_rival [of c d args] that unfolding accepted_def by blast
  moreover have "c \<in> set commands" if "find (abbreviates args) commands = Some c" for c
    using that by (auto simp: find_Some_iff)
  ultimately show ?thesis unfolding parse_plain [OF assms] using find_accepted by blast
qed

theorem parse_args_accepts_witness:
  "parse_args True [''/sbin/mmc'', ''ext'', ''re'', ''/dev/block/mmcblk0''] =
     Some (Call Do_read_extcsd [''mmc extcsd read'', ''/dev/block/mmcblk0''])"
proof -
  let ?args = "[''ext'', ''re'', ''/dev/block/mmcblk0'']"
  obtain c where c: "c \<in> set commands" "cmds c = [''extcsd'', ''read'']" "func c = Do_read_extcsd"
    "verb c = ''extcsd read''" "nargs c = - 1"
    using that [of "commands ! 1"] by (simp add: commands_def split_command_def)
  have "list_all (\<lambda>w. \<not> (0 < length w \<and> ''extcsd'' \<noteq> w ! 0 \<and> prefix ''ext'' (w ! 0)) \<and>
     \<not> (1 < length w \<and> [''extcsd''] = take 1 w \<and> ''read'' \<noteq> w ! 1 \<and> prefix ''re'' (w ! 1))) (map cmds commands)"
    unfolding command_words by simp
  then have "\<forall>i < 2. \<forall>d \<in> set commands. \<not> rival ?args c i d"
    by (auto simp: list_all_iff rival_def c(2) less_2_cases_iff)
  then have acc: "accepted ?args c" by (simp add: accepted_def abbreviates_def c(2,5))
  have "d = c" if "d \<in> set commands" "abbreviates ?args d" for d
    using abbreviated_rival [OF c(1) that(1) _ that(2)] acc that(1) unfolding accepted_def by blast
  then have "\<exists>c \<in> set commands. accepted ?args c \<and> Do_read_extcsd = func c \<and>
      [''mmc extcsd read'', ''/dev/block/mmcblk0''] = (get_prgname ''/sbin/mmc'' @ '' '' @ verb c) # drop (length (cmds c)) ?args \<and>
      (\<forall>d \<in> set commands. abbreviates ?args d \<longrightarrow> d = c)"
    using c(1,3) acc unfolding c(2,4) by (intro bexI [of _ c]) (simp_all add: get_prgname_def c(2,4) split_command_def)
  then show ?thesis using parse_args_accepts [of ?args "''/sbin/mmc''"] by (simp add: plain_def)
qed

lemma parse_args_defined: "parse_args memory (p # args) \<noteq> None"
proof -
  have "c \<in> set commands" if "search_loop args cps = (hs, Some c)" "set cps \<subseteq> set commands" for hs c cps
    using that by (induction cps arbitrary: hs) (auto simp: Let_def split: if_splits prod.splits)
  then have "check_ambiguity c args \<noteq> None" if "search_loop args commands = ([], Some c)" for c
    using that check_ambiguity_find by blast
  then show ?thesis
    by (auto simp: parse_args_def Let_def split: prod.splits list.splits option.splits Option.bind_splits)
qed

text \<open>
  No argument vector makes the parser read through a null pointer: the test for ambiguity would
  compare with the null pointer at the end of a command's words, but only for a command whose words all
  begin another command, and the table has none.
\<close>

theorem parse_args_no_fault: "parse_args memory (p # args) \<noteq> None"
  by (rule parse_args_defined)


text \<open>The words of a verb as \<open>split_command\<close> finds them.\<close>

lemma split_loop_last: "CHR '' '' \<notin> set w \<Longrightarrow> split_loop l s w = [take (l + length w) s]"
  by (induction w arbitrary: l) auto

lemma split_loop_space:
  "CHR '' '' \<notin> set w \<Longrightarrow> split_loop l s (w @ CHR '' '' # p) = take (l + length w) s # split_loop 1 p p"
  by (induction w arbitrary: l) auto

text \<open>
  CX The words of a verb: the first and the last are exact, but every word between them keeps the space
  that follows it, because the length is counted up once more after it has been reset.
\<close>

definition join :: "string list \<Rightarrow> string" where
  "join ws = concat (map (\<lambda>w. w @ '' '') (butlast ws)) @ last ws"

lemma split_later_words:
  "ws \<noteq> [] \<Longrightarrow> list_all (\<lambda>w. CHR '' '' \<notin> set w) ws \<Longrightarrow>
   split_loop 1 (join ws) (join ws) = map (\<lambda>w. w @ '' '') (butlast ws) @ [last ws]"
proof (induction ws rule: induct_list012)
  case (3 v w ws)
  have j: "join (v # w # ws) = v @ CHR '' '' # join (w # ws)" by (simp add: join_def)
  show ?case using 3 unfolding j by (simp add: split_loop_space del: split_loop.simps)
qed (simp_all add: join_def split_loop_last)

theorem split_command_words:
  assumes "list_all (\<lambda>w. CHR '' '' \<notin> set w) (w # ws)" "ws \<noteq> []"
  shows "split_command (join (w # ws)) = w # map (\<lambda>v. v @ '' '') (butlast ws) @ [last ws]"
proof -
  have "join (w # ws) = w @ CHR '' '' # join ws" using assms(2) by (simp add: join_def)
  then show ?thesis
    using assms split_later_words [of ws] by (simp add: split_command_def split_loop_space)
qed

theorem split_command_words_witness:
  "split_command ''disable 512B emulation'' = [''disable'', ''512B '', ''emulation'']"
  using split_command_words [of "''disable''" "[''512B'', ''emulation'']"] by (simp add: join_def)


lemma no_word_help: "c \<in> set commands \<Longrightarrow> list_all (\<lambda>w. \<not> prefix ''--help'' w) (cmds c)"
proof -
  have "list_all (list_all (\<lambda>w. \<not> prefix ''--help'' w)) (map cmds commands)"
    unfolding command_words by simp
  then show "c \<in> set commands \<Longrightarrow> list_all (\<lambda>w. \<not> prefix ''--help'' w) (cmds c)"
    by (simp add: list_all_iff)
qed

text \<open>The commands that begin with the words before \<^verbatim>\<open>--help\<close>, with at most one word more.\<close>

definition help_for :: "string list \<Rightarrow> Command \<Rightarrow> bool" where
  "help_for ws c \<longleftrightarrow> length ws \<le> length (cmds c) \<and> length (cmds c) \<le> length ws + 1 \<and>
     list_all2 prefix ws (take (length ws) (cmds c))"

lemma match_help:
  assumes "length vs \<le> length ws + 1" "list_all (\<lambda>w. \<not> prefix h w) vs"
    "\<not> (length vs < length ws \<and> list_all2 prefix (take (length vs) ws) vs)"
  shows "if length ws \<le> length vs \<and> list_all2 prefix ws (take (length ws) vs)
    then snd (match_loop vs (ws @ [h])) = length ws
    else \<not> fst (match_loop vs (ws @ [h])) \<and> snd (match_loop vs (ws @ [h])) < length ws"
  using assms
proof (induction vs arbitrary: ws)
  case (Cons v vs)
  then show ?case by (cases ws) (auto simp: split_beta Let_def split: if_splits)
qed (auto split: if_splits)

lemma search_help:
  assumes "''--help'' \<notin> set ws" "set cps \<subseteq> set commands"
    "\<forall>c \<in> set commands. length (cmds c) < length ws \<longrightarrow> \<not> abbreviates ws c"
  shows "search_loop (ws @ [''--help'']) cps = (filter (help_for ws) cps, None)"
  using assms(2)
proof (induction cps)
  case (Cons c cps)
  let ?m = "match_loop (cmds c) (ws @ [''--help''])"
  have c: "c \<in> set commands" using Cons.prems by simp
  note no_word_help [OF c]
  moreover have "\<not> (length (cmds c) < length ws \<and> list_all2 prefix (take (length (cmds c)) ws) (cmds c))"
    using assms(3) c by (auto simp: abbreviates_def)
  ultimately have m: "if help_for ws c then snd ?m = length ws else \<not> fst ?m \<and> snd ?m < length ws"
    if "length (cmds c) \<le> length ws + 1"
    using match_help [of "cmds c" ws "''--help''"] that by (simp add: help_for_def)
  have "ws ! i \<noteq> ''--help''" if "i < length ws" for i using assms(1) that by (metis nth_mem)
  then show ?case
    using m Cons by (cases "help_for ws c") (auto simp: split_beta Let_def nth_append help_for_def)
qed simp

text \<open>
  Words followed by \<^verbatim>\<open>--help\<close>: help is printed for exactly the commands that begin with the words and
  have at most one word more, and when there are none the words are an unknown command. A command with
  more words is passed over, although its words begin so.
\<close>

theorem help_lists:
  assumes "ws \<noteq> []" "hd ws \<notin> {''help'', ''-h''}" "''--help'' \<notin> set ws"
    "\<forall>c \<in> set commands. length (cmds c) < length ws \<longrightarrow> \<not> abbreviates ws c"
  shows "\<exists>out err. parse_args memory (p # ws @ [''--help'']) =
      Some (Stop (if filter (help_for ws) commands = [] then - 1 else 0) out err) \<and>
    (filter (help_for ws) commands \<noteq> [] \<longrightarrow> out = ''Usage:\<newline>'' @
      concat (map (\<lambda>c. print_help (get_prgname p) c True) (filter (help_for ws) commands)) @
      [CHR 0x0A] @ MMC_VERSION @ [CHR 0x0A])"
proof -
  have "hd ws \<noteq> ''--help''" using hd_in_set [OF assms(1)] assms(3) by metis
  then show ?thesis
    using assms(1,2) search_help [OF assms(3) order_refl assms(4)]
    by (cases "filter (help_for ws) commands") (auto simp: parse_args_def Let_def)
qed

theorem help_lists_witness:
  "\<exists>out err. parse_args True [''mmc'', ''disable'', ''--help''] = Some (Stop (- 1) out err)"
proof -
  have "list_all (\<lambda>w. \<not> (1 \<le> length w \<and> length w \<le> 2 \<and> prefix ''disable'' (w ! 0)) \<and> length w \<ge> 1) (map cmds commands)"
    unfolding command_words by simp
  then have "\<not> help_for [''disable''] c" "1 \<le> length (cmds c)" if "c \<in> set commands" for c
    using that by (auto simp: list_all_iff help_for_def list_all2_conv_all_nth)
  then have "filter (help_for [''disable'']) commands = []"
      "\<forall>c \<in> set commands. length (cmds c) < length [''disable''] \<longrightarrow> \<not> abbreviates [''disable''] c"
    by (fastforce simp: filter_empty_conv)+
  then show ?thesis using help_lists [of "[''disable'']" True "''mmc''"] by auto
qed

end
