(* ===== verification/Mmc_Regs.thy ===== *)
theory Mmc_Regs
  imports Byte_Words
begin

text \<open>
  The constants of \<^verbatim>\<open>mmc_utils/mmc.h\<close>: commands, the bytes of the EXT_CSD register, its fields and the
  flags of responses. \<open>mmc_consts\<close> holds their values.
\<close>

unbundle bit_operations_syntax

named_theorems mmc_consts \<open>values of the constants\<close>

section \<open>Commands and responses\<close>

definition MMC_SWITCH :: "32 word" where [mmc_consts]: "MMC_SWITCH = 6"
definition MMC_SEND_EXT_CSD :: "32 word" where [mmc_consts]: "MMC_SEND_EXT_CSD = 8"
definition MMC_SEND_STATUS :: "32 word" where [mmc_consts]: "MMC_SEND_STATUS = 0xd"
definition R1_SWITCH_ERROR :: "32 word" where [mmc_consts]: "R1_SWITCH_ERROR = 0x80"
definition MMC_SWITCH_MODE_WRITE_BYTE :: "32 word" where [mmc_consts]: "MMC_SWITCH_MODE_WRITE_BYTE = 3"
definition MMC_READ_MULTIPLE_BLOCK :: "32 word" where [mmc_consts]: "MMC_READ_MULTIPLE_BLOCK = 0x12"
definition MMC_WRITE_MULTIPLE_BLOCK :: "32 word" where [mmc_consts]: "MMC_WRITE_MULTIPLE_BLOCK = 0x19"

section \<open>Registers\<close>

definition EXT_CSD_S_CMD_SET :: nat where [mmc_consts]: "EXT_CSD_S_CMD_SET = 504"
definition EXT_CSD_HPI_FEATURE :: nat where [mmc_consts]: "EXT_CSD_HPI_FEATURE = 503"
definition EXT_CSD_BKOPS_SUPPORT :: nat where [mmc_consts]: "EXT_CSD_BKOPS_SUPPORT = 502"
definition EXT_CSD_CACHE_SIZE_3 :: nat where [mmc_consts]: "EXT_CSD_CACHE_SIZE_3 = 252"
definition EXT_CSD_CACHE_SIZE_2 :: nat where [mmc_consts]: "EXT_CSD_CACHE_SIZE_2 = 251"
definition EXT_CSD_CACHE_SIZE_1 :: nat where [mmc_consts]: "EXT_CSD_CACHE_SIZE_1 = 250"
definition EXT_CSD_CACHE_SIZE_0 :: nat where [mmc_consts]: "EXT_CSD_CACHE_SIZE_0 = 249"
definition EXT_CSD_BOOT_INFO :: nat where [mmc_consts]: "EXT_CSD_BOOT_INFO = 228"
definition EXT_CSD_SEC_COUNT_3 :: nat where [mmc_consts]: "EXT_CSD_SEC_COUNT_3 = 215"
definition EXT_CSD_SEC_COUNT_2 :: nat where [mmc_consts]: "EXT_CSD_SEC_COUNT_2 = 214"
definition EXT_CSD_SEC_COUNT_1 :: nat where [mmc_consts]: "EXT_CSD_SEC_COUNT_1 = 213"
definition EXT_CSD_SEC_COUNT_0 :: nat where [mmc_consts]: "EXT_CSD_SEC_COUNT_0 = 212"
definition EXT_CSD_PART_SWITCH_TIME :: nat where [mmc_consts]: "EXT_CSD_PART_SWITCH_TIME = 199"
definition EXT_CSD_REV :: nat where [mmc_consts]: "EXT_CSD_REV = 192"
definition EXT_CSD_BOOT_CFG :: nat where [mmc_consts]: "EXT_CSD_BOOT_CFG = 179"
definition EXT_CSD_PART_CONFIG :: nat where [mmc_consts]: "EXT_CSD_PART_CONFIG = 179"
definition EXT_CSD_BOOT_BUS_CONDITIONS :: nat where [mmc_consts]: "EXT_CSD_BOOT_BUS_CONDITIONS = 177"
definition EXT_CSD_ERASE_GROUP_DEF :: nat where [mmc_consts]: "EXT_CSD_ERASE_GROUP_DEF = 175"
definition EXT_CSD_BOOT_WP :: nat where [mmc_consts]: "EXT_CSD_BOOT_WP = 173"
definition EXT_CSD_WR_REL_SET :: nat where [mmc_consts]: "EXT_CSD_WR_REL_SET = 167"
definition EXT_CSD_WR_REL_PARAM :: nat where [mmc_consts]: "EXT_CSD_WR_REL_PARAM = 166"
definition EXT_CSD_SANITIZE_START :: nat where [mmc_consts]: "EXT_CSD_SANITIZE_START = 165"
definition EXT_CSD_BKOPS_EN :: nat where [mmc_consts]: "EXT_CSD_BKOPS_EN = 163"
definition EXT_CSD_RST_N_FUNCTION :: nat where [mmc_consts]: "EXT_CSD_RST_N_FUNCTION = 162"
definition EXT_CSD_PARTITIONING_SUPPORT :: nat where [mmc_consts]: "EXT_CSD_PARTITIONING_SUPPORT = 160"
definition EXT_CSD_MAX_ENH_SIZE_MULT_2 :: nat where [mmc_consts]: "EXT_CSD_MAX_ENH_SIZE_MULT_2 = 159"
definition EXT_CSD_MAX_ENH_SIZE_MULT_1 :: nat where [mmc_consts]: "EXT_CSD_MAX_ENH_SIZE_MULT_1 = 158"
definition EXT_CSD_MAX_ENH_SIZE_MULT_0 :: nat where [mmc_consts]: "EXT_CSD_MAX_ENH_SIZE_MULT_0 = 157"
definition EXT_CSD_PARTITIONS_ATTRIBUTE :: nat where [mmc_consts]: "EXT_CSD_PARTITIONS_ATTRIBUTE = 156"
definition EXT_CSD_PARTITION_SETTING_COMPLETED :: nat where [mmc_consts]: "EXT_CSD_PARTITION_SETTING_COMPLETED = 155"
definition EXT_CSD_GP_SIZE_MULT_4_2 :: nat where [mmc_consts]: "EXT_CSD_GP_SIZE_MULT_4_2 = 154"
definition EXT_CSD_GP_SIZE_MULT_4_1 :: nat where [mmc_consts]: "EXT_CSD_GP_SIZE_MULT_4_1 = 153"
definition EXT_CSD_GP_SIZE_MULT_4_0 :: nat where [mmc_consts]: "EXT_CSD_GP_SIZE_MULT_4_0 = 152"
definition EXT_CSD_GP_SIZE_MULT_3_2 :: nat where [mmc_consts]: "EXT_CSD_GP_SIZE_MULT_3_2 = 151"
definition EXT_CSD_GP_SIZE_MULT_3_1 :: nat where [mmc_consts]: "EXT_CSD_GP_SIZE_MULT_3_1 = 150"
definition EXT_CSD_GP_SIZE_MULT_3_0 :: nat where [mmc_consts]: "EXT_CSD_GP_SIZE_MULT_3_0 = 149"
definition EXT_CSD_GP_SIZE_MULT_2_2 :: nat where [mmc_consts]: "EXT_CSD_GP_SIZE_MULT_2_2 = 148"
definition EXT_CSD_GP_SIZE_MULT_2_1 :: nat where [mmc_consts]: "EXT_CSD_GP_SIZE_MULT_2_1 = 147"
definition EXT_CSD_GP_SIZE_MULT_2_0 :: nat where [mmc_consts]: "EXT_CSD_GP_SIZE_MULT_2_0 = 146"
definition EXT_CSD_GP_SIZE_MULT_1_2 :: nat where [mmc_consts]: "EXT_CSD_GP_SIZE_MULT_1_2 = 145"
definition EXT_CSD_GP_SIZE_MULT_1_1 :: nat where [mmc_consts]: "EXT_CSD_GP_SIZE_MULT_1_1 = 144"
definition EXT_CSD_GP_SIZE_MULT_1_0 :: nat where [mmc_consts]: "EXT_CSD_GP_SIZE_MULT_1_0 = 143"
definition EXT_CSD_ENH_SIZE_MULT_2 :: nat where [mmc_consts]: "EXT_CSD_ENH_SIZE_MULT_2 = 142"
definition EXT_CSD_ENH_SIZE_MULT_1 :: nat where [mmc_consts]: "EXT_CSD_ENH_SIZE_MULT_1 = 141"
definition EXT_CSD_ENH_SIZE_MULT_0 :: nat where [mmc_consts]: "EXT_CSD_ENH_SIZE_MULT_0 = 140"
definition EXT_CSD_ENH_START_ADDR_3 :: nat where [mmc_consts]: "EXT_CSD_ENH_START_ADDR_3 = 139"
definition EXT_CSD_ENH_START_ADDR_2 :: nat where [mmc_consts]: "EXT_CSD_ENH_START_ADDR_2 = 138"
definition EXT_CSD_ENH_START_ADDR_1 :: nat where [mmc_consts]: "EXT_CSD_ENH_START_ADDR_1 = 137"
definition EXT_CSD_ENH_START_ADDR_0 :: nat where [mmc_consts]: "EXT_CSD_ENH_START_ADDR_0 = 136"
definition EXT_CSD_NATIVE_SECTOR_SIZE :: nat where [mmc_consts]: "EXT_CSD_NATIVE_SECTOR_SIZE = 63"
definition EXT_CSD_USE_NATIVE_SECTOR :: nat where [mmc_consts]: "EXT_CSD_USE_NATIVE_SECTOR = 62"
definition EXT_CSD_DATA_SECTOR_SIZE :: nat where [mmc_consts]: "EXT_CSD_DATA_SECTOR_SIZE = 61"
definition EXT_CSD_EXT_PARTITIONS_ATTRIBUTE_1 :: nat where [mmc_consts]: "EXT_CSD_EXT_PARTITIONS_ATTRIBUTE_1 = 53"
definition EXT_CSD_EXT_PARTITIONS_ATTRIBUTE_0 :: nat where [mmc_consts]: "EXT_CSD_EXT_PARTITIONS_ATTRIBUTE_0 = 52"
definition EXT_CSD_CACHE_CTRL :: nat where [mmc_consts]: "EXT_CSD_CACHE_CTRL = 33"

section \<open>Fields\<close>

definition HS_CTRL_REL :: u8 where [mmc_consts]: "HS_CTRL_REL = 1"
definition EN_REL_WR :: u8 where [mmc_consts]: "EN_REL_WR = 4"
definition BKOPS_ENABLE :: u8 where [mmc_consts]: "BKOPS_ENABLE = 1"
definition EXT_CSD_HPI_SUPP :: u8 where [mmc_consts]: "EXT_CSD_HPI_SUPP = 1"
definition EXT_CSD_HPI_IMPL :: u8 where [mmc_consts]: "EXT_CSD_HPI_IMPL = 2"
definition EXT_CSD_CMD_SET_NORMAL :: u8 where [mmc_consts]: "EXT_CSD_CMD_SET_NORMAL = 1"
definition EXT_CSD_BOOT_WP_B_PWR_WP_DIS :: u8 where [mmc_consts]: "EXT_CSD_BOOT_WP_B_PWR_WP_DIS = 0x40"
definition EXT_CSD_BOOT_WP_B_PERM_WP_DIS :: u8 where [mmc_consts]: "EXT_CSD_BOOT_WP_B_PERM_WP_DIS = 0x10"
definition EXT_CSD_BOOT_WP_B_PERM_WP_EN :: u8 where [mmc_consts]: "EXT_CSD_BOOT_WP_B_PERM_WP_EN = 4"
definition EXT_CSD_BOOT_WP_B_PWR_WP_EN :: u8 where [mmc_consts]: "EXT_CSD_BOOT_WP_B_PWR_WP_EN = 1"
definition EXT_CSD_BOOT_INFO_HS_MODE :: u8 where [mmc_consts]: "EXT_CSD_BOOT_INFO_HS_MODE = 4"
definition EXT_CSD_BOOT_INFO_DDR_DDR :: u8 where [mmc_consts]: "EXT_CSD_BOOT_INFO_DDR_DDR = 2"
definition EXT_CSD_BOOT_INFO_ALT :: u8 where [mmc_consts]: "EXT_CSD_BOOT_INFO_ALT = 1"
definition EXT_CSD_BOOT_CFG_ACK :: u8 where [mmc_consts]: "EXT_CSD_BOOT_CFG_ACK = 0x40"
definition EXT_CSD_BOOT_CFG_EN :: u8 where [mmc_consts]: "EXT_CSD_BOOT_CFG_EN = 0x38"
definition EXT_CSD_BOOT_CFG_ACC :: u8 where [mmc_consts]: "EXT_CSD_BOOT_CFG_ACC = 7"
definition EXT_CSD_RST_N_EN_MASK :: u8 where [mmc_consts]: "EXT_CSD_RST_N_EN_MASK = 3"
definition EXT_CSD_HW_RESET_EN :: u8 where [mmc_consts]: "EXT_CSD_HW_RESET_EN = 1"
definition EXT_CSD_HW_RESET_DIS :: u8 where [mmc_consts]: "EXT_CSD_HW_RESET_DIS = 2"
definition EXT_CSD_PART_CONFIG_ACC_MASK :: u8 where [mmc_consts]: "EXT_CSD_PART_CONFIG_ACC_MASK = 7"
definition EXT_CSD_PART_CONFIG_ACC_BOOT0 :: u8 where [mmc_consts]: "EXT_CSD_PART_CONFIG_ACC_BOOT0 = 1"
definition EXT_CSD_PART_CONFIG_ACC_BOOT1 :: u8 where [mmc_consts]: "EXT_CSD_PART_CONFIG_ACC_BOOT1 = 2"
definition EXT_CSD_PART_CONFIG_ACC_USER_AREA :: u8 where [mmc_consts]: "EXT_CSD_PART_CONFIG_ACC_USER_AREA = 7"
definition EXT_CSD_PART_CONFIG_ACC_ACK :: u8 where [mmc_consts]: "EXT_CSD_PART_CONFIG_ACC_ACK = 0x40"
definition EXT_CSD_PARTITIONING_EN :: u8 where [mmc_consts]: "EXT_CSD_PARTITIONING_EN = 1"
definition EXT_CSD_ENH_ATTRIBUTE_EN :: u8 where [mmc_consts]: "EXT_CSD_ENH_ATTRIBUTE_EN = 2"
definition EXT_CSD_ENH_4 :: u8 where [mmc_consts]: "EXT_CSD_ENH_4 = 0x10"
definition EXT_CSD_ENH_3 :: u8 where [mmc_consts]: "EXT_CSD_ENH_3 = 8"
definition EXT_CSD_ENH_2 :: u8 where [mmc_consts]: "EXT_CSD_ENH_2 = 4"
definition EXT_CSD_ENH_1 :: u8 where [mmc_consts]: "EXT_CSD_ENH_1 = 2"
definition EXT_CSD_ENH_USR :: u8 where [mmc_consts]: "EXT_CSD_ENH_USR = 1"
definition EXT_CSD_REV_V5_1 :: u8 where [mmc_consts]: "EXT_CSD_REV_V5_1 = 8"
definition EXT_CSD_REV_V5_0 :: u8 where [mmc_consts]: "EXT_CSD_REV_V5_0 = 7"
definition EXT_CSD_REV_V4_5 :: u8 where [mmc_consts]: "EXT_CSD_REV_V4_5 = 6"
definition EXT_CSD_REV_V4_4_1 :: u8 where [mmc_consts]: "EXT_CSD_REV_V4_4_1 = 5"
definition EXT_CSD_REV_V4_3 :: u8 where [mmc_consts]: "EXT_CSD_REV_V4_3 = 3"
definition EXT_CSD_REV_V4_2 :: u8 where [mmc_consts]: "EXT_CSD_REV_V4_2 = 2"
definition EXT_CSD_REV_V4_1 :: u8 where [mmc_consts]: "EXT_CSD_REV_V4_1 = 1"
definition EXT_CSD_REV_V4_0 :: u8 where [mmc_consts]: "EXT_CSD_REV_V4_0 = 0"

section \<open>Response flags\<close>

definition MMC_RSP_PRESENT :: "32 word" where [mmc_consts]: "MMC_RSP_PRESENT = 1"
definition MMC_RSP_136 :: "32 word" where [mmc_consts]: "MMC_RSP_136 = 2"
definition MMC_RSP_CRC :: "32 word" where [mmc_consts]: "MMC_RSP_CRC = 4"
definition MMC_RSP_BUSY :: "32 word" where [mmc_consts]: "MMC_RSP_BUSY = 8"
definition MMC_RSP_OPCODE :: "32 word" where [mmc_consts]: "MMC_RSP_OPCODE = 0x10"
definition MMC_CMD_AC :: "32 word" where [mmc_consts]: "MMC_CMD_AC = 0"
definition MMC_CMD_ADTC :: "32 word" where [mmc_consts]: "MMC_CMD_ADTC = 0x20"
definition MMC_RSP_SPI_S1 :: "32 word" where [mmc_consts]: "MMC_RSP_SPI_S1 = 0x80"
definition MMC_RSP_SPI_BUSY :: "32 word" where [mmc_consts]: "MMC_RSP_SPI_BUSY = 0x400"
definition MMC_RSP_SPI_R1 :: "32 word" where [mmc_consts]: "MMC_RSP_SPI_R1 = MMC_RSP_SPI_S1"
definition MMC_RSP_SPI_R1B :: "32 word" where [mmc_consts]: "MMC_RSP_SPI_R1B = MMC_RSP_SPI_S1 OR MMC_RSP_SPI_BUSY"
definition MMC_RSP_R1 :: "32 word" where [mmc_consts]: "MMC_RSP_R1 = MMC_RSP_PRESENT OR MMC_RSP_CRC OR MMC_RSP_OPCODE"
definition MMC_RSP_R1B :: "32 word" where [mmc_consts]: "MMC_RSP_R1B = MMC_RSP_PRESENT OR MMC_RSP_CRC OR MMC_RSP_OPCODE OR MMC_RSP_BUSY"

end
