(* ===== verification/Mmc_Device.thy ===== *)
theory Mmc_Device
  imports Mmc_Regs
begin

text \<open>
  The commands of the \<^verbatim>\<open>mmc\<close> tool that read and write the EXT_CSD register of a card,
  \<^verbatim>\<open>mmc_utils/mmc_cmds.c\<close>. The card and the kernel's \<open>ioctl\<close> are a parameter: a function from the command
  and the state of the card to the return value, the data read, the first response word and the state
  after. A command of the tool gives the exit status and the state of the card, or nothing when the
  program divides by zero or shifts by a negative amount. Messages are left out, and so is the
  descriptor, since every command opens one device.
\<close>

unbundle bit_operations_syntax

section \<open>The card\<close>

record mmc_ioc_cmd =
  write_flag :: "32 word"
  opcode :: "32 word"
  arg :: "32 word"
  flags :: "32 word"
  blksz :: "32 word"
  blocks :: "32 word"

record 'd card =
  ioctl :: "mmc_ioc_cmd \<Rightarrow> 'd \<Rightarrow> int \<times> u8 list \<times> 32 word \<times> 'd"
  can_open :: "string \<Rightarrow> bool"

definition zero_cmd :: mmc_ioc_cmd where
  "zero_cmd = \<lparr>write_flag = 0, opcode = 0, arg = 0, flags = 0, blksz = 0, blocks = 0\<rparr>"

text \<open>The buffer of 512 bytes is cleared before the driver fills it.\<close>

definition read_cmd :: mmc_ioc_cmd where
  "read_cmd = zero_cmd\<lparr>opcode := MMC_SEND_EXT_CSD, flags := MMC_RSP_SPI_R1 OR MMC_RSP_R1 OR MMC_CMD_ADTC,
     blksz := 512, blocks := 1\<rparr>"

definition read_extcsd :: "'d card \<Rightarrow> 'd \<Rightarrow> int \<times> u8 list \<times> 'd" where
  "read_extcsd C d = (let (ret, data, _, d) = ioctl C read_cmd d in (ret, take 512 (data @ replicate 512 0), d))"

definition switch_cmd :: "u8 \<Rightarrow> u8 \<Rightarrow> mmc_ioc_cmd" where
  "switch_cmd index val = zero_cmd\<lparr>write_flag := 1, opcode := MMC_SWITCH,
     arg := push_bit 24 MMC_SWITCH_MODE_WRITE_BYTE OR push_bit 16 (ucast index) OR push_bit 8 (ucast val)
       OR ucast EXT_CSD_CMD_SET_NORMAL,
     flags := MMC_RSP_SPI_R1B OR MMC_RSP_R1B OR MMC_CMD_AC\<rparr>"

definition write_extcsd_value :: "'d card \<Rightarrow> u8 \<Rightarrow> u8 \<Rightarrow> 'd \<Rightarrow> int \<times> 'd" where
  "write_extcsd_value C index val d = (let (ret, _, _, d) = ioctl C (switch_cmd index val) d in (ret, d))"

definition status_cmd :: mmc_ioc_cmd where
  "status_cmd = zero_cmd\<lparr>opcode := MMC_SEND_STATUS, arg := push_bit 16 1, flags := MMC_RSP_R1 OR MMC_CMD_AC\<rparr>"

definition send_status :: "'d card \<Rightarrow> 'd \<Rightarrow> int \<times> 32 word \<times> 'd" where
  "send_status C d = (let (ret, _, response, d) = ioctl C status_cmd d in (ret, response, d))"

section \<open>Steps that every command has\<close>

type_synonym 'd result = "(int \<times> 'd) option"

text \<open>\<open>open\<close>, then \<open>read_extcsd\<close>; a failure of either is \<open>exit(1)\<close>.\<close>

definition opened :: "'d card \<Rightarrow> string \<Rightarrow> 'd \<Rightarrow> ('d \<Rightarrow> 'd result) \<Rightarrow> 'd result" where
  "opened C device d k = (if can_open C device then k d else Some (1, d))"

definition with_extcsd :: "'d card \<Rightarrow> string \<Rightarrow> 'd \<Rightarrow> (u8 list \<Rightarrow> 'd \<Rightarrow> 'd result) \<Rightarrow> 'd result" where
  "with_extcsd C device d k = opened C device d (\<lambda>d.
     let (ret, ext_csd, d) = read_extcsd C d in if ret \<noteq> 0 then Some (1, d) else k ext_csd d)"

text \<open>\<open>ret = write_extcsd_value(...); if (ret) { ...; exit(1); }\<close>\<close>

definition checked_write :: "'d card \<Rightarrow> nat \<Rightarrow> u8 \<Rightarrow> 'd \<Rightarrow> ('d \<Rightarrow> 'd result) \<Rightarrow> 'd result" where
  "checked_write C index val d k =
     (let (ret, d) = write_extcsd_value C (of_nat index) val d in if ret \<noteq> 0 then Some (1, d) else k d)"

text \<open>\<open>CHECK(nargs != n, ..., exit(1))\<close>; \<open>argv\<close> has \<open>nargs\<close> elements.\<close>

definition need_args :: "nat \<Rightarrow> string list \<Rightarrow> 'd \<Rightarrow> 'd result \<Rightarrow> 'd result" where
  "need_args n argv d k = (if length argv \<noteq> n then Some (1, d) else k)"

section \<open>Single registers\<close>

text \<open>An \<^verbatim>\<open>int\<close> argument; a conversion to a narrower type keeps the low bits.\<close>

definition do_write_extcsd_byte :: "'d card \<Rightarrow> string list \<Rightarrow> 'd \<Rightarrow> 'd result" where
  "do_write_extcsd_byte C argv d = need_args 4 argv d
     (let index = strtol (argv ! 1) 0; val = strtol (argv ! 2) 0 in
      opened C (argv ! 3) d (\<lambda>d.
        let (ret, d) = write_extcsd_value C (of_int index) (of_int val) d in
        if ret \<noteq> 0 then Some (1, d) else Some (0, d)))"

definition do_writeprotect_set :: "'d card \<Rightarrow> string list \<Rightarrow> 'd \<Rightarrow> 'd result" where
  "do_writeprotect_set C argv d = need_args 2 argv d (with_extcsd C (argv ! 1) d (\<lambda>ext_csd d.
     checked_write C EXT_CSD_BOOT_WP (ext_csd ! EXT_CSD_BOOT_WP OR EXT_CSD_BOOT_WP_B_PWR_WP_EN) d
       (\<lambda>d. Some (0, d))))"

definition do_disable_512B_emulation :: "'d card \<Rightarrow> string list \<Rightarrow> 'd \<Rightarrow> 'd result" where
  "do_disable_512B_emulation C argv d = need_args 2 argv d (with_extcsd C (argv ! 1) d (\<lambda>ext_csd d.
     let wr_rel_param = ext_csd ! EXT_CSD_WR_REL_PARAM;
         native_sector_size = ext_csd ! EXT_CSD_NATIVE_SECTOR_SIZE;
         data_sector_size = ext_csd ! EXT_CSD_DATA_SECTOR_SIZE
     in if native_sector_size \<noteq> 0 \<and> data_sector_size = 0 \<and> wr_rel_param AND EN_REL_WR \<noteq> 0
        then checked_write C EXT_CSD_USE_NATIVE_SECTOR 1 d (\<lambda>d. Some (0, d))
        else Some (0, d)))"

definition boot_config :: "u8 \<Rightarrow> int \<Rightarrow> int \<Rightarrow> u8 option" where
  "boot_config val boot_area send_ack =
     (let v = (if boot_area = uint EXT_CSD_PART_CONFIG_ACC_BOOT0 then
                 Some ((val OR push_bit 3 1) AND NOT (push_bit 4 3))
               else if boot_area = uint EXT_CSD_PART_CONFIG_ACC_BOOT1 then
                 Some ((val OR push_bit 4 1) AND NOT (push_bit 3 1) AND NOT (push_bit 5 1))
               else if boot_area = uint EXT_CSD_PART_CONFIG_ACC_USER_AREA then
                 Some (val OR push_bit 3 (of_int boot_area))
               else None)
      in map_option (\<lambda>v. if send_ack \<noteq> 0 then v OR EXT_CSD_PART_CONFIG_ACC_ACK
           else v AND NOT EXT_CSD_PART_CONFIG_ACC_ACK) v)"

definition do_write_boot_en :: "'d card \<Rightarrow> string list \<Rightarrow> 'd \<Rightarrow> 'd result" where
  "do_write_boot_en C argv d = need_args 4 argv d
     (let boot_area = strtol (argv ! 1) 10; send_ack = strtol (argv ! 2) 10 in
      with_extcsd C (argv ! 3) d (\<lambda>ext_csd d.
        case boot_config (ext_csd ! EXT_CSD_PART_CONFIG) boot_area send_ack of
          None \<Rightarrow> Some (1, d)
        | Some v \<Rightarrow> checked_write C EXT_CSD_PART_CONFIG v d (\<lambda>d. Some (0, d))))"

text \<open>The first match of an option's name.\<close>

definition bus_value :: "string \<Rightarrow> string \<Rightarrow> string \<Rightarrow> u8 option" where
  "bus_value boot_mode reset width = do {
     m \<leftarrow> (if boot_mode = ''single_backward'' then Some 0 else if boot_mode = ''single_hs'' then Some 0x8
          else if boot_mode = ''dual'' then Some 0x10 else None);
     r \<leftarrow> (if reset = ''x1'' then Some 0 else if reset = ''retain'' then Some 0x4 else None);
     w \<leftarrow> (if width = ''x1'' then Some 0 else if width = ''x4'' then Some 0x1
          else if width = ''x8'' then Some 0x2 else None);
     Some (m OR r OR w) }"

definition do_boot_bus_conditions_set :: "'d card \<Rightarrow> string list \<Rightarrow> 'd \<Rightarrow> 'd result" where
  "do_boot_bus_conditions_set C argv d = need_args 5 argv d
     (case bus_value (argv ! 1) (argv ! 2) (argv ! 3) of
        None \<Rightarrow> Some (1, d)
      | Some v \<Rightarrow> with_extcsd C (argv ! 4) d (\<lambda>ext_csd d.
          checked_write C EXT_CSD_BOOT_BUS_CONDITIONS v d (\<lambda>d. Some (0, d))))"

definition do_hwreset :: "'d card \<Rightarrow> u8 \<Rightarrow> string list \<Rightarrow> 'd \<Rightarrow> 'd result" where
  "do_hwreset C val argv d = need_args 2 argv d (with_extcsd C (argv ! 1) d (\<lambda>ext_csd d.
     let state = ext_csd ! EXT_CSD_RST_N_FUNCTION AND EXT_CSD_RST_N_EN_MASK in
     if state = EXT_CSD_HW_RESET_EN then Some (1, d)
     else if state = EXT_CSD_HW_RESET_DIS then Some (1, d)
     else checked_write C EXT_CSD_RST_N_FUNCTION val d (\<lambda>d. Some (0, d))))"

definition do_hwreset_en :: "'d card \<Rightarrow> string list \<Rightarrow> 'd \<Rightarrow> 'd result" where
  "do_hwreset_en C = do_hwreset C EXT_CSD_HW_RESET_EN"

definition do_hwreset_dis :: "'d card \<Rightarrow> string list \<Rightarrow> 'd \<Rightarrow> 'd result" where
  "do_hwreset_dis C = do_hwreset C EXT_CSD_HW_RESET_DIS"

definition do_write_bkops_en :: "'d card \<Rightarrow> string list \<Rightarrow> 'd \<Rightarrow> 'd result" where
  "do_write_bkops_en C argv d = need_args 2 argv d (with_extcsd C (argv ! 1) d (\<lambda>ext_csd d.
     if ext_csd ! EXT_CSD_BKOPS_SUPPORT AND 0x1 = 0 then Some (1, d)
     else checked_write C EXT_CSD_BKOPS_EN BKOPS_ENABLE d (\<lambda>d. Some (0, d))))"

definition do_status_get :: "'d card \<Rightarrow> string list \<Rightarrow> 'd \<Rightarrow> 'd result" where
  "do_status_get C argv d = need_args 2 argv d (opened C (argv ! 1) d (\<lambda>d.
     let (ret, response, d) = send_status C d in if ret \<noteq> 0 then Some (1, d) else Some (0, d)))"

definition do_sanitize :: "'d card \<Rightarrow> string list \<Rightarrow> 'd \<Rightarrow> 'd result" where
  "do_sanitize C argv d = need_args 2 argv d (opened C (argv ! 1) d (\<lambda>d.
     checked_write C EXT_CSD_SANITIZE_START 1 d (\<lambda>d. Some (0, d))))"

definition do_cache_ctrl :: "'d card \<Rightarrow> u8 \<Rightarrow> string list \<Rightarrow> 'd \<Rightarrow> 'd result" where
  "do_cache_ctrl C val argv d = need_args 2 argv d (with_extcsd C (argv ! 1) d (\<lambda>ext_csd d.
     if ext_csd ! EXT_CSD_REV < EXT_CSD_REV_V4_5 then Some (1, d)
     else if ext_csd ! EXT_CSD_CACHE_SIZE_3 = 0 \<and> ext_csd ! EXT_CSD_CACHE_SIZE_2 = 0 \<and>
         ext_csd ! EXT_CSD_CACHE_SIZE_1 = 0 \<and> ext_csd ! EXT_CSD_CACHE_SIZE_0 = 0 then Some (1, d)
     else checked_write C EXT_CSD_CACHE_CTRL val d (\<lambda>d. Some (0, d))))"

definition do_cache_en :: "'d card \<Rightarrow> string list \<Rightarrow> 'd \<Rightarrow> 'd result" where
  "do_cache_en C = do_cache_ctrl C 1"

definition do_cache_dis :: "'d card \<Rightarrow> string list \<Rightarrow> 'd \<Rightarrow> 'd result" where
  "do_cache_dis C = do_cache_ctrl C 0"

section \<open>Partitions\<close>

definition get_sector_count :: "u8 list \<Rightarrow> 32 word" where
  "get_sector_count ext_csd =
     push_bit 24 (ucast (ext_csd ! EXT_CSD_SEC_COUNT_3)) OR push_bit 16 (ucast (ext_csd ! EXT_CSD_SEC_COUNT_2)) OR
     push_bit 8 (ucast (ext_csd ! EXT_CSD_SEC_COUNT_1)) OR ucast (ext_csd ! EXT_CSD_SEC_COUNT_0)"

definition is_blockaddresed :: "u8 list \<Rightarrow> bool" where
  "is_blockaddresed ext_csd \<longleftrightarrow> get_sector_count ext_csd > (2 * 1024 * 1024 * 1024) div 512"

definition get_hc_wp_grp_size :: "u8 list \<Rightarrow> 32 word" where
  "get_hc_wp_grp_size ext_csd = ucast (ext_csd ! 221)"

definition get_hc_erase_grp_size :: "u8 list \<Rightarrow> 32 word" where
  "get_hc_erase_grp_size ext_csd = ucast (ext_csd ! 224)"

definition set_partitioning_setting_completed :: "'d card \<Rightarrow> bool \<Rightarrow> 'd \<Rightarrow> int \<times> 'd" where
  "set_partitioning_setting_completed C dry_run d =
     (if dry_run then (1, d)
      else let (ret, d) = write_extcsd_value C (of_nat EXT_CSD_PARTITION_SETTING_COMPLETED) 0x1 d in
        if ret \<noteq> 0 then (1, d)
        else let (ret, response, d) = send_status C d in
          if ret \<noteq> 0 then (1, d)
          else if response AND R1_SWITCH_ERROR \<noteq> 0 then (1, d) else (0, d))"

text \<open>The end of the three partitioning commands.\<close>

definition complete :: "'d card \<Rightarrow> bool \<Rightarrow> 'd \<Rightarrow> 'd result" where
  "complete C dry_run d =
     (let (ret, d) = set_partitioning_setting_completed C dry_run d in
      if ret = 0 then Some (1, d) else Some (0, d))"

text \<open>A size multiplier of three bytes, the highest at \<open>i2\<close>.\<close>

definition size_mult :: "u8 list \<Rightarrow> nat \<Rightarrow> nat \<Rightarrow> nat \<Rightarrow> 32 word" where
  "size_mult ext_csd i2 i1 i0 =
     push_bit 16 (ucast (ext_csd ! i2)) OR push_bit 8 (ucast (ext_csd ! i1)) OR ucast (ext_csd ! i0)"


text \<open>\<open>512l * regl * erase_sz * wp_sz\<close>, in the 32-bit \<^verbatim>\<open>unsigned long\<close>.\<close>

definition area_kib :: "u8 list \<Rightarrow> 32 word \<Rightarrow> 32 word" where
  "area_kib ext_csd regl = 512 * regl * get_hc_erase_grp_size ext_csd * get_hc_wp_grp_size ext_csd"

definition check_enhanced_area_total_limit :: "'d card \<Rightarrow> 'd \<Rightarrow> int \<times> 'd" where
  "check_enhanced_area_total_limit C d =
     (let (ret, ext_csd, d) = read_extcsd C d in
      if ret \<noteq> 0 then (1, d)
      else let
        attr = ext_csd ! EXT_CSD_PARTITIONS_ATTRIBUTE;
        gp4_part_sz = area_kib ext_csd (size_mult ext_csd EXT_CSD_GP_SIZE_MULT_4_2 EXT_CSD_GP_SIZE_MULT_4_1
                        EXT_CSD_GP_SIZE_MULT_4_0);
        enh_area_sz = (if attr AND EXT_CSD_ENH_4 \<noteq> 0 then 0 + gp4_part_sz else 0);
        gp3_part_sz = area_kib ext_csd (size_mult ext_csd EXT_CSD_GP_SIZE_MULT_3_2 EXT_CSD_GP_SIZE_MULT_3_1
                        EXT_CSD_GP_SIZE_MULT_3_0);
        enh_area_sz = (if attr AND EXT_CSD_ENH_3 \<noteq> 0 then enh_area_sz + gp3_part_sz else enh_area_sz);
        gp2_part_sz = area_kib ext_csd (size_mult ext_csd EXT_CSD_GP_SIZE_MULT_2_2 EXT_CSD_GP_SIZE_MULT_2_1
                        EXT_CSD_GP_SIZE_MULT_2_0);
        enh_area_sz = (if attr AND EXT_CSD_ENH_2 \<noteq> 0 then enh_area_sz + gp2_part_sz else enh_area_sz);
        gp1_part_sz = area_kib ext_csd (size_mult ext_csd EXT_CSD_GP_SIZE_MULT_1_2 EXT_CSD_GP_SIZE_MULT_1_1
                        EXT_CSD_GP_SIZE_MULT_1_0);
        enh_area_sz = (if attr AND EXT_CSD_ENH_1 \<noteq> 0 then enh_area_sz + gp1_part_sz else enh_area_sz);
        user_area_sz = area_kib ext_csd (size_mult ext_csd EXT_CSD_ENH_SIZE_MULT_2 EXT_CSD_ENH_SIZE_MULT_1
                        EXT_CSD_ENH_SIZE_MULT_0);
        enh_area_sz = (if attr AND EXT_CSD_ENH_USR \<noteq> 0 then enh_area_sz + user_area_sz else enh_area_sz);
        max_enh_area_sz = area_kib ext_csd (size_mult ext_csd EXT_CSD_MAX_ENH_SIZE_MULT_2
                        EXT_CSD_MAX_ENH_SIZE_MULT_1 EXT_CSD_MAX_ENH_SIZE_MULT_0)
      in if enh_area_sz > max_enh_area_sz then (1, d)
         else let total_sz = get_sector_count ext_csd div 2;
                  total_gp_user_sz = gp4_part_sz + gp3_part_sz + gp2_part_sz + gp1_part_sz + user_area_sz
           in if total_gp_user_sz > total_sz then (1, d) else (0, d))"

text \<open>\<open>ret = check_enhanced_area_total_limit(...); if (ret) exit(1);\<close>\<close>

definition within_limit :: "'d card \<Rightarrow> 'd \<Rightarrow> ('d \<Rightarrow> 'd result) \<Rightarrow> 'd result" where
  "within_limit C d k =
     (let (ret, d) = check_enhanced_area_total_limit C d in if ret \<noteq> 0 then Some (1, d) else k d)"

definition write_group :: "u8 list \<Rightarrow> 32 word" where
  "write_group ext_csd = 512 * get_hc_wp_grp_size ext_csd * get_hc_erase_grp_size ext_csd"

text \<open>Division as the processor does it: not by zero.\<close>

definition udiv :: "32 word \<Rightarrow> 32 word \<Rightarrow> 32 word option" where
  "udiv a b = (if b = 0 then None else Some (a div b))"

text \<open>
  The byte of the extended attributes of a partition: the attribute is a nibble of it. For partition 0 the
  remainder of the C division is negative and the shift undefined.
\<close>

definition ext_attribute :: "u8 \<Rightarrow> int \<Rightarrow> int \<Rightarrow> u8 option" where
  "ext_attribute val part ext_attr =
     (if ext_attr \<noteq> 0 then
        if part - 1 < 0 then None
        else Some (val OR ucast (push_bit (4 * nat ((part - 1) mod 2)) (of_int ext_attr :: 32 word)))
      else Some (val AND push_bit (4 * nat (part mod 2)) 0xF))"

definition do_create_gp_partition :: "'d card \<Rightarrow> string list \<Rightarrow> 'd \<Rightarrow> 'd result" where
  "do_create_gp_partition C argv d = need_args 7 argv d
     (let dry_run = (argv ! 1 \<noteq> ''-y'');
          length_kib = of_int (strtol (argv ! 2) 10) :: 32 word;
          part = strtol (argv ! 3) 10;
          enh_attr = strtol (argv ! 4) 10;
          ext_attr = strtol (argv ! 5) 10;
          slot = (\<lambda>base. nat (int base + (part - 1) * 3))
      in if part < 0 \<or> part > 4 then Some (1, d)
      else if enh_attr \<noteq> 0 \<and> ext_attr \<noteq> 0 then Some (1, d)
      else with_extcsd C (argv ! 6) d (\<lambda>ext_csd d.
        if ext_csd ! EXT_CSD_PARTITION_SETTING_COMPLETED \<noteq> 0 then Some (1, d)
        else let align = write_group ext_csd in do {
          gp_size_mult \<leftarrow> udiv (length_kib + align div 2) align;
          checked_write C EXT_CSD_ERASE_GROUP_DEF 0x1 d (\<lambda>d.
          checked_write C (slot EXT_CSD_GP_SIZE_MULT_1_2) (ucast (drop_bit 16 gp_size_mult AND 0xff)) d (\<lambda>d.
          checked_write C (slot EXT_CSD_GP_SIZE_MULT_1_1) (ucast (drop_bit 8 gp_size_mult AND 0xff)) d (\<lambda>d.
          checked_write C (slot EXT_CSD_GP_SIZE_MULT_1_0) (ucast (gp_size_mult AND 0xff)) d (\<lambda>d.
          let val = ext_csd ! EXT_CSD_PARTITIONS_ATTRIBUTE;
              val = (if enh_attr \<noteq> 0 then val OR push_bit (nat part) 1
                     else val AND NOT (push_bit (nat part) 1))
          in checked_write C EXT_CSD_PARTITIONS_ATTRIBUTE val d (\<lambda>d.
          let address = EXT_CSD_EXT_PARTITIONS_ATTRIBUTE_0 + nat (part - 1) div 2 in do {
          val \<leftarrow> ext_attribute (ext_csd ! address) part ext_attr;
          checked_write C address val d (\<lambda>d.
          within_limit C d (complete C dry_run)) }))))) }))"

definition do_enh_area_set :: "'d card \<Rightarrow> string list \<Rightarrow> 'd \<Rightarrow> 'd result" where
  "do_enh_area_set C argv d = need_args 5 argv d
     (let dry_run = (argv ! 1 \<noteq> ''-y'');
          start_kib = of_int (strtol (argv ! 2) 10) :: 32 word;
          length_kib = of_int (strtol (argv ! 3) 10) :: 32 word
      in with_extcsd C (argv ! 4) d (\<lambda>ext_csd d.
        if ext_csd ! EXT_CSD_PARTITIONING_SUPPORT AND EXT_CSD_ENH_ATTRIBUTE_EN = 0 then Some (1, d)
        else if ext_csd ! EXT_CSD_PARTITION_SETTING_COMPLETED \<noteq> 0 then Some (1, d)
        else let align = write_group ext_csd in do {
          enh_size_mult \<leftarrow> udiv (length_kib + align div 2) align;
          let enh_start_addr = start_kib * 1024 div (if is_blockaddresed ext_csd then 512 else 1);
          enh_start_addr \<leftarrow> udiv enh_start_addr align;
          let enh_start_addr = enh_start_addr * align;
          checked_write C EXT_CSD_ERASE_GROUP_DEF 0x1 d (\<lambda>d.
          checked_write C EXT_CSD_ENH_START_ADDR_3 (ucast (drop_bit 24 enh_start_addr AND 0xff)) d (\<lambda>d.
          checked_write C EXT_CSD_ENH_START_ADDR_2 (ucast (drop_bit 16 enh_start_addr AND 0xff)) d (\<lambda>d.
          checked_write C EXT_CSD_ENH_START_ADDR_1 (ucast (drop_bit 8 enh_start_addr AND 0xff)) d (\<lambda>d.
          checked_write C EXT_CSD_ENH_START_ADDR_0 (ucast (enh_start_addr AND 0xff)) d (\<lambda>d.
          checked_write C EXT_CSD_ENH_SIZE_MULT_2 (ucast (drop_bit 16 enh_size_mult AND 0xff)) d (\<lambda>d.
          checked_write C EXT_CSD_ENH_SIZE_MULT_1 (ucast (drop_bit 8 enh_size_mult AND 0xff)) d (\<lambda>d.
          checked_write C EXT_CSD_ENH_SIZE_MULT_0 (ucast (enh_size_mult AND 0xff)) d (\<lambda>d.
          checked_write C EXT_CSD_PARTITIONS_ATTRIBUTE
            (ext_csd ! EXT_CSD_PARTITIONS_ATTRIBUTE OR EXT_CSD_ENH_USR) d (\<lambda>d.
          within_limit C d (complete C dry_run)))))))))) }))"

text \<open>The shift by the partition number is undefined when it is negative or not less than 32.\<close>

definition do_write_reliability_set :: "'d card \<Rightarrow> string list \<Rightarrow> 'd \<Rightarrow> 'd result" where
  "do_write_reliability_set C argv d = need_args 4 argv d
     (let dry_run = (argv ! 1 \<noteq> ''-y''); part = strtol (argv ! 2) 10 in
      with_extcsd C (argv ! 3) d (\<lambda>ext_csd d.
        if ext_csd ! EXT_CSD_PARTITION_SETTING_COMPLETED \<noteq> 0 then Some (1, d)
        else if ext_csd ! EXT_CSD_WR_REL_PARAM AND HS_CTRL_REL = 0 then Some (1, d)
        else if part < 0 \<or> part \<ge> 32 then None
        else checked_write C EXT_CSD_WR_REL_SET
          (ext_csd ! EXT_CSD_WR_REL_SET OR ucast (push_bit (nat part) 1 :: 32 word)) d
          (complete C dry_run)))"

end
