(* ===== verification/Mmc_Safety.thy ===== *)
theory Mmc_Safety
  imports Mmc_Device
begin

text \<open>
  What the commands of the \<^verbatim>\<open>mmc\<close> tool do to a card. \<open>card_frame\<close> and \<open>card_writes\<close> state what is relied
  on of a card and its driver: \<open>R\<close> reads the 512 bytes of EXT_CSD from the state of the card, a switch
  command changes at most the byte it names, and, for \<open>card_writes\<close>, it does so whenever it succeeds.
\<close>

unbundle bit_operations_syntax

section \<open>The card\<close>

definition card_frame :: "'d card \<Rightarrow> ('d \<Rightarrow> u8 list) \<Rightarrow> bool" where
  "card_frame C R \<longleftrightarrow> (\<forall>d. length (R d) = 512) \<and>
     (\<forall>d. case ioctl C read_cmd d of (ret, data, _, d') \<Rightarrow> R d' = R d \<and> (ret = 0 \<longrightarrow> data = R d)) \<and>
     (\<forall>d. case ioctl C status_cmd d of (ret, _, _, d') \<Rightarrow> R d' = R d) \<and>
     (\<forall>i v d. case ioctl C (switch_cmd i v) d of (ret, _, _, d') \<Rightarrow> R d' = R d \<or> R d' = (R d)[unat i := v])"

definition card_writes :: "'d card \<Rightarrow> ('d \<Rightarrow> u8 list) \<Rightarrow> bool" where
  "card_writes C R \<longleftrightarrow> card_frame C R \<and>
     (\<forall>i v d. case ioctl C (switch_cmd i v) d of (ret, _, _, d') \<Rightarrow> ret = 0 \<longrightarrow> R d' = (R d)[unat i := v])"

text \<open>The registers outside \<open>S\<close> keep their values in every result.\<close>

definition keeps :: "('d \<Rightarrow> u8 list) \<Rightarrow> nat set \<Rightarrow> u8 list \<Rightarrow> 'd result \<Rightarrow> bool" where
  "keeps R S r res = (case res of None \<Rightarrow> True | Some (_, d) \<Rightarrow> \<forall>j. j \<notin> S \<longrightarrow> R d ! j = r ! j)"

named_theorems keeps_rules \<open>one rule for each step a command is made of\<close>

lemma keeps_none [keeps_rules]: "keeps R S r None"
  by (simp add: keeps_def)

lemma keeps_some [keeps_rules]: "(\<And>j. j \<notin> S \<Longrightarrow> R d ! j = r ! j) \<Longrightarrow> keeps R S r (Some (c, d))"
  by (simp add: keeps_def)

lemma keeps_if [keeps_rules]:
  "(b \<Longrightarrow> keeps R S r x) \<Longrightarrow> (\<not> b \<Longrightarrow> keeps R S r y) \<Longrightarrow> keeps R S r (if b then x else y)"
  by simp

lemma keeps_let [keeps_rules]: "(\<And>x. x = v \<Longrightarrow> keeps R S r (f x)) \<Longrightarrow> keeps R S r (Let v f)"
  by simp

lemma keeps_bind [keeps_rules]: "(\<And>x. m = Some x \<Longrightarrow> keeps R S r (f x)) \<Longrightarrow> keeps R S r (Option.bind m f)"
  by (cases m) (simp_all add: keeps_def)

lemma keeps_need_args [keeps_rules]:
  "(\<And>j. j \<notin> S \<Longrightarrow> R d ! j = r ! j) \<Longrightarrow> keeps R S r k \<Longrightarrow> keeps R S r (need_args n argv d k)"
  by (simp add: need_args_def keeps_def)

lemma keeps_opened [keeps_rules]:
  assumes "\<And>j. j \<notin> S \<Longrightarrow> R d ! j = r ! j" "keeps R S r (k d)"
  shows "keeps R S r (opened C device d k)"
  using assms by (auto simp: opened_def keeps_def)

lemma read_extcsd_frame:
  assumes "card_frame C R" "read_extcsd C d = (ret, ext_csd, d')"
  shows "R d' = R d" "ret = 0 \<Longrightarrow> ext_csd = R d"
proof -
  obtain data resp where "ioctl C read_cmd d = (ret, data, resp, d')" "ext_csd = take 512 (data @ replicate 512 0)"
    using assms(2) by (auto simp: read_extcsd_def split: prod.splits)
  moreover from this assms(1) have "R d' = R d" "ret = 0 \<longrightarrow> data = R d" "length (R d) = 512"
    by (auto simp: card_frame_def split: prod.splits)
  ultimately show "R d' = R d" "ret = 0 \<Longrightarrow> ext_csd = R d" by auto
qed

lemma keeps_with_extcsd [keeps_rules]:
  assumes "card_frame C R" "\<And>j. j \<notin> S \<Longrightarrow> R d ! j = r ! j"
    "\<And>d'. (\<And>j. j \<notin> S \<Longrightarrow> R d' ! j = r ! j) \<Longrightarrow> keeps R S r (k (R d) d')"
  shows "keeps R S r (with_extcsd C device d k)"
proof -
  obtain ret ext_csd d' where d': "read_extcsd C d = (ret, ext_csd, d')" using prod_cases3 by blast
  note fr = read_extcsd_frame [OF assms(1) d']
  show ?thesis
    using assms(2) assms(3) [of d'] fr d' by (auto simp: with_extcsd_def opened_def keeps_def Let_def)
qed

lemma write_frame:
  assumes "card_frame C R" "write_extcsd_value C i v d = (ret, d')"
  shows "R d' = R d \<or> R d' = (R d)[unat i := v]"
proof -
  obtain x y where "ioctl C (switch_cmd i v) d = (ret, x, y, d')"
    using assms(2) by (auto simp: write_extcsd_value_def split: prod.splits)
  then show ?thesis
    using assms(1) unfolding card_frame_def by (metis (mono_tags, lifting) case_prod_conv)
qed

lemma unat_index: "i < 256 \<Longrightarrow> unat (of_nat i :: u8) = i"
  by (simp add: unat_of_nat)

lemma write_keeps:
  assumes "card_frame C R" "write_extcsd_value C (of_nat i) v d = (ret, d')" "i < 256" "i \<in> S"
    "\<And>j. j \<notin> S \<Longrightarrow> R d ! j = r ! j" "j \<notin> S"
  shows "R d' ! j = r ! j"
  using write_frame [OF assms(1,2)] assms(3-6) unat_index [OF assms(3)] by (metis nth_list_update_neq)

lemma keeps_checked_write [keeps_rules]:
  assumes "card_frame C R" "\<And>j. j \<notin> S \<Longrightarrow> R d ! j = r ! j" "i < 256" "i \<in> S"
    "\<And>d'. (\<And>j. j \<notin> S \<Longrightarrow> R d' ! j = r ! j) \<Longrightarrow> keeps R S r (k d')"
  shows "keeps R S r (checked_write C i v d k)"
proof -
  obtain ret d' where d': "write_extcsd_value C (of_nat i) v d = (ret, d')" by fastforce
  then show ?thesis
    using assms(5) [of d'] write_keeps [OF assms(1) d' assms(3,4,2)] by (auto simp: checked_write_def keeps_def)
qed

lemma send_status_frame:
  "card_frame C R \<Longrightarrow> send_status C d = (ret, resp, d') \<Longrightarrow> R d' = R d"
  by (auto simp: card_frame_def send_status_def split: prod.splits)

lemma limit_frame: "card_frame C R \<Longrightarrow> check_enhanced_area_total_limit C d = (ret, d') \<Longrightarrow> R d' = R d"
  using read_extcsd_frame(1) [of C R d]
  by (auto simp: check_enhanced_area_total_limit_def Let_def split: prod.splits if_splits)

lemma keeps_within_limit [keeps_rules]:
  assumes "card_frame C R" "\<And>j. j \<notin> S \<Longrightarrow> R d ! j = r ! j"
    "\<And>d'. (\<And>j. j \<notin> S \<Longrightarrow> R d' ! j = r ! j) \<Longrightarrow> keeps R S r (k d')"
  shows "keeps R S r (within_limit C d k)"
proof -
  obtain ret d' where d': "check_enhanced_area_total_limit C d = (ret, d')" by fastforce
  then show ?thesis
    using limit_frame [OF assms(1) d'] assms(2,3) by (auto simp: within_limit_def keeps_def Let_def)
qed

lemma keeps_case [keeps_rules]:
  "(x = None \<Longrightarrow> keeps R S r y) \<Longrightarrow> (\<And>v. x = Some v \<Longrightarrow> keeps R S r (f v)) \<Longrightarrow>
   keeps R S r (case x of None \<Rightarrow> y | Some v \<Rightarrow> f v)"
  by (cases x) simp_all

lemma keeps_complete [keeps_rules]:
  assumes "card_frame C R" "\<And>j. j \<notin> S \<Longrightarrow> R d ! j = r ! j"
    "\<not> dry_run \<Longrightarrow> EXT_CSD_PARTITION_SETTING_COMPLETED \<in> S"
  shows "keeps R S r (complete C dry_run d)"
proof -
  obtain ret d' where d': "write_extcsd_value C (of_nat EXT_CSD_PARTITION_SETTING_COMPLETED) 1 d = (ret, d')"
    by fastforce
  have "EXT_CSD_PARTITION_SETTING_COMPLETED < 256" by (simp add: mmc_consts)
  note w = write_keeps [OF assms(1) d' this]
  have "keeps R S r (complete C False d)" if "EXT_CSD_PARTITION_SETTING_COMPLETED \<in> S"
    using d' w [OF that assms(2)] send_status_frame [OF assms(1), of d']
    by (auto simp: complete_def set_partitioning_setting_completed_def keeps_def Let_def split: prod.splits)
  then show ?thesis
    using assms(2,3) by (cases dry_run) (simp_all add: complete_def set_partitioning_setting_completed_def keeps_def)
qed

lemma single_register_keeps:
  assumes "card_frame C R"
  shows "keeps R {EXT_CSD_BOOT_WP} (R d) (do_writeprotect_set C argv d)"
    "keeps R {EXT_CSD_USE_NATIVE_SECTOR} (R d) (do_disable_512B_emulation C argv d)"
    "keeps R {EXT_CSD_PART_CONFIG} (R d) (do_write_boot_en C argv d)"
    "keeps R {EXT_CSD_BOOT_BUS_CONDITIONS} (R d) (do_boot_bus_conditions_set C argv d)"
    "keeps R {EXT_CSD_RST_N_FUNCTION} (R d) (do_hwreset C v argv d)"
    "keeps R {EXT_CSD_BKOPS_EN} (R d) (do_write_bkops_en C argv d)"
    "keeps R {EXT_CSD_SANITIZE_START} (R d) (do_sanitize C argv d)"
    "keeps R {EXT_CSD_CACHE_CTRL} (R d) (do_cache_ctrl C v argv d)"
  unfolding do_writeprotect_set_def do_disable_512B_emulation_def do_write_boot_en_def
    do_boot_bus_conditions_set_def do_hwreset_def do_write_bkops_en_def do_sanitize_def do_cache_ctrl_def
  by (intro keeps_rules assms; simp add: mmc_consts)+


text \<open>What the three partitioning commands may change; the last register only with \<^verbatim>\<open>-y\<close>.\<close>

definition completed_regs :: "string list \<Rightarrow> nat set" where
  "completed_regs argv = (if argv ! 1 = ''-y'' then {EXT_CSD_PARTITION_SETTING_COMPLETED} else {})"

definition enh_area_regs :: "string list \<Rightarrow> nat set" where
  "enh_area_regs argv = {EXT_CSD_ERASE_GROUP_DEF, EXT_CSD_PARTITIONS_ATTRIBUTE} \<union>
     {EXT_CSD_ENH_START_ADDR_0..EXT_CSD_ENH_SIZE_MULT_2} \<union> completed_regs argv"

definition gp_regs :: "string list \<Rightarrow> nat set" where
  "gp_regs argv = {EXT_CSD_ERASE_GROUP_DEF, EXT_CSD_PARTITIONS_ATTRIBUTE} \<union>
     {EXT_CSD_ENH_SIZE_MULT_0..EXT_CSD_GP_SIZE_MULT_4_2} \<union>
     {EXT_CSD_EXT_PARTITIONS_ATTRIBUTE_0, EXT_CSD_EXT_PARTITIONS_ATTRIBUTE_1} \<union> completed_regs argv"

lemmas reg_sets = enh_area_regs_def gp_regs_def completed_regs_def

lemma reliability_keeps:
  "card_frame C R \<Longrightarrow> keeps R ({EXT_CSD_WR_REL_SET} \<union> completed_regs argv) (R d) (do_write_reliability_set C argv d)"
  unfolding do_write_reliability_set_def
  by (intro keeps_rules; auto simp: mmc_consts reg_sets)

lemma enh_area_keeps: "card_frame C R \<Longrightarrow> keeps R (enh_area_regs argv) (R d) (do_enh_area_set C argv d)"
  unfolding do_enh_area_set_def
  by (intro keeps_rules; auto simp: mmc_consts reg_sets)

lemma gp_keeps: "card_frame C R \<Longrightarrow> keeps R (gp_regs argv) (R d) (do_create_gp_partition C argv d)"
  unfolding do_create_gp_partition_def
  by (intro keeps_rules; auto simp: mmc_consts reg_sets)


lemma write_byte_keeps:
  assumes "card_frame C R"
  shows "keeps R {nat (strtol (argv ! 1) 0 mod 256)} (R d) (do_write_extcsd_byte C argv d)"
proof -
  have u: "unat (of_int i :: u8) = nat (i mod 256)" for i
    by (simp add: unsigned_of_int take_bit_eq_mod)
  have "R d' ! j = R d ! j"
    if "write_extcsd_value C (of_int i) v d = (ret, d')" "j \<noteq> nat (i mod 256)" for i v ret d' j
    using write_frame [OF assms that(1)] that(2) by (metis nth_list_update_neq u)
  then show ?thesis
    by (auto simp: do_write_extcsd_byte_def need_args_def opened_def keeps_def Let_def split: prod.splits)
qed

lemma status_keeps: "card_frame C R \<Longrightarrow> keeps R {} (R d) (do_status_get C argv d)"
  using send_status_frame [of C R d]
  by (auto simp: do_status_get_def need_args_def opened_def keeps_def Let_def split: prod.splits)

section \<open>A card that works\<close>

text \<open>No command fails, and the status never reports a switch error.\<close>

definition card_works :: "'d card \<Rightarrow> ('d \<Rightarrow> u8 list) \<Rightarrow> bool" where
  "card_works C R \<longleftrightarrow> card_writes C R \<and>
     (\<forall>c d. fst (ioctl C c d) = 0) \<and> (\<forall>d. fst (snd (snd (ioctl C status_cmd d))) AND R1_SWITCH_ERROR = 0)"

lemma works_frame: "card_works C R \<Longrightarrow> card_frame C R"
  by (simp add: card_works_def card_writes_def)

lemma works_read:
  assumes "card_works C R"
  shows "\<exists>d'. read_extcsd C d = (0, R d, d') \<and> R d' = R d"
proof -
  obtain ret e d' where d': "read_extcsd C d = (ret, e, d')" using prod_cases3 by blast
  then have "ret = fst (ioctl C read_cmd d)" by (simp add: read_extcsd_def split_beta Let_def)
  then have "ret = 0" using assms by (simp add: card_works_def)
  then show ?thesis using d' read_extcsd_frame [OF works_frame [OF assms] d'] by simp
qed

lemma works_extcsd:
  assumes "card_works C R" "can_open C device"
  obtains d' where "R d' = R d" "\<And>k. with_extcsd C device d k = k (R d) d'"
  using works_read [OF assms(1), of d] assms(2) by (auto simp: with_extcsd_def opened_def)

lemma works_write_value:
  assumes "card_works C R"
  shows "\<exists>d'. write_extcsd_value C i v d = (0, d') \<and> R d' = (R d)[unat i := v]"
proof -
  obtain ret x y d' where d': "ioctl C (switch_cmd i v) d = (ret, x, y, d')" using prod_cases4 by blast
  moreover have "ret = 0 \<and> R d' = (R d)[unat i := v]"
    using assms d' unfolding card_works_def card_writes_def by (metis (mono_tags, lifting) case_prod_conv fst_conv)
  ultimately show ?thesis by (simp add: write_extcsd_value_def)
qed

lemma works_write:
  assumes "card_works C R" "i < 256"
  obtains d' where "R d' = (R d)[i := v]" "\<And>k. checked_write C i v d k = k d'"
  using works_write_value [OF assms(1), of "of_nat i" v d] unat_index [OF assms(2)]
  by (auto simp: checked_write_def)

lemma works_write3:
  assumes "card_works C R" "i + 2 < 256"
  obtains d' where "R d' = (R d)[i + 2 := b2, i + 1 := b1, i := b0]"
    "\<And>k. checked_write C (i + 2) b2 d (\<lambda>d. checked_write C (i + 1) b1 d (\<lambda>d. checked_write C i b0 d k)) = k d'"
proof -
  have "i + 1 < 256" "i < 256" using assms(2) by simp_all
  note w = works_write [OF assms(1)]
  obtain d1 where "R d1 = (R d)[i + 2 := b2]" "\<And>k. checked_write C (i + 2) b2 d k = k d1"
    using w [OF assms(2)] by blast
  moreover obtain d2 where "R d2 = (R d1)[i + 1 := b1]" "\<And>k. checked_write C (i + 1) b1 d1 k = k d2"
    using w [OF \<open>i + 1 < 256\<close>] by blast
  moreover obtain d3 where "R d3 = (R d2)[i := b0]" "\<And>k. checked_write C i b0 d2 k = k d3"
    using w [OF \<open>i < 256\<close>] by blast
  ultimately show thesis using that by simp
qed

lemma works_complete:
  assumes "card_works C R"
  shows "\<exists>d'. complete C dry_run d = Some (if dry_run then 0 else 1, d') \<and>
    R d' = (if dry_run then R d else (R d)[EXT_CSD_PARTITION_SETTING_COMPLETED := 1])"
proof (cases dry_run)
  case True
  then show ?thesis by (simp add: complete_def set_partitioning_setting_completed_def)
next
  case False
  have "EXT_CSD_PARTITION_SETTING_COMPLETED < 256" by (simp add: mmc_consts)
  then obtain d1 where d1: "write_extcsd_value C (of_nat EXT_CSD_PARTITION_SETTING_COMPLETED) 1 d = (0, d1)"
    "R d1 = (R d)[EXT_CSD_PARTITION_SETTING_COMPLETED := 1]"
    using works_write_value [OF assms] unat_index by metis
  obtain ret resp d2 where d2: "send_status C d1 = (ret, resp, d2)" using prod_cases3 by blast
  then have "ret = fst (ioctl C status_cmd d1)" "resp = fst (snd (snd (ioctl C status_cmd d1)))"
    by (auto simp: send_status_def split_beta Let_def)
  then have "ret = 0" "resp AND R1_SWITCH_ERROR = 0" using assms by (simp_all add: card_works_def)
  then show ?thesis
    using False d1 d2 send_status_frame [OF works_frame [OF assms] d2]
    by (simp add: complete_def set_partitioning_setting_completed_def)
qed


section \<open>A concrete card\<close>

lemma switch_arg: "unat (arg (switch_cmd i v)) = 50331648 + 65536 * unat i + 256 * unat v + 1"
proof -
  have "arg (switch_cmd i v) = push_bit 24 (ucast (3 :: u8)) OR push_bit 16 (ucast i) OR push_bit 8 (ucast v) OR ucast (1 :: u8)"
    by (simp add: switch_cmd_def zero_cmd_def mmc_consts)
  then show ?thesis by (simp only: unat_bytes4) simp
qed

definition demo_card :: "(nat \<Rightarrow> u8) card" where
  "demo_card = \<lparr>ioctl = (\<lambda>c d. if opcode c = MMC_SWITCH
       then (0, [], 0, d(unat (drop_bit 16 (arg c) AND 0xFF) := ucast (drop_bit 8 (arg c) AND 0xFF)))
       else (0, map d [0..<512], 0, d)), can_open = (\<lambda>_. True)\<rparr>"

definition demo_regs :: "(nat \<Rightarrow> u8) \<Rightarrow> u8 list" where
  "demo_regs d = map d [0..<512]"

lemma demo_switch: "ioctl demo_card (switch_cmd i v) d = (0, [], 0, d(unat i := v))"
proof -
  have "unat i < 256" "unat v < 256" by (rule unat_byte_less)+
  then have "unat (drop_bit 16 (arg (switch_cmd i v)) AND 0xFF) = unat i"
    "unat (drop_bit 8 (arg (switch_cmd i v)) AND 0xFF) = unat v"
    unfolding byte_div switch_arg using byte_digits [of "unat i" "unat v" 1 3] by simp_all
  moreover from this(2) have "ucast (drop_bit 8 (arg (switch_cmd i v)) AND 0xFF) = v"
    using \<open>unat v < 256\<close> by (simp add: word_unat_eq_iff unat_low_byte)
  ultimately show ?thesis by (simp add: demo_card_def switch_cmd_def mmc_consts)
qed

lemma demo_card_works: "card_works demo_card demo_regs"
proof -
  have "demo_regs (d(i := v)) = (demo_regs d)[i := v]" for d i v
    by (rule nth_equalityI) (auto simp: demo_regs_def nth_list_update)
  moreover have "ioctl demo_card read_cmd d = (0, demo_regs d, 0, d)" "ioctl demo_card status_cmd d = (0, demo_regs d, 0, d)" for d
    by (simp_all add: demo_card_def demo_regs_def read_cmd_def status_cmd_def zero_cmd_def mmc_consts)
  moreover have "fst (ioctl demo_card c d) = 0" for c d by (simp add: demo_card_def)
  ultimately show ?thesis
    by (simp add: card_works_def card_writes_def card_frame_def demo_switch) (simp add: demo_regs_def)
qed

lemma demo_open [simp]: "can_open demo_card device"
  by (simp add: demo_card_def)

lemma demo_nth [simp]: "j < 512 \<Longrightarrow> demo_regs d ! j = d j"
  by (simp add: demo_regs_def)


section \<open>Properties\<close>

text \<open>
  C15 On any card that changes at most the byte a switch command names, no command of the tool changes a
  register that is not its own, whatever its arguments are and however the driver answers.
\<close>

theorem commands_change_only:
  assumes "card_frame C R"
  shows "keeps R {nat (strtol (argv ! 1) 0 mod 256)} (R d) (do_write_extcsd_byte C argv d) \<and>
    keeps R {EXT_CSD_BOOT_WP} (R d) (do_writeprotect_set C argv d) \<and>
    keeps R {EXT_CSD_USE_NATIVE_SECTOR} (R d) (do_disable_512B_emulation C argv d) \<and>
    keeps R {EXT_CSD_PART_CONFIG} (R d) (do_write_boot_en C argv d) \<and>
    keeps R {EXT_CSD_BOOT_BUS_CONDITIONS} (R d) (do_boot_bus_conditions_set C argv d) \<and>
    keeps R {EXT_CSD_RST_N_FUNCTION} (R d) (do_hwreset_en C argv d) \<and>
    keeps R {EXT_CSD_RST_N_FUNCTION} (R d) (do_hwreset_dis C argv d) \<and>
    keeps R {EXT_CSD_BKOPS_EN} (R d) (do_write_bkops_en C argv d) \<and>
    keeps R {EXT_CSD_SANITIZE_START} (R d) (do_sanitize C argv d) \<and>
    keeps R {EXT_CSD_CACHE_CTRL} (R d) (do_cache_en C argv d) \<and>
    keeps R {EXT_CSD_CACHE_CTRL} (R d) (do_cache_dis C argv d) \<and>
    keeps R {} (R d) (do_status_get C argv d) \<and>
    keeps R (gp_regs argv) (R d) (do_create_gp_partition C argv d) \<and>
    keeps R (enh_area_regs argv) (R d) (do_enh_area_set C argv d) \<and>
    keeps R ({EXT_CSD_WR_REL_SET} \<union> completed_regs argv) (R d) (do_write_reliability_set C argv d)"
  unfolding do_hwreset_en_def do_hwreset_dis_def do_cache_en_def do_cache_dis_def
  by (intro conjI write_byte_keeps single_register_keeps status_keeps gp_keeps enh_area_keeps reliability_keeps assms)

theorem commands_change_only_witness:
  "keeps demo_regs {EXT_CSD_BOOT_WP} (demo_regs (\<lambda>_. 0))
     (do_writeprotect_set demo_card [''mmc'', ''/dev/mmcblk0''] (\<lambda>_. 0))"
  using commands_change_only [OF works_frame [OF demo_card_works]] by blast

text \<open>
  Without \<^verbatim>\<open>-y\<close> the three partitioning commands never set the one-time programmable register
  PARTITION_SETTING_COMPLETED, for all their arguments and all answers of the driver.
\<close>

theorem dry_run_not_completed:
  assumes "card_frame C R" "argv ! 1 \<noteq> ''-y''"
    "f \<in> {do_create_gp_partition C, do_enh_area_set C, do_write_reliability_set C}" "f argv d = Some (ret, d')"
  shows "R d' ! EXT_CSD_PARTITION_SETTING_COMPLETED = R d ! EXT_CSD_PARTITION_SETTING_COMPLETED"
proof -
  let ?i = EXT_CSD_PARTITION_SETTING_COMPLETED
  have out: "?i \<notin> gp_regs argv" "?i \<notin> enh_area_regs argv" "?i \<notin> {EXT_CSD_WR_REL_SET} \<union> completed_regs argv"
    using assms(2) by (simp_all add: reg_sets mmc_consts)
  consider "keeps R (gp_regs argv) (R d) (f argv d)" | "keeps R (enh_area_regs argv) (R d) (f argv d)"
    | "keeps R ({EXT_CSD_WR_REL_SET} \<union> completed_regs argv) (R d) (f argv d)"
    using assms(3) gp_keeps [OF assms(1)] enh_area_keeps [OF assms(1)] reliability_keeps [OF assms(1)] by blast
  then show ?thesis using out by cases (auto simp: keeps_def assms(4))
qed

theorem dry_run_not_completed_witness:
  "\<exists>ret d'. do_write_reliability_set demo_card [''mmc'', ''-n'', ''1'', ''/dev/mmcblk0''] (\<lambda>_. 0) = Some (ret, d') \<and>
     demo_regs d' ! 155 = 0"
proof -
  obtain d1 where "\<And>k. with_extcsd demo_card ''/dev/mmcblk0'' (\<lambda>_. 0) k = k (demo_regs (\<lambda>_. 0)) d1"
    using works_extcsd [OF demo_card_works demo_open] by blast
  then obtain ret d' where d':
      "do_write_reliability_set demo_card [''mmc'', ''-n'', ''1'', ''/dev/mmcblk0''] (\<lambda>_. 0) = Some (ret, d')"
    by (simp add: do_write_reliability_set_def need_args_def Let_def mmc_consts)
  then show ?thesis
    using dry_run_not_completed [OF works_frame [OF demo_card_works], of "[''mmc'', ''-n'', ''1'', ''/dev/mmcblk0'']"
      "do_write_reliability_set demo_card" "\<lambda>_. 0" ret d']
    by (auto simp: mmc_consts)
qed

text \<open>
  The reset function can be programmed once: when it has been enabled or disabled for good, the command
  fails and writes nothing. Otherwise, on a card that works, exactly that register gets the new value.
\<close>

theorem hwreset_once:
  assumes "card_works C R" "can_open C device" "state = R d ! EXT_CSD_RST_N_FUNCTION AND EXT_CSD_RST_N_EN_MASK"
  shows "\<exists>d'. do_hwreset C v [p, device] d = Some (if state = EXT_CSD_HW_RESET_EN \<or> state = EXT_CSD_HW_RESET_DIS then 1 else 0, d') \<and>
    R d' = (if state = EXT_CSD_HW_RESET_EN \<or> state = EXT_CSD_HW_RESET_DIS then R d else (R d)[EXT_CSD_RST_N_FUNCTION := v])"
proof -
  obtain d1 where d1: "R d1 = R d" "\<And>k. with_extcsd C device d k = k (R d) d1"
    using works_extcsd [OF assms(1,2)] by blast
  obtain d2 where d2: "R d2 = (R d1)[EXT_CSD_RST_N_FUNCTION := v]"
    "\<And>k. checked_write C EXT_CSD_RST_N_FUNCTION v d1 k = k d2"
    using works_write [OF assms(1), where i = EXT_CSD_RST_N_FUNCTION and v = v and d = d1] by (auto simp: mmc_consts)
  show ?thesis using d1 d2 by (simp add: do_hwreset_def need_args_def assms(3) Let_def)
qed

theorem hwreset_once_witness:
  "\<exists>d'. do_hwreset demo_card 1 [''mmc'', ''/dev/mmcblk0''] (\<lambda>_. 0) = Some (0, d') \<and>
     demo_regs d' = (demo_regs (\<lambda>_. 0))[162 := 1]"
  using hwreset_once [OF demo_card_works, of "''/dev/mmcblk0''" 0 "\<lambda>_. 0" 1 "''mmc''"]
  by (auto simp: mmc_consts)

text \<open>
  The exit status of a partitioning command is inverted: on a card that works,
  \<open>write_reliability set -y\<close> sets the partition's bit and completes the partitioning for good, and
  exits with status 1; without \<^verbatim>\<open>-y\<close> nothing is completed and the status is 0.
\<close>

theorem reliability_exit_status:
  assumes "card_works C R" "can_open C device"
    "R d ! EXT_CSD_PARTITION_SETTING_COMPLETED = 0" "R d ! EXT_CSD_WR_REL_PARAM AND HS_CTRL_REL \<noteq> 0"
    "strtol num 10 = int n" "n < 8"
  shows "\<exists>d'. do_write_reliability_set C [p, flag, num, device] d = Some (if flag = ''-y'' then 1 else 0, d') \<and>
    R d' = (let r = (R d)[EXT_CSD_WR_REL_SET := R d ! EXT_CSD_WR_REL_SET OR push_bit n 1]
            in if flag = ''-y'' then r[EXT_CSD_PARTITION_SETTING_COMPLETED := 1] else r)"
proof -
  let ?v = "R d ! EXT_CSD_WR_REL_SET OR ucast (push_bit n 1 :: 32 word)"
  have v: "?v = R d ! EXT_CSD_WR_REL_SET OR push_bit n 1"
    using assms(6) by (intro bit_word_eqI) (auto simp: bit_simps)
  obtain d1 where d1: "R d1 = R d" "\<And>k. with_extcsd C device d k = k (R d) d1"
    using works_extcsd [OF assms(1,2)] by blast
  obtain d2 where d2: "R d2 = (R d1)[EXT_CSD_WR_REL_SET := ?v]" "\<And>k. checked_write C EXT_CSD_WR_REL_SET ?v d1 k = k d2"
    using works_write [OF assms(1), where i = EXT_CSD_WR_REL_SET and v = ?v and d = d1] by (auto simp: mmc_consts)
  have "do_write_reliability_set C [p, flag, num, device] d = complete C (flag \<noteq> ''-y'') d2"
    using assms(3-6) d1(2) d2(2) by (simp add: do_write_reliability_set_def need_args_def Let_def)
  then show ?thesis
    using works_complete [OF assms(1), of "flag \<noteq> ''-y''" d2] d1(1) d2(1) v by (auto simp: Let_def)
qed


theorem reliability_exit_status_witness:
  "\<exists>d'. do_write_reliability_set demo_card [''mmc'', ''-y'', ''2'', ''/dev/mmcblk0''] ((\<lambda>_. 0)(166 := 1)) = Some (1, d') \<and>
     demo_regs d' = (demo_regs ((\<lambda>_. 0)(166 := 1)))[167 := 4, 155 := 1]"
proof -
  have "strtol ''2'' 10 = int 2" by (simp add: strtol_def strtol_value_def digit_val_def is_space_def Let_def)
  then show ?thesis
    using reliability_exit_status [OF demo_card_works demo_open, of "(\<lambda>_. 0)(166 := 1)" "''2''" 2 "''mmc''" "''-y''" "''/dev/mmcblk0''"]
    by (simp add: mmc_consts)
qed

text \<open>
  The partition configuration that \<open>bootpart enable\<close> writes: the three boot enable bits are the
  partition number, the acknowledge bit is as asked for, and the other bits are those the card had.
\<close>

theorem boot_config_fields:
  assumes "boot_config v area ack = Some w"
  shows "area \<in> {1, 2, 7} \<and> w AND EXT_CSD_BOOT_CFG_EN = push_bit 3 (of_int area) \<and>
    w AND EXT_CSD_BOOT_CFG_ACK = (if ack = 0 then 0 else EXT_CSD_BOOT_CFG_ACK) \<and>
    w AND NOT (EXT_CSD_BOOT_CFG_EN OR EXT_CSD_BOOT_CFG_ACK) = v AND NOT (EXT_CSD_BOOT_CFG_EN OR EXT_CSD_BOOT_CFG_ACK)"
proof -
  consider "area = 1" "w = (if ack = 0 then (v OR 8) AND NOT 0x30 AND NOT 0x40 else ((v OR 8) AND NOT 0x30) OR 0x40)"
    | "area = 2" "w = (if ack = 0 then (v OR 0x10) AND NOT 8 AND NOT 0x20 AND NOT 0x40 else ((v OR 0x10) AND NOT 8 AND NOT 0x20) OR 0x40)"
    | "area = 7" "w = (if ack = 0 then (v OR 0x38) AND NOT 0x40 else (v OR 0x38) OR 0x40)"
    using assms by (auto simp: boot_config_def mmc_consts and.assoc split: if_splits)
  then show ?thesis
    by cases (simp_all add: mmc_consts, auto intro!: byte_eqI simp: bit_simps)
qed

theorem boot_config_fields_witness:
  "\<exists>w. boot_config 0x48 2 0 = Some w \<and> w AND 0x38 = 0x10 \<and> w AND 0x40 = 0"
  using boot_config_fields [of "0x48" 2 0 "0x10"] by (simp add: boot_config_def mmc_consts)


section \<open>Sizes\<close>

text \<open>The sizes in KiB, as numbers without a limit.\<close>

definition mult_at :: "u8 list \<Rightarrow> nat \<Rightarrow> nat" where
  "mult_at r i = 65536 * unat (r ! (i + 2)) + 256 * unat (r ! (i + 1)) + unat (r ! i)"

definition kib_at :: "u8 list \<Rightarrow> nat \<Rightarrow> nat" where
  "kib_at r i = 512 * mult_at r i * unat (r ! 224) * unat (r ! 221)"

definition total_kib :: "u8 list \<Rightarrow> nat" where
  "total_kib r = kib_at r 152 + kib_at r 149 + kib_at r 146 + kib_at r 143 + kib_at r 140"

definition enhanced_kib :: "u8 list \<Rightarrow> nat" where
  "enhanced_kib r = sum_list (map (\<lambda>(b, i). if bit (r ! EXT_CSD_PARTITIONS_ATTRIBUTE) b then kib_at r i else 0)
     [(4, 152), (3, 149), (2, 146), (1, 143), (0, 140)])"

definition sectors :: "u8 list \<Rightarrow> nat" where
  "sectors r = 16777216 * unat (r ! 215) + 65536 * unat (r ! 214) + 256 * unat (r ! 213) + unat (r ! 212)"

lemma unat_size_mult: "unat (size_mult r (i + 2) (i + 1) i) = mult_at r i"
  by (simp add: size_mult_def unat_bytes3 mult_at_def)

lemma unat_sector_count: "unat (get_sector_count r) = sectors r"
  by (simp add: get_sector_count_def unat_bytes4 sectors_def mmc_consts)

lemma area_kib_of_nat: "area_kib r (size_mult r (i + 2) (i + 1) i) = of_nat (kib_at r i)"
proof -
  have "size_mult r (i + 2) (i + 1) i = of_nat (unat (size_mult r (i + 2) (i + 1) i))" by simp
  then have "size_mult r (i + 2) (i + 1) i = of_nat (mult_at r i)" unfolding unat_size_mult .
  moreover have "(ucast w :: 32 word) = of_nat (unat w)" for w :: u8 by simp
  ultimately show ?thesis
    by (simp add: area_kib_def kib_at_def get_hc_erase_grp_size_def get_hc_wp_grp_size_def)
qed


lemma area_kib_regs:
  "area_kib r (size_mult r EXT_CSD_GP_SIZE_MULT_4_2 EXT_CSD_GP_SIZE_MULT_4_1 EXT_CSD_GP_SIZE_MULT_4_0) = of_nat (kib_at r 152)"
  "area_kib r (size_mult r EXT_CSD_GP_SIZE_MULT_3_2 EXT_CSD_GP_SIZE_MULT_3_1 EXT_CSD_GP_SIZE_MULT_3_0) = of_nat (kib_at r 149)"
  "area_kib r (size_mult r EXT_CSD_GP_SIZE_MULT_2_2 EXT_CSD_GP_SIZE_MULT_2_1 EXT_CSD_GP_SIZE_MULT_2_0) = of_nat (kib_at r 146)"
  "area_kib r (size_mult r EXT_CSD_GP_SIZE_MULT_1_2 EXT_CSD_GP_SIZE_MULT_1_1 EXT_CSD_GP_SIZE_MULT_1_0) = of_nat (kib_at r 143)"
  "area_kib r (size_mult r EXT_CSD_ENH_SIZE_MULT_2 EXT_CSD_ENH_SIZE_MULT_1 EXT_CSD_ENH_SIZE_MULT_0) = of_nat (kib_at r 140)"
  "area_kib r (size_mult r EXT_CSD_MAX_ENH_SIZE_MULT_2 EXT_CSD_MAX_ENH_SIZE_MULT_1 EXT_CSD_MAX_ENH_SIZE_MULT_0) = of_nat (kib_at r 157)"
  using area_kib_of_nat [of r 152] area_kib_of_nat [of r 149] area_kib_of_nat [of r 146] area_kib_of_nat [of r 143]
    area_kib_of_nat [of r 140] area_kib_of_nat [of r 157] by (simp_all add: mmc_consts)

lemma enh_bits:
  "x AND EXT_CSD_ENH_4 \<noteq> 0 \<longleftrightarrow> bit x 4" "x AND EXT_CSD_ENH_3 \<noteq> 0 \<longleftrightarrow> bit x 3" "x AND EXT_CSD_ENH_2 \<noteq> 0 \<longleftrightarrow> bit x 2"
  "x AND EXT_CSD_ENH_1 \<noteq> 0 \<longleftrightarrow> bit x 1" "x AND EXT_CSD_ENH_USR \<noteq> 0 \<longleftrightarrow> bit x 0"
  using and_exp_eq_0_iff_not_bit [of x 4] and_exp_eq_0_iff_not_bit [of x 3] and_exp_eq_0_iff_not_bit [of x 2]
    and_exp_eq_0_iff_not_bit [of x 1] and_exp_eq_0_iff_not_bit [of x 0] by (simp_all add: mmc_consts)

text \<open>The check computes both sums modulo \<open>2 ^ 32\<close>.\<close>

lemma limit_check_words:
  assumes "card_works C R"
  shows "fst (check_enhanced_area_total_limit C d) =
    (if of_nat (enhanced_kib (R d)) > (of_nat (kib_at (R d) 157) :: 32 word) \<or>
        of_nat (total_kib (R d)) > get_sector_count (R d) div 2 then 1 else 0)"
proof -
  obtain d' where d': "read_extcsd C d = (0, R d, d')" using works_read [OF assms] by blast
  have enh: "of_nat (enhanced_kib (R d)) =
     (let attr = R d ! EXT_CSD_PARTITIONS_ATTRIBUTE;
          s = (if bit attr 4 then 0 + of_nat (kib_at (R d) 152) else 0 :: 32 word);
          s = (if bit attr 3 then s + of_nat (kib_at (R d) 149) else s);
          s = (if bit attr 2 then s + of_nat (kib_at (R d) 146) else s);
          s = (if bit attr 1 then s + of_nat (kib_at (R d) 143) else s)
      in if bit attr 0 then s + of_nat (kib_at (R d) 140) else s)"
    by (simp add: enhanced_kib_def Let_def add.assoc)
  show ?thesis
    unfolding check_enhanced_area_total_limit_def d' enh area_kib_regs enh_bits total_kib_def
    by (simp add: Let_def)
qed


text \<open>
  C33 The limit check is exact as long as the sizes fit 32 bits: it fails exactly when the enhanced areas
  together are larger than the maximum the card gives, or all partitions together are larger than the
  card.
\<close>

theorem limit_check_exact:
  assumes "card_works C R" "total_kib (R d) < 2 ^ 32" "kib_at (R d) 157 < 2 ^ 32"
  shows "fst (check_enhanced_area_total_limit C d) =
    (if enhanced_kib (R d) > kib_at (R d) 157 \<or> total_kib (R d) > sectors (R d) div 2 then 1 else 0)"
proof -
  have "enhanced_kib (R d) \<le> total_kib (R d)" by (simp add: enhanced_kib_def total_kib_def)
  with assms(2) have "enhanced_kib (R d) < 2 ^ 32" by linarith
  then have u: "unat (of_nat (enhanced_kib (R d)) :: 32 word) = enhanced_kib (R d)"
    "unat (of_nat (kib_at (R d) 157) :: 32 word) = kib_at (R d) 157"
    "unat (of_nat (total_kib (R d)) :: 32 word) = total_kib (R d)"
    using assms(2,3) by (simp_all add: unat_of_nat)
  have "unat (get_sector_count (R d) div 2) = sectors (R d) div 2"
    by (simp add: unat_div_distrib unat_sector_count)
  then show ?thesis unfolding limit_check_words [OF assms(1)] word_less_nat_alt u by simp
qed

theorem limit_check_exact_witness:
  "fst (check_enhanced_area_total_limit demo_card ((\<lambda>_. 0)(143 := 1, 221 := 1, 224 := 1, 213 := 3))) = 1"
  using limit_check_exact [OF demo_card_works, of "(\<lambda>_. 0)(143 := 1, 221 := 1, 224 := 1, 213 := 3)"]
  by (simp add: total_kib_def kib_at_def mult_at_def sectors_def enhanced_kib_def)

text \<open>
  Beyond that the sums wrap: a general purpose partition of 4 TiB on a card of any size adds nothing
  to the sums, and the check lets it pass.
\<close>

theorem limit_check_wraps:
  assumes "card_works C R" "R d ! 152 = 0" "R d ! 153 = 0" "R d ! 154 = 0x80" "R d ! 221 = 1" "R d ! 224 = 1"
    "mult_at (R d) 149 = 0" "mult_at (R d) 146 = 0" "mult_at (R d) 143 = 0" "mult_at (R d) 140 = 0"
  shows "fst (check_enhanced_area_total_limit C d) = 0 \<and> total_kib (R d) = 2 ^ 32 \<and> total_kib (R d) > sectors (R d) div 2"
proof -
  have k: "kib_at (R d) 152 = 2 ^ 32" "kib_at (R d) 149 = 0" "kib_at (R d) 146 = 0" "kib_at (R d) 143 = 0" "kib_at (R d) 140 = 0"
    using assms(2-) by (simp_all add: kib_at_def mult_at_def)
  have "sectors (R d) < 2 ^ 32" using unat_word_less [of "get_sector_count (R d)"] by (simp add: unat_sector_count)
  moreover have t: "total_kib (R d) = 2 ^ 32" by (simp add: total_kib_def k)
  moreover have "enhanced_kib (R d) = 0 \<or> enhanced_kib (R d) = 2 ^ 32" by (simp add: enhanced_kib_def k)
  then have e: "of_nat (enhanced_kib (R d)) = (0 :: 32 word)" by (elim disjE) simp_all
  have z: "of_nat (total_kib (R d)) = (0 :: 32 word)" by (simp add: t)
  have "fst (check_enhanced_area_total_limit C d) = 0" unfolding limit_check_words [OF assms(1)] e z by simp
  ultimately show ?thesis by simp
qed

theorem limit_check_wraps_witness:
  "fst (check_enhanced_area_total_limit demo_card ((\<lambda>_. 0)(154 := 0x80, 221 := 1, 224 := 1))) = 0"
  using limit_check_wraps [OF demo_card_works, of "(\<lambda>_. 0)(154 := 0x80, 221 := 1, 224 := 1)"]
  by (simp add: mult_at_def)


text \<open>The multiplier for a length: the number of write protect groups, rounded.\<close>

lemma group_bound: "512 * unat v * unat w \<le> 33292800" for v w :: u8
proof -
  have "unat v * unat w \<le> 255 * 255"
    using unat_byte_less [of v] unat_byte_less [of w] by (intro mult_le_mono) simp_all
  then show ?thesis by (simp add: mult.assoc)
qed

lemma write_group_nat: "unat (write_group r) = 512 * unat (r ! 221) * unat (r ! 224)"
proof -
  have "write_group r = of_nat (512 * unat (r ! 221) * unat (r ! 224))"
    by (simp add: write_group_def get_hc_wp_grp_size_def get_hc_erase_grp_size_def)
  then show ?thesis using group_bound [of "r ! 221" "r ! 224"] by (simp add: unat_of_nat del: of_nat_mult)
qed

lemma rounded_mult:
  assumes "len < 2 ^ 31" "a = 512 * unat (r ! 221) * unat (r ! 224)" "0 < a"
  shows "\<exists>m. udiv (of_nat len + write_group r div 2) (write_group r) = Some m \<and>
    unat m = (len + a div 2) div a \<and> unat m < 16777216"
proof -
  let ?m = "(of_nat len + write_group r div 2) div write_group r"
  have w: "unat (write_group r) = a" by (simp add: write_group_nat assms(2))
  have a: "512 \<le> a" "a \<le> 33292800" using assms(2,3) group_bound [of "r ! 221" "r ! 224"] by (simp_all add: Suc_le_eq)
  have "unat (of_nat len + write_group r div 2) = len + a div 2"
    using assms(1) a(2) by (simp add: unat_word_ariths unat_div_distrib unat_of_nat w)
  then have m: "unat ?m = (len + a div 2) div a" by (simp add: unat_div_distrib w)
  have "(len + a div 2) div a \<le> (len + a div 2) div 512" using a(1) by (intro div_le_mono2) simp_all
  also have "\<dots> < 16777216" using assms(1) a(2) by (simp add: less_mult_imp_div_less)
  finally have "unat ?m < 16777216" using m by simp
  moreover have "write_group r \<noteq> 0" using w assms(3) by auto
  ultimately show ?thesis using m by (simp add: udiv_def)
qed


lemma size_bytes:
  assumes "unat m < 16777216"
  shows "65536 * unat (ucast (drop_bit 16 m AND 0xff) :: u8) + 256 * unat (ucast (drop_bit 8 m AND 0xff) :: u8)
    + unat (ucast (m AND 0xff) :: u8) = unat (m :: 32 word)"
  using mod_bytes [of "unat m"] assms unfolding unat_low_byte byte_div unfolding mask_mod by simp

text \<open>
  The registers that \<open>gp create\<close> writes for partition \<open>n\<close>, on a card that works, before the limit check:
  the three bytes of its size hold the length in write protect groups, rounded to the nearest, the
  attribute bit is as asked for, and high-capacity sizes are switched on. The number 0 is accepted, and
  then the bytes are those of the enhanced user area.
\<close>

theorem gp_create_registers:
  assumes "card_works C R" "can_open C device"
    and args: "strtol num 10 = int n" "n \<le> 4" "strtol kib 10 = int len" "len < 2 ^ 31" "strtol ext 10 = 0"
    and regs: "R d ! EXT_CSD_PARTITION_SETTING_COMPLETED = 0" "a = 512 * unat (R d ! 221) * unat (R d ! 224)" "0 < a"
  shows "\<exists>d1. do_create_gp_partition C [p, flag, kib, num, enh, ext, device] d =
      within_limit C d1 (complete C (flag \<noteq> ''-y'')) \<and>
    mult_at (R d1) (140 + 3 * n) = (len + a div 2) div a \<and> R d1 ! EXT_CSD_ERASE_GROUP_DEF = 1 \<and>
    (bit (R d1 ! EXT_CSD_PARTITIONS_ATTRIBUTE) n \<longleftrightarrow> strtol enh 10 \<noteq> 0)"
proof -
  obtain m where m: "udiv (of_nat len + write_group (R d) div 2) (write_group (R d)) = Some m"
    "unat m = (len + a div 2) div a" "unat m < 16777216"
    using rounded_mult [OF args(4) regs(2,3)] by blast
  have slots: "nat (int EXT_CSD_GP_SIZE_MULT_1_2 + (int n - 1) * 3) = 140 + 3 * n + 2"
    "nat (int EXT_CSD_GP_SIZE_MULT_1_1 + (int n - 1) * 3) = 140 + 3 * n + 1"
    "nat (int EXT_CSD_GP_SIZE_MULT_1_0 + (int n - 1) * 3) = 140 + 3 * n"
    by (simp_all add: mmc_consts)
  let ?b2 = "ucast (drop_bit 16 m AND 0xff)" and ?b1 = "ucast (drop_bit 8 m AND 0xff)" and ?b0 = "ucast (m AND 0xff)"
  let ?attr = "if strtol enh 10 \<noteq> 0 then R d ! EXT_CSD_PARTITIONS_ATTRIBUTE OR 2 ^ n
     else R d ! EXT_CSD_PARTITIONS_ATTRIBUTE AND NOT (2 ^ n)"
  let ?addr = "EXT_CSD_EXT_PARTITIONS_ATTRIBUTE_0 + nat (int n - 1) div 2"
  have addr: "?addr = 52 \<or> ?addr = 53" using args(2) by (auto simp: mmc_consts)
  then have ltaddr: "?addr < 256" by auto
  have lt: "140 + 3 * n + 2 < 256" "EXT_CSD_ERASE_GROUP_DEF < 256" "EXT_CSD_PARTITIONS_ATTRIBUTE < 256"
    using args(2) by (simp_all add: mmc_consts)
  obtain x where x: "ext_attribute (R d ! ?addr) (int n) 0 = Some x" by (simp add: ext_attribute_def)
  note w = works_write [OF assms(1)]
  obtain d1 where d1: "R d1 = R d" "\<And>k. with_extcsd C device d k = k (R d) d1"
    using works_extcsd [OF assms(1,2)] by blast
  obtain d2 where d2: "R d2 = (R d1)[EXT_CSD_ERASE_GROUP_DEF := 1]" "\<And>k. checked_write C EXT_CSD_ERASE_GROUP_DEF 1 d1 k = k d2"
    using w [OF lt(2)] by blast
  obtain d3 where d3: "R d3 = (R d2)[140 + 3 * n + 2 := ?b2, 140 + 3 * n + 1 := ?b1, 140 + 3 * n := ?b0]"
    "\<And>k. checked_write C (140 + 3 * n + 2) ?b2 d2 (\<lambda>d. checked_write C (140 + 3 * n + 1) ?b1 d
       (\<lambda>d. checked_write C (140 + 3 * n) ?b0 d k)) = k d3"
    using works_write3 [OF assms(1) lt(1)] by blast
  obtain d4 where d4: "R d4 = (R d3)[EXT_CSD_PARTITIONS_ATTRIBUTE := ?attr]"
      "\<And>k. checked_write C EXT_CSD_PARTITIONS_ATTRIBUTE ?attr d3 k = k d4"
    using w [OF lt(3)] by blast
  obtain d5 where d5: "R d5 = (R d4)[?addr := x]" "\<And>k. checked_write C ?addr x d4 k = k d5"
    using w [OF ltaddr] by blast
  have "do_create_gp_partition C [p, flag, kib, num, enh, ext, device] d = within_limit C d5 (complete C (flag \<noteq> ''-y''))"
    using args(2) unfolding do_create_gp_partition_def need_args_def
    by (simp add: Let_def args(1,3,5) slots [simplified] regs(1) d1(2) m(1) d2(2) d3(2) [simplified] d4(2) x d5(2) cong: if_cong split del: if_split)
  moreover have "length (R d) = 512" using works_frame [OF assms(1)] by (simp add: card_frame_def)
  with addr have "R d5 ! (140 + 3 * n + 2) = ?b2" "R d5 ! (140 + 3 * n + 1) = ?b1" "R d5 ! (140 + 3 * n) = ?b0"
    "R d5 ! EXT_CSD_ERASE_GROUP_DEF = 1" "R d5 ! EXT_CSD_PARTITIONS_ATTRIBUTE = ?attr"
    using args(2) unfolding d5(1) d4(1) d3(1) d2(1) d1(1) by (auto simp: nth_list_update mmc_consts)
  ultimately show ?thesis using size_bytes [OF m(3)] m(2) args(2) by (auto simp: mult_at_def bit_simps)
qed

theorem gp_create_registers_witness:
  "\<exists>d1. do_create_gp_partition demo_card [''mmc'', ''-n'', ''1024'', ''0'', ''0'', ''0'', ''/dev/mmcblk0'']
      ((\<lambda>_. 0)(221 := 1, 224 := 1)) = within_limit demo_card d1 (complete demo_card True) \<and>
    mult_at (demo_regs d1) EXT_CSD_ENH_SIZE_MULT_0 = 2"
proof -
  have "strtol ''0'' 10 = int 0" "strtol ''1024'' 10 = int 1024"
    by (simp_all add: strtol_def strtol_value_def digit_val_def is_space_def Let_def)
  then show ?thesis
    using gp_create_registers [OF demo_card_works demo_open, of "''0''" 0 "''1024''" 1024 "''0''"
        "(\<lambda>_. 0)(221 := 1, 224 := 1)" 512 "''mmc''" "''-n''" "''0''" "''/dev/mmcblk0''"]
    by (auto simp: mmc_consts)
qed

end
