(* ===== verification/Mmc_Report.thy ===== *)
theory Mmc_Report
  imports Mmc_Safety
begin

text \<open>
  The commands of the \<^verbatim>\<open>mmc\<close> tool that show the EXT_CSD register, \<^verbatim>\<open>mmc_utils/mmc_cmds.c\<close>: the dump, the
  write protection status, and the full report of \<open>do_read_extcsd\<close>, whose text is built here one \<open>printf\<close> at a
  time. A report is the list of the texts that are printed, in their order.
\<close>

unbundle bit_operations_syntax

section \<open>Reading\<close>

text \<open>What the three commands have in common: the arguments, \<open>open\<close> and \<open>read_extcsd\<close>; \<open>k\<close> is the output.\<close>

definition reading_command :: "(u8 list \<Rightarrow> 'o list) \<Rightarrow> 'd card \<Rightarrow> string list \<Rightarrow> 'd \<Rightarrow> int \<times> 'o list \<times> 'd" where
  "reading_command k C argv d =
     (if length argv \<noteq> 2 then (1, [], d)
      else if \<not> can_open C (argv ! 1) then (1, [], d)
      else let (ret, ext_csd, d) = read_extcsd C d in if ret \<noteq> 0 then (1, [], d) else (ret, k ext_csd, d))"

definition do_dump_extcsd :: "'d card \<Rightarrow> string list \<Rightarrow> 'd \<Rightarrow> int \<times> u8 list \<times> 'd" where
  "do_dump_extcsd = reading_command (\<lambda>ext_csd. ext_csd)"

section \<open>Texts\<close>

definition byte_line :: "string \<Rightarrow> u8 list \<Rightarrow> nat \<Rightarrow> string \<Rightarrow> string" where
  "byte_line pre e i post = pre @ hex0 2 (unat (e ! i)) @ post"

definition signed_text :: "32 word \<Rightarrow> string" where
  "signed_text w = decimal (sint w)"

definition print_writeprotect_status :: "u8 list \<Rightarrow> string list" where
  "print_writeprotect_status e =
     (let reg = e ! EXT_CSD_BOOT_WP in
      if e ! EXT_CSD_REV \<ge> 5 then
        [byte_line ''Boot write protection status registers [BOOT_WP_STATUS]: 0x'' e 174 ''\<newline>'',
         ''Boot Area Write protection [BOOT_WP]: 0x'' @ hex0 2 (unat reg) @ ''\<newline>'',
         '' Power ro locking: '',
         if reg AND EXT_CSD_BOOT_WP_B_PWR_WP_DIS \<noteq> 0 then ''not possible\<newline>'' else ''possible\<newline>'',
         '' Permanent ro locking: '',
         if reg AND EXT_CSD_BOOT_WP_B_PERM_WP_DIS \<noteq> 0 then ''not possible\<newline>'' else ''possible\<newline>'',
         '' ro lock status: '',
         if reg AND EXT_CSD_BOOT_WP_B_PWR_WP_EN \<noteq> 0 then ''locked until next power on\<newline>''
         else if reg AND EXT_CSD_BOOT_WP_B_PERM_WP_EN \<noteq> 0 then ''locked permanently\<newline>''
         else ''not locked\<newline>'']
      else [])"

definition do_writeprotect_get :: "'d card \<Rightarrow> string list \<Rightarrow> 'd \<Rightarrow> int \<times> string list \<times> 'd" where
  "do_writeprotect_get = reading_command print_writeprotect_status"

section \<open>The report\<close>

text \<open>The version a revision stands for; for others nothing is printed.\<close>

definition mmc_version :: "u8 \<Rightarrow> string option" where
  "mmc_version ext_csd_rev =
     (if ext_csd_rev = 7 then Some ''5.0'' else if ext_csd_rev = 6 then Some ''4.5'' else if ext_csd_rev = 5 then Some ''4.41''
      else if ext_csd_rev = 3 then Some ''4.3'' else if ext_csd_rev = 2 then Some ''4.2'' else if ext_csd_rev = 1 then Some ''4.1''
      else if ext_csd_rev = 0 then Some ''4.0'' else None)"

definition report_title :: "u8 \<Rightarrow> string \<Rightarrow> string list" where
  "report_title ext_csd_rev str =
     [''=============================================\<newline>'',
      ''  Extended CSD rev 1.'' @ digits (unat ext_csd_rev) @ '' (MMC '' @ str @ '')\<newline>'',
      ''=============================================\<newline>\<newline>'']"

definition report_features :: "u8 list \<Rightarrow> string list" where
  "report_features e =
     [''Card Supported Command sets [S_CMD_SET: 0x'' @ hex0 2 (unat (e ! EXT_CSD_S_CMD_SET)) @ '']\<newline>''] @
     (if e ! EXT_CSD_S_CMD_SET = 0 then ['' - Standard MMC command sets\<newline>''] else []) @
     [''HPI Features [HPI_FEATURE: 0x'' @ hex0 2 (unat (e ! EXT_CSD_HPI_FEATURE)) @ '']: ''] @
     (if e ! EXT_CSD_HPI_FEATURE AND EXT_CSD_HPI_SUPP \<noteq> 0 then
        [if e ! EXT_CSD_HPI_FEATURE AND EXT_CSD_HPI_IMPL \<noteq> 0 then ''implementation based on CMD12\<newline>'' else ''implementation based on CMD13\<newline>''] else []) @
     [byte_line ''Background operations support [BKOPS_SUPPORT: 0x'' e 502 '']\<newline>'']"

definition report_packed :: "u8 list \<Rightarrow> string list" where
  "report_packed e =
     [byte_line ''Max Packet Read Cmd [MAX_PACKED_READS: 0x'' e 501 '']\<newline>'',
      byte_line ''Max Packet Write Cmd [MAX_PACKED_WRITES: 0x'' e 500 '']\<newline>'',
      byte_line ''Data TAG support [DATA_TAG_SUPPORT: 0x'' e 499 '']\<newline>'',
      byte_line ''Data TAG Unit Size [TAG_UNIT_SIZE: 0x'' e 498 '']\<newline>'',
      byte_line ''Tag Resources Size [TAG_RES_SIZE: 0x'' e 497 '']\<newline>'',
      byte_line ''Context Management Capabilities [CONTEXT_CAPABILITIES: 0x'' e 496 '']\<newline>'',
      byte_line ''Large Unit Size [LARGE_UNIT_SIZE_M1: 0x'' e 495 '']\<newline>'',
      byte_line ''Extended partition attribute support [EXT_SUPPORT: 0x'' e 494 '']\<newline>'',
      byte_line ''Generic CMD6 Timer [GENERIC_CMD6_TIME: 0x'' e 248 '']\<newline>'',
      byte_line ''Power off notification [POWER_OFF_LONG_TIME: 0x'' e 247 '']\<newline>'',
      ''Cache Size [CACHE_SIZE] is '' @ signed_text (push_bit 24 (ucast (e ! 252)) OR push_bit 16 (ucast (e ! 251)) OR push_bit 8 (ucast (e ! 250)) OR ucast (e ! 249)) @ '' KiB\<newline>'']"

definition report_power :: "u8 list \<Rightarrow> string list" where
  "report_power e =
     [byte_line ''Background operations status [BKOPS_STATUS: 0x'' e 246 '']\<newline>'',
      byte_line ''1st Initialisation Time after programmed sector [INI_TIMEOUT_AP: 0x'' e 241 '']\<newline>'',
      byte_line ''Power class for 52MHz, DDR at 3.6V [PWR_CL_DDR_52_360: 0x'' e 239 '']\<newline>'',
      byte_line ''Power class for 52MHz, DDR at 1.95V [PWR_CL_DDR_52_195: 0x'' e 238 '']\<newline>''] @
     (if e ! EXT_CSD_REV \<ge> 6 then [byte_line ''Power class for 200MHz at 3.6V [PWR_CL_200_360: 0x'' e 237 '']\<newline>'',
      byte_line ''Power class for 200MHz, at 1.95V [PWR_CL_200_195: 0x'' e 236 '']\<newline>''] else []) @
     [''Minimum Performance for 8bit at 52MHz in DDR mode:\<newline>'',
      byte_line '' [MIN_PERF_DDR_W_8_52: 0x'' e 235 '']\<newline>'',
      byte_line '' [MIN_PERF_DDR_R_8_52: 0x'' e 234 '']\<newline>'',
      byte_line ''TRIM Multiplier [TRIM_MULT: 0x'' e 232 '']\<newline>'',
      byte_line ''Secure Feature support [SEC_FEATURE_SUPPORT: 0x'' e 231 '']\<newline>'']"

definition report_erase :: "u8 list \<Rightarrow> string list" where
  "report_erase e =
     [byte_line ''Secure Erase Multiplier [SEC_ERASE_MULT: 0x'' e 230 '']\<newline>'',
      byte_line ''Secure TRIM Multiplier [SEC_TRIM_MULT: 0x'' e 229 '']\<newline>'']"

definition report_boot_info :: "u8 list \<Rightarrow> string list" where
  "report_boot_info e =
     [''Boot Information [BOOT_INFO: 0x'' @ hex0 2 (unat (e ! EXT_CSD_BOOT_INFO)) @ '']\<newline>''] @
     (if e ! EXT_CSD_BOOT_INFO AND EXT_CSD_BOOT_INFO_ALT \<noteq> 0 then ['' Device supports alternative boot method\<newline>''] else []) @
     (if e ! EXT_CSD_BOOT_INFO AND EXT_CSD_BOOT_INFO_DDR_DDR \<noteq> 0 then ['' Device supports dual data rate during boot\<newline>''] else []) @
     (if e ! EXT_CSD_BOOT_INFO AND EXT_CSD_BOOT_INFO_HS_MODE \<noteq> 0 then ['' Device supports high speed timing during boot\<newline>''] else []) @
     [byte_line ''Boot partition size [BOOT_SIZE_MULTI: 0x'' e 226 '']\<newline>'',
      byte_line ''Access size [ACC_SIZE: 0x'' e 225 '']\<newline>'']"

definition report_groups :: "u8 list \<Rightarrow> string list" where
  "report_groups e =
     (let reg = (ucast (get_hc_erase_grp_size e) :: u8); reg' = (ucast (get_hc_wp_grp_size e) :: u8) in
     [''High-capacity erase unit size [HC_ERASE_GRP_SIZE: 0x'' @ hex0 2 (unat reg) @ '']\<newline>'',
      '' i.e. '' @ digits (512 * unat reg) @ '' KiB\<newline>'',
      byte_line ''High-capacity erase timeout [ERASE_TIMEOUT_MULT: 0x'' e 223 '']\<newline>'',
      byte_line ''Reliable write sector count [REL_WR_SEC_C: 0x'' e 222 '']\<newline>'',
      ''High-capacity W protect group size [HC_WP_GRP_SIZE: 0x'' @ hex0 2 (unat reg') @ '']\<newline>'',
      '' i.e. '' @ digits (unat (512 * get_hc_erase_grp_size e * ucast reg')) @ '' KiB\<newline>'',
      byte_line ''Sleep current (VCC) [S_C_VCC: 0x'' e 220 '']\<newline>'',
      byte_line ''Sleep current (VCCQ) [S_C_VCCQ: 0x'' e 219 '']\<newline>'',
      byte_line ''Sleep/awake timeout [S_A_TIMEOUT: 0x'' e 217 '']\<newline>''])"

definition report_sectors :: "u8 list \<Rightarrow> string list" where
  "report_sectors e =
     [''Sector Count [SEC_COUNT: 0x'' @ hex0 8 (unat (get_sector_count e)) @ '']\<newline>''] @
     [if is_blockaddresed e then '' Device is block-addressed\<newline>'' else '' Device is NOT block-addressed\<newline>''] @
     [''Minimum Write Performance for 8bit:\<newline>'',
      byte_line '' [MIN_PERF_W_8_52: 0x'' e 210 '']\<newline>'',
      byte_line '' [MIN_PERF_R_8_52: 0x'' e 209 '']\<newline>'',
      byte_line '' [MIN_PERF_W_8_26_4_52: 0x'' e 208 '']\<newline>'',
      byte_line '' [MIN_PERF_R_8_26_4_52: 0x'' e 207 '']\<newline>'',
      ''Minimum Write Performance for 4bit:\<newline>'',
      byte_line '' [MIN_PERF_W_4_26: 0x'' e 206 '']\<newline>'',
      byte_line '' [MIN_PERF_R_4_26: 0x'' e 205 '']\<newline>'',
      ''Power classes registers:\<newline>'',
      byte_line '' [PWR_CL_26_360: 0x'' e 203 '']\<newline>'',
      byte_line '' [PWR_CL_52_360: 0x'' e 202 '']\<newline>'',
      byte_line '' [PWR_CL_26_195: 0x'' e 201 '']\<newline>'',
      byte_line '' [PWR_CL_52_195: 0x'' e 200 '']\<newline>'']"

definition report_timing :: "u8 list \<Rightarrow> string list" where
  "report_timing e =
     (if e ! EXT_CSD_REV \<ge> 5 then [byte_line ''Partition switching timing [PARTITION_SWITCH_TIME: 0x'' e 199 '']\<newline>'',
      byte_line ''Out-of-interrupt busy timing [OUT_OF_INTERRUPT_TIME: 0x'' e 198 '']\<newline>''] else []) @
     (if e ! EXT_CSD_REV \<ge> 6 then [byte_line ''I/O Driver Strength [DRIVER_STRENGTH: 0x'' e 197 '']\<newline>''] else [])"

definition report_card_type :: "u8 list \<Rightarrow> string list" where
  "report_card_type e =
     [''Card Type [CARD_TYPE: 0x'' @ hex0 2 (unat (e ! 196)) @ '']\<newline>''] @
     (if e ! 196 AND 0x20 \<noteq> 0 then ['' HS200 Single Data Rate eMMC @200MHz 1.2VI/O\<newline>''] else []) @
     (if e ! 196 AND 0x10 \<noteq> 0 then ['' HS200 Single Data Rate eMMC @200MHz 1.8VI/O\<newline>''] else []) @
     (if e ! 196 AND 0x08 \<noteq> 0 then ['' HS Dual Data Rate eMMC @52MHz 1.2VI/O\<newline>''] else []) @
     (if e ! 196 AND 0x04 \<noteq> 0 then ['' HS Dual Data Rate eMMC @52MHz 1.8V or 3VI/O\<newline>''] else []) @
     (if e ! 196 AND 0x02 \<noteq> 0 then ['' HS eMMC @52MHz - at rated device voltage(s)\<newline>''] else []) @
     (if e ! 196 AND 0x01 \<noteq> 0 then ['' HS eMMC @26MHz - at rated device voltage(s)\<newline>''] else [])"

definition report_sets :: "u8 list \<Rightarrow> string list" where
  "report_sets e =
     [byte_line ''CSD structure version [CSD_STRUCTURE: 0x'' e 194 '']\<newline>'',
      byte_line ''Command set [CMD_SET: 0x'' e 191 '']\<newline>'',
      byte_line ''Command set revision [CMD_SET_REV: 0x'' e 189 '']\<newline>'',
      byte_line ''Power class [POWER_CLASS: 0x'' e 187 '']\<newline>'',
      byte_line ''High-speed interface timing [HS_TIMING: 0x'' e 185 '']\<newline>'',
      byte_line ''Erased memory content [ERASED_MEM_CONT: 0x'' e 181 '']\<newline>'']"

definition report_boot_config :: "u8 list \<Rightarrow> string list" where
  "report_boot_config e =
     (let reg = e ! EXT_CSD_BOOT_CFG; en = drop_bit 3 (reg AND EXT_CSD_BOOT_CFG_EN); acc = reg AND EXT_CSD_BOOT_CFG_ACC in
     [''Boot configuration bytes [PARTITION_CONFIG: 0x'' @ hex0 2 (unat reg) @ '']\<newline>''] @
     (if en = 0x0 then ['' Not boot enable\<newline>''] else if en = 0x1 then ['' Boot Partition 1 enabled\<newline>'']
      else if en = 0x2 then ['' Boot Partition 2 enabled\<newline>''] else if en = 0x7 then ['' User Area Enabled for boot\<newline>''] else []) @
     [if acc = 0x0 then '' No access to boot partition\<newline>'' else if acc = 0x1 then '' R/W Boot Partition 1\<newline>''
      else if acc = 0x2 then '' R/W Boot Partition 2\<newline>'' else if acc = 0x3 then '' R/W Replay Protected Memory Block (RPMB)\<newline>''
      else '' Access to General Purpose partition '' @ digits (unat acc - 3) @ ''\<newline>''] @
     [byte_line ''Boot config protection [BOOT_CONFIG_PROT: 0x'' e 178 '']\<newline>'',
      byte_line ''Boot bus Conditions [BOOT_BUS_CONDITIONS: 0x'' e 177 '']\<newline>'',
      byte_line ''High-density erase group definition [ERASE_GROUP_DEF: 0x'' e EXT_CSD_ERASE_GROUP_DEF '']\<newline>''])"

definition report_reliability :: "u8 list \<Rightarrow> string list" where
  "report_reliability e =
     (let fast = ''existing data is at risk if a power failure occurs during a write operation'';
         reliable = ''the device protects existing data if a power failure occurs during a write operation'';
         reg = e ! EXT_CSD_WR_REL_SET; reg' = e ! EXT_CSD_WR_REL_PARAM in
     [byte_line ''User area write protection register [USER_WP]: 0x'' e 171 ''\<newline>'',
      byte_line ''FW configuration [FW_CONFIG]: 0x'' e 169 ''\<newline>'',
      byte_line ''RPMB Size [RPMB_SIZE_MULT]: 0x'' e 168 ''\<newline>'',
      ''Write reliability setting register [WR_REL_SET]: 0x'' @ hex0 2 (unat reg) @ ''\<newline>'',
      '' user area: '' @ (if reg AND push_bit 0 1 \<noteq> 0 then reliable else fast) @ ''\<newline>''] @
     map (\<lambda>i. '' partition '' @ digits i @ '': '' @ (if reg AND push_bit i 1 \<noteq> 0 then reliable else fast) @ ''\<newline>'') [1..<5] @
     [''Write reliability parameter register [WR_REL_PARAM]: 0x'' @ hex0 2 (unat reg') @ ''\<newline>''] @
     (if reg' AND 0x01 \<noteq> 0 then ['' Device supports writing EXT_CSD_WR_REL_SET\<newline>''] else []) @
     (if reg' AND 0x04 \<noteq> 0 then ['' Device supports the enhanced def. of reliable write\<newline>''] else []))"

definition report_partitioning :: "u8 list \<Rightarrow> string list" where
  "report_partitioning e =
     (let reg = e ! EXT_CSD_PARTITIONING_SUPPORT; reg' = e ! EXT_CSD_PARTITION_SETTING_COMPLETED;
         regl = size_mult e EXT_CSD_MAX_ENH_SIZE_MULT_2 EXT_CSD_MAX_ENH_SIZE_MULT_1 EXT_CSD_MAX_ENH_SIZE_MULT_0 in
     [byte_line ''Enable background operations handshake [BKOPS_EN]: 0x'' e 163 ''\<newline>'',
      byte_line ''H/W reset function [RST_N_FUNCTION]: 0x'' e 162 ''\<newline>'',
      byte_line ''HPI management [HPI_MGMT]: 0x'' e 161 ''\<newline>'',
      ''Partitioning Support [PARTITIONING_SUPPORT]: 0x'' @ hex0 2 (unat reg) @ ''\<newline>''] @
     [if reg AND EXT_CSD_PARTITIONING_EN \<noteq> 0 then '' Device support partitioning feature\<newline>'' else '' Device NOT support partitioning feature\<newline>''] @
     [if reg AND EXT_CSD_ENH_ATTRIBUTE_EN \<noteq> 0 then '' Device can have enhanced tech.\<newline>'' else '' Device cannot have enhanced tech.\<newline>''] @
     [''Max Enhanced Area Size [MAX_ENH_SIZE_MULT]: 0x'' @ hex0 6 (unat regl) @ ''\<newline>'',
      '' i.e. '' @ digits (unat (512 * regl * get_hc_wp_grp_size e * get_hc_erase_grp_size e)) @ '' KiB\<newline>'',
      byte_line ''Partitions attribute [PARTITIONS_ATTRIBUTE]: 0x'' e EXT_CSD_PARTITIONS_ATTRIBUTE ''\<newline>'',
      ''Partitioning Setting [PARTITION_SETTING_COMPLETED]: 0x'' @ hex0 2 (unat reg') @ ''\<newline>''] @
     [if reg' \<noteq> 0 then '' Device partition setting complete\<newline>'' else '' Device partition setting NOT complete\<newline>''])"

definition report_areas :: "u8 list \<Rightarrow> string list" where
  "report_areas e =
     (let regl = size_mult e EXT_CSD_ENH_SIZE_MULT_2 EXT_CSD_ENH_SIZE_MULT_1 EXT_CSD_ENH_SIZE_MULT_0;
         start = push_bit 24 (ucast (e ! EXT_CSD_ENH_START_ADDR_3)) OR push_bit 16 (ucast (e ! EXT_CSD_ENH_START_ADDR_2)) OR
           push_bit 8 (ucast (e ! EXT_CSD_ENH_START_ADDR_1)) OR ucast (e ! EXT_CSD_ENH_START_ADDR_0) :: 32 word in
     [''General Purpose Partition Size\<newline> [GP_SIZE_MULT_4]: 0x'' @ hex0 6 (unat (size_mult e 154 153 152)) @ ''\<newline>'',
      '' [GP_SIZE_MULT_3]: 0x'' @ hex0 6 (unat (size_mult e 151 150 149)) @ ''\<newline>'',
      '' [GP_SIZE_MULT_2]: 0x'' @ hex0 6 (unat (size_mult e 148 147 146)) @ ''\<newline>'',
      '' [GP_SIZE_MULT_1]: 0x'' @ hex0 6 (unat (size_mult e 145 144 143)) @ ''\<newline>'',
      ''Enhanced User Data Area Size [ENH_SIZE_MULT]: 0x'' @ hex0 6 (unat regl) @ ''\<newline>'',
      '' i.e. '' @ digits (unat (area_kib e regl)) @ '' KiB\<newline>'',
      ''Enhanced User Data Start Address [ENH_START_ADDR]: 0x'' @ hex0 6 (unat start) @ ''\<newline>'',
      '' i.e. '' @ digits (unat ((if is_blockaddresed e then 1 else 512) * start)) @ '' bytes offset\<newline>'',
      byte_line ''Bad Block Management mode [SEC_BAD_BLK_MGMNT]: 0x'' e 134 ''\<newline>''])"

definition report_vendor :: "u8 list \<Rightarrow> string list" where
  "report_vendor e =
     [byte_line ''Periodic Wake-up [PERIODIC_WAKEUP]: 0x'' e 131 ''\<newline>'',
      byte_line ''Program CID/CSD in DDR mode support [PROGRAM_CID_CSD_DDR_SUPPORT]: 0x'' e 130 ''\<newline>''] @
     map (\<lambda>j. ''Vendor Specific Fields [VENDOR_SPECIFIC_FIELD['' @ digits j @ '']]: 0x'' @ hex0 2 (unat (e ! j)) @ ''\<newline>'') (rev [64..<128]) @
     [byte_line ''Native sector size [NATIVE_SECTOR_SIZE]: 0x'' e 63 ''\<newline>'',
      byte_line ''Sector size emulation [USE_NATIVE_SECTOR]: 0x'' e 62 ''\<newline>'',
      byte_line ''Sector size [DATA_SECTOR_SIZE]: 0x'' e 61 ''\<newline>'',
      byte_line ''1st initialization after disabling sector size emulation [INI_TIMEOUT_EMU]: 0x'' e 60 ''\<newline>'',
      byte_line ''Class 6 commands control [CLASS_6_CTRL]: 0x'' e 59 ''\<newline>'',
      byte_line ''Number of addressed group to be Released[DYNCAP_NEEDED]: 0x'' e 58 ''\<newline>'',
      ''Exception events control [EXCEPTION_EVENTS_CTRL]: 0x'' @ hex0 4 (unat (push_bit 8 (ucast (e ! 57)) OR ucast (e ! 56) :: 32 word)) @ ''\<newline>'',
      ''Exception events status[EXCEPTION_EVENTS_STATUS]: 0x'' @ hex0 4 (unat (push_bit 8 (ucast (e ! 55)) OR ucast (e ! 54) :: 32 word)) @ ''\<newline>'',
      ''Extended Partitions Attribute [EXT_PARTITIONS_ATTRIBUTE]: 0x'' @ hex0 4 (unat (push_bit 8 (ucast (e ! 53)) OR ucast (e ! 52) :: 32 word)) @ ''\<newline>''] @
     map (\<lambda>j. ''Context configuration [CONTEXT_CONF['' @ digits j @ '']]: 0x'' @ hex0 2 (unat (e ! j)) @ ''\<newline>'') (rev [37..<52]) @
     [byte_line ''Packed command status [PACKED_COMMAND_STATUS]: 0x'' e 36 ''\<newline>'',
      byte_line ''Packed command failure index [PACKED_FAILURE_INDEX]: 0x'' e 35 ''\<newline>'',
      byte_line ''Power Off Notification [POWER_OFF_NOTIFICATION]: 0x'' e 34 ''\<newline>'',
      byte_line ''Control to turn the Cache ON/OFF [CACHE_CTRL]: 0x'' e 33 ''\<newline>'']"

definition report :: "u8 list \<Rightarrow> string list" where
  "report e = (let ext_csd_rev = e ! EXT_CSD_REV in
     case mmc_version ext_csd_rev of
       None \<Rightarrow> []
     | Some str \<Rightarrow> report_title ext_csd_rev str @
         (if ext_csd_rev < 3 then []
          else report_features e @
            (if ext_csd_rev \<ge> 6 then report_packed e else []) @
            (if ext_csd_rev \<ge> 5 then report_power e else []) @
            (if ext_csd_rev = 5 then report_erase e else []) @
            report_boot_info e @ report_groups e @ report_sectors e @ report_timing e @ report_card_type e @
            report_sets e @ report_boot_config e @ print_writeprotect_status e @
            (if ext_csd_rev \<ge> 5 then report_reliability e @ report_partitioning e @ report_areas e else []) @
            (if ext_csd_rev \<ge> 6 then report_vendor e else [])))"

definition do_read_extcsd :: "'d card \<Rightarrow> string list \<Rightarrow> 'd \<Rightarrow> int \<times> string list \<times> 'd" where
  "do_read_extcsd = reading_command report"

section \<open>Lemmas\<close>

lemma reading_works:
  assumes "card_works C R" "can_open C device"
  shows "\<exists>d'. reading_command k C [p, device] d = (0, k (R d), d') \<and> R d' = R d"
  using works_read [OF assms(1), of d] assms(2) by (auto simp: reading_command_def)

lemma reading_keeps: "card_frame C R \<Longrightarrow> R (snd (snd (reading_command k C argv d))) = R d"
  by (auto simp: reading_command_def read_extcsd_def card_frame_def Let_def split: prod.splits)

text \<open>The revisions with the full report.\<close>

lemma full_revisions: "5 \<le> r \<Longrightarrow> r \<le> 7 \<Longrightarrow> r = 5 \<or> r = 6 \<or> r = 7" for r :: u8
  by (simp add: word_le_nat_alt word_unat_eq_iff) linarith

lemma report_has_areas: "5 \<le> e ! EXT_CSD_REV \<Longrightarrow> e ! EXT_CSD_REV \<le> 7 \<Longrightarrow> set (report_areas e) \<subseteq> set (report e)"
  using full_revisions [of "e ! EXT_CSD_REV"] by (auto simp: report_def mmc_version_def)

section \<open>Properties\<close>

text \<open>
  The commands that show registers change none, whatever their arguments are and however the driver answers.
\<close>

theorem reading_changes_nothing:
  assumes "card_frame C R"
  shows "R (snd (snd (do_dump_extcsd C argv d))) = R d \<and> R (snd (snd (do_writeprotect_get C argv d))) = R d \<and>
    R (snd (snd (do_read_extcsd C argv d))) = R d"
  by (simp add: do_dump_extcsd_def do_writeprotect_get_def do_read_extcsd_def reading_keeps [OF assms])

theorem reading_changes_nothing_witness:
  "demo_regs (snd (snd (do_read_extcsd demo_card [''mmc'', ''/dev/mmcblk0''] (\<lambda>_. 0)))) = demo_regs (\<lambda>_. 0)"
  using reading_changes_nothing [OF works_frame [OF demo_card_works]] by blast

text \<open>
  After \<open>writeprotect set\<close>, on a card that works and has the register, \<open>writeprotect get\<close> shows the boot area as
  locked until the next power on, and as not lockable in the ways the card does not offer.
\<close>

theorem writeprotect_set_get:
  assumes "card_works C R" "can_open C device" "5 \<le> R d ! EXT_CSD_REV" "w = R d ! EXT_CSD_BOOT_WP OR EXT_CSD_BOOT_WP_B_PWR_WP_EN"
  shows "\<exists>d1 d2. do_writeprotect_set C [p, device] d = Some (0, d1) \<and> R d1 = (R d)[EXT_CSD_BOOT_WP := w] \<and>
    do_writeprotect_get C [p, device] d1 = (0,
      [byte_line ''Boot write protection status registers [BOOT_WP_STATUS]: 0x'' (R d) 174 ''\<newline>'',
       ''Boot Area Write protection [BOOT_WP]: 0x'' @ hex0 2 (unat w) @ ''\<newline>'',
       '' Power ro locking: '', if bit (R d ! EXT_CSD_BOOT_WP) 6 then ''not possible\<newline>'' else ''possible\<newline>'',
       '' Permanent ro locking: '', if bit (R d ! EXT_CSD_BOOT_WP) 4 then ''not possible\<newline>'' else ''possible\<newline>'',
       '' ro lock status: '', ''locked until next power on\<newline>''], d2)"
proof -
  have len: "length (R d) = 512" using works_frame [OF assms(1)] by (simp add: card_frame_def)
  obtain d0 where d0: "R d0 = R d" "\<And>k. with_extcsd C device d k = k (R d) d0" using works_extcsd [OF assms(1,2)] by blast
  obtain d1 where d1: "R d1 = (R d)[EXT_CSD_BOOT_WP := w]" "\<And>k. checked_write C EXT_CSD_BOOT_WP w d0 k = k d1"
    using works_write [OF assms(1), where i = EXT_CSD_BOOT_WP and v = w and d = d0] d0(1) by (auto simp: mmc_consts)
  obtain d2 where d2: "do_writeprotect_get C [p, device] d1 = (0, print_writeprotect_status (R d1), d2)"
    using reading_works [OF assms(1,2), of print_writeprotect_status p d1] by (auto simp: do_writeprotect_get_def)
  have e: "R d1 ! EXT_CSD_BOOT_WP = w" "R d1 ! EXT_CSD_REV = R d ! EXT_CSD_REV" "R d1 ! 174 = R d ! 174"
    by (simp_all add: d1(1) len mmc_consts)
  have flags: "w AND EXT_CSD_BOOT_WP_B_PWR_WP_EN \<noteq> 0"
    "w AND EXT_CSD_BOOT_WP_B_PWR_WP_DIS \<noteq> 0 \<longleftrightarrow> bit (R d ! EXT_CSD_BOOT_WP) 6"
    "w AND EXT_CSD_BOOT_WP_B_PERM_WP_DIS \<noteq> 0 \<longleftrightarrow> bit (R d ! EXT_CSD_BOOT_WP) 4"
    using and_exp_eq_0_iff_not_bit [of w 0] and_exp_eq_0_iff_not_bit [of w 6] and_exp_eq_0_iff_not_bit [of w 4]
    by (simp_all add: assms(4) mmc_consts bit_simps)
  have "do_writeprotect_set C [p, device] d = Some (0, d1)"
    using d0 d1 by (simp add: do_writeprotect_set_def need_args_def assms(4) [symmetric])
  then show ?thesis
    using d1(1) d2 e flags assms(3) by (simp add: print_writeprotect_status_def byte_line_def)
qed


theorem writeprotect_set_get_witness:
  "\<exists>d1 d2 out. do_writeprotect_set demo_card [''mmc'', ''/dev/mmcblk0''] ((\<lambda>_. 0)(192 := 7)) = Some (0, d1) \<and>
     do_writeprotect_get demo_card [''mmc'', ''/dev/mmcblk0''] d1 = (0, out, d2) \<and> last out = ''locked until next power on\<newline>''"
  using writeprotect_set_get [OF demo_card_works, of "''/dev/mmcblk0''" "(\<lambda>_. 0)(192 := 7)" 1 "''mmc''"]
  by (auto simp: mmc_consts)

text \<open>
  Which cards get a report: revision 3 and 5 to 7 do, revisions 0 to 2 get the title alone, and for any other
  revision, as that of a card of version 5.1, \<open>extcsd read\<close> prints nothing and succeeds.
\<close>

theorem report_revisions:
  assumes "card_works C R" "can_open C device" "r = R d ! EXT_CSD_REV"
  shows "\<exists>out d'. do_read_extcsd C [p, device] d = (0, out, d') \<and>
    (out = [] \<longleftrightarrow> r = 4 \<or> 8 \<le> r) \<and> (length out = 3 \<longleftrightarrow> r < 3)"
proof -
  obtain d' where d': "do_read_extcsd C [p, device] d = (0, report (R d), d')"
    using reading_works [OF assms(1,2), of report p d] by (auto simp: do_read_extcsd_def)
  have v: "mmc_version r = None \<longleftrightarrow> r = 4 \<or> 8 \<le> r"
    by (simp add: mmc_version_def word_le_nat_alt word_unat_eq_iff) linarith
  have title: "length (report_title r str) = 3" for str by (simp add: report_title_def)
  have features: "report_features (R d) \<noteq> []" by (simp add: report_features_def)
  show ?thesis
  proof (cases "mmc_version r")
    case None
    moreover from this v have "\<not> r < 3" by (auto simp: word_less_nat_alt word_le_nat_alt)
    ultimately show ?thesis using d' v by (auto simp: report_def assms(3))
  next
    case (Some str)
    then have "report (R d) \<noteq> []" "length (report (R d)) = 3 \<longleftrightarrow> r < 3"
      using title [of str] features by (auto simp: report_def assms(3) [symmetric] Let_def)
    then show ?thesis using d' v Some by auto
  qed
qed

theorem report_revisions_witness:
  "\<exists>d'. do_read_extcsd demo_card [''mmc'', ''/dev/mmcblk0''] ((\<lambda>_. 0)(192 := 8)) = (0, [], d')"
  using report_revisions [OF demo_card_works, of "''/dev/mmcblk0''" 8 "(\<lambda>_. 0)(192 := 8)" "''mmc''"]
  by (auto simp: mmc_consts)

text \<open>
  The sizes of the general purpose partitions in a report: for each of the four, the text holds the multiplier
  in the card's three registers, and reads back as it.
\<close>

theorem gp_sizes_reported:
  assumes "5 \<le> e ! EXT_CSD_REV" "e ! EXT_CSD_REV \<le> 7" "n \<in> {1, 2, 3, 4}"
  shows "\<exists>pre number. pre @ '' [GP_SIZE_MULT_'' @ digits n @ '']: 0x'' @ number @ ''\<newline>'' \<in> set (report e) \<and>
    hex_value number = mult_at e (140 + 3 * n)"
proof -
  have m: "unat (size_mult e (i + 2) (i + 1) i) = mult_at e i" for i by (rule unat_size_mult)
  let ?line = "\<lambda>pre. pre @ '' [GP_SIZE_MULT_'' @ digits n @ '']: 0x'' @ hex0 6 (mult_at e (140 + 3 * n)) @ ''\<newline>''"
  let ?pre = "if n = 4 then ''General Purpose Partition Size\<newline>'' else []"
  have d: "digits 1 = ''1''" "digits 2 = ''2''" "digits 3 = ''3''" "digits 4 = ''4''" by (simp_all add: digits.simps char_of_def bit_0)
  have l: "length (report_areas e) = 9" by (simp add: report_areas_def Let_def)
  have lines: "report_areas e ! 3 = '' [GP_SIZE_MULT_1]: 0x'' @ hex0 6 (mult_at e 143) @ ''\<newline>''"
    "report_areas e ! 2 = '' [GP_SIZE_MULT_2]: 0x'' @ hex0 6 (mult_at e 146) @ ''\<newline>''"
    "report_areas e ! 1 = '' [GP_SIZE_MULT_3]: 0x'' @ hex0 6 (mult_at e 149) @ ''\<newline>''"
    "report_areas e ! 0 = ''General Purpose Partition Size\<newline> [GP_SIZE_MULT_4]: 0x'' @ hex0 6 (mult_at e 152) @ ''\<newline>''"
    using m [of 143] m [of 146] m [of 149] m [of 152] by (simp_all add: report_areas_def Let_def)
  from assms(3) consider "n = 1" | "n = 2" | "n = 3" | "n = 4" by auto
  then have "report_areas e ! (4 - n) = ?line ?pre" by cases (simp_all add: lines lines(3) [simplified] d d(1) [simplified])
  moreover have "4 - n < length (report_areas e)" using assms(3) l by auto
  ultimately have "?line ?pre \<in> set (report_areas e)" by (metis nth_mem)
  then have "?line ?pre \<in> set (report e)" using report_has_areas [OF assms(1,2)] by blast
  then show ?thesis using hex_value_hex0 by blast
qed

theorem gp_sizes_reported_witness:
  "\<exists>pre number. pre @ '' [GP_SIZE_MULT_'' @ digits 1 @ '']: 0x'' @ number @ ''\<newline>'' \<in> set (report (demo_regs ((\<lambda>_. 0)(192 := 7, 144 := 1)))) \<and>
     hex_value number = 256"
  using gp_sizes_reported [of "demo_regs ((\<lambda>_. 0)(192 := 7, 144 := 1))" 1] by (simp add: mmc_consts mult_at_def)

text \<open>
  The byte offset of the enhanced area in a report is wrong: on a block-addressed card the number is the one of
  sectors, as \<open>enh_area set\<close> writes it, and on the others it is the number of bytes times 512.
\<close>

theorem enh_start_misreported:
  assumes "5 \<le> e ! EXT_CSD_REV" "e ! EXT_CSD_REV \<le> 7"
    "start = 16777216 * unat (e ! 139) + 65536 * unat (e ! 138) + 256 * unat (e ! 137) + unat (e ! 136)"
  shows "'' i.e. '' @ digits (if is_blockaddresed e then start else 512 * start mod 2 ^ 32) @ '' bytes offset\<newline>'' \<in> set (report e)"
proof -
  let ?w = "push_bit 24 (ucast (e ! 139)) OR push_bit 16 (ucast (e ! 138)) OR push_bit 8 (ucast (e ! 137)) OR ucast (e ! 136) :: 32 word"
  have "unat ?w = start" unfolding assms(3) by (rule unat_bytes4)
  then have "unat ((if is_blockaddresed e then 1 else 512) * ?w) = (if is_blockaddresed e then start else 512 * start mod 2 ^ 32)"
    using unat_word_less [of ?w] by (simp add: unat_word_ariths)
  moreover have "'' i.e. '' @ digits (unat ((if is_blockaddresed e then 1 else 512) * ?w)) @ '' bytes offset\<newline>'' \<in> set (report_areas e)"
    by (simp add: report_areas_def Let_def mmc_consts)
  ultimately show ?thesis using report_has_areas [OF assms(1,2)] by auto
qed

theorem enh_start_misreported_witness:
  "'' i.e. '' @ digits 512 @ '' bytes offset\<newline>'' \<in> set (report (demo_regs ((\<lambda>_. 0)(192 := 7, 136 := 1))))"
  using enh_start_misreported [of "demo_regs ((\<lambda>_. 0)(192 := 7, 136 := 1))" 1]
  by (simp add: mmc_consts is_blockaddresed_def get_sector_count_def)

end
