(* ===== verification/Mmc_Io.thy ===== *)
theory Mmc_Io
  imports Byte_Words
begin

text \<open>
  The macro \<open>DO_IO\<close> of \<^verbatim>\<open>mmc_utils/mmc_cmds.c\<close>, which repeats \<open>read\<close> or \<open>write\<close> until all bytes have been
  moved, with the descriptors it is used on. What it promises is proved once, in the locale of the calls
  it may repeat, and holds for both calls by interpretation.
\<close>

section \<open>The macro\<close>

text \<open>What a call gives: a count, \<open>-1\<close> with EINTR, \<open>-1\<close> with another error.\<close>

datatype io = Moved nat | Again | Broken

text \<open>
  The call gets the position \<open>buf + ret\<close>, as an offset into the buffer, and the count \<open>nbyte - ret\<close>.
\<close>

partial_function (option) DO_IO_loop :: "(nat \<Rightarrow> nat \<Rightarrow> 's \<Rightarrow> io \<times> 's) \<Rightarrow> nat \<Rightarrow> nat \<Rightarrow> 's \<Rightarrow> (int \<times> 's) option" where
  "DO_IO_loop func nbyte ret s = (case func ret (nbyte - ret) s of (r, s) \<Rightarrow>
     (case r of
        Broken \<Rightarrow> Some (- 1, s)
      | Again \<Rightarrow> if ret \<noteq> nbyte then DO_IO_loop func nbyte ret s else Some (int ret, s)
      | Moved r \<Rightarrow> if r \<noteq> 0 \<and> ret + r \<noteq> nbyte then DO_IO_loop func nbyte (ret + r) s else Some (int (ret + r), s)))"

definition DO_IO :: "(nat \<Rightarrow> nat \<Rightarrow> 's \<Rightarrow> io \<times> 's) \<Rightarrow> nat \<Rightarrow> 's \<Rightarrow> (int \<times> 's) option" where
  "DO_IO func nbyte s = DO_IO_loop func nbyte 0 s"

section \<open>Descriptors\<close>

text \<open>
  A descriptor to read from: the results of the coming calls, then the end of the file. A call takes no
  more than it is asked for; the rest of a piece is left for the next one. The bytes go to the given offset
  of the memory of the caller's buffer.
\<close>

datatype piece = Bytes "u8 list" | Interrupted | Failing

definition put :: "nat \<Rightarrow> u8 list \<Rightarrow> u8 list \<Rightarrow> u8 list" where
  "put off bs m = take off m @ bs @ drop (off + length bs) m"

record reader =
  got :: "u8 list"
  stream :: "piece list"

fun read_fd :: "nat \<Rightarrow> nat \<Rightarrow> reader \<Rightarrow> io \<times> reader" where
  "read_fd off k s = (case stream s of
       [] \<Rightarrow> (Moved 0, s)
     | Bytes bs # ps \<Rightarrow> if length bs \<le> k then (Moved (length bs), s\<lparr>got := put off bs (got s), stream := ps\<rparr>)
         else (Moved k, s\<lparr>got := put off (take k bs) (got s), stream := Bytes (drop k bs) # ps\<rparr>)
     | Interrupted # ps \<Rightarrow> (Again, s\<lparr>stream := ps\<rparr>)
     | Failing # ps \<Rightarrow> (Broken, s\<lparr>stream := ps\<rparr>))"

text \<open>A descriptor to write to: how much the coming calls accept, then everything; the buffer is only read.\<close>

datatype accept = Accepts nat | WInterrupted | WFailing

record writer =
  w_sent :: "u8 list"
  w_buf :: "u8 list"
  accepts :: "accept list"

fun write_out :: "nat \<Rightarrow> nat \<Rightarrow> writer \<Rightarrow> io \<times> writer" where
  "write_out off k s = (let data = take k (drop off (w_buf s)); move = (\<lambda>r s. (Moved r, s\<lparr>w_sent := w_sent s @ take r data\<rparr>)) in
     case accepts s of
       [] \<Rightarrow> move (length data) s
     | Accepts n # as \<Rightarrow> move (min n (length data)) (s\<lparr>accepts := as\<rparr>)
     | WInterrupted # as \<Rightarrow> (Again, s\<lparr>accepts := as\<rparr>)
     | WFailing # as \<Rightarrow> (Broken, s\<lparr>accepts := as\<rparr>))"

declare read_fd.simps [simp del] write_out.simps [simp del]

section \<open>The contract\<close>

text \<open>
  A call that may be repeated: started at an offset that \<open>valid\<close> allows it moves at most what it is asked to,
  loses nothing and reorders nothing, and a call that is cut short uses something up.
\<close>

locale io_call =
  fixes func :: "nat \<Rightarrow> nat \<Rightarrow> 's \<Rightarrow> io \<times> 's" and moved rest :: "nat \<Rightarrow> 's \<Rightarrow> u8 list"
    and valid :: "nat \<Rightarrow> 's \<Rightarrow> bool" and left :: "nat \<Rightarrow> 's \<Rightarrow> nat"
  assumes starts: "valid 0 s"
    and moves: "valid off s \<Longrightarrow> func off k s = (Moved r, s') \<Longrightarrow> r \<le> k \<and> valid (off + r) s' \<and>
      length (moved (off + r) s') = length (moved off s) + r \<and>
      moved (off + r) s' @ rest (off + r) s' = moved off s @ rest off s \<and> (0 < r \<and> r < k \<longrightarrow> left (off + r) s' < left off s)"
    and again: "valid off s \<Longrightarrow> func off k s = (Again, s') \<Longrightarrow>
      valid off s' \<and> moved off s' = moved off s \<and> rest off s' = rest off s \<and> left off s' < left off s"
    and broken: "valid off s \<Longrightarrow> func off k s = (Broken, s') \<Longrightarrow>
      valid off s' \<and> moved off s' = moved off s \<and> rest off s' = rest off s"
begin

text \<open>The first \<open>n\<close> bytes of what is left at an offset have been moved.\<close>

definition progress :: "nat \<Rightarrow> 's \<Rightarrow> nat \<Rightarrow> 's \<Rightarrow> bool" where
  "progress off s n s' \<longleftrightarrow> n \<le> length (rest off s) \<and> valid (off + n) s' \<and>
     moved (off + n) s' = moved off s @ take n (rest off s) \<and> rest (off + n) s' = drop n (rest off s)"

lemma moves_progress:
  assumes "valid off s" "func off k s = (Moved r, s')" shows "progress off s r s'"
proof -
  have m: "moved (off + r) s' @ rest (off + r) s' = moved off s @ rest off s"
    "length (moved (off + r) s') = length (moved off s) + r" "valid (off + r) s'"
    using moves [OF assms] by simp_all
  have "moved (off + r) s' = take (length (moved off s) + r) (moved (off + r) s' @ rest (off + r) s')"
    "rest (off + r) s' = drop (length (moved off s) + r) (moved (off + r) s' @ rest (off + r) s')" by (simp_all add: m(2))
  then have "moved (off + r) s' = moved off s @ take r (rest off s)" "rest (off + r) s' = drop r (rest off s)"
    unfolding m(1) by simp_all
  moreover from m(1,2) have "r \<le> length (rest off s)" by (metis add_le_cancel_left le_add1 length_append)
  ultimately show ?thesis using m(3) by (simp add: progress_def)
qed

lemma progress_trans: "progress off s n s1 \<Longrightarrow> progress (off + n) s1 k s' \<Longrightarrow> progress off s (n + k) s'"
  by (auto simp: progress_def take_add add.commute [of k n] add.assoc)

lemma loop_ends:
  assumes "ret < nbyte" "valid ret s"
  shows "\<exists>res s'. DO_IO_loop func nbyte ret s = Some (res, s') \<and>
    (\<exists>n. (res = - 1 \<or> res = int (ret + n)) \<and> ret + n \<le> nbyte \<and> progress ret s n s')"
  using assms
proof (induction "left ret s" arbitrary: s ret rule: less_induct)
  case less
  obtain r s1 where step: "func ret (nbyte - ret) s = (r, s1)" by fastforce
  note v = less.prems(2)
  show ?case
  proof (cases r)
    case Broken
    then have "valid ret s1" "moved ret s1 = moved ret s" "rest ret s1 = rest ret s" using broken [OF v] step by blast+
    then show ?thesis using step Broken less.prems
      by (subst DO_IO_loop.simps) (auto simp: progress_def intro: exI [of _ 0])
  next
    case Again
    then have "valid ret s1" "moved ret s1 = moved ret s" "rest ret s1 = rest ret s" "left ret s1 < left ret s"
      using again [OF v] step by blast+
    then show ?thesis
      using less.hyps [of ret s1] less.prems step Again by (subst DO_IO_loop.simps) (simp add: progress_def)
  next
    case (Moved n)
    note m = moves [OF v step [unfolded Moved]] moves_progress [OF v step [unfolded Moved]]
    show ?thesis
    proof (cases "n \<noteq> 0 \<and> ret + n \<noteq> nbyte")
      case True
      then have "left (ret + n) s1 < left ret s" "ret + n < nbyte" "valid (ret + n) s1" using m(1) less.prems by auto
      from less.hyps [OF this] obtain res s' where l: "DO_IO_loop func nbyte (ret + n) s1 = Some (res, s')"
        "\<exists>k. (res = - 1 \<or> res = int (ret + (n + k))) \<and> ret + (n + k) \<le> nbyte \<and> progress (ret + n) s1 k s'"
        by (auto simp: add.assoc)
      then have "\<exists>k. (res = - 1 \<or> res = int (ret + k)) \<and> ret + k \<le> nbyte \<and> progress ret s k s'"
        using progress_trans [OF m(2)] by blast
      then show ?thesis using l(1) step True Moved by (subst DO_IO_loop.simps) simp
    next
      case False
      then show ?thesis using m less.prems step Moved by (subst DO_IO_loop.simps) auto
    qed
  qed
qed

text \<open>The macro always ends, and its result is the number of bytes that were moved, or an error.\<close>

lemma ends:
  assumes "0 < nbyte"
  shows "\<exists>res s'. DO_IO func nbyte s = Some (res, s') \<and> (\<exists>n. (res = - 1 \<or> res = int n) \<and> n \<le> nbyte \<and> progress 0 s n s')"
  using loop_ends [OF assms starts, of s] by (simp add: DO_IO_def)

lemma exact: "0 < nbyte \<Longrightarrow> DO_IO func nbyte s = Some (int n, s') \<Longrightarrow> n \<le> nbyte \<and> progress 0 s n s'"
  using ends [of nbyte s] by auto

end

section \<open>Reading and writing\<close>

fun stream_bytes :: "piece list \<Rightarrow> u8 list" where
  "stream_bytes [] = []"
| "stream_bytes (Bytes bs # ps) = bs @ stream_bytes ps"
| "stream_bytes (_ # ps) = stream_bytes ps"

lemma put_put: "off \<le> length m \<Longrightarrow> put (off + length a) b (put off a m) = put off (a @ b) m"
  by (simp add: put_def min_def add.assoc add.commute [of "length b"])

lemma put_length: "off \<le> length m \<Longrightarrow> off + length a \<le> length (put off a m)"
  by (simp add: put_def)

lemma take_drop_split: "take r (drop off xs) @ drop (off + r) xs = drop off xs"
  by (metis add.commute append_take_drop_id drop_drop)

interpretation reading: io_call read_fd "\<lambda>off s. take off (got s)" "\<lambda>off s. stream_bytes (stream s)"
    "\<lambda>off s. off \<le> length (got s)" "\<lambda>off s. length (stream s)"
  by unfold_locales
    (auto simp: read_fd.simps put_def min_def split: list.splits piece.splits if_splits)

interpretation writing: io_call write_out "\<lambda>off. w_sent" "\<lambda>off s. drop off (w_buf s)"
    "\<lambda>off s. off \<le> length (w_buf s)" "\<lambda>off s. length (accepts s) + (length (w_buf s) - off)"
  by unfold_locales (auto simp: write_out.simps Let_def take_drop_split split: list.splits accept.splits)

text \<open>A descriptor without errors, with no empty piece before its end.\<close>

fun clean :: "piece list \<Rightarrow> bool" where
  "clean [] = True"
| "clean (Bytes bs # ps) = (bs \<noteq> [] \<and> clean ps)"
| "clean (Interrupted # ps) = clean ps"
| "clean (Failing # ps) = False"

lemma read_clean_loop:
  assumes "clean (stream s)" "ret < nbyte" "ret \<le> length (got s)"
  shows "\<exists>ps. DO_IO_loop read_fd nbyte ret s = Some (int (ret + min (nbyte - ret) (length (stream_bytes (stream s)))),
     s\<lparr>got := put ret (take (nbyte - ret) (stream_bytes (stream s))) (got s), stream := ps\<rparr>) \<and>
     clean ps \<and> stream_bytes ps = drop (nbyte - ret) (stream_bytes (stream s))"
  using assms
proof (induction "stream s" arbitrary: s ret)
  case Nil
  then show ?case by (subst DO_IO_loop.simps) (cases s, auto simp: read_fd.simps put_def)
next
  case (Cons p ps)
  show ?case
  proof (cases p)
    case (Bytes bs)
    let ?s = "s\<lparr>got := put ret bs (got s), stream := ps\<rparr>"
    note st = Cons.hyps(2) [symmetric, unfolded Bytes]
    show ?thesis
    proof (cases "length bs < nbyte - ret")
      case True
      then have e: "int ret + int (length bs) + int (min (nbyte - (ret + length bs)) (length (stream_bytes ps)))
          = int ret + int (min (nbyte - ret) (length bs + length (stream_bytes ps)))" by auto
      have "ret + length bs < nbyte" "ret + length bs \<le> length (put ret bs (got s))"
        using True Cons.prems(3) by (simp_all add: put_length)
      then show ?thesis
        using True Cons.hyps(1) [of ?s "ret + length bs"] Cons.prems st
        by (subst DO_IO_loop.simps) (auto simp: read_fd.simps e put_put)
    next
      case False
      then show ?thesis using Cons.prems st by (subst DO_IO_loop.simps) (auto simp: read_fd.simps)
    qed
  next
    case Interrupted
    then show ?thesis
      using Cons.hyps(1) [of "s\<lparr>stream := ps\<rparr>" ret] Cons.hyps(2) [symmetric] Cons.prems
      by (subst DO_IO_loop.simps) (auto simp: read_fd.simps)
  next
    case Failing
    then show ?thesis using Cons.hyps(2) [symmetric] Cons.prems by simp
  qed
qed

text \<open>Writing to a descriptor that accepts everything.\<close>

lemma write_all: "w_buf s \<noteq> [] \<Longrightarrow> accepts s = [] \<Longrightarrow>
  DO_IO write_out (length (w_buf s)) s = Some (int (length (w_buf s)), s\<lparr>w_sent := w_sent s @ w_buf s\<rparr>)"
  by (simp add: DO_IO_def DO_IO_loop.simps write_out.simps Let_def)

lemma read_clean:
  assumes "0 < nbyte" "clean (stream s)"
  shows "\<exists>ps. DO_IO read_fd nbyte s = Some (int (min nbyte (length (stream_bytes (stream s)))),
     s\<lparr>got := take nbyte (stream_bytes (stream s)) @ drop (min nbyte (length (stream_bytes (stream s)))) (got s), stream := ps\<rparr>) \<and>
     clean ps \<and> stream_bytes ps = drop nbyte (stream_bytes (stream s))"
  using read_clean_loop [OF assms(2,1)] by (simp add: DO_IO_def put_def min.commute)

section \<open>Properties\<close>

text \<open>
  C32 \<open>DO_IO(read, ...)\<close> ends for every sequence of results of \<open>read\<close>. On a descriptor without errors, however
  the bytes are cut up and however often a call is interrupted, it stores exactly the first \<open>nbyte\<close> bytes, or
  all of them when there are fewer, at the start of the buffer, leaves the memory behind them alone and leaves
  the other bytes to be read.
\<close>

theorem DO_IO_reads:
  assumes "0 < nbyte"
  shows "DO_IO read_fd nbyte s \<noteq> None \<and>
    (clean (stream s) \<longrightarrow> (\<exists>ps. DO_IO read_fd nbyte s = Some (int (min nbyte (length (stream_bytes (stream s)))),
       s\<lparr>got := take nbyte (stream_bytes (stream s)) @ drop (min nbyte (length (stream_bytes (stream s)))) (got s), stream := ps\<rparr>) \<and>
       clean ps \<and> stream_bytes ps = drop nbyte (stream_bytes (stream s))))"
  using reading.ends [OF assms, of s] read_clean [OF assms, of s] by auto

theorem DO_IO_reads_witness:
  "\<exists>ps. DO_IO read_fd 3 \<lparr>got = [9, 9, 9, 9, 9], stream = [Bytes [1, 2], Interrupted, Bytes [3, 4]]\<rparr> =
     Some (3, \<lparr>got = [1, 2, 3, 9, 9], stream = ps\<rparr>) \<and> stream_bytes ps = [4]"
  using DO_IO_reads [of 3 "\<lparr>got = [9, 9, 9, 9, 9], stream = [Bytes [1, 2], Interrupted, Bytes [3, 4]]\<rparr>"] by auto

text \<open>
  \<open>DO_IO(write, ...)\<close> ends for every sequence of short, interrupted and failing writes. What is then in the
  file are the first bytes of the data, in order, and a result that is not negative is their number.
\<close>

theorem DO_IO_writes:
  assumes "0 < nbyte"
  shows "\<exists>ret s' n. DO_IO write_out nbyte s = Some (ret, s') \<and> (ret = - 1 \<or> ret = int n) \<and> n \<le> nbyte \<and>
    n \<le> length (w_buf s) \<and> w_sent s' = w_sent s @ take n (w_buf s)"
  using writing.ends [OF assms, of s] by (auto simp: writing.progress_def)

theorem DO_IO_writes_witness:
  "\<exists>ret s' n. DO_IO write_out 2 \<lparr>w_sent = [], w_buf = [7, 8], accepts = [Accepts 1, WFailing]\<rparr> = Some (ret, s') \<and>
     (ret = - 1 \<or> ret = int n) \<and> w_sent s' = take n [7, 8]"
  using DO_IO_writes [of 2 "\<lparr>w_sent = [], w_buf = [7, 8], accepts = [Accepts 1, WFailing]\<rparr>"] by auto

end
