(* ===== verification/Sha256.thy ===== *)
theory Sha256
  imports Complex_Main Byte_Words
begin

text \<open>
  The hash functions that the RPMB commands of the \<^verbatim>\<open>mmc\<close> tool use: SHA-256 and HMAC-SHA-256 of
  \<^verbatim>\<open>mmc_utils/3rdparty/hmac_sha\<close> (\<^verbatim>\<open>sha2.c\<close>, \<^verbatim>\<open>hmac_sha2.c\<close>), with the loops that are compiled
  (\<^verbatim>\<open>UNROLL_LOOPS\<close> is not defined), against definitions that follow the standards. The other hash
  functions of the two files are not called.
\<close>

unbundle bit_operations_syntax

section \<open>The code\<close>

type_synonym u32 = "32 word"

definition SHFR :: "u32 \<Rightarrow> nat \<Rightarrow> u32" where "SHFR x n = drop_bit n x"
definition ROTR :: "u32 \<Rightarrow> nat \<Rightarrow> u32" where "ROTR x n = drop_bit n x OR push_bit (32 - n) x"
definition CH :: "u32 \<Rightarrow> u32 \<Rightarrow> u32 \<Rightarrow> u32" where "CH x y z = (x AND y) XOR (NOT x AND z)"
definition MAJ :: "u32 \<Rightarrow> u32 \<Rightarrow> u32 \<Rightarrow> u32" where "MAJ x y z = (x AND y) XOR (x AND z) XOR (y AND z)"

definition SHA256_F1 :: "u32 \<Rightarrow> u32" where "SHA256_F1 x = ROTR x 2 XOR ROTR x 13 XOR ROTR x 22"
definition SHA256_F2 :: "u32 \<Rightarrow> u32" where "SHA256_F2 x = ROTR x 6 XOR ROTR x 11 XOR ROTR x 25"
definition SHA256_F3 :: "u32 \<Rightarrow> u32" where "SHA256_F3 x = ROTR x 7 XOR ROTR x 18 XOR SHFR x 3"
definition SHA256_F4 :: "u32 \<Rightarrow> u32" where "SHA256_F4 x = ROTR x 17 XOR ROTR x 19 XOR SHFR x 10"

definition UNPACK32 :: "u32 \<Rightarrow> u8 list" where
  "UNPACK32 x = [ucast (drop_bit 24 x), ucast (drop_bit 16 x), ucast (drop_bit 8 x), ucast x]"

definition PACK32 :: "u8 list \<Rightarrow> u32" where
  "PACK32 str = ucast (str ! 3) OR push_bit 8 (ucast (str ! 2)) OR push_bit 16 (ucast (str ! 1))
     OR push_bit 24 (ucast (str ! 0))"

definition SHA256_SCR :: "nat \<Rightarrow> u32 list \<Rightarrow> u32" where
  "SHA256_SCR i w = SHA256_F4 (w ! (i - 2)) + w ! (i - 7) + SHA256_F3 (w ! (i - 15)) + w ! (i - 16)"

definition sha256_h0 :: "u32 list" where
  "sha256_h0 = [
     0x6a09e667, 0xbb67ae85, 0x3c6ef372, 0xa54ff53a, 0x510e527f, 0x9b05688c, 0x1f83d9ab, 0x5be0cd19]"

definition sha256_k :: "u32 list" where
  "sha256_k = concat [
     [0x428a2f98, 0x71374491, 0xb5c0fbcf, 0xe9b5dba5], [0x3956c25b, 0x59f111f1, 0x923f82a4, 0xab1c5ed5],
     [0xd807aa98, 0x12835b01, 0x243185be, 0x550c7dc3], [0x72be5d74, 0x80deb1fe, 0x9bdc06a7, 0xc19bf174],
     [0xe49b69c1, 0xefbe4786, 0x0fc19dc6, 0x240ca1cc], [0x2de92c6f, 0x4a7484aa, 0x5cb0a9dc, 0x76f988da],
     [0x983e5152, 0xa831c66d, 0xb00327c8, 0xbf597fc7], [0xc6e00bf3, 0xd5a79147, 0x06ca6351, 0x14292967],
     [0x27b70a85, 0x2e1b2138, 0x4d2c6dfc, 0x53380d13], [0x650a7354, 0x766a0abb, 0x81c2c92e, 0x92722c85],
     [0xa2bfe8a1, 0xa81a664b, 0xc24b8b70, 0xc76c51a3], [0xd192e819, 0xd6990624, 0xf40e3585, 0x106aa070],
     [0x19a4c116, 0x1e376c08, 0x2748774c, 0x34b0bcb5], [0x391c0cb3, 0x4ed8aa4a, 0x5b9cca4f, 0x682e6ff3],
     [0x748f82ee, 0x78a5636f, 0x84c87814, 0x8cc70208], [0x90befffa, 0xa4506ceb, 0xbef9a3f7, 0xc67178f2]]"

definition SHA256_BLOCK_SIZE :: nat where "SHA256_BLOCK_SIZE = 512 div 8"
definition SHA256_DIGEST_SIZE :: nat where "SHA256_DIGEST_SIZE = 256 div 8"

record sha256_ctx =
  sha_tot_len :: u32
  sha_len :: u32
  sha_block :: "u8 list"    \<comment> \<open>two blocks\<close>
  sha_h :: "u32 list"

text \<open>The array \<open>w\<close> of a block, filled up to 64 words.\<close>

definition sha256_w :: "u8 list \<Rightarrow> u32 list" where
  "sha256_w sub_block = fold (\<lambda>j w. w @ [SHA256_SCR j w]) [16..<64]
     (map (\<lambda>j. PACK32 (drop (4 * j) sub_block)) [0..<16])"

definition sha256_round :: "u32 list \<Rightarrow> nat \<Rightarrow> u32 list \<Rightarrow> u32 list" where
  "sha256_round w j wv =
     (let t1 = wv ! 7 + SHA256_F2 (wv ! 4) + CH (wv ! 4) (wv ! 5) (wv ! 6) + sha256_k ! j + w ! j;
          t2 = SHA256_F1 (wv ! 0) + MAJ (wv ! 0) (wv ! 1) (wv ! 2)
      in [t1 + t2, wv ! 0, wv ! 1, wv ! 2, wv ! 3 + t1, wv ! 4, wv ! 5, wv ! 6])"

definition sha256_block :: "u8 list \<Rightarrow> u32 list \<Rightarrow> u32 list" where
  "sha256_block sub_block h = map2 (+) h (fold (sha256_round (sha256_w sub_block)) [0..<64] h)"

definition sha256_transf :: "u8 list \<Rightarrow> nat \<Rightarrow> sha256_ctx \<Rightarrow> sha256_ctx" where
  "sha256_transf message block_nb ctx =
     ctx\<lparr>sha_h := fold (\<lambda>i. sha256_block (take 64 (drop (64 * i) message))) [0..<block_nb] (sha_h ctx)\<rparr>"

text \<open>The block of a context on the stack is not cleared.\<close>

definition sha256_init :: "u8 list \<Rightarrow> sha256_ctx" where
  "sha256_init old = \<lparr>sha_tot_len = 0, sha_len = 0, sha_block = old, sha_h = sha256_h0\<rparr>"

definition sha256_update :: "u8 list \<Rightarrow> sha256_ctx \<Rightarrow> sha256_ctx" where
  "sha256_update message ctx =
     (let len = of_nat (length message) :: u32;
          tmp_len = of_nat SHA256_BLOCK_SIZE - sha_len ctx;
          rem_len = (if len < tmp_len then len else tmp_len);
          ctx = ctx\<lparr>sha_block := memcpy_at (sha_block ctx) (unat (sha_len ctx)) (take (unat rem_len) message)\<rparr>
      in if sha_len ctx + len < of_nat SHA256_BLOCK_SIZE then ctx\<lparr>sha_len := sha_len ctx + len\<rparr>
      else
        let new_len = len - rem_len;
            block_nb = new_len div of_nat SHA256_BLOCK_SIZE;
            shifted_message = drop (unat rem_len) message;
            ctx = sha256_transf (sha_block ctx) 1 ctx;
            ctx = sha256_transf shifted_message (unat block_nb) ctx;
            rem_len = new_len mod of_nat SHA256_BLOCK_SIZE
        in ctx\<lparr>sha_block := memcpy_at (sha_block ctx) 0
                 (take (unat rem_len) (drop (unat (push_bit 6 block_nb)) shifted_message)),
               sha_len := rem_len,
               sha_tot_len := sha_tot_len ctx + push_bit 6 (block_nb + 1)\<rparr>)"

definition sha256_final :: "sha256_ctx \<Rightarrow> u8 list" where
  "sha256_final ctx =
     (let block_nb = 1 + (if SHA256_BLOCK_SIZE - 9 < unat (sha_len ctx) mod SHA256_BLOCK_SIZE then 1 else 0);
          len_b = push_bit 3 (sha_tot_len ctx + sha_len ctx);
          pm_len = 64 * block_nb;
          n = unat (sha_len ctx);
          block = memcpy_at (sha_block ctx) n (replicate (pm_len - n) 0);
          block = block[n := 0x80];
          block = memcpy_at block (pm_len - 4) (UNPACK32 len_b);
          ctx = sha256_transf block block_nb (ctx\<lparr>sha_block := block\<rparr>)
      in concat (map UNPACK32 (sha_h ctx)))"

definition sha256 :: "u8 list \<Rightarrow> u8 list \<Rightarrow> u8 list" where
  "sha256 old message = sha256_final (sha256_update message (sha256_init old))"

section \<open>HMAC\<close>

record hmac_sha256_ctx =
  ctx_inside :: sha256_ctx
  ctx_outside :: sha256_ctx
  ctx_inside_reinit :: sha256_ctx
  ctx_outside_reinit :: sha256_ctx
  block_ipad :: "u8 list"
  block_opad :: "u8 list"

text \<open>\<open>ctx\<close> is what the memory of the context held before.\<close>

definition hmac_sha256_init :: "u8 list \<Rightarrow> hmac_sha256_ctx \<Rightarrow> hmac_sha256_ctx" where
  "hmac_sha256_init key ctx =
     (let key_size = length key;
          (key_used, num, ctx) =
            (if key_size = SHA256_BLOCK_SIZE then (key, SHA256_BLOCK_SIZE, ctx)
             else let (num, key_used) =
                 (if key_size > SHA256_BLOCK_SIZE
                  then (SHA256_DIGEST_SIZE, sha256 (sha_block (ctx_inside ctx)) key)
                  else (key_size, key));
                 fill = SHA256_BLOCK_SIZE - num
               in (key_used, num, ctx\<lparr>block_ipad := memcpy_at (block_ipad ctx) num (replicate fill 0x36),
                                      block_opad := memcpy_at (block_opad ctx) num (replicate fill 0x5c)\<rparr>));
          ctx = ctx\<lparr>block_ipad := memcpy_at (block_ipad ctx) 0 (map (\<lambda>b. b XOR 0x36) (take num key_used)),
                    block_opad := memcpy_at (block_opad ctx) 0 (map (\<lambda>b. b XOR 0x5c) (take num key_used))\<rparr>;
          ctx = ctx\<lparr>ctx_inside := sha256_update (take SHA256_BLOCK_SIZE (block_ipad ctx))
                      (sha256_init (sha_block (ctx_inside ctx)))\<rparr>;
          ctx = ctx\<lparr>ctx_outside := sha256_update (take SHA256_BLOCK_SIZE (block_opad ctx))
                      (sha256_init (sha_block (ctx_outside ctx)))\<rparr>
      in ctx\<lparr>ctx_inside_reinit := ctx_inside ctx, ctx_outside_reinit := ctx_outside ctx\<rparr>)"

definition hmac_sha256_reinit :: "hmac_sha256_ctx \<Rightarrow> hmac_sha256_ctx" where
  "hmac_sha256_reinit ctx = ctx\<lparr>ctx_inside := ctx_inside_reinit ctx, ctx_outside := ctx_outside_reinit ctx\<rparr>"

definition hmac_sha256_update :: "u8 list \<Rightarrow> hmac_sha256_ctx \<Rightarrow> hmac_sha256_ctx" where
  "hmac_sha256_update message ctx = ctx\<lparr>ctx_inside := sha256_update message (ctx_inside ctx)\<rparr>"

definition hmac_sha256_final :: "nat \<Rightarrow> hmac_sha256_ctx \<Rightarrow> u8 list" where
  "hmac_sha256_final mac_size ctx =
     (let digest_inside = sha256_final (ctx_inside ctx);
          ctx_outside = sha256_update digest_inside (ctx_outside ctx)
      in take mac_size (sha256_final ctx_outside))"

definition hmac_sha256 :: "hmac_sha256_ctx \<Rightarrow> u8 list \<Rightarrow> u8 list \<Rightarrow> nat \<Rightarrow> u8 list" where
  "hmac_sha256 ctx key message mac_size =
     hmac_sha256_final mac_size (hmac_sha256_update message (hmac_sha256_init key ctx))"

section \<open>The standards\<close>

text \<open>
  FIPS 180-4: rotations, the message schedule by recursion, the compression of a block on eight working
  variables, the padding with the length as 64 bits.
\<close>

definition Sigma0 :: "u32 \<Rightarrow> u32" where "Sigma0 x = word_rotr 2 x XOR word_rotr 13 x XOR word_rotr 22 x"
definition Sigma1 :: "u32 \<Rightarrow> u32" where "Sigma1 x = word_rotr 6 x XOR word_rotr 11 x XOR word_rotr 25 x"
definition sigma0 :: "u32 \<Rightarrow> u32" where "sigma0 x = word_rotr 7 x XOR word_rotr 18 x XOR drop_bit 3 x"
definition sigma1 :: "u32 \<Rightarrow> u32" where "sigma1 x = word_rotr 17 x XOR word_rotr 19 x XOR drop_bit 10 x"

definition be_word :: "u8 list \<Rightarrow> u32" where
  "be_word bs = of_nat (foldl (\<lambda>n b. 256 * n + unat b) 0 bs)"

fun schedule :: "u8 list \<Rightarrow> nat \<Rightarrow> u32" where
  "schedule M t = (if t < 16 then be_word (take 4 (drop (4 * t) M))
     else sigma1 (schedule M (t - 2)) + schedule M (t - 7) + sigma0 (schedule M (t - 15)) + schedule M (t - 16))"

declare schedule.simps [simp del]

type_synonym state8 = "u32 \<times> u32 \<times> u32 \<times> u32 \<times> u32 \<times> u32 \<times> u32 \<times> u32"

definition first_primes :: "int list" where
  "first_primes = [2, 3, 5, 7, 11, 13, 17, 19, 23, 29, 31, 37, 41, 43, 47, 53, 59, 61, 67, 71, 73, 79, 83, 89, 97, 101, 103,
     107, 109, 113, 127, 131, 137, 139, 149, 151, 157, 163, 167, 173, 179, 181, 191, 193, 197, 199, 211, 223, 227, 229,
     233, 239, 241, 251, 257, 263, 269, 271, 277, 281, 283, 293, 307, 311]"

definition K256 :: "u32 list" where
  "K256 = map (\<lambda>p. word_of_int \<lfloor>2 ^ 32 * root 3 (of_int p)\<rfloor>) first_primes"

definition step8 :: "u8 list \<Rightarrow> nat \<Rightarrow> state8 \<Rightarrow> state8" where
  "step8 M t = (\<lambda>(a, b, c, d, e, f, g, h).
     let T1 = h + Sigma1 e + ((e AND f) XOR (NOT e AND g)) + K256 ! t + schedule M t;
         T2 = Sigma0 a + ((a AND b) XOR (a AND c) XOR (b AND c))
     in (T1 + T2, a, b, c, d + T1, e, f, g))"

fun list8 :: "state8 \<Rightarrow> u32 list" where
  "list8 (a, b, c, d, e, f, g, h) = [a, b, c, d, e, f, g, h]"

definition compress :: "state8 \<Rightarrow> u8 list \<Rightarrow> state8" where
  "compress H M = (case (H, fold (step8 M) [0..<64] H) of
     ((a, b, c, d, e, f, g, h), (a', b', c', d', e', f', g', h')) \<Rightarrow>
       (a + a', b + b', c + c', d + d', e + e', f + f', g + g', h + h'))"

definition be_bytes :: "nat \<Rightarrow> nat \<Rightarrow> u8 list" where
  "be_bytes k n = map (\<lambda>i. of_nat (n div 256 ^ i)) (rev [0..<k])"

definition padded :: "u8 list \<Rightarrow> u8 list" where
  "padded M = M @ [0x80] @ replicate ((119 - length M mod 64) mod 64) 0 @ be_bytes 8 (8 * length M)"

definition chunks :: "u8 list \<Rightarrow> u8 list list" where
  "chunks M = map (\<lambda>i. take 64 (drop (64 * i) M)) [0..<length M div 64]"

definition H0 :: state8 where
  "H0 = (0x6a09e667, 0xbb67ae85, 0x3c6ef372, 0xa54ff53a, 0x510e527f, 0x9b05688c, 0x1f83d9ab, 0x5be0cd19)"

definition sha256_spec :: "u8 list \<Rightarrow> u8 list" where
  "sha256_spec M = concat (map (\<lambda>x. be_bytes 4 (unat x)) (list8 (foldl compress H0 (chunks (padded M)))))"

text \<open>RFC 2104 with blocks of 64 bytes.\<close>

definition hmac_key :: "u8 list \<Rightarrow> u8 list" where
  "hmac_key K = (let K = (if length K > 64 then sha256_spec K else K) in K @ replicate (64 - length K) 0)"

definition hmac_spec :: "u8 list \<Rightarrow> u8 list \<Rightarrow> u8 list" where
  "hmac_spec K text =
     sha256_spec (map (\<lambda>b. b XOR 0x5c) (hmac_key K) @ sha256_spec (map (\<lambda>b. b XOR 0x36) (hmac_key K) @ text))"

section \<open>The compression function\<close>

lemma ROTR_eq:
  assumes "n < 32" shows "ROTR x n = word_rotr n x"
proof (rule bit_word_eqI)
  fix i assume "i < LENGTH(32)"
  then have i: "i < 32" by simp
  show "bit (ROTR x n) i = bit (word_rotr n x) i"
  proof (cases "i + n < 32")
    case True
    with i show ?thesis by (auto simp: ROTR_def bit_simps add.commute)
  next
    case False
    then have "(i + n) mod 32 = i - (32 - n)" using i assms by (simp add: mod_if)
    with i False assms show ?thesis by (auto simp: ROTR_def bit_simps dest: bit_imp_le_length)
  qed
qed

lemma sigmas: "SHA256_F1 = Sigma0" "SHA256_F2 = Sigma1" "SHA256_F3 = sigma0" "SHA256_F4 = sigma1"
  by (simp_all add: fun_eq_iff SHA256_F1_def SHA256_F2_def SHA256_F3_def SHA256_F4_def Sigma0_def Sigma1_def
      sigma0_def sigma1_def SHFR_def ROTR_eq)

lemma take4: "4 \<le> length xs \<Longrightarrow> take 4 xs = [xs ! 0, xs ! 1, xs ! 2, xs ! 3]"
  by (rule nth_equalityI) (auto simp: less_Suc_eq numeral_eq_Suc)

lemma PACK32_eq: "4 \<le> length bs \<Longrightarrow> PACK32 bs = be_word (take 4 bs)"
proof -
  assume "4 \<le> length bs"
  let ?w = "push_bit 24 (ucast (bs ! 0)) OR push_bit 16 (ucast (bs ! 1)) OR push_bit 8 (ucast (bs ! 2)) OR ucast (bs ! 3) :: u32"
  have "PACK32 bs = ?w" by (simp add: PACK32_def ac_simps)
  also have "\<dots> = of_nat (unat ?w)" by simp
  also have "\<dots> = be_word (take 4 bs)" unfolding unat_bytes4 using \<open>4 \<le> length bs\<close>
    by (simp add: be_word_def take4 algebra_simps)
  finally show ?thesis .
qed

lemma schedule_eq:
  assumes "length M = 64"
  shows "sha256_w M = map (schedule M) [0..<64]"
proof -
  have base: "map (\<lambda>j. PACK32 (drop (4 * j) M)) [0..<16] = map (schedule M) [0..<16]"
    using assms by (simp add: PACK32_eq schedule.simps)
  have loop: "fold (\<lambda>j w. w @ [SHA256_SCR j w]) [16..<n] (map (schedule M) [0..<16]) = map (schedule M) [0..<n]" if "16 \<le> n" for n
    using that
  proof (induction n rule: dec_induct)
    case (step n)
    have "SHA256_SCR n (map (schedule M) [0..<n]) = schedule M n"
      using step(1) by (subst schedule.simps) (simp add: SHA256_SCR_def sigmas)
    with step show ?case by simp
  qed simp
  show ?thesis unfolding sha256_w_def base by (rule loop) simp
qed

text \<open>The table of the code holds the constants of the standard: each is cut out of the cube root of a prime.\<close>

definition k_digits :: "int \<Rightarrow> u32 \<Rightarrow> bool" where
  "k_digits p k \<longleftrightarrow> (let v = (if p < 8 then 1 else if p < 27 then 2 else if p < 64 then 3 else if p < 125 then 4
      else if p < 216 then 5 else 6) * 2 ^ 32 + uint k in v ^ 3 \<le> p * 2 ^ 96 \<and> p * 2 ^ 96 < (v + 1) ^ 3)"

lemma floor_cube_root:
  assumes "0 \<le> v" "v ^ 3 \<le> p * 2 ^ 96" "p * 2 ^ 96 < (v + 1) ^ 3"
  shows "\<lfloor>2 ^ 32 * root 3 (of_int p)\<rfloor> = v"
proof (rule floor_unique)
  have r: "(2 ^ 32 * root 3 (of_int p)) ^ 3 = of_int (p * 2 ^ 96)"
    by (simp add: power_mult_distrib odd_real_root_pow flip: power_mult)
  have "0 \<le> p * 2 ^ 96" using order.trans [OF zero_le_power [OF assms(1)] assms(2)] .
  then have "0 \<le> p" by simp
  then have nn: "0 \<le> 2 ^ 32 * root 3 (of_int p :: real)" by simp
  have "(of_int v :: real) ^ 3 \<le> (2 ^ 32 * root 3 (of_int p)) ^ 3"
    using assms(2) unfolding r of_int_power [symmetric] of_int_le_iff .
  then show "of_int v \<le> 2 ^ 32 * root 3 (of_int p :: real)" using nn by (rule power_le_imp_le_base [of _ 2, simplified])
  have "(2 ^ 32 * root 3 (of_int p)) ^ 3 < (of_int (v + 1) :: real) ^ 3"
    using assms(3) unfolding r of_int_power [symmetric] of_int_less_iff .
  then show "2 ^ 32 * root 3 (of_int p :: real) < of_int v + 1"
    using assms(1) power_less_imp_less_base [of _ 3 "of_int (v + 1) :: real"] by simp
qed

lemma k_digits_root:
  assumes "k_digits p k"
  shows "word_of_int \<lfloor>2 ^ 32 * root 3 (of_int p)\<rfloor> = k"
proof -
  define c :: int where "c = (if p < 8 then 1 else if p < 27 then 2 else if p < 64 then 3 else if p < 125 then 4
      else if p < 216 then 5 else 6)"
  have "(c * 2 ^ 32 + uint k) ^ 3 \<le> p * 2 ^ 96" "p * 2 ^ 96 < (c * 2 ^ 32 + uint k + 1) ^ 3"
    using assms by (simp_all add: k_digits_def Let_def c_def del: power_numeral)
  moreover have "0 \<le> c" by (simp add: c_def)
  then have "0 \<le> c * 2 ^ 32 + uint k" by simp
  ultimately have "\<lfloor>2 ^ 32 * root 3 (of_int p)\<rfloor> = c * 2 ^ 32 + uint k" by (intro floor_cube_root)
  moreover have "(word_of_int (c * 2 ^ 32 + uint k) :: u32) = k"
  proof -
    have "(c * 2 ^ 32 + uint k) mod 2 ^ 32 = uint k" unfolding mod_mult_self3 using uint_lt2p [of k] by (simp add: mod_pos_pos_trivial)
    then show ?thesis unfolding word_uint_eq_iff uint_word_of_int by simp
  qed
  ultimately show ?thesis by simp
qed

lemma sha256_k_fips: "sha256_k = K256"
proof -
  have "list_all2 k_digits first_primes sha256_k" by (simp add: first_primes_def sha256_k_def k_digits_def)
  then have "list_all2 (\<lambda>p k. word_of_int \<lfloor>2 ^ 32 * root 3 (of_int p)\<rfloor> = k) first_primes sha256_k"
    by (rule list_all2_mono) (rule k_digits_root)
  then show ?thesis unfolding K256_def by (simp add: list_all2_conv_all_nth list_eq_iff_nth_eq)
qed

lemma round_eq: "length M = 64 \<Longrightarrow> t < 64 \<Longrightarrow> sha256_round (sha256_w M) t (list8 s) = list8 (step8 M t s)"
  by (cases s rule: list8.cases) (simp add: sha256_round_def step8_def schedule_eq Let_def sigmas CH_def MAJ_def sha256_k_fips)

lemma block_eq: "length M = 64 \<Longrightarrow> sha256_block M (list8 H) = list8 (compress H M)"
proof -
  assume M: "length M = 64"
  have "fold (sha256_round (sha256_w M)) [0..<n] (list8 s) = list8 (fold (step8 M) [0..<n] s)" if "n \<le> 64" for n s
    using that by (induction n) (simp_all add: round_eq [OF M])
  from this [of 64 H] show ?thesis
    by (cases H rule: list8.cases; cases "fold (step8 M) [0..<64] H" rule: list8.cases) (simp add: sha256_block_def compress_def)
qed


section \<open>Messages in pieces\<close>

lemma chunks_append:
  assumes "length a = 64 * k" shows "chunks (a @ b) = chunks a @ chunks b"
proof -
  have "[0..<k + length b div 64] = [0..<k] @ map (\<lambda>i. i + k) [0..<length b div 64]"
    using upt_add_eq_append [of 0 k "length b div 64"] map_add_upt [of k "length b div 64"] by (simp add: add.commute)
  then show ?thesis
    using assms by (auto simp: chunks_def algebra_simps)
qed

lemma chunks_one: "length a = 64 \<Longrightarrow> chunks a = [a]"
  by (simp add: chunks_def)

lemma chunks_short: "chunks m = chunks (take (64 * (length m div 64)) m)"
  by (auto simp: chunks_def min_def take_drop)

lemma transf_h:
  assumes "sha_h c = list8 H" "64 * n \<le> length M"
  shows "sha_h (sha256_transf M n c) = list8 (foldl compress H (chunks (take (64 * n) M)))"
  using assms(2)
proof (induction n)
  case 0
  then show ?case using assms(1) by (simp add: sha256_transf_def chunks_def)
next
  case (Suc n)
  let ?b = "take 64 (drop (64 * n) M)"
  have "take (64 * Suc n) M = take (64 * n) M @ ?b" using take_add [of "64 * n" 64 M] by (simp add: add.commute)
  moreover have "length ?b = 64" "length (take (64 * n) M) = 64 * n" using Suc.prems by simp_all
  ultimately have "chunks (take (64 * Suc n) M) = chunks (take (64 * n) M) @ [?b]"
    by (simp add: chunks_append chunks_one)
  then show ?case using Suc \<open>length ?b = 64\<close> by (simp add: sha256_transf_def block_eq)
qed

lemma transf_frame [simp]:
  "sha_block (sha256_transf M n c) = sha_block c" "sha_len (sha256_transf M n c) = sha_len c"
  "sha_tot_len (sha256_transf M n c) = sha_tot_len c"
  by (simp_all add: sha256_transf_def)

lemma shift6: "unat (push_bit 6 w) = 64 * unat w mod 2 ^ 32" for w :: u32
  by (simp add: push_bit_eq_mult unat_word_ariths mult.commute)

lemma shift6_succ: "push_bit 6 (w + 1) = of_nat (64 * (unat w + 1))" for w :: u32
  by (simp add: push_bit_eq_mult mult.commute)

lemma unat_mod64: "unat (of_nat (k mod 64) :: u32) = k mod 64"
proof -
  have "k mod 64 < 2 ^ 32" by (rule less_trans [of _ 64]) simp_all
  then show ?thesis by (simp add: unat_of_nat)
qed

text \<open>\<open>sha256_update\<close> in natural numbers: no operation wraps.\<close>

lemma update_nat:
  assumes "r = unat (sha_len c)" "r < 64" "length x + 64 < 2 ^ 32"
  shows "sha256_update x c =
    (if r + length x < 64
     then c\<lparr>sha_block := memcpy_at (sha_block c) r x, sha_len := of_nat (r + length x)\<rparr>
     else let y = drop (64 - r) x; n = length y div 64;
              b = memcpy_at (sha_block c) r (take (64 - r) x);
              c = sha256_transf y n (sha256_transf b 1 (c\<lparr>sha_block := b\<rparr>))
          in c\<lparr>sha_block := memcpy_at b 0 (drop (64 * n) y), sha_len := of_nat (length y mod 64),
               sha_tot_len := sha_tot_len c + of_nat (64 * (n + 1))\<rparr>)"
proof -
  let ?len = "of_nat (length x) :: u32" and ?tmp = "64 - sha_len c"
  have len: "unat ?len = length x" using assms(3) by (simp add: unat_of_nat)
  have "sha_len c \<le> 64" using assms(1,2) by (simp add: word_le_nat_alt)
  then have tmp: "unat ?tmp = 64 - r" using assms(1) by (simp add: unat_sub)
  have add: "unat (sha_len c + ?len) = r + length x"
    using assms by (simp add: unat_word_ariths len)
  have lt: "?len < ?tmp \<longleftrightarrow> r + length x < 64" "sha_len c + ?len < 64 \<longleftrightarrow> r + length x < 64"
    using assms(2) by (auto simp: word_less_nat_alt len tmp add)
  show ?thesis
  proof (cases "r + length x < 64")
    case True
    then show ?thesis using lt by (simp add: sha256_update_def SHA256_BLOCK_SIZE_def Let_def len assms(1))
  next
    case False
    let ?y = "drop (64 - r) x"
    let ?n = "length ?y div 64"
    have "?tmp \<le> ?len" using lt(1) False by simp
    then have new: "unat (?len - ?tmp) = length ?y" by (simp add: unat_sub len tmp)
    have nb: "unat ((?len - ?tmp) div 64) = ?n" by (simp add: unat_div_distrib new)
    have "64 * ?n \<le> length x" by simp
    then have "64 * ?n < 2 ^ 32" using assms(3) by linarith
    then have sh: "unat (push_bit 6 ((?len - ?tmp) div 64)) = 64 * ?n"
      unfolding shift6 nb by simp
    have mod: "(?len - ?tmp) mod 64 = of_nat (length ?y mod 64)" "unat ((?len - ?tmp) mod 64) = length ?y mod 64"
      by (simp_all add: word_unat_eq_iff unat_mod_distrib new unat_of_nat)
    have blk: "push_bit 6 ((?len - ?tmp) div 64 + 1) = (of_nat (64 * (?n + 1)) :: u32)"
      unfolding shift6_succ nb ..
    have "length x - (64 * ?n + (64 - r)) \<le> length ?y mod 64" by (simp add: minus_mult_div_eq_mod [symmetric] add.commute)
    then show ?thesis
      using False lt by (simp add: sha256_update_def SHA256_BLOCK_SIZE_def Let_def len tmp nb sh mod blk unat_mod64 assms(1))
  qed
qed


lemma drop_past: "length a = k \<Longrightarrow> drop (k + j) (a @ y) = drop j y"
  by auto

text \<open>The context after a message has been taken in.\<close>

definition absorbed :: "u8 list \<Rightarrow> sha256_ctx \<Rightarrow> bool" where
  "absorbed m c \<longleftrightarrow> length (sha_block c) = 128 \<and> unat (sha_len c) = length m mod 64 \<and>
     sha_tot_len c = of_nat (64 * (length m div 64)) \<and>
     take (length m mod 64) (sha_block c) = drop (64 * (length m div 64)) m \<and>
     sha_h c = list8 (foldl compress H0 (chunks m))"

lemma absorbed_init: "length old = 128 \<Longrightarrow> absorbed [] (sha256_init old)"
  by (simp add: absorbed_def sha256_init_def chunks_def sha256_h0_def H0_def)

lemma absorbedD:
  assumes "absorbed m c" "length m = 64 * q + r" "r < 64"
  shows "length (sha_block c) = 128" "unat (sha_len c) = r" "sha_tot_len c = of_nat (64 * q)"
    "take r (sha_block c) = drop (64 * q) m" "sha_h c = list8 (foldl compress H0 (chunks m))"
    "chunks m = chunks (take (64 * q) m)"
  using assms chunks_short [of m] by (simp_all add: absorbed_def)

text \<open>Bytes that do not fill the block, and bytes that do.\<close>

lemma absorbed_update_short:
  assumes "absorbed m c" "length x + 64 < 2 ^ 32" "length m = 64 * q + r" "r + length x < 64"
  shows "absorbed (m @ x) (sha256_update x c)"
proof -
  have r: "r < 64" using assms(4) by simp
  note c = absorbedD [OF assms(1,3) r]
  have d: "length (m @ x) div 64 = q" "length (m @ x) mod 64 = r + length x"
    using assms(3,4) by (simp_all add: add.assoc)
  then have "chunks (m @ x) = chunks m"
    using chunks_short [of "m @ x"] c(6) assms(3) by simp
  moreover have "unat (of_nat (r + length x) :: u32) = r + length x"
    using assms(4) by (simp add: unat_of_nat del: of_nat_add)
  ultimately show ?thesis
    using d c take_memcpy [of r "sha_block c" x] assms(3,4)
    by (simp add: update_nat [OF c(2) [symmetric] r assms(2)] absorbed_def)
qed

lemma absorbed_update_blocks:
  assumes "absorbed m c" "length x + 64 < 2 ^ 32" "length m = 64 * q + r" "r < 64" "64 \<le> r + length x"
  shows "absorbed (m @ x) (sha256_update x c)"
proof -
  note c = absorbedD [OF assms(1,3,4)]
  define y n b where "y = drop (64 - r) x" and "n = length y div 64"
    and "b = memcpy_at (sha_block c) r (take (64 - r) x)"
  let ?one = "drop (64 * q) m @ take (64 - r) x"
  have mx: "m @ x = (take (64 * q) m @ ?one) @ y" by (simp add: y_def)
  have l1: "length ?one = 64" "length (take (64 * q) m) = 64 * q" using assms(3-5) by simp_all
  have l2: "length (take (64 * q) m @ ?one) = 64 * (q + 1)" using l1 by simp
  have chunks: "chunks (m @ x) = (chunks m @ [?one]) @ chunks y"
    unfolding mx chunks_append [OF l2] chunks_append [OF l1(2)] chunks_one [OF l1(1)] c(6) ..
  have lmx: "length (m @ x) = 64 * (q + 1) + length y" using assms(3-5) by (simp add: y_def)
  have dm: "length (m @ x) div 64 = q + 1 + n" "length (m @ x) mod 64 = length y mod 64"
    unfolding lmx n_def by (simp_all only: div_mult_self4 mod_mult_self4)
  have b: "length b = 128" "take 64 b = ?one"
    using take_memcpy [of r "sha_block c" "take (64 - r) x"] c(1,4) assms(3-5) by (simp_all add: b_def)
  have yn: "length (drop (64 * n) y) = length y mod 64" by (simp add: n_def minus_mult_div_eq_mod)
  have "64 * (q + 1 + n) = 64 * (q + 1) + 64 * n" by simp
  then have "drop (64 * (q + 1 + n)) (m @ x) = drop (64 * n) y"
    unfolding mx by (simp only: drop_past [OF l2])
  moreover have "take (length y mod 64) (memcpy_at b 0 (drop (64 * n) y)) = drop (64 * n) y"
    using yn take_memcpy [of 0 b "drop (64 * n) y"] by simp
  moreover define c1 where "c1 = sha256_transf b 1 (c\<lparr>sha_block := b\<rparr>)"
  have "sha_h c1 = list8 (foldl compress H0 (chunks m @ [?one]))"
    unfolding c1_def using transf_h [of "c\<lparr>sha_block := b\<rparr>" _ 1 b] b c(5) l1 by (simp add: chunks_one)
  then have "sha_h (sha256_transf y n c1) = list8 (foldl compress H0 (chunks (m @ x)))"
    using transf_h [of c1 _ n y] chunks_short [of y] by (simp add: chunks n_def)
  moreover have "sha256_update x c = (sha256_transf y n c1)\<lparr>sha_block := memcpy_at b 0 (drop (64 * n) y),
      sha_len := of_nat (length y mod 64), sha_tot_len := sha_tot_len c + of_nat (64 * (n + 1))\<rparr>"
    unfolding update_nat [OF c(2) [symmetric] assms(4,2)] using assms(5)
    by (simp add: Let_def y_def n_def b_def c1_def)
  moreover have "length y mod 64 \<le> 128" by (rule order_trans [of _ 64]) simp_all
  ultimately show ?thesis
    unfolding absorbed_def dm using b c(3) yn by (simp add: unat_mod64 algebra_simps)
qed

lemma absorbed_update:
  assumes "absorbed m c" "length x + 64 < 2 ^ 32"
  shows "absorbed (m @ x) (sha256_update x c)"
proof -
  have L: "length m = 64 * (length m div 64) + length m mod 64" "length m mod 64 < 64" by simp_all
  show ?thesis
    using absorbed_update_short [OF assms L(1)] absorbed_update_blocks [OF assms L] by (cases "length m mod 64 + length x < 64") auto
qed

lemma UNPACK32_eq: "UNPACK32 x = be_bytes 4 (unat x)"
proof -
  have "ucast (drop_bit n x) = (of_nat (unat x div 2 ^ n) :: u8)" for n
    by (simp add: word_unat_eq_iff unat_low_byte unat_shift unat_of_nat)
  from this [of 24] this [of 16] this [of 8] this [of 0] show ?thesis
    by (simp add: UNPACK32_def be_bytes_def upt_rec)
qed

lemma be_bytes_8: "n < 2 ^ 32 \<Longrightarrow> be_bytes 8 n = replicate 4 0 @ be_bytes 4 n"
proof -
  assume "n < 2 ^ 32"
  then have "n div 256 ^ 4 = 0" "n div 256 ^ 5 = 0" "n div 256 ^ 6 = 0" "n div 256 ^ 7 = 0" by simp_all
  moreover have "replicate 4 0 = [0, 0, 0, 0 :: u8]" by (simp add: numeral_eq_Suc)
  ultimately have "map (\<lambda>i. of_nat (n div 256 ^ i)) (rev [4, 5, 6, 7]) = (replicate 4 0 :: u8 list)" by simp
  moreover have "[0..<8] = [0..<4] @ [4, 5, 6, 7]" by (simp add: upt_rec)
  ultimately show ?thesis unfolding be_bytes_def by (simp only: rev_append map_append)
qed

text \<open>The padding that \<open>sha256_final\<close> builds in the block.\<close>

lemma final_block:
  fixes b :: "u8 list"
  assumes "length b = 128" "r + k + 5 \<le> 128" "length t = 4"
  shows "take (r + k + 5) (memcpy_at ((memcpy_at b r (replicate (k + 5) 0))[r := v]) (r + k + 1) t)
    = take r b @ v # replicate k 0 @ t"
proof -
  have "replicate (k + 5) 0 = (0 :: u8) # replicate k 0 @ replicate 4 0"
    by (simp add: replicate_add [symmetric] numeral_eq_Suc replicate_append_same [symmetric])
  then have "(memcpy_at b r (replicate (k + 5) 0))[r := v] = (take r b @ v # replicate k 0) @ replicate 4 0 @ drop (r + k + 5) b"
    (is "?d = ?pre @ ?post") using assms(1,2) by (simp add: memcpy_at_def list_update_append ac_simps)
  moreover have "length ?pre = r + k + 1" using assms(1,2) by simp
  ultimately have "take (r + k + 1) ?d = ?pre" by simp
  moreover have "r + k + 1 \<le> length ?d" using assms(1,2) by simp
  ultimately have "take (r + k + 1 + length t) (memcpy_at ?d (r + k + 1) t) = ?pre @ t" by (simp only: take_memcpy)
  then show ?thesis using assms(3) by (simp add: ac_simps)
qed

lemma absorbed_final:
  assumes "absorbed m c" "length m < 2 ^ 29"
  shows "sha256_final c = sha256_spec m"
proof -
  define r q where "r = length m mod 64" and "q = length m div 64"
  have L: "length m = 64 * q + r" "r < 64" by (simp_all add: r_def q_def)
  have c: "length (sha_block c) = 128" "unat (sha_len c) = r" "sha_tot_len c = of_nat (64 * q)"
    "take r (sha_block c) = drop (64 * q) m" "sha_h c = list8 (foldl compress H0 (chunks m))"
    using assms(1) by (simp_all add: absorbed_def r_def q_def)
  define nb k where "nb = (if 55 < r then 2 else 1 :: nat)" and "k = 64 * nb - r - 5"
  have pm: "64 * nb = r + k + 5" "r + k + 5 \<le> 128" "64 * nb - 4 = r + k + 1" "64 * nb - r = k + 5"
    using L(2) by (auto simp: nb_def k_def)
  have k: "k = (119 - r) mod 64 + 4" using L(2) by (auto simp: nb_def k_def mod_if)
  have "sha_len c = of_nat r" unfolding c(2) [symmetric] by simp
  then have "push_bit 3 (sha_tot_len c + sha_len c) = of_nat (8 * length m)"
    by (simp add: c(3) L(1) push_bit_eq_mult algebra_simps)
  then have len: "UNPACK32 (push_bit 3 (sha_tot_len c + sha_len c)) = be_bytes 4 (8 * length m)"
    using assms(2) by (simp add: UNPACK32_eq unat_of_nat del: of_nat_mult)
  define b where "b = memcpy_at ((memcpy_at (sha_block c) r (replicate (k + 5) 0))[r := 0x80]) (r + k + 1) (be_bytes 4 (8 * length m))"
  have b: "take (64 * nb) b = drop (64 * q) m @ 0x80 # replicate k 0 @ be_bytes 4 (8 * length m)" "64 * nb \<le> length b"
    using final_block [OF c(1) pm(2), of "be_bytes 4 (8 * length m)" "0x80"] pm(2) c(1)
    by (simp_all add: pm(1) b_def c(4) be_bytes_def)
  have "padded m = m @ 0x80 # replicate k 0 @ be_bytes 4 (8 * length m)"
    using assms(2) be_bytes_8 [of "8 * length m"]
    by (simp add: padded_def r_def [symmetric] k replicate_add)
  then have "padded m = take (64 * q) m @ take (64 * nb) b" unfolding b(1) by simp
  moreover have "chunks m = chunks (take (64 * q) m)" unfolding q_def by (rule chunks_short)
  moreover have "length (take (64 * q) m) = 64 * q" using L(1) by simp
  ultimately have "chunks (padded m) = chunks m @ chunks (take (64 * nb) b)" by (simp add: chunks_append)
  moreover have nb: "1 + (if SHA256_BLOCK_SIZE - 9 < unat (sha_len c) mod SHA256_BLOCK_SIZE then 1 else 0) = nb"
    using L(2) by (simp add: SHA256_BLOCK_SIZE_def nb_def c(2))
  have "sha256_final c = concat (map UNPACK32 (sha_h (sha256_transf b nb (c\<lparr>sha_block := b\<rparr>))))"
    unfolding sha256_final_def nb unfolding Let_def c(2) pm(3,4) len b_def ..
  moreover have "sha_h (sha256_transf b nb (c\<lparr>sha_block := b\<rparr>)) = list8 (foldl compress H0 (chunks m @ chunks (take (64 * nb) b)))"
    using transf_h [of "c\<lparr>sha_block := b\<rparr>" _ nb b] b(2) c(5) by simp
  ultimately show ?thesis by (simp add: sha256_spec_def UNPACK32_eq [abs_def])
qed


section \<open>Hash functions with a context\<close>

text \<open>
  What a client of such functions relies on: the context stands for the message taken in so far, as long
  as that is within a limit.
\<close>

locale incremental =
  fixes fits :: "'k \<Rightarrow> bool" and start :: "'k \<Rightarrow> 'c" and update :: "u8 list \<Rightarrow> 'c \<Rightarrow> 'c" and final :: "'c \<Rightarrow> u8 list"
    and stands :: "'k \<Rightarrow> u8 list \<Rightarrow> 'c \<Rightarrow> bool" and spec :: "'k \<Rightarrow> u8 list \<Rightarrow> u8 list" and limit :: nat
  assumes start: "fits k \<Longrightarrow> stands k [] (start k)"
    and update: "stands k m c \<Longrightarrow> length (m @ x) < limit \<Longrightarrow> stands k (m @ x) (update x c)"
    and final: "stands k m c \<Longrightarrow> length m < limit \<Longrightarrow> final c = spec k m"
begin

lemma pieces: "stands k m c \<Longrightarrow> length (m @ concat xs) < limit \<Longrightarrow> stands k (m @ concat xs) (fold update xs c)"
proof (induction xs arbitrary: m c)
  case (Cons x xs)
  then show ?case using Cons.IH [of "m @ x" "update x c"] update [of k m c x] by simp
qed simp

lemma result: "fits k \<Longrightarrow> length (concat xs) < limit \<Longrightarrow> final (fold update xs (start k)) = spec k (concat xs)"
  using pieces [OF start, of k xs] final by simp

lemma one_piece: "fits k \<Longrightarrow> length x < limit \<Longrightarrow> final (update x (start k)) = spec k x"
  using result [of k "[x]"] by simp

end

text \<open>SHA-256 for messages of less than $2^{29}$ bytes; the digest does not depend on what the memory held.\<close>

interpretation sha: incremental "\<lambda>old. length old = 128" sha256_init sha256_update sha256_final
    "\<lambda>_. absorbed" "\<lambda>_. sha256_spec" "2 ^ 29"
proof unfold_locales
  show "absorbed (m @ x) (sha256_update x c)" if "absorbed m c" "length (m @ x) < 2 ^ 29" for m c x
    using absorbed_update [OF that(1), of x] that(2) by simp
qed (simp_all add: absorbed_init absorbed_final)

lemma sha256_eq: "length old = 128 \<Longrightarrow> length m < 2 ^ 29 \<Longrightarrow> sha256 old m = sha256_spec m"
  by (simp add: sha256_def sha.one_piece)

lemma length_sha256_spec [simp]: "length (sha256_spec m) = 32"
  by (cases "foldl compress H0 (chunks (padded m))" rule: list8.cases) (simp add: sha256_spec_def be_bytes_def)

lemma length_hmac_key [simp]: "length (hmac_key K) = 64"
  by (simp add: hmac_key_def Let_def)

text \<open>The memory of a context before \<open>hmac_sha256_init\<close>.\<close>

definition hmac_fits :: "u8 list \<times> hmac_sha256_ctx \<Rightarrow> bool" where
  "hmac_fits = (\<lambda>(key, old). length key < 2 ^ 29 \<and> length (sha_block (ctx_inside old)) = 128 \<and>
     length (sha_block (ctx_outside old)) = 128 \<and> length (block_ipad old) = 64 \<and> length (block_opad old) = 64)"

definition hmac_stands :: "u8 list \<times> hmac_sha256_ctx \<Rightarrow> u8 list \<Rightarrow> hmac_sha256_ctx \<Rightarrow> bool" where
  "hmac_stands = (\<lambda>(key, old) m c. absorbed (map (\<lambda>b. b XOR 0x36) (hmac_key key) @ m) (ctx_inside c) \<and>
     absorbed (map (\<lambda>b. b XOR 0x5c) (hmac_key key)) (ctx_outside c))"

text \<open>The two pads: the key, hashed when it is too long, filled up with the pad byte.\<close>

lemma pads:
  assumes "hmac_fits (key, old)"
  shows "block_ipad (hmac_sha256_init key old) = map (\<lambda>b. b XOR 0x36) (hmac_key key) \<and>
    block_opad (hmac_sha256_init key old) = map (\<lambda>b. b XOR 0x5c) (hmac_key key)"
proof -
  have old: "length key < 2 ^ 29" "length (sha_block (ctx_inside old)) = 128" "length (block_ipad old) = 64"
    "length (block_opad old) = 64"
    using assms by (simp_all add: hmac_fits_def)
  consider "length key = 64" | "length key > 64" | "length key < 64" by linarith
  then show ?thesis
    using old by cases (simp_all add: hmac_sha256_init_def hmac_key_def Let_def memcpy_at_def SHA256_BLOCK_SIZE_def
        SHA256_DIGEST_SIZE_def sha256_eq)
qed

lemma hmac_init_contexts:
  assumes "hmac_fits (key, old)"
  shows "hmac_stands (key, old) [] (hmac_sha256_init key old)"
proof -
  let ?c = "hmac_sha256_init key old"
  have "ctx_inside ?c = sha256_update (take 64 (block_ipad ?c)) (sha256_init (sha_block (ctx_inside old)))"
    "ctx_outside ?c = sha256_update (take 64 (block_opad ?c)) (sha256_init (sha_block (ctx_outside old)))"
    by (simp_all add: hmac_sha256_init_def Let_def SHA256_BLOCK_SIZE_def)
  moreover have "absorbed ([] @ x) (sha256_update x (sha256_init o'))" if "length o' = 128" "length x = 64" for o' x
    using absorbed_update [OF absorbed_init [OF that(1)], of x] that(2) by simp
  ultimately show ?thesis using assms pads [OF assms] by (simp add: hmac_stands_def hmac_fits_def)
qed

interpretation hmac: incremental hmac_fits "\<lambda>(key, old). hmac_sha256_init key old" hmac_sha256_update
    "hmac_sha256_final 32" hmac_stands "\<lambda>(key, old). hmac_spec key" "2 ^ 29 - 64"
proof (unfold_locales, goal_cases)
  case (1 k)
  then show ?case by (cases k) (simp add: hmac_init_contexts)
next
  case (2 k m c x)
  then show ?case
    using absorbed_update [of "map (\<lambda>b. b XOR 0x36) (hmac_key (fst k)) @ m" "ctx_inside c" x]
    by (cases k) (auto simp: hmac_stands_def hmac_sha256_update_def)
next
  case (3 k m c)
  then show ?case
    using absorbed_update [of "map (\<lambda>b. b XOR 0x5c) (hmac_key (fst k))" "ctx_outside c"
        "sha256_spec (map (\<lambda>b. b XOR 0x36) (hmac_key (fst k)) @ m)"]
    by (cases k) (auto simp: hmac_stands_def hmac_sha256_final_def hmac_spec_def absorbed_final Let_def)
qed

lemma reinit_init: "hmac_sha256_reinit (hmac_sha256_update x (hmac_sha256_init key old)) = hmac_sha256_init key old"
  by (simp add: hmac_sha256_reinit_def hmac_sha256_update_def hmac_sha256_init_def Let_def)


section \<open>The example of the standard\<close>

text \<open>The message of three bytes, its schedule, and the two halves of its rounds.\<close>

definition abc_block :: "u8 list" where
  "abc_block = [0x61, 0x62, 0x63, 0x80] @ replicate 59 0 @ [0x18]"

definition abc_w :: "u32 list" where
  "abc_w = [
     0x61626380, 0x00000000, 0x00000000, 0x00000000, 0x00000000, 0x00000000, 0x00000000, 0x00000000,
     0x00000000, 0x00000000, 0x00000000, 0x00000000, 0x00000000, 0x00000000, 0x00000000, 0x00000018,
     0x61626380, 0x000f0000, 0x7da86405, 0x600003c6, 0x3e9d7b78, 0x0183fc00, 0x12dcbfdb, 0xe2e2c38e,
     0xc8215c1a, 0xb73679a2, 0xe5bc3909, 0x32663c5b, 0x9d209d67, 0xec8726cb, 0x702138a4, 0xd3b7973b,
     0x93f5997f, 0x3b68ba73, 0xaff4ffc1, 0xf10a5c62, 0x0a8b3996, 0x72af830a, 0x9409e33e, 0x24641522,
     0x9f47bf94, 0xf0a64f5a, 0x3e246a79, 0x27333ba3, 0x0c4763f2, 0x840abf27, 0x7a290d5d, 0x065c43da,
     0xfb3e89cb, 0xcc7617db, 0xb9e66c34, 0xa9993667, 0x84badedd, 0xc21462bc, 0x1487472c, 0xb20f7a99,
     0xef57b9cd, 0xebe6b238, 0x9fe3095e, 0x78bc8d4b, 0xa43fcf15, 0x668b2ff8, 0xeeaba2cc, 0x12b1edeb]"

lemma abc_schedule: "sha256_w abc_block = abc_w"
  by code_simp

lemma abc_rounds1: "fold (sha256_round abc_w) [0..<32] sha256_h0 =
    [0x73b33bf5, 0xea992a22, 0xa0060b30, 0x363482c9, 0xba591112, 0x0109ab3a, 0xade79437, 0x6112a3b7]"
  by code_simp

lemma abc_rounds2: "fold (sha256_round abc_w) [32..<64]
    [0x73b33bf5, 0xea992a22, 0xa0060b30, 0x363482c9, 0xba591112, 0x0109ab3a, 0xade79437, 0x6112a3b7] =
    [0x506e3058, 0xd39a2165, 0x04d24d6c, 0xb85e2ce9, 0x5ef50f24, 0xfb121210, 0x948d25b6, 0x961f4894]"
  by code_simp

lemma abc_compressed: "sha256_block abc_block sha256_h0 =
    [0xba7816bf, 0x8f01cfea, 0x414140de, 0x5dae2223, 0xb00361a3, 0x96177a9c, 0xb410ff61, 0xf20015ad]"
proof -
  have "[0..<64] = [0..<32] @ [32..<64]" using upt_add_eq_append [of 0 32 32] by simp
  then show ?thesis
    unfolding sha256_block_def abc_schedule by (simp only: fold_append o_apply abc_rounds1 abc_rounds2) (simp add: sha256_h0_def)
qed

lemma sha256_abc: "sha256_spec [0x61, 0x62, 0x63] = [0xba, 0x78, 0x16, 0xbf, 0x8f, 0x01, 0xcf, 0xea, 0x41, 0x41, 0x40, 0xde, 0x5d, 0xae, 0x22, 0x23,
     0xb0, 0x03, 0x61, 0xa3, 0x96, 0x17, 0x7a, 0x9c, 0xb4, 0x10, 0xff, 0x61, 0xf2, 0x00, 0x15, 0xad]"
proof -
  have "replicate 7 0 = [0, 0, 0, 0, 0, 0, 0 :: u8]" by (simp add: numeral_eq_Suc)
  then have "be_bytes 8 24 = replicate 7 0 @ [0x18]" by (simp add: be_bytes_def upt_rec)
  moreover have "replicate 59 0 = replicate 52 0 @ replicate 7 (0 :: u8)" by (simp add: replicate_add [symmetric])
  ultimately have "padded [0x61, 0x62, 0x63] = abc_block" by (simp add: padded_def abc_block_def)
  moreover have "length abc_block = 64" by (simp add: abc_block_def)
  moreover have "list8 H0 = sha256_h0" by (simp add: H0_def sha256_h0_def)
  ultimately have "list8 (foldl compress H0 (chunks (padded [0x61, 0x62, 0x63]))) = sha256_block abc_block sha256_h0"
    using block_eq [of abc_block H0] by (simp add: chunks_one)
  then show ?thesis unfolding sha256_spec_def abc_compressed by (simp add: be_bytes_def upt_rec)
qed

section \<open>Properties\<close>

text \<open>
  C14 However a message of less than $2^{29}$ bytes is split over calls of \<open>sha256_update\<close>, and whatever the
  memory of the context held, \<open>sha256_final\<close> gives the SHA-256 digest of the whole message.
\<close>

theorem sha256_streaming:
  assumes "length old = 128" "length (concat xs) < 2 ^ 29"
  shows "sha256_final (fold sha256_update xs (sha256_init old)) = sha256_spec (concat xs)"
  using assms by (rule sha.result)

theorem sha256_streaming_witness:
  "sha256_final (fold sha256_update [[0x61], [0x62, 0x63]] (sha256_init (replicate 128 0))) =
    [0xba, 0x78, 0x16, 0xbf, 0x8f, 0x01, 0xcf, 0xea, 0x41, 0x41, 0x40, 0xde, 0x5d, 0xae, 0x22, 0x23,
     0xb0, 0x03, 0x61, 0xa3, 0x96, 0x17, 0x7a, 0x9c, 0xb4, 0x10, 0xff, 0x61, 0xf2, 0x00, 0x15, 0xad]"
  using sha256_streaming [of "replicate 128 0" "[[0x61], [0x62, 0x63]]"] sha256_abc by simp

text \<open>
  C13 HMAC-SHA-256 computed over a message in pieces is the code of RFC 2104 for the whole message, for keys
  of every length, and so is the one-call form.
\<close>

theorem hmac_sha256_streaming:
  assumes "hmac_fits (key, old)" "length (concat xs) < 2 ^ 29 - 64"
  shows "hmac_sha256_final 32 (fold hmac_sha256_update xs (hmac_sha256_init key old)) = hmac_spec key (concat xs) \<and>
    hmac_sha256 old key (concat xs) 32 = hmac_spec key (concat xs)"
  using hmac.result [OF assms] hmac.one_piece [OF assms] by (simp add: hmac_sha256_def)

theorem hmac_sha256_streaming_witness:
  "\<exists>old. hmac_sha256_final 32 (fold hmac_sha256_update [[1, 2], [3]] (hmac_sha256_init [7] old)) = hmac_spec [7] [1, 2, 3]"
proof
  let ?s = "sha256_init (replicate 128 0)"
  let ?old = "\<lparr>ctx_inside = ?s, ctx_outside = ?s, ctx_inside_reinit = ?s, ctx_outside_reinit = ?s,
     block_ipad = replicate 64 0, block_opad = replicate 64 0\<rparr>"
  have "hmac_fits ([7], ?old)" by (simp add: hmac_fits_def sha256_init_def)
  from hmac_sha256_streaming [OF this, of "[[1, 2], [3]]"]
  show "hmac_sha256_final 32 (fold hmac_sha256_update [[1, 2], [3]] (hmac_sha256_init [7] ?old)) = hmac_spec [7] [1, 2, 3]"
    by simp
qed

end
