(* ===== verification/Mmc_Rpmb.thy ===== *)
theory Mmc_Rpmb
  imports Mmc_Device Mmc_Io Sha256
begin

text \<open>
  The commands of the \<^verbatim>\<open>mmc\<close> tool for the replay protected memory block, \<^verbatim>\<open>mmc_utils/mmc_cmds.c\<close>: the
  frames, the sequences of requests and responses (\<open>do_rpmb_op\<close>), the programming of the key, the write
  counter, reading with and without verification, authenticated writing. The driver and the card are a
  parameter: from the request and the buffer it gives the return value, \<^verbatim>\<open>errno\<close>, the frames it copies to
  the buffer and the state of the card. Files are the descriptors of \<open>Mmc_Io\<close>. Messages are left out, but not
  the value of the counter.
\<close>

unbundle bit_operations_syntax

section \<open>Frames\<close>

type_synonym u16 = "16 word"

definition MMC_RPMB_WRITE_KEY :: u16 where "MMC_RPMB_WRITE_KEY = 0x01"
definition MMC_RPMB_READ_CNT :: u16 where "MMC_RPMB_READ_CNT = 0x02"
definition MMC_RPMB_WRITE :: u16 where "MMC_RPMB_WRITE = 0x03"
definition MMC_RPMB_READ :: u16 where "MMC_RPMB_READ = 0x04"
definition MMC_RPMB_READ_RESP :: u16 where "MMC_RPMB_READ_RESP = 0x05"

lemmas rpmb_types = MMC_RPMB_WRITE_KEY_def MMC_RPMB_READ_CNT_def MMC_RPMB_WRITE_def MMC_RPMB_READ_def
  MMC_RPMB_READ_RESP_def

record rpmb_frame =
  f_stuff :: "u8 list"
  f_key_mac :: "u8 list"
  f_data :: "u8 list"
  f_nonce :: "u8 list"
  f_write_counter :: u32
  f_addr :: u16
  f_block_count :: u16
  f_result :: u16
  f_req_resp :: u16

definition zero_frame :: rpmb_frame where
  "zero_frame = \<lparr>f_stuff = replicate 196 0, f_key_mac = replicate 32 0, f_data = replicate 256 0,
     f_nonce = replicate 16 0, f_write_counter = 0, f_addr = 0, f_block_count = 0, f_result = 0, f_req_resp = 0\<rparr>"

text \<open>
  The processor is little endian: the fields hold their value with the bytes swapped (\<open>htobe16\<close>,
  \<open>be16toh\<close>, \<open>htobe32\<close>, \<open>be32toh\<close>), and lie in memory with the low byte first.
\<close>

definition swap16 :: "u16 \<Rightarrow> u16" where
  "swap16 x = push_bit 8 x OR drop_bit 8 x"

definition swap32 :: "u32 \<Rightarrow> u32" where
  "swap32 x = push_bit 24 x OR (push_bit 8 x AND 0xFF0000) OR (drop_bit 8 x AND 0xFF00) OR drop_bit 24 x"

definition le16 :: "u16 \<Rightarrow> u8 list" where
  "le16 x = [ucast x, ucast (drop_bit 8 x)]"

definition le32 :: "u32 \<Rightarrow> u8 list" where
  "le32 x = [ucast x, ucast (drop_bit 8 x), ucast (drop_bit 16 x), ucast (drop_bit 24 x)]"

text \<open>The bytes from the field \<open>data\<close> to the end of the frame.\<close>

definition signed_part :: "rpmb_frame \<Rightarrow> u8 list" where
  "signed_part f = f_data f @ f_nonce f @ le32 (f_write_counter f) @ le16 (f_addr f) @ le16 (f_block_count f)
     @ le16 (f_result f) @ le16 (f_req_resp f)"

section \<open>The environment\<close>

record 'd rpmb_env =
  r_ioctl :: "mmc_ioc_cmd \<Rightarrow> rpmb_frame list \<Rightarrow> 'd \<Rightarrow> int \<times> int \<times> rpmb_frame list \<times> 'd"
  r_open :: "string \<Rightarrow> bool"
  in_file :: "string \<Rightarrow> piece list option"
  out_file :: "string \<Rightarrow> accept list option"
  std_out :: "accept list"
  calloc_ok :: bool
  stack_frame :: rpmb_frame            \<comment> \<open>what \<open>frame_out\<close> holds before it is filled\<close>
  stack_ctx :: hmac_sha256_ctx         \<comment> \<open>and the context of the hash\<close>

record 'd rpmb_state =
  r_dev :: 'd
  r_stdin :: "piece list"
  r_out :: "u8 list"                   \<comment> \<open>what was written to the output descriptor\<close>
  r_counter :: "string option"         \<comment> \<open>the line with the counter\<close>

section \<open>Requests and responses\<close>

definition rpmb_request :: mmc_ioc_cmd where
  "rpmb_request = \<lparr>write_flag = 1, opcode = MMC_WRITE_MULTIPLE_BLOCK, arg = 0,
     flags = MMC_RSP_SPI_R1 OR MMC_RSP_R1 OR MMC_CMD_ADTC, blksz = 512, blocks = 1\<rparr>"

definition rpmb_response :: "nat \<Rightarrow> mmc_ioc_cmd" where
  "rpmb_response n = rpmb_request\<lparr>write_flag := 0, opcode := MMC_READ_MULTIPLE_BLOCK, blocks := of_nat n\<rparr>"

text \<open>The driver fills the front of the buffer and writes nothing behind its end.\<close>

definition fill :: "'a list \<Rightarrow> 'a list \<Rightarrow> 'a list" where
  "fill buf new = take (length buf) (new @ drop (length new) buf)"

text \<open>\<open>None\<close> is the null pointer; \<open>frame_out\<close> points to an array of frames.\<close>

definition do_rpmb_op :: "'d rpmb_env \<Rightarrow> rpmb_frame option \<Rightarrow> rpmb_frame list option \<Rightarrow> nat \<Rightarrow> 'd
    \<Rightarrow> int \<times> rpmb_frame list \<times> 'd" where
  "do_rpmb_op E frame_in frame_out out_cnt d = (case (frame_in, frame_out) of
     (Some f, Some out) \<Rightarrow>
       if out_cnt = 0 then (- EINVAL, out, d)
       else let rpmb_type = swap16 (f_req_resp f) in
         if rpmb_type = MMC_RPMB_WRITE \<or> rpmb_type = MMC_RPMB_WRITE_KEY then
           if out_cnt \<noteq> 1 then (- EINVAL, out, d)
           else let (err, errno, _, d) = r_ioctl E (rpmb_request\<lparr>write_flag := 1 OR push_bit 31 1\<rparr>) [f] d in
             if err < 0 then (- errno, out, d)
             else let out = out[0 := zero_frame\<lparr>f_req_resp := swap16 MMC_RPMB_READ_RESP\<rparr>];
                      (err, errno, new, d) = r_ioctl E rpmb_request out d; out = fill out new in
               if err < 0 then (- errno, out, d)
               else let (err, errno, new, d) = r_ioctl E (rpmb_response 1) out d; out = fill out new in
                 if err < 0 then (- errno, out, d) else (err, out, d)
         else if rpmb_type = MMC_RPMB_READ_CNT \<and> out_cnt \<noteq> 1 then (- EINVAL, out, d)
         else if rpmb_type = MMC_RPMB_READ_CNT \<or> rpmb_type = MMC_RPMB_READ then
           let (err, errno, _, d) = r_ioctl E rpmb_request [f] d in
             if err < 0 then (- errno, out, d)
             else let (err, errno, new, d) = r_ioctl E (rpmb_response out_cnt) out d; out = fill out new in
               if err < 0 then (- errno, out, d) else (err, out, d)
         else (- EINVAL, out, d)
   | (_, out) \<Rightarrow> (- EINVAL, case out of None \<Rightarrow> [] | Some out \<Rightarrow> out, d))"

section \<open>Files\<close>

text \<open>An input is the standard input, named by a dash, or a file that is opened.\<close>

datatype input = Stdin | File "piece list"

definition open_input :: "'d rpmb_env \<Rightarrow> string \<Rightarrow> input option" where
  "open_input E name = (if name = ''-'' then Some Stdin else map_option File (in_file E name))"

text \<open>
  \<open>ret = DO_IO(read, fd, buf, n)\<close>, where a negative and a short result end the program: no bytes. The file
  is read once. What the buffer held before is overwritten and does not matter.
\<close>

definition read_input :: "input \<Rightarrow> nat \<Rightarrow> 'd rpmb_state \<Rightarrow> (u8 list option \<times> 'd rpmb_state) option" where
  "read_input fd n s = do {
     (ret, r) \<leftarrow> DO_IO read_fd n \<lparr>got = replicate n 0, stream = (case fd of Stdin \<Rightarrow> r_stdin s | File ps \<Rightarrow> ps)\<rparr>;
     let s = (case fd of Stdin \<Rightarrow> s\<lparr>r_stdin := stream r\<rparr> | File _ \<Rightarrow> s);
     Some (if ret \<noteq> int n then (None, s) else (Some (take n (got r)), s)) }"

section \<open>The commands\<close>

definition do_rpmb_write_key :: "'d rpmb_env \<Rightarrow> string list \<Rightarrow> 'd rpmb_state \<Rightarrow> (int \<times> 'd rpmb_state) option" where
  "do_rpmb_write_key E argv s =
     (if length argv \<noteq> 3 then Some (1, s)
      else if \<not> r_open E (argv ! 1) then Some (1, s)
      else case open_input E (argv ! 2) of
        None \<Rightarrow> Some (1, s)
      | Some key_fd \<Rightarrow> do {
          (key, s) \<leftarrow> read_input key_fd 32 s;
          case key of
            None \<Rightarrow> Some (1, s)
          | Some key \<Rightarrow>
              let frame_in = zero_frame\<lparr>f_req_resp := swap16 MMC_RPMB_WRITE_KEY, f_key_mac := key\<rparr>;
                  (ret, out, d) = do_rpmb_op E (Some frame_in) (Some [stack_frame E]) 1 (r_dev s);
                  s = s\<lparr>r_dev := d\<rparr>
              in if ret \<noteq> 0 then Some (1, s)
                 else if f_result (out ! 0) \<noteq> 0 then Some (1, s) else Some (ret, s) })"

text \<open>The counter, or the code of the card, or \<open>exit(1)\<close> on the left.\<close>

definition rpmb_read_counter :: "'d rpmb_env \<Rightarrow> 'd \<Rightarrow> (int + int \<times> u32) \<times> 'd" where
  "rpmb_read_counter E d =
     (let frame_in = zero_frame\<lparr>f_req_resp := swap16 MMC_RPMB_READ_CNT\<rparr>;
          (ret, out, d) = do_rpmb_op E (Some frame_in) (Some [stack_frame E]) 1 d
      in if ret \<noteq> 0 then (Inl 1, d)
         else if f_result (out ! 0) \<noteq> 0 then (Inr (uint (swap16 (f_result (out ! 0))), 0), d)
         else (Inr (0, swap32 (f_write_counter (out ! 0))), d))"

definition do_rpmb_read_counter :: "'d rpmb_env \<Rightarrow> string list \<Rightarrow> 'd rpmb_state \<Rightarrow> (int \<times> 'd rpmb_state) option" where
  "do_rpmb_read_counter E argv s =
     (if length argv \<noteq> 2 then Some (1, s)
      else if \<not> r_open E (argv ! 1) then Some (1, s)
      else let (r, d) = rpmb_read_counter E (r_dev s); s = s\<lparr>r_dev := d\<rparr> in
        case r of
          Inl code \<Rightarrow> Some (code, s)
        | Inr (ret, cnt) \<Rightarrow>
            if ret \<noteq> 0 then Some (1, s)
            else Some (ret, s\<lparr>r_counter := Some (''Counter value: 0x'' @ hex0 8 (unat cnt) @ [CHR 0x0A])\<rparr>))"

text \<open>The loop that writes the data of the frames; the result is that of the last \<open>DO_IO\<close>.\<close>

fun write_frames :: "accept list \<Rightarrow> rpmb_frame list \<Rightarrow> int \<Rightarrow> u8 list \<Rightarrow> (int \<times> u8 list) option" where
  "write_frames as [] ret out = Some (ret, out)"
| "write_frames as (f # fs) ret out = do {
     (ret, w) \<leftarrow> DO_IO write_out 256 \<lparr>w_sent = out, w_buf = f_data f, accepts = as\<rparr>;
     if ret \<noteq> 256 then Some (1, w_sent w) else write_frames (accepts w) fs ret (w_sent w) }"

definition mac_matches :: "'d rpmb_env \<Rightarrow> u8 list \<Rightarrow> rpmb_frame list \<Rightarrow> bool" where
  "mac_matches E key frames \<longleftrightarrow>
     hmac_sha256_final 32 (fold hmac_sha256_update (map signed_part frames) (hmac_sha256_init key (stack_ctx E)))
       = f_key_mac (last frames)"

text \<open>After the request: the result of the last frame, the code over all frames, the output.\<close>

definition deliver :: "'d rpmb_env \<Rightarrow> accept list \<Rightarrow> u8 list option \<Rightarrow> rpmb_frame list \<Rightarrow> 'd rpmb_state
    \<Rightarrow> (int \<times> 'd rpmb_state) option" where
  "deliver E data_fd key frames s =
     (if f_result (last frames) \<noteq> 0 then Some (1, s)
      else if (case key of None \<Rightarrow> False | Some key \<Rightarrow> \<not> mac_matches E key frames) then Some (1, s)
      else do { (ret, out) \<leftarrow> write_frames data_fd frames 0 (r_out s); Some (ret, s\<lparr>r_out := out\<rparr>) })"

definition do_rpmb_read_block :: "'d rpmb_env \<Rightarrow> string list \<Rightarrow> 'd rpmb_state \<Rightarrow> (int \<times> 'd rpmb_state) option" where
  "do_rpmb_read_block E argv s =
     (if length argv \<noteq> 5 \<and> length argv \<noteq> 6 then Some (1, s)
      else if \<not> r_open E (argv ! 1) then Some (1, s)
      else if strtol_errno (argv ! 2) 0 then Some (1, s)
      else let addr = of_int (strtol (argv ! 2) 0) :: u16 in
        if strtol_errno (argv ! 3) 0 then Some (1, s)
        else let blocks_cnt = of_int (strtol (argv ! 3) 0) :: u16 in
          if blocks_cnt = 0 then Some (1, s)
          else if \<not> calloc_ok E then Some (1, s)
          else case (if argv ! 4 = ''-'' then Some (std_out E) else out_file E (argv ! 4)) of
            None \<Rightarrow> Some (1, s)
          | Some data_fd \<Rightarrow>
              let request = (\<lambda>key s.
                    let frame_in = zero_frame\<lparr>f_req_resp := swap16 MMC_RPMB_READ, f_addr := swap16 addr\<rparr>;
                        (ret, out, d) = do_rpmb_op E (Some frame_in) (Some (replicate (unat blocks_cnt) zero_frame))
                          (unat blocks_cnt) (r_dev s);
                        s = s\<lparr>r_dev := d\<rparr>
                    in if ret \<noteq> 0 then Some (1, s) else deliver E data_fd key out s)
              in if length argv = 6 then
                   case open_input E (argv ! 5) of
                     None \<Rightarrow> Some (1, s)
                   | Some key_fd \<Rightarrow> do {
                       (key, s) \<leftarrow> read_input key_fd 32 s;
                       case key of None \<Rightarrow> Some (1, s) | Some key \<Rightarrow> request (Some key) s }
                 else request None s)"

text \<open>The frame that is sent, with its code over everything from \<open>data\<close> on.\<close>

definition write_frame :: "'d rpmb_env \<Rightarrow> u32 \<Rightarrow> u16 \<Rightarrow> u8 list \<Rightarrow> u8 list \<Rightarrow> rpmb_frame" where
  "write_frame E cnt addr data key =
     (let f = zero_frame\<lparr>f_req_resp := swap16 MMC_RPMB_WRITE, f_block_count := swap16 1,
               f_write_counter := swap32 cnt, f_addr := swap16 addr, f_data := data\<rparr>
      in f\<lparr>f_key_mac := hmac_sha256 (stack_ctx E) key (signed_part f) 32\<rparr>)"

definition do_rpmb_write_block :: "'d rpmb_env \<Rightarrow> string list \<Rightarrow> 'd rpmb_state \<Rightarrow> (int \<times> 'd rpmb_state) option" where
  "do_rpmb_write_block E argv s =
     (if length argv \<noteq> 5 then Some (1, s)
      else if \<not> r_open E (argv ! 1) then Some (1, s)
      else let (r, d) = rpmb_read_counter E (r_dev s); s = s\<lparr>r_dev := d\<rparr> in
        case r of
          Inl code \<Rightarrow> Some (code, s)
        | Inr (ret, cnt) \<Rightarrow>
            if ret \<noteq> 0 then Some (1, s)
            else if strtol_errno (argv ! 2) 0 then Some (1, s)
            else let addr = of_int (strtol (argv ! 2) 0) :: u16 in
              case open_input E (argv ! 3) of
                None \<Rightarrow> Some (1, s)
              | Some data_fd \<Rightarrow> do {
                  (data, s) \<leftarrow> read_input data_fd 256 s;
                  case data of
                    None \<Rightarrow> Some (1, s)
                  | Some data \<Rightarrow>
                      (case open_input E (argv ! 4) of
                         None \<Rightarrow> Some (1, s)
                       | Some key_fd \<Rightarrow> do {
                           (key, s) \<leftarrow> read_input key_fd 32 s;
                           case key of
                             None \<Rightarrow> Some (1, s)
                           | Some key \<Rightarrow>
                               let (ret, out, d) = do_rpmb_op E (Some (write_frame E cnt addr data key))
                                     (Some [stack_frame E]) 1 (r_dev s);
                                   s = s\<lparr>r_dev := d\<rparr>
                               in if ret \<noteq> 0 then Some (1, s)
                                  else if f_result (out ! 0) \<noteq> 0 then Some (1, s) else Some (ret, s) }) })"


section \<open>Byte order\<close>

lemma swap16_swap16 [simp]: "swap16 (swap16 x) = x"
  by (rule bit_word_eqI) (auto simp: swap16_def bit_simps)

lemma swap32_swap32 [simp]: "swap32 (swap32 x) = x"
proof (rule bit_word_eqI)
  fix n assume "n < LENGTH(32)"
  then have n: "n < 32" by simp
  have m: "(0xFF0000 :: u32) = push_bit 16 (mask 8)" "(0xFF00 :: u32) = push_bit 8 (mask 8)" by (simp_all add: mask_eq_exp_minus_1)
  from n consider "n < 8" | "8 \<le> n \<and> n < 16" | "16 \<le> n \<and> n < 24" | "24 \<le> n" by linarith
  then show "bit (swap32 (swap32 x)) n = bit x n"
    using n unfolding swap32_def m by cases (auto simp: bit_simps dest: bit_imp_le_length)
qed

lemma le16_swap16: "le16 (swap16 x) = be_bytes 2 (unat x)"
proof -
  have "ucast (swap16 x) = (ucast (drop_bit 8 x) :: u8)" "ucast (drop_bit 8 (swap16 x)) = (ucast x :: u8)"
    by (rule bit_word_eqI; auto simp: swap16_def bit_simps)+
  moreover have "ucast (drop_bit 8 x) = (of_nat (unat x div 256) :: u8)"
    by (simp add: word_unat_eq_iff unsigned_ucast_eq unat_of_nat take_bit_eq_mod unat_shift)
  ultimately show ?thesis by (simp add: le16_def be_bytes_def upt_rec)
qed

lemma le32_swap32: "le32 (swap32 x) = be_bytes 4 (unat x)"
proof -
  have m: "(0xFF0000 :: u32) = push_bit 16 (mask 8)" "(0xFF00 :: u32) = push_bit 8 (mask 8)" by (simp_all add: mask_eq_exp_minus_1)
  have "ucast (swap32 x) = (ucast (drop_bit 24 x) :: u8)" "ucast (drop_bit 8 (swap32 x)) = (ucast (drop_bit 16 x) :: u8)"
    "ucast (drop_bit 16 (swap32 x)) = (ucast (drop_bit 8 x) :: u8)" "ucast (drop_bit 24 (swap32 x)) = (ucast x :: u8)"
    unfolding swap32_def m by (rule bit_word_eqI; auto simp: bit_simps)+
  then show ?thesis unfolding UNPACK32_eq [symmetric] by (simp add: le32_def UNPACK32_def)
qed

lemma swap_eq_0 [simp]: "swap16 x = 0 \<longleftrightarrow> x = 0"
  by (metis swap16_swap16 swap16_def push_bit_of_0 drop_bit_of_0 or.left_neutral)


section \<open>Sizes\<close>

text \<open>The arrays of the frames and of the hash context have the sizes of their types.\<close>

definition wf_frame :: "rpmb_frame \<Rightarrow> bool" where
  "wf_frame f \<longleftrightarrow> length (f_stuff f) = 196 \<and> length (f_key_mac f) = 32 \<and> length (f_data f) = 256 \<and> length (f_nonce f) = 16"

definition wf_env :: "'d rpmb_env \<Rightarrow> bool" where
  "wf_env E \<longleftrightarrow> hmac_fits ([], stack_ctx E) \<and> wf_frame (stack_frame E) \<and>
     (\<forall>c buf d ret e new d'. r_ioctl E c buf d = (ret, e, new, d') \<longrightarrow> list_all wf_frame new)"

lemma wf_zero_frame: "wf_frame (zero_frame\<lparr>f_req_resp := t\<rparr>)" "wf_frame zero_frame"
  by (simp_all add: wf_frame_def zero_frame_def)

lemma length_signed_part: "wf_frame f \<Longrightarrow> length (signed_part f) = 284"
  by (simp add: wf_frame_def signed_part_def le32_def le16_def)

lemma fill_wf: "list_all wf_frame buf \<Longrightarrow> list_all wf_frame new \<Longrightarrow> list_all wf_frame (fill buf new)"
  by (auto simp: fill_def list_all_iff dest!: in_set_takeD in_set_dropD)

lemma length_fill [simp]: "length (fill buf new) = length buf"
  by (simp add: fill_def)

lemma fill_full [simp]: "length new = length buf \<Longrightarrow> fill buf new = new"
  by (simp add: fill_def)

text \<open>The answer of an operation has the size of the buffer it was given.\<close>

lemma op_frames:
  assumes "do_rpmb_op E (Some f) (Some out) n d = (ret, out', d')" "wf_env E" "list_all wf_frame out"
  shows "length out' = length out \<and> list_all wf_frame out'"
proof -
  have "list_all wf_frame (out[0 := zero_frame\<lparr>f_req_resp := t\<rparr>])" for t
    using assms(3) wf_zero_frame by (cases out) simp_all
  moreover have "list_all wf_frame new" if "r_ioctl E c buf d = (ret, e, new, d')" for c buf d ret e new d'
    using assms(2) that unfolding wf_env_def by blast
  ultimately show ?thesis
    using assms(1,3) by (auto simp: do_rpmb_op_def Let_def intro!: fill_wf split: prod.splits if_splits)
qed

section \<open>Every command ends\<close>

lemma read_input_ends: "0 < n \<Longrightarrow> \<exists>bs s'. read_input fd n s = Some (bs, s')"
  using reading.ends [of n "\<lparr>got = replicate n 0, stream = (case fd of Stdin \<Rightarrow> r_stdin s | File ps \<Rightarrow> ps)\<rparr>"]
  by (auto simp: read_input_def Let_def split: if_splits)

lemma read_input_frame:
  "read_input fd n s = Some (bs, s') \<Longrightarrow> r_dev s' = r_dev s \<and> r_out s' = r_out s \<and> r_counter s' = r_counter s"
  by (auto simp: read_input_def Let_def split: Option.bind_splits input.splits if_splits)

text \<open>What the loop over the frames writes: the front of their data.\<close>

lemma write_frames_ends:
  assumes "list_all wf_frame fs"
  shows "\<exists>ret' n. write_frames as fs ret out = Some (ret', out @ take n (concat (map f_data fs))) \<and> (ret' = ret \<or> ret' = 1 \<or> ret' = 256)"
  using assms
proof (induction fs arbitrary: as ret out)
  case (Cons f fs)
  let ?w = "\<lparr>w_sent = out, w_buf = f_data f, accepts = as\<rparr>"
  obtain r w n where w: "DO_IO write_out 256 ?w = Some (r, w)" "r = - 1 \<or> r = int n" "n \<le> 256" "w_sent w = out @ take n (f_data f)"
    using writing.ends [of 256 ?w] by (auto simp: writing.progress_def)
  have l: "length (f_data f) = 256" using Cons.prems by (simp add: wf_frame_def)
  show ?case
  proof (cases "r = 256")
    case True
    obtain ret' k where "write_frames (accepts w) fs r (w_sent w) = Some (ret', w_sent w @ take k (concat (map f_data fs)))"
      "ret' = 1 \<or> ret' = 256"
      using Cons.IH [of "accepts w" r "w_sent w"] Cons.prems True by auto
    moreover have "w_sent w = out @ f_data f" using True w l by auto
    ultimately show ?thesis using w(1) True l by (auto intro!: exI [of _ "256 + k"])
  next
    case False
    then show ?thesis using w l by (auto intro!: exI [of _ n])
  qed
qed auto


lemma deliver_ends:
  assumes "list_all wf_frame frames"
  shows "\<exists>ret n. deliver E fd key frames s = Some (ret, s\<lparr>r_out := r_out s @ take n (concat (map f_data frames))\<rparr>) \<and>
    (n = 0 \<or> f_result (last frames) = 0 \<and> (\<forall>k. key = Some k \<longrightarrow> mac_matches E k frames))"
proof -
  obtain ret n where "write_frames fd frames 0 (r_out s) = Some (ret, r_out s @ take n (concat (map f_data frames)))"
    using write_frames_ends [OF assms] by blast
  moreover have "s\<lparr>r_out := r_out s\<rparr> = s" by simp
  ultimately show ?thesis by (cases key) (auto simp: deliver_def intro: exI [of _ 0])
qed

text \<open>Rules for a command that ends, by its construction.\<close>

lemma ends_rules:
  "Some x \<noteq> None"
  "(b \<Longrightarrow> p \<noteq> None) \<Longrightarrow> (\<not> b \<Longrightarrow> q \<noteq> None) \<Longrightarrow> (if b then p else q) \<noteq> None"
  "f v \<noteq> None \<Longrightarrow> Let v f \<noteq> None"
  "(\<And>a c. z = (a, c) \<Longrightarrow> g a c \<noteq> None) \<Longrightarrow> case_prod g z \<noteq> None"
  "(o' = None \<Longrightarrow> p \<noteq> None) \<Longrightarrow> (\<And>y. o' = Some y \<Longrightarrow> h y \<noteq> None) \<Longrightarrow> case_option p h o' \<noteq> None"
  "(\<And>y. r = Inl y \<Longrightarrow> h1 y \<noteq> None) \<Longrightarrow> (\<And>y. r = Inr y \<Longrightarrow> h2 y \<noteq> None) \<Longrightarrow> case_sum h1 h2 r \<noteq> None"
  by (simp_all split: option.splits sum.splits prod.splits)

lemma read_then_ends: "0 < n \<Longrightarrow> (\<And>bs s'. f (bs, s') \<noteq> None) \<Longrightarrow> read_input fd n s \<bind> f \<noteq> None"
  using read_input_ends [of n fd s] by auto

lemma deliver_not_None: "list_all wf_frame frames \<Longrightarrow> deliver E fd key frames s \<noteq> None"
  using deliver_ends [of frames E fd key s] by auto

lemma read_frames:
  assumes "wf_env E" "do_rpmb_op E (Some f) (Some (replicate n zero_frame)) n d = (ret, out, d')"
  shows "length out = n \<and> list_all wf_frame out"
  using op_frames [OF assms(2,1)] by (simp add: list_all_iff wf_zero_frame)

lemma rpmb_ends:
  assumes "wf_env E"
  shows "do_rpmb_write_key E argv s \<noteq> None \<and> do_rpmb_read_counter E argv s \<noteq> None \<and>
    do_rpmb_read_block E argv s \<noteq> None \<and> do_rpmb_write_block E argv s \<noteq> None"
proof -
  have "do_rpmb_write_key E argv s \<noteq> None"
    unfolding do_rpmb_write_key_def by (intro ends_rules read_then_ends; simp)
  moreover have "do_rpmb_read_counter E argv s \<noteq> None"
    unfolding do_rpmb_read_counter_def by (intro ends_rules; simp)
  moreover have "do_rpmb_read_block E argv s \<noteq> None"
    unfolding do_rpmb_read_block_def
    by (intro ends_rules read_then_ends deliver_not_None; (simp add: read_frames [OF assms])?)
  moreover have "do_rpmb_write_block E argv s \<noteq> None"
    unfolding do_rpmb_write_block_def by (intro ends_rules read_then_ends; simp)
  ultimately show ?thesis by blast
qed


section \<open>Authentication\<close>

lemma read_input_length:
  assumes "0 < n" "read_input fd n s = Some (Some bs, s')" shows "length bs = n"
proof -
  let ?r = "\<lparr>got = replicate n 0, stream = (case fd of Stdin \<Rightarrow> r_stdin s | File ps \<Rightarrow> ps)\<rparr>"
  obtain r where "DO_IO read_fd n ?r = Some (int n, r)" "take n (got r) = bs"
    using assms(2) by (auto simp: read_input_def Let_def split: Option.bind_splits if_splits)
  then show ?thesis using reading.exact [OF assms(1), of ?r n r] by (auto simp: reading.progress_def)
qed

lemma signed_length: "list_all wf_frame frames \<Longrightarrow> length (concat (map signed_part frames)) = 284 * length frames"
  by (induction frames) (simp_all add: length_signed_part)

text \<open>The code that is compared is the one of the standard.\<close>

lemma mac_matches_iff:
  assumes "wf_env E" "length key = 32" "list_all wf_frame frames" "length frames < 65536"
  shows "mac_matches E key frames \<longleftrightarrow> f_key_mac (last frames) = hmac_spec key (concat (map signed_part frames))"
proof -
  have "hmac_fits (key, stack_ctx E)" using assms(1,2) by (simp add: wf_env_def hmac_fits_def)
  moreover have "length (concat (map signed_part frames)) < 2 ^ 29 - 64" using assms(3,4) by (simp add: signed_length)
  ultimately have "hmac_sha256_final 32 (fold hmac_sha256_update (map signed_part frames) (hmac_sha256_init key (stack_ctx E)))
      = hmac_spec key (concat (map signed_part frames))"
    using hmac.result [of "(key, stack_ctx E)" "map signed_part frames"] by simp
  then show ?thesis unfolding mac_matches_def by auto
qed

abbreviation read_request :: "u16 \<Rightarrow> rpmb_frame" where
  "read_request addr \<equiv> zero_frame\<lparr>f_req_resp := swap16 MMC_RPMB_READ, f_addr := swap16 addr\<rparr>"

abbreviation arg16 :: "string \<Rightarrow> u16" where
  "arg16 str \<equiv> of_int (strtol str 0)"

lemma length_hmac_spec [simp]: "length (hmac_spec key m) = 32"
  by (simp add: hmac_spec_def)

lemma write_frame_mac:
  assumes "wf_env E" "length key = 32" "length data = 256"
  shows "f_key_mac (write_frame E cnt addr data key) = hmac_spec key (signed_part (write_frame E cnt addr data key)) \<and>
    wf_frame (write_frame E cnt addr data key)"
proof -
  let ?f = "write_frame E cnt addr data key"
  have "hmac_fits (key, stack_ctx E)" using assms(1,2) by (simp add: wf_env_def hmac_fits_def)
  moreover have "length (signed_part ?f) = 284"
    using assms(3) by (simp add: write_frame_def Let_def zero_frame_def signed_part_def le32_def le16_def)
  ultimately have "hmac_sha256 (stack_ctx E) key (signed_part ?f) 32 = hmac_spec key (signed_part ?f)"
    using hmac.one_piece [of "(key, stack_ctx E)" "signed_part ?f"] by (simp add: hmac_sha256_def)
  then show ?thesis using assms(3) by (simp add: write_frame_def Let_def signed_part_def wf_frame_def zero_frame_def)
qed

section \<open>The card\<close>

text \<open>
  What a replay protected memory block promises, on the contents that a state of the card stands for: the
  key, the write counter and the blocks of 256 bytes. A counter request is answered with the counter, a
  read request with the blocks and their code, and a write request with the right code and counter stores
  the data and counts up, as long as the counter is below its maximum, at which a card refuses to write.
\<close>

record rpmb_store =
  st_key :: "u8 list"
  st_counter :: u32
  st_block :: "u16 \<Rightarrow> u8 list"

definition answers :: "'d rpmb_env \<Rightarrow> mmc_ioc_cmd \<Rightarrow> rpmb_frame list \<Rightarrow> 'd \<Rightarrow> rpmb_frame list \<Rightarrow> 'd \<Rightarrow> bool" where
  "answers E c buf d new d' \<longleftrightarrow> (\<exists>e. r_ioctl E c buf d = (0, e, new, d'))"

definition counter_law :: "'d rpmb_env \<Rightarrow> ('d \<Rightarrow> rpmb_store) \<Rightarrow> bool" where
  "counter_law E A \<longleftrightarrow> (\<forall>d f buf. swap16 (f_req_resp f) = MMC_RPMB_READ_CNT \<longrightarrow>
     (\<exists>new d1 g d2. answers E rpmb_request [f] d new d1 \<and> answers E (rpmb_response 1) buf d1 [g] d2 \<and> A d2 = A d \<and>
        f_result g = 0 \<and> f_write_counter g = swap32 (st_counter (A d))))"

definition read_law :: "'d rpmb_env \<Rightarrow> ('d \<Rightarrow> rpmb_store) \<Rightarrow> bool" where
  "read_law E A \<longleftrightarrow> (\<forall>d f buf n. swap16 (f_req_resp f) = MMC_RPMB_READ \<and> 0 < n \<and> n < 65536 \<longrightarrow>
     (\<exists>new d1 gs d2. answers E rpmb_request [f] d new d1 \<and> answers E (rpmb_response n) buf d1 gs d2 \<and> A d2 = A d \<and>
        length gs = n \<and> f_result (last gs) = 0 \<and>
        map f_data gs = map (\<lambda>i. st_block (A d) (swap16 (f_addr f) + of_nat i)) [0..<n] \<and>
        f_key_mac (last gs) = hmac_spec (st_key (A d)) (concat (map signed_part gs))))"

definition write_law :: "'d rpmb_env \<Rightarrow> ('d \<Rightarrow> rpmb_store) \<Rightarrow> bool" where
  "write_law E A \<longleftrightarrow> (\<forall>d f out. wf_frame f \<and> swap16 (f_req_resp f) = MMC_RPMB_WRITE \<and> swap16 (f_block_count f) = 1 \<and>
       swap32 (f_write_counter f) = st_counter (A d) \<and> st_counter (A d) \<noteq> 0xFFFFFFFF \<and> f_key_mac f = hmac_spec (st_key (A d)) (signed_part f) \<and>
       swap16 (f_req_resp out) = MMC_RPMB_READ_RESP \<longrightarrow>
     (\<exists>new1 d1 d2 g d3. answers E (rpmb_request\<lparr>write_flag := 1 OR push_bit 31 1\<rparr>) [f] d new1 d1 \<and>
        answers E rpmb_request [out] d1 [] d2 \<and> answers E (rpmb_response 1) [out] d2 [g] d3 \<and> f_result g = 0 \<and>
        A d3 = (A d)\<lparr>st_counter := st_counter (A d) + 1, st_block := (st_block (A d))(swap16 (f_addr f) := f_data f)\<rparr>))"

lemma counter_read:
  assumes "counter_law E A"
  shows "\<exists>d'. rpmb_read_counter E d = (Inr (0, st_counter (A d)), d') \<and> A d' = A d"
proof -
  let ?f = "zero_frame\<lparr>f_req_resp := swap16 MMC_RPMB_READ_CNT\<rparr>"
  obtain new d1 g d2 where "answers E rpmb_request [?f] d new d1" "answers E (rpmb_response 1) [stack_frame E] d1 [g] d2" "A d2 = A d"
      "f_result g = 0" "f_write_counter g = swap32 (st_counter (A d))"
    using assms [unfolded counter_law_def, rule_format, of ?f d "[stack_frame E]"] by auto
  then show ?thesis
    by (auto simp: rpmb_read_counter_def do_rpmb_op_def answers_def Let_def rpmb_types)
qed

lemma block_written:
  assumes "write_law E A" "wf_env E" "length key = 32" "length data = 256" "key = st_key (A d)" "cnt = st_counter (A d)" "cnt \<noteq> 0xFFFFFFFF"
  shows "\<exists>out d'. do_rpmb_op E (Some (write_frame E cnt addr data key)) (Some [x]) 1 d = (0, out, d') \<and> f_result (out ! 0) = 0 \<and>
    A d' = (A d)\<lparr>st_counter := cnt + 1, st_block := (st_block (A d))(addr := data)\<rparr>"
proof -
  let ?f = "write_frame E cnt addr data key" and ?out = "zero_frame\<lparr>f_req_resp := swap16 MMC_RPMB_READ_RESP\<rparr>"
  have f: "swap16 (f_req_resp ?f) = MMC_RPMB_WRITE" "swap16 (f_block_count ?f) = 1" "swap32 (f_write_counter ?f) = cnt"
    "swap16 (f_addr ?f) = addr" "f_data ?f = data"
    by (simp_all add: write_frame_def Let_def)
  obtain new1 d1 d2 g d3 where "answers E (rpmb_request\<lparr>write_flag := 1 OR push_bit 31 1\<rparr>) [?f] d new1 d1"
      "answers E rpmb_request [?out] d1 [] d2" "answers E (rpmb_response 1) [?out] d2 [g] d3" "f_result g = 0"
      "A d3 = (A d)\<lparr>st_counter := cnt + 1, st_block := (st_block (A d))(addr := data)\<rparr>"
    using assms(1) [unfolded write_law_def, rule_format, of ?f d ?out] write_frame_mac [OF assms(2-4), of cnt addr] f assms(5-7) by auto
  then show ?thesis by (auto simp: do_rpmb_op_def f(1) answers_def Let_def fill_def)
qed

lemma blocks_read:
  assumes "read_law E A" "0 < n" "n < 65536"
  shows "\<exists>gs d'. do_rpmb_op E (Some (read_request addr)) (Some (replicate n zero_frame)) n d = (0, gs, d') \<and> A d' = A d \<and>
    length gs = n \<and> f_result (last gs) = 0 \<and> map f_data gs = map (\<lambda>i. st_block (A d) (addr + of_nat i)) [0..<n] \<and>
    f_key_mac (last gs) = hmac_spec (st_key (A d)) (concat (map signed_part gs))"
proof -
  obtain new d1 gs d2 where "answers E rpmb_request [read_request addr] d new d1"
      "answers E (rpmb_response n) (replicate n zero_frame) d1 gs d2" "A d2 = A d" "length gs = n" "f_result (last gs) = 0"
      "map f_data gs = map (\<lambda>i. st_block (A d) (addr + of_nat i)) [0..<n]"
      "f_key_mac (last gs) = hmac_spec (st_key (A d)) (concat (map signed_part gs))"
    using assms(1) [unfolded read_law_def, rule_format, of "read_request addr" n d "replicate n zero_frame"] assms(2,3) by auto
  then show ?thesis using assms(2) by (auto simp: do_rpmb_op_def answers_def Let_def rpmb_types)
qed

section \<open>Files without errors\<close>

lemma read_file:
  assumes "clean ps" "0 < n" "n \<le> length (stream_bytes ps)"
  shows "read_input (File ps) n s = Some (Some (take n (stream_bytes ps)), s)"
  using read_clean [OF assms(2), of "\<lparr>got = replicate n 0, stream = ps\<rparr>"] assms by (auto simp: read_input_def Let_def)

lemma write_frames_all:
  "list_all wf_frame fs \<Longrightarrow> write_frames [] fs ret out = Some (if fs = [] then ret else 256, out @ concat (map f_data fs))"
proof (induction fs arbitrary: ret out)
  case (Cons f fs)
  then have l: "length (f_data f) = 256" by (simp add: wf_frame_def)
  then have "f_data f \<noteq> []" by auto
  then show ?case
    using Cons write_all [of "\<lparr>w_sent = out, w_buf = f_data f, accepts = []\<rparr>"] l by auto
qed simp

lemma strtol_in_range: "strtol str 0 = int a \<Longrightarrow> a < 65536 \<Longrightarrow> \<not> strtol_errno str 0"
  by (auto simp: strtol_def strtol_errno_def max_def min_def split: if_splits)

text \<open>Writing a block from files that are long enough.\<close>

lemma write_block_ok:
  assumes laws: "wf_env E" "counter_law E A" "write_law E A"
    and args: "r_open E dev" "strtol addr 0 = int a" "a < 65536"
    and files: "open_input E dfile = Some (File dp)" "clean dp" "256 \<le> length (stream_bytes dp)"
      "open_input E kfile = Some (File kp)" "clean kp" "32 \<le> length (stream_bytes kp)" "take 32 (stream_bytes kp) = st_key (A (r_dev s))"
    and cnt: "st_counter (A (r_dev s)) \<noteq> 0xFFFFFFFF"
  shows "\<exists>d'. do_rpmb_write_block E [p, dev, addr, dfile, kfile] s = Some (0, s\<lparr>r_dev := d'\<rparr>) \<and>
    A d' = (A (r_dev s))\<lparr>st_counter := st_counter (A (r_dev s)) + 1,
      st_block := (st_block (A (r_dev s)))(of_nat a := take 256 (stream_bytes dp))\<rparr>"
proof -
  let ?key = "take 32 (stream_bytes kp)" and ?data = "take 256 (stream_bytes dp)"
  have key: "length (st_key (A (r_dev s))) = 32" using files(6) unfolding files(7) [symmetric] by simp
  obtain d1 where d1: "rpmb_read_counter E (r_dev s) = (Inr (0, st_counter (A (r_dev s))), d1)" "A d1 = A (r_dev s)"
    using counter_read [OF laws(2)] by blast
  obtain out d2 where d2: "do_rpmb_op E (Some (write_frame E (st_counter (A d1)) (of_nat a) ?data ?key)) (Some [stack_frame E]) 1 d1 = (0, out, d2)"
      "f_result (out ! 0) = 0"
      "A d2 = (A d1)\<lparr>st_counter := st_counter (A d1) + 1, st_block := (st_block (A d1))(of_nat a := ?data)\<rparr>"
    using block_written [OF laws(3,1), of ?key ?data d1 "st_counter (A d1)" "of_nat a" "stack_frame E"] files key d1(2) cnt by auto
  have "\<not> strtol_errno addr 0" using args(2,3) by (rule strtol_in_range)
  then show ?thesis
    using args files d1 d2 by (auto simp: do_rpmb_write_block_def Let_def read_file)
qed

text \<open>Reading and verifying blocks: what happens to the answer of the card.\<close>

lemma read_block_delivers:
  assumes wf: "wf_env E" and args: "r_open E dev" "strtol addr 0 = int a" "a < 65536" "strtol cnt 0 = int n" "0 < n" "n < 65536" "calloc_ok E"
    and files: "ofile \<noteq> ''-''" "out_file E ofile = Some []"
      "open_input E kfile = Some (File kp)" "clean kp" "32 \<le> length (stream_bytes kp)"
    and op: "do_rpmb_op E (Some (read_request (of_nat a))) (Some (replicate n zero_frame)) n (r_dev s) = (0, gs, d1)"
      "f_result (last gs) = 0" "f_key_mac (last gs) = hmac_spec (take 32 (stream_bytes kp)) (concat (map signed_part gs))"
  shows "do_rpmb_read_block E [p, dev, addr, cnt, ofile, kfile] s =
    Some (256, s\<lparr>r_dev := d1, r_out := r_out s @ concat (map f_data gs)\<rparr>)"
proof -
  let ?key = "take 32 (stream_bytes kp)"
  have gs: "length gs = n" "list_all wf_frame gs" using read_frames [OF wf op(1)] by simp_all
  have "mac_matches E ?key gs"
    using mac_matches_iff [OF wf _ gs(2), of ?key] gs(1) op(3) files(5) args(6) by simp
  moreover have "gs \<noteq> []" using gs(1) args(5) by auto
  ultimately have "deliver E [] (Some ?key) gs (s\<lparr>r_dev := d1\<rparr>) =
      Some (256, s\<lparr>r_dev := d1, r_out := r_out s @ concat (map f_data gs)\<rparr>)"
    using op(2) write_frames_all [OF gs(2), of 0 "r_out s"] by (simp add: deliver_def)
  moreover have "unat (of_nat n :: u16) = n" "(of_nat n :: u16) \<noteq> 0"
    using args(5,6) by (simp_all add: unat_of_nat word_unat_eq_iff)
  moreover have "\<not> strtol_errno addr 0" "\<not> strtol_errno cnt 0"
    using strtol_in_range args(2-4,6) by blast+
  ultimately show ?thesis
    using args files op(1) by (auto simp: do_rpmb_read_block_def Let_def read_file)
qed

lemma read_block_ok:
  assumes "wf_env E" "read_law E A"
    and args: "r_open E dev" "strtol addr 0 = int a" "a < 65536" "strtol cnt 0 = int n" "0 < n" "n < 65536" "calloc_ok E"
    and files: "ofile \<noteq> ''-''" "out_file E ofile = Some []"
      "open_input E kfile = Some (File kp)" "clean kp" "32 \<le> length (stream_bytes kp)"
    and key: "take 32 (stream_bytes kp) = st_key (A (r_dev s))"
  shows "\<exists>d'. do_rpmb_read_block E [p, dev, addr, cnt, ofile, kfile] s =
      Some (256, s\<lparr>r_dev := d', r_out := r_out s @ concat (map (\<lambda>i. st_block (A (r_dev s)) (of_nat a + of_nat i)) [0..<n])\<rparr>) \<and>
    A d' = A (r_dev s)"
proof -
  obtain gs d1 where g: "do_rpmb_op E (Some (read_request (of_nat a))) (Some (replicate n zero_frame)) n (r_dev s) = (0, gs, d1)"
      "A d1 = A (r_dev s)" "f_result (last gs) = 0"
      "map f_data gs = map (\<lambda>i. st_block (A (r_dev s)) (of_nat a + of_nat i)) [0..<n]"
      "f_key_mac (last gs) = hmac_spec (st_key (A (r_dev s))) (concat (map signed_part gs))"
    using blocks_read [OF assms(2) args(5,6), of "of_nat a" "r_dev s"] by blast
  show ?thesis
    using read_block_delivers [OF assms(1) args files g(1,3) g(5) [folded key], of p] g(2) unfolding g(4) by blast
qed

section \<open>An example\<close>

text \<open>A card that follows the protocol, with files for the key and the data.\<close>

record demo_rpmb =
  demo_store :: rpmb_store
  demo_req :: rpmb_frame

definition block256 :: "u8 list \<Rightarrow> u8 list" where
  "block256 bs = take 256 (bs @ replicate 256 0)"

definition demo_contents :: "demo_rpmb \<Rightarrow> rpmb_store" where
  "demo_contents d = (demo_store d)\<lparr>st_block := (\<lambda>a. block256 (st_block (demo_store d) a))\<rparr>"

definition demo_blocks :: "demo_rpmb \<Rightarrow> nat \<Rightarrow> rpmb_frame list" where
  "demo_blocks d n = map (\<lambda>i. zero_frame\<lparr>f_data := st_block (demo_contents d) (swap16 (f_addr (demo_req d)) + of_nat i)\<rparr>) [0..<n]"

definition demo_answer :: "demo_rpmb \<Rightarrow> nat \<Rightarrow> rpmb_frame list" where
  "demo_answer d n =
     (if swap16 (f_req_resp (demo_req d)) = MMC_RPMB_READ_CNT then
        [zero_frame\<lparr>f_write_counter := swap32 (st_counter (demo_store d))\<rparr>]
      else if swap16 (f_req_resp (demo_req d)) = MMC_RPMB_READ then
        let gs = demo_blocks d n in
        gs[n - 1 := (gs ! (n - 1))\<lparr>f_key_mac := hmac_spec (st_key (demo_store d)) (concat (map signed_part gs))\<rparr>]
      else [zero_frame])"

definition demo_ioctl :: "mmc_ioc_cmd \<Rightarrow> rpmb_frame list \<Rightarrow> demo_rpmb \<Rightarrow> int \<times> int \<times> rpmb_frame list \<times> demo_rpmb" where
  "demo_ioctl c buf d =
     (if write_flag c = 0 then (0, 0, demo_answer d (unat (blocks c)), d)
      else let f = hd buf; t = swap16 (f_req_resp f); st = demo_store d in
        if t = MMC_RPMB_READ_RESP then (0, 0, [], d)
        else if t = MMC_RPMB_WRITE \<and> swap32 (f_write_counter f) = st_counter st \<and> st_counter st \<noteq> 0xFFFFFFFF \<and>
            f_key_mac f = hmac_spec (st_key st) (signed_part f)
        then (0, 0, [], \<lparr>demo_store = st\<lparr>st_counter := st_counter st + 1, st_block := (st_block st)(swap16 (f_addr f) := f_data f)\<rparr>,
               demo_req = f\<rparr>)
        else (0, 0, [], d\<lparr>demo_req := f\<rparr>))"

definition demo_env_r :: "demo_rpmb rpmb_env" where
  "demo_env_r =
     (let c = sha256_init (replicate 128 0) in
      \<lparr>r_ioctl = demo_ioctl, r_open = (\<lambda>_. True),
       in_file = (\<lambda>name. Some [Bytes (replicate (if name = ''key'' then 32 else 256) 7)]), out_file = (\<lambda>_. Some []), std_out = [],
       calloc_ok = True, stack_frame = zero_frame,
       stack_ctx = \<lparr>ctx_inside = c, ctx_outside = c, ctx_inside_reinit = c, ctx_outside_reinit = c,
         block_ipad = replicate 64 0, block_opad = replicate 64 0\<rparr>\<rparr>)"

definition demo_start :: "demo_rpmb rpmb_state" where
  "demo_start = \<lparr>r_dev = \<lparr>demo_store = \<lparr>st_key = replicate 32 7, st_counter = 0, st_block = (\<lambda>_. [])\<rparr>, demo_req = zero_frame\<rparr>,
     r_stdin = [], r_out = [], r_counter = None\<rparr>"

lemma length_block256 [simp]: "length (block256 bs) = 256"
  by (simp add: block256_def)

lemma block256_id: "length bs = 256 \<Longrightarrow> block256 bs = bs"
  by (simp add: block256_def)

lemma wf_demo_answer: "list_all wf_frame (demo_answer d n)"
  by (auto simp: demo_answer_def Let_def list_all_length nth_list_update demo_blocks_def demo_contents_def wf_frame_def zero_frame_def)

lemma wf_demo_env: "wf_env demo_env_r"
  by (auto simp: wf_env_def demo_env_r_def Let_def hmac_fits_def sha256_init_def wf_zero_frame demo_ioctl_def wf_demo_answer split: if_splits)

lemma demo_flags [simp]: "write_flag rpmb_request = 1" "write_flag (rpmb_response n) = 0" "blocks (rpmb_response n) = of_nat n"
  by (simp_all add: rpmb_request_def rpmb_response_def)

lemma zero_result [simp]: "f_result zero_frame = 0"
  by (simp add: zero_frame_def)

lemma demo_counter_law: "counter_law demo_env_r demo_contents"
  by (auto simp: counter_law_def answers_def demo_env_r_def Let_def demo_ioctl_def demo_answer_def demo_contents_def rpmb_types)

lemma demo_write_law: "write_law demo_env_r demo_contents"
proof -
  have "(1 :: 32 word) OR push_bit 31 1 \<noteq> 0" by simp
  then show ?thesis
    by (auto simp: write_law_def answers_def demo_env_r_def Let_def demo_ioctl_def demo_answer_def demo_contents_def rpmb_types
        fun_eq_iff wf_frame_def block256_id)
qed

text \<open>Setting the code of the last frame changes nothing that is signed.\<close>

lemma map_update_same: "f y = f (xs ! i) \<Longrightarrow> map f (xs[i := y]) = map f xs"
  by (cases "i < length xs") (auto intro!: nth_equalityI simp: nth_list_update)

lemma last_update: "length xs = n \<Longrightarrow> 0 < n \<Longrightarrow> last (xs[n - 1 := y]) = y"
  by (auto simp: last_conv_nth)

lemma demo_read_law: "read_law demo_env_r demo_contents"
  unfolding read_law_def
proof (intro allI impI)
  fix d :: demo_rpmb and f :: rpmb_frame and buf and n :: nat
  assume a: "swap16 (f_req_resp f) = MMC_RPMB_READ \<and> 0 < n \<and> n < 65536"
  let ?d = "d\<lparr>demo_req := f\<rparr>"
  let ?gs = "demo_blocks ?d n"
  let ?g = "(?gs ! (n - 1))\<lparr>f_key_mac := hmac_spec (st_key (demo_store d)) (concat (map signed_part ?gs))\<rparr>"
  have len: "length ?gs = n" by (simp add: demo_blocks_def)
  have "unat (of_nat n :: 32 word) = n" using a by (simp add: unat_of_nat)
  then have "answers demo_env_r rpmb_request [f] d [] ?d" "answers demo_env_r (rpmb_response n) buf ?d (?gs[n - 1 := ?g]) ?d"
    using a by (auto simp: answers_def demo_env_r_def Let_def demo_ioctl_def demo_answer_def rpmb_types)
  moreover have "last (?gs[n - 1 := ?g]) = ?g" using a len by (intro last_update) simp_all
  moreover have "map signed_part (?gs[n - 1 := ?g]) = map signed_part ?gs" "map f_data (?gs[n - 1 := ?g]) = map f_data ?gs"
    by (rule map_update_same; simp add: signed_part_def)+
  moreover have "f_result ?g = 0" using a by (simp add: demo_blocks_def)
  moreover have "map f_data ?gs = map (\<lambda>i. st_block (demo_contents d) (swap16 (f_addr f) + of_nat i)) [0..<n]"
    by (simp add: demo_blocks_def demo_contents_def)
  moreover have "st_key (demo_contents d) = st_key (demo_store d)" "demo_contents ?d = demo_contents d"
    by (simp_all add: demo_contents_def)
  ultimately show "\<exists>new d1 gs d2. answers demo_env_r rpmb_request [f] d new d1 \<and> answers demo_env_r (rpmb_response n) buf d1 gs d2 \<and>
      demo_contents d2 = demo_contents d \<and> length gs = n \<and> f_result (last gs) = 0 \<and>
      map f_data gs = map (\<lambda>i. st_block (demo_contents d) (swap16 (f_addr f) + of_nat i)) [0..<n] \<and>
      f_key_mac (last gs) = hmac_spec (st_key (demo_contents d)) (concat (map signed_part gs))"
    using len by (intro exI [of _ "[]"] exI [of _ ?d] exI [of _ "?gs[n - 1 := ?g]"]) (simp del: map_update)
qed

lemma demo_strtol: "strtol ''0'' 0 = int 0" "strtol ''1'' 0 = int 1"
  by (simp_all add: strtol_def strtol_value_def digit_val_def is_space_def hex_prefix_def Let_def)

lemma demo_files:
  "open_input demo_env_r ''key'' = Some (File [Bytes (replicate 32 7)])"
  "open_input demo_env_r ''data'' = Some (File [Bytes (replicate 256 7)])"
  "out_file demo_env_r name = Some []" "calloc_ok demo_env_r" "r_open demo_env_r name"
  by (simp_all add: open_input_def demo_env_r_def Let_def)

lemma demo_key: "st_key (demo_contents (r_dev demo_start)) = replicate 32 7"
  by (simp add: demo_contents_def demo_start_def)

lemma demo_read:
  "\<exists>d'. do_rpmb_read_block demo_env_r [''mmc'', ''rpmb'', ''0'', ''1'', ''out'', ''key''] demo_start =
     Some (256, demo_start\<lparr>r_dev := d', r_out := replicate 256 0\<rparr>)"
proof -
  have "block256 [] = replicate 256 0" by (simp add: block256_def)
  then show ?thesis
    using read_block_ok [OF wf_demo_env demo_read_law demo_files(5) demo_strtol(1) _ demo_strtol(2) _ _ demo_files(4) _
        demo_files(3,1), of "''out''" demo_start "''mmc''" "''rpmb''"]
    by (auto simp: demo_key) (auto simp: demo_start_def demo_contents_def)
qed

section \<open>Properties\<close>

text \<open>
  Each of the four commands ends, whatever its arguments are, whatever the card answers, and however the
  bytes of its files arrive.
\<close>

theorem rpmb_commands_end:
  assumes "wf_env E"
  shows "do_rpmb_write_key E argv s \<noteq> None \<and> do_rpmb_read_counter E argv s \<noteq> None \<and>
    do_rpmb_read_block E argv s \<noteq> None \<and> do_rpmb_write_block E argv s \<noteq> None"
  using assms by (rule rpmb_ends)

theorem rpmb_commands_end_witness:
  "do_rpmb_write_block demo_env_r [''mmc'', ''rpmb'', ''0'', ''data'', ''key''] demo_start \<noteq> None"
  using rpmb_commands_end [OF wf_demo_env] by blast

text \<open>
  C11 When \<open>rpmb read-block\<close> is given a key, not a byte of the output is written unless the answer of the card
  carries, in its last frame, the HMAC-SHA-256 under that key of all its frames, and reports success. What
  is written is the front of the data of these frames.
\<close>

theorem rpmb_verified_output:
  assumes "wf_env E" "length argv = 6" "do_rpmb_read_block E argv s = Some (ret, s')" "r_out s' \<noteq> r_out s"
  shows "\<exists>key_fd key s1 frames n. open_input E (argv ! 5) = Some key_fd \<and> read_input key_fd 32 s = Some (Some key, s1) \<and>
    do_rpmb_op E (Some (read_request (arg16 (argv ! 2)))) (Some (replicate (unat (arg16 (argv ! 3))) zero_frame))
      (unat (arg16 (argv ! 3))) (r_dev s) = (0, frames, r_dev s') \<and>
    f_result (last frames) = 0 \<and> f_key_mac (last frames) = hmac_spec key (concat (map signed_part frames)) \<and>
    r_out s' = r_out s @ take n (concat (map f_data frames))"
proof -
  let ?n = "unat (arg16 (argv ! 3))"
  obtain key_fd key s1 frames d fd where o: "open_input E (argv ! 5) = Some key_fd" "read_input key_fd 32 s = Some (Some key, s1)"
      "do_rpmb_op E (Some (read_request (arg16 (argv ! 2)))) (Some (replicate ?n zero_frame)) ?n (r_dev s) = (0, frames, d)"
      "deliver E fd (Some key) frames (s1\<lparr>r_dev := d\<rparr>) = Some (ret, s')"
    using assms(2-) read_input_frame [of _ 32 s]
    by (auto simp: do_rpmb_read_block_def Let_def split: if_splits option.splits Option.bind_splits prod.splits)
  note fr = read_frames [OF assms(1) o(3)]
  have n: "length frames < 65536" using fr unsigned_less [of "arg16 (argv ! 3)"] by simp
  have s1: "r_out s1 = r_out s" using read_input_frame [OF o(2)] by simp
  have key: "length key = 32" using read_input_length [OF _ o(2)] by simp
  obtain n where d: "s' = s1\<lparr>r_dev := d, r_out := r_out s @ take n (concat (map f_data frames))\<rparr>"
      "n = 0 \<or> f_result (last frames) = 0 \<and> mac_matches E key frames"
    using deliver_ends [of frames E fd "Some key" "s1\<lparr>r_dev := d\<rparr>"] fr o(4) s1 by auto
  then have "f_result (last frames) = 0 \<and> mac_matches E key frames" using assms(4) by auto
  then show ?thesis
    using o d(1) mac_matches_iff [OF assms(1) key _ n] fr by auto
qed


theorem rpmb_verified_output_witness:
  "\<exists>ret s'. do_rpmb_read_block demo_env_r [''mmc'', ''rpmb'', ''0'', ''1'', ''out'', ''key''] demo_start = Some (ret, s') \<and>
    (\<exists>key frames. f_key_mac (last frames) = hmac_spec key (concat (map signed_part frames)) \<and>
       (\<exists>n. r_out s' = take n (concat (map f_data frames))))"
proof -
  obtain d' where r: "do_rpmb_read_block demo_env_r [''mmc'', ''rpmb'', ''0'', ''1'', ''out'', ''key''] demo_start =
      Some (256, demo_start\<lparr>r_dev := d', r_out := replicate 256 0\<rparr>)" using demo_read by blast
  then show ?thesis
    using rpmb_verified_output [OF wf_demo_env _ r] by (fastforce simp: demo_start_def)
qed

text \<open>
  C12 On a card that keeps its promises and whose write counter is not used up, a block written with
  \<open>rpmb write-block\<close> under the card's key is read back by \<open>rpmb read-block\<close>, verified, and written to the
  output unchanged; the write counter goes up by one.
  The result of reading is 256, the result of the last \<open>DO_IO\<close>, which a process exits with as status 0.
\<close>

theorem rpmb_write_read:
  assumes "wf_env E" "counter_law E A" "write_law E A" "read_law E A" "calloc_ok E" "r_open E dev"
    and "strtol addr 0 = int a" "a < 65536" "ofile \<noteq> ''-''" "out_file E ofile = Some []"
    and "open_input E dfile = Some (File dp)" "clean dp" "256 \<le> length (stream_bytes dp)"
    and "open_input E kfile = Some (File kp)" "clean kp" "32 \<le> length (stream_bytes kp)" "take 32 (stream_bytes kp) = st_key (A (r_dev s))"
    and "st_counter (A (r_dev s)) \<noteq> 0xFFFFFFFF"
  shows "\<exists>s1 s2. do_rpmb_write_block E [p, dev, addr, dfile, kfile] s = Some (0, s1) \<and>
    st_counter (A (r_dev s1)) = st_counter (A (r_dev s)) + 1 \<and>
    do_rpmb_read_block E [p, dev, addr, ''1'', ofile, kfile] s1 = Some (256, s2) \<and>
    r_out s2 = r_out s @ take 256 (stream_bytes dp)"
proof -
  obtain d1 where w: "do_rpmb_write_block E [p, dev, addr, dfile, kfile] s = Some (0, s\<lparr>r_dev := d1\<rparr>)"
      "A d1 = (A (r_dev s))\<lparr>st_counter := st_counter (A (r_dev s)) + 1,
        st_block := (st_block (A (r_dev s)))(of_nat a := take 256 (stream_bytes dp))\<rparr>"
    using write_block_ok [OF assms(1-3,6-8,11-18)] by blast
  have "take 32 (stream_bytes kp) = st_key (A (r_dev (s\<lparr>r_dev := d1\<rparr>)))" using w(2) assms(17) by simp
  with demo_strtol(2) obtain d2 where "do_rpmb_read_block E [p, dev, addr, ''1'', ofile, kfile] (s\<lparr>r_dev := d1\<rparr>) =
      Some (256, s\<lparr>r_dev := d2, r_out := r_out s @ take 256 (stream_bytes dp)\<rparr>)"
    using read_block_ok [OF assms(1,4,6-8), of "''1''" 1 ofile kfile kp "s\<lparr>r_dev := d1\<rparr>" p] assms(5,9,10,14-16) w(2) by auto
  then show ?thesis using w by fastforce
qed


theorem rpmb_write_read_witness:
  "\<exists>s1 s2. do_rpmb_write_block demo_env_r [''mmc'', ''rpmb'', ''0'', ''data'', ''key''] demo_start = Some (0, s1) \<and>
     do_rpmb_read_block demo_env_r [''mmc'', ''rpmb'', ''0'', ''1'', ''out'', ''key''] s1 = Some (256, s2) \<and>
     r_out s2 = replicate 256 7"
  using rpmb_write_read [OF wf_demo_env demo_counter_law demo_write_law demo_read_law demo_files(4,5) demo_strtol(1) _ _
      demo_files(3,2) _ _ demo_files(1), of "''out''" demo_start "''mmc''" "''rpmb''"]
  by (auto simp: demo_key) (auto simp: demo_start_def demo_contents_def)

text \<open>
  The frame that \<open>rpmb write-block\<close> sends: what its code covers are the data, an empty nonce, the counter,
  the address, a count of one and the request type, each with its high byte first in memory, and the code is
  the HMAC-SHA-256 of these 284 bytes.
\<close>

theorem write_frame_layout:
  assumes "wf_env E" "length key = 32" "length data = 256"
    "m = data @ replicate 16 0 @ be_bytes 4 (unat cnt) @ be_bytes 2 (unat addr) @ be_bytes 2 1 @ be_bytes 2 0 @ be_bytes 2 3"
  shows "signed_part (write_frame E cnt addr data key) = m \<and> f_key_mac (write_frame E cnt addr data key) = hmac_spec key m \<and>
    wf_frame (write_frame E cnt addr data key)"
proof -
  have "le16 0 = be_bytes 2 0" by (simp add: le16_def be_bytes_def upt_rec)
  then have "signed_part (write_frame E cnt addr data key) = m"
    by (simp add: assms(4) signed_part_def write_frame_def Let_def zero_frame_def le16_swap16 le32_swap32 rpmb_types)
  then show ?thesis using write_frame_mac [OF assms(1-3), of cnt addr] by simp
qed

theorem write_frame_layout_witness:
  "\<exists>m. signed_part (write_frame demo_env_r 1 2 (replicate 256 7) (replicate 32 7)) = m \<and> length m = 284 \<and>
     f_key_mac (write_frame demo_env_r 1 2 (replicate 256 7) (replicate 32 7)) = hmac_spec (replicate 32 7) m"
  using write_frame_layout [OF wf_demo_env, of "replicate 32 7" "replicate 256 7" _ 1 2]
  by (auto simp: be_bytes_def)

text \<open>
  C40 The verification of \<open>rpmb read-block\<close> does not tie the answer to the request: frames with a valid code that
  were recorded before are accepted again, for whatever address is asked, whatever their own addresses, nonces
  and types are. The request carries no nonce, and of the answer only the result and the code are looked at.
\<close>

theorem rpmb_replay_accepted:
  assumes "wf_env E" "\<And>c buf d. \<exists>e. r_ioctl E c buf d = (0, e, frames, d)"
    and "f_result (last frames) = 0" "f_key_mac (last frames) = hmac_spec (take 32 (stream_bytes kp)) (concat (map signed_part frames))"
    and "r_open E dev" "strtol addr 0 = int a" "a < 65536" "strtol cnt 0 = int (length frames)" "frames \<noteq> []" "length frames < 65536"
    and "calloc_ok E" "ofile \<noteq> ''-''" "out_file E ofile = Some []"
    and "open_input E kfile = Some (File kp)" "clean kp" "32 \<le> length (stream_bytes kp)"
  shows "do_rpmb_read_block E [p, dev, addr, cnt, ofile, kfile] s = Some (256, s\<lparr>r_out := r_out s @ concat (map f_data frames)\<rparr>)"
proof -
  have "do_rpmb_op E (Some (read_request (of_nat a))) (Some (replicate (length frames) zero_frame)) (length frames) (r_dev s)
      = (0, frames, r_dev s)"
    using assms(2) [of rpmb_request "[read_request (of_nat a)]" "r_dev s"]
      assms(2) [of "rpmb_response (length frames)" "replicate (length frames) zero_frame" "r_dev s"] assms(9)
    by (auto simp: do_rpmb_op_def Let_def rpmb_types)
  from read_block_delivers [OF assms(1,5-8) _ assms(10-16) this assms(3,4), of p] assms(9) show ?thesis by simp
qed

theorem rpmb_replay_accepted_witness:
  "\<exists>E (frames :: rpmb_frame list). do_rpmb_read_block E [''mmc'', ''rpmb'', ''0'', ''1'', ''out'', ''key''] demo_start
     = Some (256, demo_start\<lparr>r_out := concat (map f_data frames)\<rparr>) \<and> f_addr (hd frames) = 9"
proof -
  let ?f = "zero_frame\<lparr>f_addr := 9\<rparr>"
  let ?g = "?f\<lparr>f_key_mac := hmac_spec (replicate 32 7) (signed_part ?f)\<rparr>"
  let ?E = "demo_env_r\<lparr>r_ioctl := (\<lambda>c buf d. (0, 0, [?g], d))\<rparr>"
  have "wf_env ?E" using wf_demo_env by (auto simp: wf_env_def wf_frame_def zero_frame_def)
  moreover have "open_input ?E ''key'' = Some (File [Bytes (replicate 32 7)])" "out_file ?E ''out'' = Some []"
    using demo_files by (simp_all add: open_input_def)
  ultimately have "do_rpmb_read_block ?E [''mmc'', ''rpmb'', ''0'', ''1'', ''out'', ''key''] demo_start
     = Some (256, demo_start\<lparr>r_out := r_out demo_start @ concat (map f_data [?g])\<rparr>)"
    using demo_strtol demo_files(4,5)
    by (intro rpmb_replay_accepted [where a = 0 and kp = "[Bytes (replicate 32 7)]"]) (simp_all add: signed_part_def)
  then show ?thesis by (intro exI [of _ ?E] exI [of _ "[?g]"]) (simp add: demo_start_def)
qed

end
