(* ===== verification/Mmc_Tool.thy ===== *)
theory Mmc_Tool
  imports Mmc_Args Mmc_Report Mmc_Rpmb
begin

text \<open>
  The \<^verbatim>\<open>mmc\<close> tool as a whole: \<open>main\<close> of \<^verbatim>\<open>mmc_utils/mmc.c\<close> with the commands of \<^verbatim>\<open>mmc_utils/mmc_cmds.c\<close> that its
  table names, on one card, which both kinds of requests go to.
\<close>

section \<open>The tool\<close>

definition register_command :: "('d card \<Rightarrow> string list \<Rightarrow> 'd \<Rightarrow> 'd result) \<Rightarrow> 'd card \<Rightarrow> string list \<Rightarrow> 'd rpmb_state
    \<Rightarrow> (int \<times> string list \<times> 'd rpmb_state) option" where
  "register_command f C args s = map_option (\<lambda>(ret, d). (ret, [], s\<lparr>r_dev := d\<rparr>)) (f C args (r_dev s))"

definition text_command :: "('d card \<Rightarrow> string list \<Rightarrow> 'd \<Rightarrow> int \<times> string list \<times> 'd) \<Rightarrow> 'd card \<Rightarrow> string list \<Rightarrow> 'd rpmb_state
    \<Rightarrow> (int \<times> string list \<times> 'd rpmb_state) option" where
  "text_command f C args s = (let (ret, out, d) = f C args (r_dev s) in Some (ret, out, s\<lparr>r_dev := d\<rparr>))"

definition rpmb_command :: "('d rpmb_env \<Rightarrow> string list \<Rightarrow> 'd rpmb_state \<Rightarrow> (int \<times> 'd rpmb_state) option) \<Rightarrow> 'd rpmb_env \<Rightarrow> string list
    \<Rightarrow> 'd rpmb_state \<Rightarrow> (int \<times> string list \<times> 'd rpmb_state) option" where
  "rpmb_command f E args s = map_option (\<lambda>(ret, s). (ret, [], s)) (f E args s)"

text \<open>\<open>func(nargs, args)\<close> for the functions of the table; the dump goes to the output as bytes.\<close>

fun run_command :: "'d card \<Rightarrow> 'd rpmb_env \<Rightarrow> CommandFunction \<Rightarrow> string list \<Rightarrow> 'd rpmb_state
    \<Rightarrow> (int \<times> string list \<times> 'd rpmb_state) option" where
  "run_command C E Do_dump_extcsd args s =
     (let (ret, out, d) = do_dump_extcsd C args (r_dev s) in Some (ret, [], s\<lparr>r_dev := d, r_out := r_out s @ out\<rparr>))"
| "run_command C E Do_read_extcsd args s = text_command do_read_extcsd C args s"
| "run_command C E Do_writeprotect_get args s = text_command do_writeprotect_get C args s"
| "run_command C E Do_write_extcsd_byte args s = register_command do_write_extcsd_byte C args s"
| "run_command C E Do_writeprotect_set args s = register_command do_writeprotect_set C args s"
| "run_command C E Do_disable_512B_emulation args s = register_command do_disable_512B_emulation C args s"
| "run_command C E Do_create_gp_partition args s = register_command do_create_gp_partition C args s"
| "run_command C E Do_enh_area_set args s = register_command do_enh_area_set C args s"
| "run_command C E Do_write_reliability_set args s = register_command do_write_reliability_set C args s"
| "run_command C E Do_status_get args s = register_command do_status_get C args s"
| "run_command C E Do_write_boot_en args s = register_command do_write_boot_en C args s"
| "run_command C E Do_boot_bus_conditions_set args s = register_command do_boot_bus_conditions_set C args s"
| "run_command C E Do_write_bkops_en args s = register_command do_write_bkops_en C args s"
| "run_command C E Do_hwreset_en args s = register_command do_hwreset_en C args s"
| "run_command C E Do_hwreset_dis args s = register_command do_hwreset_dis C args s"
| "run_command C E Do_sanitize args s = register_command do_sanitize C args s"
| "run_command C E Do_cache_en args s = register_command do_cache_en C args s"
| "run_command C E Do_cache_dis args s = register_command do_cache_dis C args s"
| "run_command C E Do_rpmb_write_key args s = rpmb_command do_rpmb_write_key E args s"
| "run_command C E Do_rpmb_read_counter args s = rpmb_command do_rpmb_read_counter E args s"
| "run_command C E Do_rpmb_read_block args s = rpmb_command do_rpmb_read_block E args s"
| "run_command C E Do_rpmb_write_block args s = rpmb_command do_rpmb_write_block E args s"

text \<open>The status of the process is the low byte of what \<open>exit\<close> is given. The error output is left out.\<close>

definition main :: "'d card \<Rightarrow> 'd rpmb_env \<Rightarrow> bool \<Rightarrow> string list \<Rightarrow> 'd rpmb_state \<Rightarrow> (int \<times> string list \<times> 'd rpmb_state) option" where
  "main C E memory av s = do {
     p \<leftarrow> parse_args memory av;
     case p of
       Stop r out err \<Rightarrow> Some ((- r) mod 256, [out], s)
     | Call f args \<Rightarrow> do { (ret, out, s) \<leftarrow> run_command C E f args s; Some (ret mod 256, out, s) } }"

section \<open>Requests to the protected memory\<close>

text \<open>They change no register of the card.\<close>

definition rpmb_quiet :: "'d rpmb_env \<Rightarrow> ('d \<Rightarrow> u8 list) \<Rightarrow> bool" where
  "rpmb_quiet E R \<longleftrightarrow> (\<forall>c buf d ret e new d'. r_ioctl E c buf d = (ret, e, new, d') \<longrightarrow> R d' = R d)"

lemma op_quiet: "rpmb_quiet E R \<Longrightarrow> do_rpmb_op E f out n d = (ret, out', d') \<Longrightarrow> R d' = R d"
  by (auto simp: do_rpmb_op_def rpmb_quiet_def Let_def split: option.splits prod.splits if_splits)

lemma counter_quiet: "rpmb_quiet E R \<Longrightarrow> rpmb_read_counter E d = (r, d') \<Longrightarrow> R d' = R d"
  by (auto simp: rpmb_read_counter_def Let_def split: prod.splits if_splits dest: op_quiet)

lemma deliver_quiet: "deliver E fd key frames s = Some (ret, s') \<Longrightarrow> r_dev s' = r_dev s"
  by (auto simp: deliver_def split: if_splits option.splits Option.bind_splits)

lemma rpmb_commands_quiet:
  assumes "rpmb_quiet E R"
  shows "do_rpmb_write_key E argv s = Some (ret, s') \<Longrightarrow> R (r_dev s') = R (r_dev s)"
    "do_rpmb_read_counter E argv s = Some (ret, s') \<Longrightarrow> R (r_dev s') = R (r_dev s)"
    "do_rpmb_read_block E argv s = Some (ret, s') \<Longrightarrow> R (r_dev s') = R (r_dev s)"
    "do_rpmb_write_block E argv s = Some (ret, s') \<Longrightarrow> R (r_dev s') = R (r_dev s)"
  by (auto simp: do_rpmb_write_key_def do_rpmb_read_counter_def do_rpmb_read_block_def do_rpmb_write_block_def Let_def
      split: option.splits Option.bind_splits prod.splits if_splits sum.splits
      dest!: op_quiet [OF assms] counter_quiet [OF assms] deliver_quiet read_input_frame)


section \<open>Arguments\<close>

text \<open>The arguments of a function, after the name of the command, are arguments of the command line.\<close>

lemma call_args:
  assumes "parse_args memory av = Some (Call f args)"
  shows "set (tl args) \<subseteq> set av \<and> args \<noteq> []"
  using assms
  by (auto simp: parse_args_def prepare_args_def Let_def dest: in_set_dropD
      split: list.splits if_splits prod.splits option.splits Option.bind_splits)

lemma arg1: "''-y'' \<notin> set (tl args) \<Longrightarrow> 2 \<le> length args \<Longrightarrow> args ! 1 \<noteq> ''-y''"
  by (cases args; cases "tl args") auto

lemma keeps_mono: "keeps R S r res \<Longrightarrow> S \<subseteq> T \<Longrightarrow> keeps R T r res"
  by (auto simp: keeps_def split: option.splits)

lemma need_args_keeps: "(length argv = n \<Longrightarrow> keeps R S (R d) k) \<Longrightarrow> keeps R S (R d) (need_args n argv d k)"
  by (auto simp: need_args_def keeps_def)

text \<open>Without \<^verbatim>\<open>-y\<close> no partitioning command touches the register that completes a partitioning.\<close>

abbreviation other_regs :: "nat set" where
  "other_regs \<equiv> - {EXT_CSD_PARTITION_SETTING_COMPLETED}"

lemma partitioning_keeps:
  assumes "card_frame C R" "''-y'' \<notin> set (tl args)"
  shows "keeps R other_regs (R d) (do_create_gp_partition C args d)"
    "keeps R other_regs (R d) (do_enh_area_set C args d)"
    "keeps R other_regs (R d) (do_write_reliability_set C args d)"
proof -
  have d: "do_create_gp_partition C args d = (if length args = 7 then do_create_gp_partition C args d else Some (1, d))"
    "do_enh_area_set C args d = (if length args = 5 then do_enh_area_set C args d else Some (1, d))"
    "do_write_reliability_set C args d = (if length args = 4 then do_write_reliability_set C args d else Some (1, d))"
    by (auto simp: do_create_gp_partition_def do_enh_area_set_def do_write_reliability_set_def need_args_def)
  have "args ! 1 \<noteq> ''-y''" if "2 \<le> length args" using arg1 [OF assms(2)] that by simp
  then have "gp_regs args \<subseteq> other_regs" "enh_area_regs args \<subseteq> other_regs"
    "{EXT_CSD_WR_REL_SET} \<union> completed_regs args \<subseteq> other_regs" if "2 \<le> length args"
    using that by (auto simp: reg_sets mmc_consts)
  note sub = this
  have s: "keeps R other_regs (R d) (Some (1, d))" by (simp add: keeps_def)
  show "keeps R other_regs (R d) (do_create_gp_partition C args d)"
    using keeps_mono [OF gp_keeps [OF assms(1)] sub(1)] s by (subst d(1)) auto
  show "keeps R other_regs (R d) (do_enh_area_set C args d)"
    using keeps_mono [OF enh_area_keeps [OF assms(1)] sub(2)] s by (subst d(2)) auto
  show "keeps R other_regs (R d) (do_write_reliability_set C args d)"
    using keeps_mono [OF reliability_keeps [OF assms(1)] sub(3)] s by (subst d(3)) auto
qed

text \<open>The kinds of commands, for one register.\<close>

lemma reading_command_same:
  assumes "card_frame C R"
  shows "text_command (reading_command k) C args s = Some (ret, out, s') \<Longrightarrow> R (r_dev s') = R (r_dev s)"
    "run_command C E Do_dump_extcsd args s = Some (ret, out, s') \<Longrightarrow> R (r_dev s') = R (r_dev s)"
  using reading_keeps [OF assms, of k args "r_dev s"] reading_keeps [OF assms, of "\<lambda>e. e" args "r_dev s"]
  by (auto simp: text_command_def do_dump_extcsd_def split_beta Let_def)

lemma single_keeps:
  assumes "card_frame C R"
  shows "keeps R other_regs (R d) (do_writeprotect_set C args d)" "keeps R other_regs (R d) (do_disable_512B_emulation C args d)"
    "keeps R other_regs (R d) (do_write_boot_en C args d)" "keeps R other_regs (R d) (do_boot_bus_conditions_set C args d)"
    "keeps R other_regs (R d) (do_hwreset_en C args d)" "keeps R other_regs (R d) (do_hwreset_dis C args d)"
    "keeps R other_regs (R d) (do_write_bkops_en C args d)" "keeps R other_regs (R d) (do_sanitize C args d)"
    "keeps R other_regs (R d) (do_cache_en C args d)" "keeps R other_regs (R d) (do_cache_dis C args d)"
    "keeps R other_regs (R d) (do_status_get C args d)"
  unfolding do_hwreset_en_def do_hwreset_dis_def do_cache_en_def do_cache_dis_def
  by (rule keeps_mono, rule single_register_keeps [OF assms] status_keeps [OF assms], simp add: mmc_consts)+

lemma run_keeps_completed:
  assumes "card_frame C R" "rpmb_quiet E R" "''-y'' \<notin> set (tl args)" "f \<noteq> Do_write_extcsd_byte"
    "run_command C E f args s = Some (ret, out, s')"
  shows "R (r_dev s') ! EXT_CSD_PARTITION_SETTING_COMPLETED = R (r_dev s) ! EXT_CSD_PARTITION_SETTING_COMPLETED"
proof -
  note k = single_keeps [OF assms(1), of "r_dev s" args] partitioning_keeps [OF assms(1,3), of "r_dev s"]
  show ?thesis
    using assms(4,5) k reading_command_same [OF assms(1)] rpmb_commands_quiet [OF assms(2)]
    by (cases f) (auto simp: do_read_extcsd_def do_writeprotect_get_def rpmb_command_def register_command_def keeps_def)
qed


section \<open>Commands without a fault\<close>

lemma device_ends:
  "k \<noteq> None \<Longrightarrow> need_args n argv d k \<noteq> None"
  "(\<And>d. k1 d \<noteq> None) \<Longrightarrow> opened C device d k1 \<noteq> None"
  "(\<And>e d. k2 e d \<noteq> None) \<Longrightarrow> with_extcsd C device d k2 \<noteq> None"
  "(\<And>d. k1 d \<noteq> None) \<Longrightarrow> checked_write C i v d k1 \<noteq> None"
  by (simp_all add: need_args_def opened_def with_extcsd_def checked_write_def Let_def split: prod.splits del: not_None_eq)

lemma single_ends:
  "do_write_extcsd_byte C args d \<noteq> None" "do_writeprotect_set C args d \<noteq> None" "do_disable_512B_emulation C args d \<noteq> None"
  "do_write_boot_en C args d \<noteq> None" "do_boot_bus_conditions_set C args d \<noteq> None" "do_hwreset C v args d \<noteq> None"
  "do_write_bkops_en C args d \<noteq> None" "do_sanitize C args d \<noteq> None" "do_cache_ctrl C v args d \<noteq> None" "do_status_get C args d \<noteq> None"
  unfolding do_write_extcsd_byte_def do_writeprotect_set_def do_disable_512B_emulation_def do_write_boot_en_def
    do_boot_bus_conditions_set_def do_hwreset_def do_write_bkops_en_def do_sanitize_def do_cache_ctrl_def do_status_get_def
  by (intro device_ends ends_rules)+

lemma run_ends:
  assumes "wf_env E" "f \<notin> {Do_create_gp_partition, Do_enh_area_set, Do_write_reliability_set}"
  shows "run_command C E f args s \<noteq> None"
proof -
  have "do_rpmb_write_key E args s \<noteq> None" "do_rpmb_read_counter E args s \<noteq> None" "do_rpmb_read_block E args s \<noteq> None"
    "do_rpmb_write_block E args s \<noteq> None"
    using rpmb_ends [OF assms(1)] by blast+
  moreover have "register_command g C args s = None \<longleftrightarrow> g C args (r_dev s) = None" for g
    by (simp add: register_command_def)
  ultimately show ?thesis
    using assms(2) single_ends
    by (cases f) (simp_all add: text_command_def rpmb_command_def do_hwreset_en_def do_hwreset_dis_def do_cache_en_def do_cache_dis_def
        split_beta del: not_None_eq)
qed

section \<open>Properties\<close>

text \<open>An instance: the card of the register commands, whose driver answers requests to the protected memory with nothing.\<close>

definition demo_env_q :: "(nat \<Rightarrow> u8) rpmb_env" where
  "demo_env_q = \<lparr>r_ioctl = (\<lambda>_ _ d. (0, 0, [], d)), r_open = (\<lambda>_. True), in_file = in_file demo_env_r, out_file = out_file demo_env_r,
     std_out = [], calloc_ok = True, stack_frame = zero_frame, stack_ctx = stack_ctx demo_env_r\<rparr>"

definition demo_start_q :: "(nat \<Rightarrow> u8) rpmb_state" where
  "demo_start_q = \<lparr>r_dev = (\<lambda>_. 0), r_stdin = [], r_out = [], r_counter = None\<rparr>"

definition demo_line :: "string list" where
  "demo_line = [''/sbin/mmc'', ''write_reliability'', ''set'', ''-n'', ''1'', ''/dev/mmcblk0'']"

lemma demo_quiet: "rpmb_quiet demo_env_q R"
  by (simp add: rpmb_quiet_def demo_env_q_def)

lemma demo_call:
  "parse_args True demo_line =
     Some (Call Do_write_reliability_set [''mmc write_reliability set'', ''-n'', ''1'', ''/dev/mmcblk0''])"
  by code_simp

text \<open>
  C10 Whatever its command line is, the tool leaves the one-time programmable register PARTITION_SETTING_COMPLETED
  of the card as it was, unless \<^verbatim>\<open>-y\<close> is among the arguments or the command is the one that writes a register
  by its number.
\<close>

theorem tool_keeps_completed:
  assumes "card_frame C R" "rpmb_quiet E R" "''-y'' \<notin> set av" "\<And>args. parse_args memory av \<noteq> Some (Call Do_write_extcsd_byte args)"
    "main C E memory av s = Some (code, out, s')"
  shows "R (r_dev s') ! EXT_CSD_PARTITION_SETTING_COMPLETED = R (r_dev s) ! EXT_CSD_PARTITION_SETTING_COMPLETED"
proof -
  obtain p where p: "parse_args memory av = Some p" using assms(5) by (auto simp: main_def split: Option.bind_splits)
  show ?thesis
  proof (cases p)
    case (Stop r o' e)
    then show ?thesis using assms(5) p by (simp add: main_def)
  next
    case (Call f args)
    then obtain ret where "run_command C E f args s = Some (ret, out, s')"
      using assms(5) p by (auto simp: main_def split: Option.bind_splits)
    moreover have "''-y'' \<notin> set (tl args)" using call_args [of memory av f args] p Call assms(3) by auto
    moreover have "f \<noteq> Do_write_extcsd_byte" using assms(4) p Call by auto
    ultimately show ?thesis using run_keeps_completed [OF assms(1,2)] by blast
  qed
qed

theorem tool_keeps_completed_witness:
  "\<exists>code out s'. main demo_card demo_env_q True demo_line demo_start_q = Some (code, out, s') \<and> demo_regs (r_dev s') ! 155 = 0"
proof -
  obtain d1 where "\<And>k. with_extcsd demo_card ''/dev/mmcblk0'' (\<lambda>_. 0) k = k (demo_regs (\<lambda>_. 0)) d1"
    using works_extcsd [OF demo_card_works demo_open] by blast
  then obtain code out s' where m: "main demo_card demo_env_q True demo_line demo_start_q = Some (code, out, s')"
    by (simp add: main_def demo_call register_command_def demo_start_q_def do_write_reliability_set_def need_args_def Let_def mmc_consts)
  show ?thesis
    using tool_keeps_completed [OF works_frame [OF demo_card_works] demo_quiet _ _ m] m
    by (auto simp: demo_call mmc_consts demo_start_q_def) (auto simp: demo_line_def)
qed

text \<open>
  C27 The tool ends with an exit status for every command line, every card and all files, unless the command is one of
  the three that partition the card, which divide by the card's group size and shift by an argument.
\<close>

theorem tool_ends:
  assumes "wf_env E" "av \<noteq> []"
    "\<And>f args. parse_args memory av = Some (Call f args) \<Longrightarrow> f \<notin> {Do_create_gp_partition, Do_enh_area_set, Do_write_reliability_set}"
  shows "\<exists>code out s'. main C E memory av s = Some (code, out, s') \<and> 0 \<le> code \<and> code < 256"
proof -
  obtain p0 args0 where "av = p0 # args0" using assms(2) by (cases av) auto
  then obtain p where p: "parse_args memory av = Some p" using parse_args_defined by blast
  show ?thesis
  proof (cases p)
    case (Stop r out e)
    then show ?thesis using p by (simp add: main_def)
  next
    case (Call f args)
    then have "run_command C E f args s \<noteq> None" using run_ends [OF assms(1) assms(3)] p by blast
    then show ?thesis using p Call by (auto simp: main_def)
  qed
qed

theorem tool_ends_witness:
  "\<exists>code out s'. main demo_card demo_env_q True [''/sbin/mmc'', ''rpmb'', ''read-counter'', ''/dev/mmcblk0rpmb''] demo_start_q
     = Some (code, out, s') \<and> 0 \<le> code \<and> code < 256"
proof -
  have "parse_args True [''/sbin/mmc'', ''rpmb'', ''read-counter'', ''/dev/mmcblk0rpmb''] =
      Some (Call Do_rpmb_read_counter [''mmc rpmb read-counter'', ''/dev/mmcblk0rpmb''])"
    by code_simp
  moreover have "wf_env demo_env_q"
    using wf_demo_env by (auto simp: wf_env_def demo_env_q_def wf_zero_frame)
  ultimately show ?thesis by (intro tool_ends) simp_all
qed

end
