(* ===== verification/Init_Storage.thy ===== *)
theory Init_Storage
  imports Byte_Words "HOL-Library.Sublist"
begin

text \<open>
  The vendor part of \<^verbatim>\<open>init\<close>, \<^verbatim>\<open>init/init_d10f.c\<close>: at boot it decides which of the two MMC controllers
  carries the primary storage, writes the table of volumes for \<^verbatim>\<open>vold\<close> from a template, and the list of
  storages for the framework. The property service, the directory of persistent properties and the file
  system are parameters. A store or a read outside a buffer is the result \<open>None\<close>.
\<close>

unbundle bit_operations_syntax

section \<open>Text in buffers\<close>

abbreviation NUL :: char where
  "NUL \<equiv> CHR 0x00"

definition cstr :: "string \<Rightarrow> string" where
  "cstr buf = takeWhile (\<lambda>c. c \<noteq> NUL) buf"

fun strstr :: "string \<Rightarrow> string \<Rightarrow> nat option" where
  "strstr [] needle = (if needle = [] then Some 0 else None)"
| "strstr (c # cs) needle = (if prefix needle (c # cs) then Some 0 else map_option Suc (strstr cs needle))"

text \<open>What follows the last \<open>c\<close>, which \<open>strrchr\<close> finds.\<close>

fun after_last :: "char \<Rightarrow> string \<Rightarrow> string option" where
  "after_last c [] = None"
| "after_last c (x # xs) = (case after_last c xs of Some r \<Rightarrow> Some r | None \<Rightarrow> if x = c then Some xs else None)"

definition atoi :: "string \<Rightarrow> int" where
  "atoi s = strtol s 10"

section \<open>Data\<close>

definition PERSISTENT_PROPERTY_PLANNED_SWAP :: string where
  "PERSISTENT_PROPERTY_PLANNED_SWAP = ''persist.storages.planned_swap''"
definition PERSISTENT_PROPERTY_SWAPPED :: string where
  "PERSISTENT_PROPERTY_SWAPPED = ''persist.storages.swapped''"

definition prop_forced_list :: "string list" where
  "prop_forced_list = [PERSISTENT_PROPERTY_PLANNED_SWAP]"

definition FILE_FSTAB_STORAGES :: string where "FILE_FSTAB_STORAGES = ''/fstab.storages''"
definition FILE_STORAGE_LIST :: string where "FILE_STORAGE_LIST = ''/data/system/storage_list.xml''"

definition STR_STORAGE_INTERNAL :: string where "STR_STORAGE_INTERNAL = ''@string/storage_internal''"
definition STR_STORAGE_SDCARD :: string where "STR_STORAGE_SDCARD = ''@string/storage_sd_card''"
definition STR_STORAGE_USB :: string where "STR_STORAGE_USB = ''@string/storage_usb''"

abbreviation STOR_PRIMARY :: nat where "STOR_PRIMARY \<equiv> 0"
abbreviation STOR_SECONDARY :: nat where "STOR_SECONDARY \<equiv> 1"

definition PATR_NUM_AUTO :: int where "PATR_NUM_AUTO = - 1"

record mount_point =
  mp_name :: string
  mp_path :: string

definition mnt_point :: "mount_point list" where
  "mnt_point =
     [\<lparr>mp_name = ''sdcard0'', mp_path = ''/storage/sdcard0''\<rparr>,
      \<lparr>mp_name = ''sdcard1'', mp_path = ''/storage/sdcard1''\<rparr>,
      \<lparr>mp_name = ''usbdisk'', mp_path = ''/storage/usbdisk''\<rparr>]"

record storage_item =
  emmc :: int
  sdcc :: int
  part_num :: int
  storageDescription :: string
  removable :: int
  emulated :: int
  mtpReserve :: int
  allowMassStorage :: int
  maxFileSize :: int

definition storage_list_init :: "storage_item list" where
  "storage_list_init =
     [\<lparr>emmc = 1, sdcc = 1, part_num = PATR_NUM_AUTO, storageDescription = STR_STORAGE_INTERNAL, removable = 0,
       emulated = 0, mtpReserve = 0, allowMassStorage = 0, maxFileSize = 0\<rparr>,
      \<lparr>emmc = 0, sdcc = 2, part_num = PATR_NUM_AUTO, storageDescription = STR_STORAGE_SDCARD, removable = 1,
       emulated = 0, mtpReserve = 0, allowMassStorage = 1, maxFileSize = 0\<rparr>,
      \<lparr>emmc = 0, sdcc = 3, part_num = PATR_NUM_AUTO, storageDescription = STR_STORAGE_USB, removable = 1,
       emulated = 0, mtpReserve = 0, allowMassStorage = 0, maxFileSize = 0\<rparr>]"

section \<open>The surroundings\<close>

record stat =
  st_mode :: "32 word"
  st_uid :: nat
  st_gid :: nat
  st_nlink :: nat

text \<open>An entry of the directory of persistent properties: what the calls on it give, in their order.\<close>

record dirent =
  d_name :: string
  d_regular :: bool
  d_opens :: bool
  d_stat :: "stat option"
  d_read :: "string option"

text \<open>
  \<open>property_get\<close> gives its result and the value. A path has the answer of \<open>access\<close> and what \<open>readlink\<close> finds.
\<close>

record 'p init_env =
  property_get :: "string \<Rightarrow> 'p \<Rightarrow> int \<times> string"
  property_set :: "string \<Rightarrow> string \<Rightarrow> 'p \<Rightarrow> 'p"
  PROP_VALUE_MAX :: nat
  HAVE_DIRENT_D_TYPE :: bool
  property_dir :: "dirent list option"
  fstab_template :: "string option"
  can_create :: "string \<Rightarrow> bool"
  access_ok :: "string \<Rightarrow> bool"
  readlink :: "string \<Rightarrow> string option"

datatype action = Remount bool | Create string string | Symlink string string

record 'p init_state =
  props :: 'p
  storage_list :: "storage_item list"
  stor_swapped :: int
  swap_sdcc :: int
  actions :: "action list"

section \<open>Persistent properties\<close>

definition check_prop_forced :: "string \<Rightarrow> bool" where
  "check_prop_forced prop_name \<longleftrightarrow> (\<exists>p \<in> set prop_forced_list. length p = length prop_name \<and> p = prop_name)"

definition S_IRWXG :: "32 word" where "S_IRWXG = 0x38"
definition S_IRWXO :: "32 word" where "S_IRWXO = 0x07"

fun forced_loop :: "'p init_env \<Rightarrow> dirent list \<Rightarrow> 'p \<Rightarrow> 'p" where
  "forced_loop E [] p = p"
| "forced_loop E (entry # es) p =
     (if \<not> check_prop_forced (d_name entry) then forced_loop E es p
      else if HAVE_DIRENT_D_TYPE E \<and> \<not> d_regular entry then forced_loop E es p
      else if \<not> d_opens entry then forced_loop E es p
      else case d_stat entry of
        None \<Rightarrow> forced_loop E es p
      | Some sb \<Rightarrow>
          if st_mode sb AND (S_IRWXG OR S_IRWXO) \<noteq> 0 \<or> st_uid sb \<noteq> 0 \<or> st_gid sb \<noteq> 0 \<or> st_nlink sb \<noteq> 1
          then forced_loop E es p
          else case d_read entry of
            None \<Rightarrow> forced_loop E es p
          | Some content \<Rightarrow>
              forced_loop E es (property_set E (d_name entry) (cstr (take (PROP_VALUE_MAX E - 1) content)) p))"

definition init_prop_forced_list :: "'p init_env \<Rightarrow> 'p init_state \<Rightarrow> 'p init_state" where
  "init_prop_forced_list E s =
     (case property_dir E of None \<Rightarrow> s | Some es \<Rightarrow> s\<lparr>props := forced_loop E es (props s)\<rparr>)"

section \<open>The list of storages\<close>

definition true_false :: "bool \<Rightarrow> string" where
  "true_false b = (if b then ''true'' else ''false'')"

definition xml_line :: "string \<Rightarrow> string \<Rightarrow> string" where
  "xml_line start v = start @ ''='' @ [CHR 0x22] @ v @ [CHR 0x22] @ '' '' @ [CHR 0x0A]"

definition storage_xml :: "storage_item list \<Rightarrow> nat \<Rightarrow> string" where
  "storage_xml items i =
     (let s = items ! i in
      xml_line ''  <storage mountPoint'' (mp_path (mnt_point ! i)) @
      xml_line ''    storageDescription'' (storageDescription s) @
      xml_line ''    primary'' (true_false (i = STOR_PRIMARY)) @
      xml_line ''    removable'' (true_false (removable s \<noteq> 0)) @
      xml_line ''    emulated'' (true_false (emulated s \<noteq> 0)) @
      xml_line ''    allowMassStorage'' (true_false (allowMassStorage s \<noteq> 0)) @
      ''  /> '' @ [CHR 0x0A])"

definition create_storage_list :: "'p init_env \<Rightarrow> 'p init_state \<Rightarrow> int \<times> 'p init_state" where
  "create_storage_list E s =
     (if \<not> can_create E FILE_STORAGE_LIST then (- 1, s)
      else (0, s\<lparr>actions := actions s @
        [Create FILE_STORAGE_LIST
          (''<?xml version='' @ [CHR 0x22] @ ''1.0'' @ [CHR 0x22] @ '' encoding='' @ [CHR 0x22] @ ''utf-8'' @ [CHR 0x22] @ ''?>'' @ [CHR 0x0A] @
           ''<StorageList>'' @ [CHR 0x0A] @
           concat (map (storage_xml (storage_list s)) [0..<length (storage_list s)]) @
           ''</StorageList>'' @ [CHR 0x0A])]\<rparr>))"

section \<open>The table of volumes\<close>

definition get_voldmanaged :: "storage_item list \<Rightarrow> nat \<Rightarrow> string" where
  "get_voldmanaged items idx =
     (let s = items ! idx in
      mp_name (mnt_point ! idx) @ '':'' @
      (if part_num s = PATR_NUM_AUTO then ''auto'' else decimal (part_num s)) @
      (if emulated s = 0 then '',noemulatedsd'' else []) @
      (if removable s = 0 then '',nonremovable'' else []))"

text \<open>The first \<open><prefix><num>\<close> of the text is replaced; what follows it is moved without the character that ends it.\<close>

definition str_replace :: "string \<Rightarrow> char \<Rightarrow> int \<Rightarrow> string \<Rightarrow> (int \<times> string) option" where
  "str_replace buf pre num txt =
     (if NUL \<notin> set buf then None
      else let buflen = length (cstr buf); tlen = length txt; ss = pre # decimal num; sslen = length ss in
        case strstr (cstr buf) ss of
          None \<Rightarrow> Some (- 1, buf)
        | Some plen \<Rightarrow>
            if length buf < plen + tlen + (buflen - plen - sslen) then None
            else Some (0, memcpy_at (memcpy_at buf (plen + tlen) (take (buflen - plen - sslen) (drop (plen + sslen) buf))) plen txt))"

fun volumes_loop :: "storage_item list \<Rightarrow> nat list \<Rightarrow> string \<Rightarrow> string option" where
  "volumes_loop items [] tmp = Some tmp"
| "volumes_loop items (i # is) tmp =
     (if STOR_PRIMARY \<le> i \<and> i \<le> STOR_SECONDARY then do {
        (r, tmp) \<leftarrow> str_replace tmp CHR ''%'' (sdcc (items ! i)) (get_voldmanaged items i);
        volumes_loop items is tmp }
      else volumes_loop items is tmp)"

definition create_ftab_storage :: "'p init_env \<Rightarrow> 'p init_state \<Rightarrow> (int \<times> 'p init_state) option" where
  "create_ftab_storage E s =
     (case fstab_template E of
        None \<Rightarrow> Some (- 1, s)
      | Some content \<Rightarrow>
          let data = take (2 * 1024 - 1) content in
          if data = [] then Some (- 2, s)
          else do {
            tmp \<leftarrow> volumes_loop (storage_list s) [0..<length (storage_list s)] (data @ replicate (2 * 1024 - length data) NUL);
            if \<not> can_create E FILE_FSTAB_STORAGES then Some (- 10, s)
            else if NUL \<notin> set tmp then None
            else Some (0, s\<lparr>actions := actions s @ [Create FILE_FSTAB_STORAGES (cstr tmp)]\<rparr>) })"

section \<open>Partitions\<close>

definition get_part_num :: "'p init_env \<Rightarrow> int \<Rightarrow> string \<Rightarrow> int" where
  "get_part_num E n part_name =
     (let dev_name = ''/dev/block/platform/msm_sdcc.'' @ decimal n @ ''/by-name/'' @ part_name in
      if \<not> access_ok E dev_name then - 1
      else case readlink E dev_name of
        None \<Rightarrow> - 2
      | Some target \<Rightarrow>
          let buf = take 255 target in
          if buf = [] then - 2
          else let buf = cstr buf in
            if strstr buf ''/mmcblk'' = None then - 3
            else case after_last CHR ''p'' buf of
              None \<Rightarrow> - 4
            | Some p \<Rightarrow> let rc = strtol p 10 in if rc \<le> 0 then - 5 else rc)"

section \<open>Boot\<close>

definition set_item :: "nat \<Rightarrow> (storage_item \<Rightarrow> storage_item) \<Rightarrow> 'p init_state \<Rightarrow> 'p init_state" where
  "set_item i f s = s\<lparr>storage_list := (storage_list s)[i := f (storage_list s ! i)]\<rparr>"

definition boot_properties :: "'p init_env \<Rightarrow> 'p init_state \<Rightarrow> 'p init_state" where
  "boot_properties E s =
     (let (rc, value) = property_get E ''ro.boot.llcon'' (props s);
          s = (if rc > 0 \<and> \<not> (value \<noteq> [] \<and> hd value = CHR ''0'')
               then s\<lparr>props := property_set E ''debug.sf.nobootanimation'' ''1'' (props s)\<rparr> else s);
          (rc, value) = property_get E PERSISTENT_PROPERTY_PLANNED_SWAP (props s);
          s = (if rc \<noteq> 0 \<and> atoi value \<noteq> 0 then s\<lparr>stor_swapped := 1\<rparr> else s);
          (rc, value) = property_get E ''ro.boot.swap_sdcc'' (props s)
      in if rc \<noteq> 0
         then let v = atoi value in s\<lparr>swap_sdcc := (if v < 0 \<or> v > 2 then 0 else v)\<rparr>
         else s)"

definition arrange_storages :: "'p init_env \<Rightarrow> 'p init_state \<Rightarrow> 'p init_state" where
  "arrange_storages E s =
     (let s = (if swap_sdcc s > 0
               then set_item STOR_SECONDARY (\<lambda>x. x\<lparr>emmc := 1, sdcc := 2, removable := 0, allowMassStorage := 0\<rparr>)
                      (set_item STOR_PRIMARY (\<lambda>x. x\<lparr>emmc := 0, sdcc := 1, removable := 0\<rparr>) s)
               else s);
          s = (if stor_swapped s \<noteq> 0
               then let x = storage_list s ! STOR_PRIMARY;
                        s = set_item STOR_PRIMARY (\<lambda>_. storage_list s ! STOR_SECONDARY) s;
                        s = set_item STOR_SECONDARY (\<lambda>_. x) s
                    in s\<lparr>props := property_set E PERSISTENT_PROPERTY_SWAPPED ''1'' (props s)\<rparr>
               else s\<lparr>props := property_set E PERSISTENT_PROPERTY_SWAPPED ''0'' (props s)\<rparr>);
          s = set_item STOR_PRIMARY (\<lambda>x. x\<lparr>removable := 0\<rparr>) s;
          describe = (\<lambda>a b s. set_item STOR_SECONDARY (\<lambda>x. x\<lparr>storageDescription := b\<rparr>)
                        (set_item STOR_PRIMARY (\<lambda>x. x\<lparr>storageDescription := a\<rparr>) s));
          first = emmc (storage_list s ! STOR_PRIMARY) \<noteq> 0;
          second = emmc (storage_list s ! STOR_SECONDARY) \<noteq> 0
      in if \<not> first \<and> \<not> second then describe STR_STORAGE_INTERNAL STR_STORAGE_SDCARD s
         else if first then describe STR_STORAGE_INTERNAL STR_STORAGE_SDCARD s
         else if second then describe STR_STORAGE_SDCARD STR_STORAGE_INTERNAL s
         else s)"

definition number_partition :: "'p init_env \<Rightarrow> nat \<Rightarrow> 'p init_state \<Rightarrow> 'p init_state" where
  "number_partition E i s =
     (let rc = get_part_num E (sdcc (storage_list s ! i)) ''usbmsc'' in
      if rc > 0 then set_item i (\<lambda>x. x\<lparr>part_num := rc\<rparr>) s else s)"

abbreviation act :: "action \<Rightarrow> 'p init_state \<Rightarrow> 'p init_state" where
  "act a s \<equiv> s\<lparr>actions := actions s @ [a]\<rparr>"

definition init_msm_properties :: "'p init_env \<Rightarrow> 'p init_state \<Rightarrow> 'p init_state option" where
  "init_msm_properties E s =
     (let s = init_prop_forced_list E s;
          s = act (Remount False) s;
          s = boot_properties E s;
          s = arrange_storages E s;
          s = number_partition E STOR_PRIMARY s;
          s = number_partition E STOR_SECONDARY s
      in do {
        (_, s) \<leftarrow> create_ftab_storage E s;
        let s = act (Symlink FILE_FSTAB_STORAGES ''/fstab.qcom'') s;
        let s = snd (create_storage_list E s);
        Some (act (Remount True) s) })"

section \<open>Replacing text\<close>

lemma strstr_skip: "c \<notin> set a \<Longrightarrow> strstr (a @ s) (c # n) = map_option (\<lambda>k. length a + k) (strstr s (c # n))"
proof (induction a)
  case Nil
  then show ?case by (cases "strstr s (c # n)") simp_all
next
  case (Cons x a)
  then show ?case by (cases "strstr s (c # n)") simp_all
qed

lemma strstr_other: "d \<noteq> e \<Longrightarrow> d \<noteq> c \<Longrightarrow> strstr (c # d # s) [c, e] = map_option (\<lambda>k. Suc (Suc k)) (strstr s [c, e])"
  by (cases "strstr s [c, e]") simp_all

lemma strstr_here: "prefix n s \<Longrightarrow> strstr s n = Some 0"
  by (cases s) auto

lemma strstr_absent: "c \<notin> set s \<Longrightarrow> strstr s (c # n) = None"
  using strstr_skip [of c s "[]" n] by simp

lemma cstr_padded: "NUL \<notin> set a \<Longrightarrow> cstr (a @ replicate k NUL) = a"
  by (cases k) (auto simp: cstr_def takeWhile_append)

text \<open>A replacement by a longer text, in a buffer that is padded and has room.\<close>

lemma str_replace_text:
  assumes "NUL \<notin> set (a @ b)" "ss = pre # decimal num" "NUL \<notin> set ss" "strstr (a @ ss @ b) ss = Some (length a)"
    "length txt = length ss + g" "g < k"
  shows "str_replace (a @ ss @ b @ replicate k NUL) pre num txt = Some (0, a @ txt @ b @ replicate (k - g) NUL)"
proof -
  have c: "cstr (a @ ss @ b @ replicate k NUL) = a @ ss @ b" using cstr_padded [of "a @ ss @ b" k] assms(1,3) by simp
  have "drop (length b + g) (b @ replicate k NUL) = replicate (k - g) NUL" by simp
  moreover have "drop (length a + length txt + length b) (a @ ss @ b @ replicate k NUL) = drop (length b + g) (b @ replicate k NUL)"
    using assms(5) by simp
  ultimately have "memcpy_at (memcpy_at (a @ ss @ b @ replicate k NUL) (length a + length txt)
      (take (length (a @ ss @ b) - length a - length ss) (drop (length a + length ss) (a @ ss @ b @ replicate k NUL)))) (length a) txt
      = a @ txt @ b @ replicate (k - g) NUL"
    using assms(5,6) by (auto simp: memcpy_at_def min_def)
  then show ?thesis
    using assms c by (simp add: str_replace_def Let_def)
qed

lemma str_replace_absent:
  assumes "NUL \<notin> set a" "0 < k" "strstr a (pre # decimal num) = None"
  shows "str_replace (a @ replicate k NUL) pre num txt = Some (- 1, a @ replicate k NUL)"
  using assms by (simp add: str_replace_def cstr_padded Let_def)

text \<open>Without room the copy runs over the end of the buffer.\<close>

lemma str_replace_overflow:
  assumes "NUL \<notin> set (a @ b)" "ss = pre # decimal num" "NUL \<notin> set ss" "strstr (a @ ss @ b) ss = Some (length a)"
    "length ss + k < length txt" "0 < k"
  shows "str_replace (a @ ss @ b @ replicate k NUL) pre num txt = None"
proof -
  have "cstr (a @ ss @ b @ replicate k NUL) = a @ ss @ b" using cstr_padded [of "a @ ss @ b" k] assms(1,3) by simp
  then show ?thesis using assms by (simp add: str_replace_def Let_def)
qed

lemma decimal_slots: "decimal 1 = ''1''" "decimal 2 = ''2''"
  by code_simp+

section \<open>Storages\<close>

lemma length_storage_init [simp]: "length storage_list_init = 3"
  by (simp add: storage_list_init_def)

lemma set_item_fields [simp]:
  "props (set_item i f s) = props s" "stor_swapped (set_item i f s) = stor_swapped s" "swap_sdcc (set_item i f s) = swap_sdcc s"
  "actions (set_item i f s) = actions s" "length (storage_list (set_item i f s)) = length (storage_list s)"
  by (simp_all add: set_item_def)

lemma init_prop_fields [simp]:
  "storage_list (init_prop_forced_list E s) = storage_list s" "stor_swapped (init_prop_forced_list E s) = stor_swapped s"
  "swap_sdcc (init_prop_forced_list E s) = swap_sdcc s" "actions (init_prop_forced_list E s) = actions s"
  by (simp_all add: init_prop_forced_list_def split: option.splits)

lemma boot_fields [simp]:
  "storage_list (boot_properties E s) = storage_list s" "actions (boot_properties E s) = actions s"
  by (simp_all add: boot_properties_def Let_def split: prod.splits)

lemma arrange_fields [simp]:
  "stor_swapped (arrange_storages E s) = stor_swapped s" "swap_sdcc (arrange_storages E s) = swap_sdcc s"
  "actions (arrange_storages E s) = actions s" "length (storage_list (arrange_storages E s)) = length (storage_list s)"
  by (simp_all add: arrange_storages_def Let_def)

lemma number_fields [simp]:
  "props (number_partition E i s) = props s" "stor_swapped (number_partition E i s) = stor_swapped s"
  "swap_sdcc (number_partition E i s) = swap_sdcc s" "actions (number_partition E i s) = actions s"
  "length (storage_list (number_partition E i s)) = length (storage_list s)"
  by (simp_all add: number_partition_def Let_def)

text \<open>The storages that the two switches ask for.\<close>

definition layout :: "bool \<Rightarrow> bool \<Rightarrow> storage_item list" where
  "layout swapped sdcc_swapped =
     (let a = (storage_list_init ! 0)\<lparr>emmc := if sdcc_swapped then 0 else 1,
                storageDescription := if sdcc_swapped then STR_STORAGE_SDCARD else STR_STORAGE_INTERNAL\<rparr>;
          b = (storage_list_init ! 1)\<lparr>emmc := if sdcc_swapped then 1 else 0,
                storageDescription := if sdcc_swapped then STR_STORAGE_INTERNAL else STR_STORAGE_SDCARD,
                removable := if sdcc_swapped then 0 else 1, allowMassStorage := if sdcc_swapped then 0 else 1\<rparr>
      in if swapped then [b\<lparr>removable := 0\<rparr>, a, storage_list_init ! 2] else [a, b, storage_list_init ! 2])"

lemma arrange_layout:
  assumes "storage_list s = storage_list_init"
  shows "storage_list (arrange_storages E s) = layout (stor_swapped s \<noteq> 0) (swap_sdcc s > 0)"
  using assms by (simp add: arrange_storages_def set_item_def storage_list_init_def layout_def)

text \<open>The text for the volume with a given controller, and the bound on its length.\<close>

definition volume :: "storage_item list \<Rightarrow> int \<Rightarrow> string" where
  "volume items n = get_voldmanaged items (if sdcc (items ! STOR_PRIMARY) = n then STOR_PRIMARY else STOR_SECONDARY)"

lemma get_part_num_range: "get_part_num E n name < 2 ^ 31"
  by (auto simp: get_part_num_def strtol_def Let_def split: option.splits)

lemma length_decimal_pos: "0 < n \<Longrightarrow> n < 2 ^ 31 \<Longrightarrow> length (decimal n) \<le> 10"
  using length_digits [of "nat n" 9] by (simp add: decimal_def nat_less_iff)

lemma voldmanaged_length:
  assumes "idx < 2" "part_num (items ! idx) = PATR_NUM_AUTO \<or> 0 < part_num (items ! idx) \<and> part_num (items ! idx) < 2 ^ 31"
  shows "length (get_voldmanaged items idx) \<le> 44 \<and> 9 \<le> length (get_voldmanaged items idx)"
proof -
  have "digits n \<noteq> []" for n by (subst digits.simps) simp
  then have "0 < length (decimal n)" for n by (simp add: decimal_def)
  then show ?thesis
    using assms length_decimal_pos [of "part_num (items ! idx)"]
    by (auto simp: get_voldmanaged_def mnt_point_def less_2_cases_iff Let_def Suc_le_eq)
qed

lemma voldmanaged_chars:
  assumes "idx < 2" "0 \<le> part_num (items ! idx) \<or> part_num (items ! idx) = PATR_NUM_AUTO"
  shows "CHR ''%'' \<notin> set (get_voldmanaged items idx)" "NUL \<notin> set (get_voldmanaged items idx)"
proof -
  have "CHR ''%'' \<notin> set (digits n)" "NUL \<notin> set (digits n)" for n using digits_range [of _ n] by fastforce+
  then show "CHR ''%'' \<notin> set (get_voldmanaged items idx)" "NUL \<notin> set (get_voldmanaged items idx)"
    using assms by (auto simp: get_voldmanaged_def mnt_point_def less_2_cases_iff Let_def decimal_def)
qed

text \<open>The template with its two places, and the storages that fill them.\<close>

definition two_storages :: "storage_item list \<Rightarrow> bool" where
  "two_storages items \<longleftrightarrow> length items = 3 \<and>
     (sdcc (items ! 0) = 1 \<and> sdcc (items ! 1) = 2 \<or> sdcc (items ! 0) = 2 \<and> sdcc (items ! 1) = 1) \<and>
     (\<forall>i < 2. part_num (items ! i) = PATR_NUM_AUTO \<or> 0 < part_num (items ! i) \<and> part_num (items ! i) < 2 ^ 31)"

definition plain_text :: "string \<Rightarrow> bool" where
  "plain_text s \<longleftrightarrow> CHR ''%'' \<notin> set s \<and> NUL \<notin> set s"

lemma volume_facts:
  assumes "two_storages items"
  shows "plain_text (volume items n)" "length (volume items n) \<le> 44" "9 \<le> length (volume items n)"
proof -
  obtain i where i: "i < 2" "volume items n = get_voldmanaged items i" 
    using that [of "if sdcc (items ! STOR_PRIMARY) = n then 0 else 1"] by (simp add: volume_def)
  then have "part_num (items ! i) = PATR_NUM_AUTO \<or> 0 < part_num (items ! i) \<and> part_num (items ! i) < 2 ^ 31"
    using assms unfolding two_storages_def by blast
  then show "plain_text (volume items n)" "length (volume items n) \<le> 44" "9 \<le> length (volume items n)"
    using i voldmanaged_chars [of i items] voldmanaged_length [of i items] by (auto simp: plain_text_def)
qed

lemma two_storages_volumes:
  assumes "two_storages items"
  shows "sdcc (items ! 0) = 1 \<and> sdcc (items ! 1) = 2 \<and> get_voldmanaged items 0 = volume items 1 \<and> get_voldmanaged items 1 = volume items 2 \<or>
    sdcc (items ! 0) = 2 \<and> sdcc (items ! 1) = 1 \<and> get_voldmanaged items 0 = volume items 2 \<and> get_voldmanaged items 1 = volume items 1"
  using assms by (auto simp: two_storages_def volume_def)

lemma fill_first:
  assumes "plain_text pre" "NUL \<notin> set post" "length txt = 2 + g" "g < k"
  shows "str_replace (pre @ ''%1'' @ post @ replicate k NUL) CHR ''%'' 1 txt = Some (0, pre @ txt @ post @ replicate (k - g) NUL)"
  using str_replace_text [of pre post "''%1''" "CHR ''%''" 1 "txt" g k] assms strstr_skip [of "CHR ''%''" pre "''%1'' @ post" "''1''"]
  by (simp add: plain_text_def decimal_slots)

lemma fill_second:
  assumes "plain_text pre" "plain_text mid" "NUL \<notin> set post" "length txt = 2 + g" "g < k"
  shows "str_replace (pre @ ''%1'' @ mid @ ''%2'' @ post @ replicate k NUL) CHR ''%'' 2 txt =
      Some (0, pre @ ''%1'' @ mid @ txt @ post @ replicate (k - g) NUL)"
    "str_replace (pre @ ''%2'' @ post @ replicate k NUL) CHR ''%'' 2 txt = Some (0, pre @ txt @ post @ replicate (k - g) NUL)"
proof -
  have "strstr (''%1'' @ mid @ ''%2'' @ post) ''%2'' = Some (2 + length mid)"
    using assms(2) strstr_skip [of "CHR ''%''" mid "''%2'' @ post" "''2''"] strstr_other [of "CHR ''1''" "CHR ''2''" "CHR ''%''" "mid @ ''%2'' @ post"]
    by (simp add: plain_text_def)
  then have "strstr ((pre @ ''%1'' @ mid) @ ''%2'' @ post) ''%2'' = Some (length (pre @ ''%1'' @ mid))"
    using assms(1) strstr_skip [of "CHR ''%''" pre "''%1'' @ mid @ ''%2'' @ post" "''2''"] by (simp add: plain_text_def)
  then show "str_replace (pre @ ''%1'' @ mid @ ''%2'' @ post @ replicate k NUL) CHR ''%'' 2 txt =
      Some (0, pre @ ''%1'' @ mid @ txt @ post @ replicate (k - g) NUL)"
    using str_replace_text [of "pre @ ''%1'' @ mid" post "''%2''" "CHR ''%''" 2 "txt" g k] assms
    by (simp add: plain_text_def decimal_slots)
  show "str_replace (pre @ ''%2'' @ post @ replicate k NUL) CHR ''%'' 2 txt = Some (0, pre @ txt @ post @ replicate (k - g) NUL)"
    using str_replace_text [of pre post "''%2''" "CHR ''%''" 2 "txt" g k] assms strstr_skip [of "CHR ''%''" pre "''%2'' @ post" "''2''"]
    by (simp add: plain_text_def decimal_slots)
qed

lemma fill_template:
  assumes "two_storages items" "plain_text pre" "plain_text mid" "plain_text post" "84 < k"
  shows "\<exists>m > 0. volumes_loop items [0..<length items] (pre @ ''%1'' @ mid @ ''%2'' @ post @ replicate k NUL) =
    Some (pre @ volume items 1 @ mid @ volume items 2 @ post @ replicate m NUL)"
proof -
  note v = volume_facts [OF assms(1)]
  define g1 g2 where "g1 = length (volume items 1) - 2" and "g2 = length (volume items 2) - 2"
  then have g: "length (volume items 1) = 2 + g1" "length (volume items 2) = 2 + g2" "g1 \<le> 42" "g2 \<le> 42"
    using v(2,3) [of 1] v(2,3) [of 2] by simp_all
  have ns: "[0..<length items] = [0, 1, 2]" using assms(1) by (simp add: two_storages_def upt_rec numeral_eq_Suc)
  have pt: "plain_text (pre @ volume items 1 @ mid)" "NUL \<notin> set post" "NUL \<notin> set (mid @ ''%2'' @ post)"
    "NUL \<notin> set (mid @ volume items 2 @ post)"
    using assms(2-4) v(1) by (auto simp: plain_text_def)
  note f = fill_first [OF assms(2) pt(3) g(1), of k] fill_second(2) [OF pt(1) assms(3) pt(2) g(2), of "k - g1"]
    fill_second(1) [OF assms(2,3) pt(2) g(2), of k] fill_first [OF assms(2) pt(4) g(1), of "k - g2"]
  have "0 < k - g1 - g2" "0 < k - g2 - g1" using g assms(5) by simp_all
  then show ?thesis
    using two_storages_volumes [OF assms(1)] f g(3,4) assms(5) unfolding ns by auto
qed

section \<open>The state before the files are written\<close>

definition booted :: "'p init_env \<Rightarrow> 'p init_state \<Rightarrow> 'p init_state" where
  "booted E s = number_partition E STOR_SECONDARY (number_partition E STOR_PRIMARY
     (arrange_storages E (boot_properties E (act (Remount False) (init_prop_forced_list E s)))))"

lemma init_booted:
  "init_msm_properties E s = do {
     (_, s) \<leftarrow> create_ftab_storage E (booted E s);
     Some (act (Remount True) (snd (create_storage_list E (act (Symlink FILE_FSTAB_STORAGES ''/fstab.qcom'') s)))) }"
  by (simp add: init_msm_properties_def booted_def Let_def)

definition part_of :: "'p init_env \<Rightarrow> storage_item \<Rightarrow> storage_item" where
  "part_of E x = (let rc = get_part_num E (sdcc x) ''usbmsc'' in x\<lparr>part_num := if rc > 0 then rc else part_num x\<rparr>)"

lemma number_partition_nth:
  "storage_list (number_partition E i s) = (storage_list s)[i := part_of E (storage_list s ! i)]"
  by (simp add: number_partition_def part_of_def set_item_def Let_def)

lemma booted_items:
  assumes "storage_list s = storage_list_init"
  shows "storage_list (booted E s) = (let L = layout (stor_swapped (booted E s) \<noteq> 0) (swap_sdcc (booted E s) > 0) in
    [part_of E (L ! 0), part_of E (L ! 1), L ! 2])"
  using assms by (simp add: booted_def number_partition_nth arrange_layout layout_def Let_def)

lemma booted_actions: "actions (booted E s) = actions s @ [Remount False]"
  by (simp add: booted_def)

lemma part_of_fields [simp]:
  "emmc (part_of E x) = emmc x" "sdcc (part_of E x) = sdcc x" "storageDescription (part_of E x) = storageDescription x"
  "removable (part_of E x) = removable x"
  by (simp_all add: part_of_def Let_def)

lemma layout_parts: "i < 2 \<Longrightarrow> part_num (layout a b ! i) = PATR_NUM_AUTO"
  by (auto simp: layout_def storage_list_init_def less_2_cases_iff Let_def)

lemma booted_two:
  assumes "storage_list s = storage_list_init"
  shows "two_storages (storage_list (booted E s))"
proof -
  define L where "L = layout (stor_swapped (booted E s) \<noteq> 0) (swap_sdcc (booted E s) > 0)"
  have "part_num (part_of E (L ! i)) = PATR_NUM_AUTO \<or> 0 < part_num (part_of E (L ! i)) \<and> part_num (part_of E (L ! i)) < 2 ^ 31"
    if "i < 2" for i
    using that layout_parts get_part_num_range [of E "sdcc (L ! i)"] by (auto simp: part_of_def L_def Let_def)
  moreover have "sdcc (L ! 0) = 1 \<and> sdcc (L ! 1) = 2 \<or> sdcc (L ! 0) = 2 \<and> sdcc (L ! 1) = 1"
    by (auto simp: L_def layout_def storage_list_init_def Let_def)
  ultimately show ?thesis
    unfolding two_storages_def booted_items [OF assms] Let_def L_def [symmetric] by (auto simp: less_2_cases_iff)
qed

lemma init_storages:
  "init_msm_properties E s = Some s' \<Longrightarrow> storage_list s' = storage_list (booted E s) \<and>
     stor_swapped s' = stor_swapped (booted E s) \<and> swap_sdcc s' = swap_sdcc (booted E s) \<and> props s' = props (booted E s)"
  by (auto simp: init_booted create_ftab_storage_def create_storage_list_def Let_def
      split: Option.bind_splits option.splits if_splits)

section \<open>The property service\<close>

text \<open>
  What \<open>init\<close> relies on: a property that is set reads back with its length, and no other property changes.
  Properties that start with \<^verbatim>\<open>ro.\<close> can be set only once and are left out.
\<close>

definition service_laws :: "'p init_env \<Rightarrow> bool" where
  "service_laws E \<longleftrightarrow>
     (\<forall>n v p. \<not> prefix ''ro.'' n \<longrightarrow> length v < PROP_VALUE_MAX E \<longrightarrow> property_get E n (property_set E n v p) = (int (length v), v)) \<and>
     (\<forall>m n v p. m \<noteq> n \<longrightarrow> property_get E m (property_set E n v p) = property_get E m p)"

text \<open>What makes an entry of the directory acceptable.\<close>

definition trusted :: "'p init_env \<Rightarrow> dirent \<Rightarrow> bool" where
  "trusted E e \<longleftrightarrow> (HAVE_DIRENT_D_TYPE E \<longrightarrow> d_regular e) \<and> d_opens e \<and>
     (\<exists>sb. d_stat e = Some sb \<and> st_mode sb AND 0x3F = 0 \<and> st_uid sb = 0 \<and> st_gid sb = 0 \<and> st_nlink sb = 1)"

lemma group_others: "S_IRWXG OR S_IRWXO = 0x3F"
  by (simp add: S_IRWXG_def S_IRWXO_def)

lemma check_prop_forced_iff [simp]: "check_prop_forced n \<longleftrightarrow> n = PERSISTENT_PROPERTY_PLANNED_SWAP"
  by (auto simp: check_prop_forced_def prop_forced_list_def)

lemma forced_loop_cases:
  "forced_loop E (e # es) p = (if d_name e = PERSISTENT_PROPERTY_PLANNED_SWAP \<and> trusted E e \<and> d_read e \<noteq> None
     then forced_loop E es (property_set E (d_name e) (cstr (take (PROP_VALUE_MAX E - 1) (the (d_read e)))) p)
     else forced_loop E es p)"
  by (auto simp: trusted_def group_others split: option.splits)

lemma forced_loop_trusted:
  assumes "\<forall>m n v p. m \<noteq> n \<longrightarrow> property_get E m (property_set E n v p) = property_get E m p"
    "property_get E m (forced_loop E es p) \<noteq> property_get E m p"
  shows "m = PERSISTENT_PROPERTY_PLANNED_SWAP \<and> (\<exists>e \<in> set es. d_name e = m \<and> trusted E e \<and> d_read e \<noteq> None)"
  using assms(2)
proof (induction es arbitrary: p)
  case (Cons e es)
  then show ?case using assms(1) unfolding forced_loop_cases by (auto split: if_splits) metis+
qed simp

abbreviation planned :: "'p init_env \<Rightarrow> dirent list \<Rightarrow> dirent list" where
  "planned E es \<equiv> filter (\<lambda>e. d_name e = PERSISTENT_PROPERTY_PLANNED_SWAP \<and> trusted E e \<and> d_read e \<noteq> None) es"

lemma forced_loop_planned:
  assumes "service_laws E" "planned E es = [e]" "d_read e = Some content" "0 < PROP_VALUE_MAX E"
  shows "property_get E PERSISTENT_PROPERTY_PLANNED_SWAP (forced_loop E es p) =
    (let v = cstr (take (PROP_VALUE_MAX E - 1) content) in (int (length v), v))"
proof -
  let ?v = "cstr (take (PROP_VALUE_MAX E - 1) content)"
  have none: "planned E es = [] \<Longrightarrow> forced_loop E es p = p" for es p
    by (induction es) (auto simp: forced_loop_cases simp del: forced_loop.simps(2) split: if_splits)
  have "length ?v \<le> PROP_VALUE_MAX E - 1"
    using length_takeWhile_le [of _ "take (PROP_VALUE_MAX E - 1) content"] by (auto simp: cstr_def intro: order_trans)
  then have set: "property_get E PERSISTENT_PROPERTY_PLANNED_SWAP (property_set E PERSISTENT_PROPERTY_PLANNED_SWAP ?v p) = (int (length ?v), ?v)" for p
    using assms(1,4) by (auto simp: service_laws_def PERSISTENT_PROPERTY_PLANNED_SWAP_def)
  show ?thesis using assms(2)
  proof (induction es arbitrary: p)
    case (Cons x es)
    then show ?case using none [of es] set assms(3)
      by (auto simp: forced_loop_cases Let_def simp del: forced_loop.simps(2) split: if_splits)
  qed simp
qed

lemma atoi_Nil [simp]: "atoi [] = 0"
  by (simp add: atoi_def strtol_def strtol_value_def)

lemma boot_swapped:
  assumes "service_laws E" "property_get E PERSISTENT_PROPERTY_PLANNED_SWAP (props s) = (int (length v), v)" "stor_swapped s = 0"
  shows "stor_swapped (boot_properties E s) = (if atoi v \<noteq> 0 then 1 else 0)"
proof -
  have "property_get E PERSISTENT_PROPERTY_PLANNED_SWAP (property_set E ''debug.sf.nobootanimation'' w p)
      = property_get E PERSISTENT_PROPERTY_PLANNED_SWAP p" for w p
    using assms(1) by (auto simp: service_laws_def PERSISTENT_PROPERTY_PLANNED_SWAP_def)
  then show ?thesis using assms(2,3) by (auto simp: boot_properties_def Let_def split: prod.splits)
qed

lemma arrange_swapped:
  assumes "service_laws E" "1 < PROP_VALUE_MAX E"
  shows "property_get E PERSISTENT_PROPERTY_SWAPPED (props (arrange_storages E s)) =
    (1, if stor_swapped s \<noteq> 0 then ''1'' else ''0'')"
  using assms by (auto simp: arrange_storages_def service_laws_def PERSISTENT_PROPERTY_SWAPPED_def Let_def)

section \<open>Partition numbers\<close>

lemma strstr_sublist: "strstr s n = None \<longleftrightarrow> \<not> sublist n s"
  by (induction s) (auto simp: sublist_Cons_right)

lemma after_last_append: "c \<notin> set xs \<Longrightarrow> after_last c (a @ c # xs) = Some xs"
proof (induction a)
  case Nil
  have "c \<notin> set ys \<Longrightarrow> after_last c ys = None" for ys by (induction ys) auto
  then show ?case using Nil by simp
qed simp

lemma digits_val_digits: "list_all (\<lambda>c. 48 \<le> (of_char c :: nat) \<and> of_char c < (58 :: nat)) ds \<Longrightarrow>
  digits_val 10 a ds = foldl (\<lambda>a c. 10 * a + (of_char c - 48)) a ds"
  by (induction ds arbitrary: a) (auto simp: digit_val_def Let_def)

lemma strtol_digits:
  assumes "n < 2 ^ 31"
  shows "strtol (digits n) 10 = int n"
proof -
  have r: "list_all (\<lambda>c. 48 \<le> (of_char c :: nat) \<and> of_char c < (58 :: nat)) (digits n)"
    using digits_range by (auto simp: list_all_iff)
  obtain c cs where d: "digits n = c # cs" by (cases "digits n") (use digits.simps [of n] in \<open>auto split: if_splits\<close>)
  then have "48 \<le> (of_char c :: nat)" using r by simp
  then have "\<not> is_space c" "c \<noteq> CHR ''-''" "c \<noteq> CHR ''+''" by (auto simp: is_space_def)
  then have "strtol_value (digits n) 10 = int (digits_val 10 0 (digits n))" unfolding d by (simp add: strtol_value_def Let_def)
  also have "\<dots> = int n" using digits_val_digits [OF r] value_of_digits [of n] by (simp add: value_of_def)
  finally show ?thesis using assms by (simp add: strtol_def)
qed

lemma init_writes:
  assumes "storage_list s = storage_list_init" "fstab_template E = Some (pre @ ''%1'' @ mid @ ''%2'' @ post)"
    "plain_text pre" "plain_text mid" "plain_text post" "length (pre @ ''%1'' @ mid @ ''%2'' @ post) < 1964"
    "can_create E FILE_FSTAB_STORAGES" "can_create E FILE_STORAGE_LIST"
  shows "\<exists>s' xml. init_msm_properties E s = Some s' \<and> actions s' = actions s @
    [Remount False, Create FILE_FSTAB_STORAGES (pre @ volume (storage_list s') 1 @ mid @ volume (storage_list s') 2 @ post),
     Symlink FILE_FSTAB_STORAGES ''/fstab.qcom'', Create FILE_STORAGE_LIST xml, Remount True]"
proof -
  let ?t = "pre @ ''%1'' @ mid @ ''%2'' @ post" and ?items = "storage_list (booted E s)"
  note two = booted_two [OF assms(1), of E]
  have room: "84 < 2048 - length ?t" using assms(6) by simp
  have "take 2047 ?t = ?t" "?t \<noteq> []" using assms(6) by simp_all
  moreover obtain m where "m > 0" "volumes_loop ?items [0..<length ?items] (?t @ replicate (2048 - length ?t) NUL) =
      Some ((pre @ volume ?items 1 @ mid @ volume ?items 2 @ post) @ replicate m NUL)"
    using fill_template [OF two assms(3-5) room] by auto
  moreover have "NUL \<notin> set (pre @ volume ?items 1 @ mid @ volume ?items 2 @ post)"
    using volume_facts(1) [OF two] assms(3-5) by (auto simp: plain_text_def)
  ultimately show ?thesis
    using assms(2,7,8) cstr_padded [of "pre @ volume ?items 1 @ mid @ volume ?items 2 @ post" m]
    by (simp add: init_booted create_ftab_storage_def create_storage_list_def booted_actions Let_def)
qed

section \<open>An instance\<close>

text \<open>
  A device with the template of \<^verbatim>\<open>rootdir/etc/fstab.template\<close>, a planned swap, and a property service over a map.
\<close>

definition fstab1 :: string where
  "fstab1 = ''/devices/msm_sdcc.1/mmc_host           auto              auto  uid=1023,gid=1023,dmask=0007,fmask=0007   voldmanaged=''"
definition fstab2 :: string where
  "fstab2 = CHR 0x0A # ''/devices/msm_sdcc.2/mmc_host           auto              auto  uid=1023,gid=1023,dmask=0007,fmask=0007   voldmanaged=''"
definition fstab3 :: string where
  "fstab3 = CHR 0x0A # ''/devices/platform/msm_hsusb_host/usb1  /storage/usbdisk  auto  nosuid,nodev                              voldmanaged=usbdisk:auto'' @ [CHR 0x0A]"

definition demo_entry :: dirent where
  "demo_entry = \<lparr>d_name = PERSISTENT_PROPERTY_PLANNED_SWAP, d_regular = True, d_opens = True,
     d_stat = Some \<lparr>st_mode = 0x8180, st_uid = 0, st_gid = 0, st_nlink = 1\<rparr>, d_read = Some ''1''\<rparr>"

definition demo_init :: "(string \<rightharpoonup> string) init_env" where
  "demo_init = \<lparr>property_get = (\<lambda>n p. case p n of None \<Rightarrow> (0, []) | Some v \<Rightarrow> (int (length v), v)), property_set = (\<lambda>n v p. p(n \<mapsto> v)),
     PROP_VALUE_MAX = 92, HAVE_DIRENT_D_TYPE = True, property_dir = Some [demo_entry],
     fstab_template = Some (fstab1 @ ''%1'' @ fstab2 @ ''%2'' @ fstab3), can_create = (\<lambda>_. True), access_ok = (\<lambda>_. True),
     readlink = (\<lambda>_. Some ''/dev/block/mmcblk0p26'')\<rparr>"

definition demo_boot :: "(string \<rightharpoonup> string) init_state" where
  "demo_boot = \<lparr>props = Map.empty, storage_list = storage_list_init, stor_swapped = 0, swap_sdcc = 0, actions = []\<rparr>"

lemma demo_init_laws: "service_laws demo_init"
  by (simp add: service_laws_def demo_init_def)

lemma demo_template: "plain_text fstab1" "plain_text fstab2" "plain_text fstab3"
    "length (fstab1 @ ''%1'' @ fstab2 @ ''%2'' @ fstab3) = 370"
  by code_simp+

lemma demo_init_runs: "\<exists>s'. init_msm_properties demo_init demo_boot = Some s'"
  using init_writes [of demo_boot demo_init fstab1 fstab2 fstab3] demo_template by (auto simp: demo_init_def demo_boot_def)

section \<open>Properties\<close>

text \<open>
  C20 Whatever the properties, the files and the partitions are, after the start the two storages sit on the two
  controllers, the primary one on the second controller exactly when a swap was planned; exactly one of them is the internal
  memory, only that one is described as internal, and the primary one is never removable.
\<close>

theorem storage_roles:
  assumes "storage_list s = storage_list_init" "init_msm_properties E s = Some s'"
  shows "\<exists>p q. storage_list s' = [p, q, storage_list_init ! 2] \<and> {sdcc p, sdcc q} = {1, 2} \<and> (sdcc p = 2 \<longleftrightarrow> stor_swapped s' \<noteq> 0) \<and>
    (emmc p = 0 \<longleftrightarrow> emmc q \<noteq> 0) \<and> (emmc p \<noteq> 0 \<longleftrightarrow> (stor_swapped s' \<noteq> 0 \<longleftrightarrow> swap_sdcc s' > 0)) \<and>
    storageDescription p = (if emmc p \<noteq> 0 then STR_STORAGE_INTERNAL else STR_STORAGE_SDCARD) \<and>
    storageDescription q = (if emmc q \<noteq> 0 then STR_STORAGE_INTERNAL else STR_STORAGE_SDCARD) \<and> removable p = 0"
  using booted_items [OF assms(1)] init_storages [OF assms(2)]
  by (auto simp: layout_def storage_list_init_def Let_def)

theorem storage_roles_witness:
  "\<exists>s' p q. init_msm_properties demo_init demo_boot = Some s' \<and> storage_list s' = [p, q, storage_list_init ! 2] \<and> removable p = 0"
proof -
  obtain s' where s': "init_msm_properties demo_init demo_boot = Some s'" using demo_init_runs by blast
  then show ?thesis using storage_roles [OF _ s'] by (auto simp: demo_boot_def)
qed

text \<open>
  C16 The table of volumes: for a template with one place for each controller and less than 1964 characters, the start
  ends, and the file has the entry of the storage on the first controller in the first place and that of the second in the
  second. It is written while the root file system is writable, before the link to it and the list of storages.
\<close>

theorem fstab_written:
  assumes "storage_list s = storage_list_init" "fstab_template E = Some (pre @ ''%1'' @ mid @ ''%2'' @ post)"
    "plain_text pre" "plain_text mid" "plain_text post" "length (pre @ ''%1'' @ mid @ ''%2'' @ post) < 1964"
    "can_create E FILE_FSTAB_STORAGES" "can_create E FILE_STORAGE_LIST"
  shows "\<exists>s' xml. init_msm_properties E s = Some s' \<and> actions s' = actions s @
    [Remount False, Create FILE_FSTAB_STORAGES (pre @ volume (storage_list s') 1 @ mid @ volume (storage_list s') 2 @ post),
     Symlink FILE_FSTAB_STORAGES ''/fstab.qcom'', Create FILE_STORAGE_LIST xml, Remount True]"
  using assms by (rule init_writes)

theorem fstab_written_witness:
  "\<exists>s' xml. init_msm_properties demo_init demo_boot = Some s' \<and> actions s' =
    [Remount False, Create FILE_FSTAB_STORAGES (fstab1 @ volume (storage_list s') 1 @ fstab2 @ volume (storage_list s') 2 @ fstab3),
     Symlink FILE_FSTAB_STORAGES ''/fstab.qcom'', Create FILE_STORAGE_LIST xml, Remount True]"
  using fstab_written [of demo_boot demo_init fstab1 fstab2 fstab3] demo_template by (simp add: demo_init_def demo_boot_def)

text \<open>
  C17 A planned swap takes effect: when the directory of persistent properties has one acceptable file for it and its text is
  a number other than 0, the primary storage is the one on the second controller and the secondary one that on the first, and
  otherwise they stay where they were; the internal memory is the primary storage exactly when the storages and the controllers
  are both exchanged or both not; and the property that reports the swap says so.
\<close>

theorem planned_swap_done:
  assumes "service_laws E" "1 < PROP_VALUE_MAX E" "property_dir E = Some es" "planned E es = [e]" "d_read e = Some content"
    "stor_swapped s = 0" "storage_list s = storage_list_init" "init_msm_properties E s = Some s'"
    and swap: "swap \<longleftrightarrow> atoi (cstr (take (PROP_VALUE_MAX E - 1) content)) \<noteq> 0"
  shows "map sdcc (storage_list s') = (if swap then [2, 1, 3] else [1, 2, 3]) \<and>
    map (\<lambda>x. emmc x \<noteq> 0) (storage_list s') = (if swap = (swap_sdcc s' > 0) then [True, False, False] else [False, True, False]) \<and>
    property_get E PERSISTENT_PROPERTY_SWAPPED (props s') = (1, if swap then ''1'' else ''0'')"
proof -
  let ?s = "act (Remount False) (init_prop_forced_list E s)" and ?v = "cstr (take (PROP_VALUE_MAX E - 1) content)"
  have "property_get E PERSISTENT_PROPERTY_PLANNED_SWAP (props ?s) = (int (length ?v), ?v)"
    using forced_loop_planned [OF assms(1,4,5)] assms(2,3) by (simp add: init_prop_forced_list_def Let_def)
  then have b: "stor_swapped (boot_properties E ?s) = (if swap then 1 else 0)"
    using boot_swapped [OF assms(1)] assms(6) swap by simp
  then have "property_get E PERSISTENT_PROPERTY_SWAPPED (props s') = (1, if swap then ''1'' else ''0'')"
    using init_storages [OF assms(8)] arrange_swapped [OF assms(1,2)] by (simp add: booted_def)
  moreover have "stor_swapped s' \<noteq> 0 \<longleftrightarrow> swap" using b init_storages [OF assms(8)] by (simp add: booted_def)
  then have "map sdcc (storage_list s') = (if swap then [2, 1, 3] else [1, 2, 3])"
    "map (\<lambda>x. emmc x \<noteq> 0) (storage_list s') = (if swap = (swap_sdcc s' > 0) then [True, False, False] else [False, True, False])"
    using booted_items [OF assms(7), of E] init_storages [OF assms(8)]
    by (auto simp: layout_def storage_list_init_def part_of_def Let_def)
  ultimately show ?thesis by blast
qed

theorem planned_swap_done_witness:
  "\<exists>s'. init_msm_properties demo_init demo_boot = Some s' \<and> map sdcc (storage_list s') = [2, 1, 3] \<and>
     property_get demo_init PERSISTENT_PROPERTY_SWAPPED (props s') = (1, ''1'')"
proof -
  obtain s' where s': "init_msm_properties demo_init demo_boot = Some s'" using demo_init_runs by blast
  have "planned demo_init [demo_entry] = [demo_entry]" "atoi (cstr (take 91 ''1'')) \<noteq> 0"
    by (simp add: demo_entry_def trusted_def demo_init_def) code_simp
  then show ?thesis
    using planned_swap_done [OF demo_init_laws _ _ _ _ _ _ s', of "[demo_entry]" demo_entry "''1''" True] s'
    by (simp add: demo_init_def demo_entry_def demo_boot_def)
qed

text \<open>
  C19 Before the persistent properties are loaded, only the planned swap can change, and only from a file that is regular, belongs
  to root, has no other link and gives no access to others.
\<close>

theorem forced_properties_trusted:
  assumes "service_laws E" "property_get E m (props (init_prop_forced_list E s)) \<noteq> property_get E m (props s)"
  shows "m = PERSISTENT_PROPERTY_PLANNED_SWAP \<and>
    (\<exists>es e. property_dir E = Some es \<and> e \<in> set es \<and> d_name e = m \<and> trusted E e \<and> d_read e \<noteq> None)"
proof -
  obtain es where es: "property_dir E = Some es" using assms(2) by (auto simp: init_prop_forced_list_def split: option.splits)
  then have "property_get E m (forced_loop E es (props s)) \<noteq> property_get E m (props s)"
    using assms(2) by (simp add: init_prop_forced_list_def)
  then show ?thesis using forced_loop_trusted [of E m es "props s"] assms(1) es unfolding service_laws_def by blast
qed

theorem forced_properties_trusted_witness:
  "\<exists>es e. property_dir demo_init = Some es \<and> e \<in> set es \<and> d_name e = PERSISTENT_PROPERTY_PLANNED_SWAP \<and> trusted demo_init e"
proof -
  have "planned demo_init [demo_entry] = [demo_entry]"
    by (simp add: demo_entry_def trusted_def demo_init_def)
  then have "property_get demo_init PERSISTENT_PROPERTY_PLANNED_SWAP (props (init_prop_forced_list demo_init demo_boot)) = (1, ''1'')"
    using forced_loop_planned [OF demo_init_laws, of "[demo_entry]" demo_entry "''1''"]
    by (simp add: init_prop_forced_list_def demo_init_def demo_entry_def cstr_def)
  moreover have "property_get demo_init PERSISTENT_PROPERTY_PLANNED_SWAP (props demo_boot) = (0, [])"
    by (simp add: demo_init_def demo_boot_def)
  ultimately show ?thesis
    using forced_properties_trusted [OF demo_init_laws, of PERSISTENT_PROPERTY_PLANNED_SWAP demo_boot] by auto
qed

text \<open>
  The number of a partition is read from the target of its link, behind the last letter p.
\<close>

theorem part_num_found:
  assumes "dev = ''/dev/block/platform/msm_sdcc.'' @ decimal n @ ''/by-name/'' @ name" "access_ok E dev"
    "readlink E dev = Some (''/dev/block/mmcblk'' @ digits k @ ''p'' @ digits m)" "length (digits k) + length (digits m) \<le> 200"
    "0 < m" "m < 2 ^ 31"
  shows "get_part_num E n name = int m"
proof -
  let ?t = "''/dev/block/mmcblk'' @ digits k @ ''p'' @ digits m"
  have d: "NUL \<notin> set (digits i)" "CHR ''p'' \<notin> set (digits i)" for i using digits_range [of _ i] by fastforce+
  then have "cstr ?t = ?t" using cstr_padded [of ?t 0] by simp
  moreover have "sublist ''/mmcblk'' ?t"
    unfolding sublist_def by (intro exI [of _ "''/dev/block''"] exI [of _ "digits k @ ''p'' @ digits m"]) simp
  then have "strstr ?t ''/mmcblk'' \<noteq> None" using strstr_sublist by blast
  moreover have "after_last CHR ''p'' ?t = Some (digits m)"
    using after_last_append [of "CHR ''p''" "digits m" "''/dev/block/mmcblk'' @ digits k"] d(2) by simp
  moreover have "take 255 ?t = ?t" "?t \<noteq> []" using assms(4) by simp_all
  ultimately show ?thesis
    using assms strtol_digits [OF assms(6)] unfolding get_part_num_def Let_def assms(1) [symmetric] by (simp del: append.simps)
qed

theorem part_num_found_witness:
  "get_part_num demo_init 1 ''usbmsc'' = int 26"
proof -
  have "readlink demo_init d = Some (''/dev/block/mmcblk'' @ digits 0 @ ''p'' @ digits 26)" for d
    by (simp add: demo_init_def digits.simps) code_simp
  then show ?thesis
    using part_num_found [OF refl, of demo_init 1 "''usbmsc''" 0 26] length_digits [of 26 1] length_digits [of 0 0] by (simp add: demo_init_def)
qed

text \<open>
  C37 There is no test for the room in the buffer: a template that fills it and has the place of the first controller makes
  the start write behind its end.
\<close>

theorem fstab_overflow:
  assumes "storage_list s = storage_list_init" "fstab_template E = Some (pre @ ''%1'' @ post)" "plain_text pre" "plain_text post"
    "length (pre @ ''%1'' @ post) = 2047"
  shows "init_msm_properties E s = None"
proof -
  let ?t = "pre @ ''%1'' @ post" and ?items = "storage_list (booted E s)"
  note two = booted_two [OF assms(1), of E] note v = volume_facts [OF two]
  have ns: "[0..<length ?items] = [0, 1, 2]" using two by (simp add: two_storages_def upt_rec numeral_eq_Suc)
  have "str_replace (?t @ replicate 1 NUL) CHR ''%'' 1 (volume ?items 1) = None"
    using str_replace_overflow [of pre post "''%1''" "CHR ''%''" 1 1 "volume ?items 1"] assms(3,4) v(3) [of 1]
      strstr_skip [of "CHR ''%''" pre "''%1'' @ post" "''1''"] by (simp add: plain_text_def decimal_slots)
  moreover have "strstr ?t ''%2'' = None"
    using assms(3,4) strstr_skip [of "CHR ''%''" pre "''%1'' @ post" "''2''"] strstr_absent [of "CHR ''%''" post]
      strstr_other [of "CHR ''1''" "CHR ''2''" "CHR ''%''" post] by (simp add: plain_text_def)
  then have "str_replace (?t @ replicate 1 NUL) CHR ''%'' 2 (volume ?items 2) = Some (- 1, ?t @ replicate 1 NUL)"
    using str_replace_absent [of ?t 1 "CHR ''%''" 2] assms(3,4) by (simp add: plain_text_def decimal_slots)
  ultimately have "volumes_loop ?items [0..<length ?items] (?t @ replicate 1 NUL) = None"
    using two_storages_volumes [OF two] unfolding ns by auto
  moreover have "take 2047 ?t = ?t" "?t \<noteq> []" "2048 - length ?t = 1" using assms(5) by simp_all
  ultimately show ?thesis using assms(2) by (simp add: init_booted create_ftab_storage_def Let_def)
qed

theorem fstab_overflow_witness:
  "init_msm_properties (demo_init\<lparr>fstab_template := Some (replicate 2045 CHR ''x'' @ ''%1'')\<rparr>) demo_boot = None"
  using fstab_overflow [of demo_boot "demo_init\<lparr>fstab_template := Some (replicate 2045 CHR ''x'' @ ''%1'')\<rparr>" "replicate 2045 CHR ''x''" "[]"]
  by (simp add: demo_boot_def plain_text_def)

end
