(* ===== verification/Viewmem.thy ===== *)
theory Viewmem
  imports Byte_Words
begin

text \<open>
  The tool \<^verbatim>\<open>viewmem/viewmem.c\<close>, which maps physical memory and copies a part of it to the standard output. The
  size of a page, the files and the mapping are parameters; an access outside the mapping is the result \<open>None\<close>.
\<close>

unbundle bit_operations_syntax

section \<open>The tool\<close>

text \<open>
  \<open>sscanf(s, "0x%lx", ...)\<close>: the prefix, then what \<^verbatim>\<open>strtoul\<close> accepts in base 16; a number that is too large becomes
  the largest one, a sign negates.
\<close>

definition scan_hex :: "string \<Rightarrow> 32 word option" where
  "scan_hex s =
     (if take 2 s \<noteq> ''0x'' then None
      else let t = dropWhile is_space (drop 2 s);
               neg = (t \<noteq> [] \<and> hd t = CHR ''-'');
               t = (if t \<noteq> [] \<and> hd t \<in> {CHR ''-'', CHR ''+''} then tl t else t);
               t = (if hex_prefix t then drop 2 t else t)
           in if t = [] \<or> (case digit_val (hd t) of None \<Rightarrow> True | Some v \<Rightarrow> 16 \<le> v) then None
              else let v = digits_val 16 0 t in
                Some (if 2 ^ 32 \<le> v then - 1 else if neg then - of_nat v else of_nat v))"

text \<open>A mapping is the bytes of the file from the offset on, as many as were asked for.\<close>

record mem_env =
  pagesize :: "32 word"
  open_file :: "string \<Rightarrow> int"
  mmap :: "int \<Rightarrow> 32 word \<Rightarrow> 32 word \<Rightarrow> u8 list option"

text \<open>The loop: \<open>i\<close> stays below the length of the mapping, so that \<open>i += 4\<close> does not wrap.\<close>

function view_loop :: "u8 list \<Rightarrow> nat \<Rightarrow> nat \<Rightarrow> nat \<Rightarrow> u8 list option" where
  "view_loop buf off n i =
     (if i < n then
        if off + i + 4 \<le> length buf
        then map_option (\<lambda>out. take 4 (drop (off + i) buf) @ out) (view_loop buf off n (i + 4))
        else None
      else Some [])"
  by auto
termination by (relation "measure (\<lambda>(buf, off, n, i). n - i)") auto

declare view_loop.simps [simp del]

definition view_memory :: "mem_env \<Rightarrow> string list \<Rightarrow> 32 word \<Rightarrow> 32 word \<Rightarrow> (int \<times> u8 list) option" where
  "view_memory E argv addr n =
     (let fd = open_file E (if 4 \<le> length argv then argv ! 3 else ''/dev/mem'') in
      if fd = 0 then Some (- 1, [])
      else let newaddr = addr AND NOT (pagesize E - 1) in
        case mmap E fd (max (pagesize E) (n AND NOT (pagesize E - 1))) newaddr of
          None \<Rightarrow> Some (- 1, [])
        | Some buf \<Rightarrow> map_option (Pair 0) (view_loop buf (unat (addr - newaddr)) (unat n) 0))"

definition viewmem_main :: "mem_env \<Rightarrow> string list \<Rightarrow> (int \<times> u8 list) option" where
  "viewmem_main E argv =
     (if length argv < 2 then Some (- 1, [])
      else case scan_hex (argv ! 1) of
        None \<Rightarrow> Some (- 1, [])
      | Some addr \<Rightarrow>
          if 3 \<le> length argv
          then case scan_hex (argv ! 2) of None \<Rightarrow> Some (- 1, []) | Some n \<Rightarrow> view_memory E argv addr n
          else view_memory E argv addr 4)"

section \<open>The mapping\<close>

text \<open>The file \<open>m\<close> behind the mappings, and the number of bytes that are read: a multiple of four.\<close>

definition mem_law :: "mem_env \<Rightarrow> (nat \<Rightarrow> u8) \<Rightarrow> bool" where
  "mem_law E m \<longleftrightarrow> (\<exists>k < 31. pagesize E = 2 ^ k) \<and>
     (\<forall>fd len off. 0 < fd \<longrightarrow> mmap E fd len off = Some (map m [unat off ..< unat off + unat len]))"

definition read_size :: "nat \<Rightarrow> nat" where
  "read_size n = 4 * ((n + 3) div 4)"

lemma read_size_step:
  assumes "i < n"
  shows "read_size (n - i) = 4 + read_size (n - (i + 4))"
proof -
  obtain m where n: "n = i + Suc m" using assms less_imp_Suc_add by auto
  have "(4 + m) div 4 = Suc (m div 4)" by simp
  moreover have "(m - 3 + 3) div 4 = m div 4" by (cases "3 \<le> m") simp_all
  ultimately show ?thesis by (simp add: read_size_def n)
qed

lemma view_loop_eq:
  "view_loop buf off n i = (if n \<le> i \<or> off + i + read_size (n - i) \<le> length buf
     then Some (take (read_size (n - i)) (drop (off + i) buf)) else None)"
proof (induction buf off n i rule: view_loop.induct)
  case (1 buf off n i)
  consider "n \<le> i" | "i < n" "off + i + 4 \<le> length buf" | "i < n" "length buf < off + i + 4" by linarith
  then show ?case
  proof cases
    case 1
    then show ?thesis by (subst view_loop.simps) (simp add: read_size_def)
  next
    case 2
    let ?r = "read_size (n - (i + 4))"
    have r: "n \<le> i + 4 \<Longrightarrow> ?r = 0" by (simp add: read_size_def)
    have t: "take (4 + ?r) (drop (off + i) buf) = take 4 (drop (off + i) buf) @ take ?r (drop (off + (i + 4)) buf)"
      unfolding take_add drop_drop by (simp add: ac_simps)
    have "n \<le> i + 4 \<or> off + (i + 4) + ?r \<le> length buf \<longleftrightarrow> off + i + (4 + ?r) \<le> length buf" using 2 r by auto
    then show ?thesis
      using 2 "1.IH" t unfolding read_size_step [OF 2(1)] by (subst view_loop.simps) (simp add: not_le)
  next
    case 3
    then show ?thesis unfolding read_size_step [OF 3(1)] by (subst view_loop.simps) simp
  qed
qed

lemma unat_page:
  fixes w :: "32 word"
  assumes "k < 31"
  shows "unat (w AND NOT (2 ^ k - 1)) = unat w - unat w mod 2 ^ k" "unat (w - (w AND NOT (2 ^ k - 1))) = unat w mod 2 ^ k"
proof -
  have m: "2 ^ k - 1 = (mask k :: 32 word)" by (simp add: mask_eq_decr_exp)
  have t: "unat (take_bit k w) = unat w mod 2 ^ k" unfolding unsigned_take_bit_eq by (rule take_bit_eq_mod)
  have "w AND NOT (mask k) = push_bit k (drop_bit k w)"
    by (rule bit_word_eqI) (auto simp: bit_simps)
  then have e: "w AND NOT (mask k) = w - take_bit k w" using bits_ident [of k w] by (simp add: eq_diff_eq)
  then show "unat (w - (w AND NOT (2 ^ k - 1))) = unat w mod 2 ^ k" unfolding m using t by simp
  have "take_bit k w \<le> w" using t by (simp add: word_le_nat_alt)
  then show "unat (w AND NOT (2 ^ k - 1)) = unat w - unat w mod 2 ^ k" unfolding m e using t by (simp add: unat_sub)
qed

lemma unat_max32: "unat (max a b :: 32 word) = max (unat a) (unat b)"
  by (simp add: max_def word_le_nat_alt)

text \<open>What the tool does after its arguments, for a file that opens.\<close>

lemma view_memory_eq:
  assumes "mem_law E m" "0 < open_file E (if 4 \<le> length argv then argv ! 3 else ''/dev/mem'')"
  shows "view_memory E argv addr n = (let ps = unat (pagesize E); off = unat addr mod ps in
    if unat n = 0 \<or> off + read_size (unat n) \<le> max ps (unat n - unat n mod ps)
    then Some (0, map m [unat addr ..< unat addr + read_size (unat n)]) else None)"
proof -
  obtain k where k: "k < 31" "pagesize E = 2 ^ k" using assms(1) by (auto simp: mem_law_def)
  have "(2 :: nat) ^ k < 2 ^ 32" using k(1) by (intro power_strict_increasing) simp_all
  then have ps: "unat (2 ^ k :: 32 word) = 2 ^ k" using unat_of_nat [of "2 ^ k", where 'a = 32] by simp
  let ?len = "max (2 ^ k) (unat n - unat n mod 2 ^ k)" and ?off = "unat addr mod 2 ^ k"
  have "mmap E (open_file E (if 4 \<le> length argv then argv ! 3 else ''/dev/mem'')) (max (pagesize E) (n AND NOT (pagesize E - 1)))
      (addr AND NOT (pagesize E - 1)) = Some (map m [unat addr - ?off ..< unat addr - ?off + ?len])"
    using assms(1,2) k unat_page [OF k(1)] ps by (simp add: mem_law_def unat_max32)
  then have "view_memory E argv addr n =
      map_option (Pair 0) (view_loop (map m [unat addr - ?off ..< unat addr - ?off + ?len]) ?off (unat n) 0)"
    using assms(2) k(2) unat_page [OF k(1)] by (simp add: view_memory_def Let_def)
  moreover have "unat addr - ?off + ?off = unat addr" by simp
  moreover have "read_size 0 = 0" by (simp add: read_size_def)
  ultimately show ?thesis
    using k(2) ps by (auto simp: view_loop_eq Let_def take_map drop_map)
qed

section \<open>An instance\<close>

definition demo_mem :: mem_env where
  "demo_mem = \<lparr>pagesize = 4096, open_file = (\<lambda>_. 3),
     mmap = (\<lambda>fd len off. if fd < 0 then None else Some (map of_nat [unat off ..< unat off + unat len]))\<rparr>"

lemma demo_mem_law: "mem_law demo_mem of_nat"
  unfolding mem_law_def by (intro conjI exI [of _ 12]) (simp_all add: demo_mem_def)

section \<open>Properties\<close>

text \<open>
  A part of one page is shown as it is in the memory, rounded up to a multiple of four bytes.
\<close>

theorem viewmem_shows:
  assumes "mem_law E m" "0 < open_file E ''/dev/mem''" "scan_hex a = Some addr" "scan_hex b = Some n"
    "unat addr mod unat (pagesize E) + read_size (unat n) \<le> unat (pagesize E)"
  shows "viewmem_main E [p, a, b] = Some (0, map m [unat addr ..< unat addr + read_size (unat n)])"
  using assms(3-5) view_memory_eq [OF assms(1), of "[p, a, b]" addr n] assms(2)
  by (simp add: viewmem_main_def le_max_iff_disj Let_def)

theorem viewmem_shows_witness:
  "viewmem_main demo_mem [''viewmem'', ''0x1010'', ''0x6''] = Some (0, map of_nat [4112 ..< 4120])"
proof -
  have "scan_hex ''0x1010'' = Some 4112" "scan_hex ''0x6'' = Some 6"
    by (simp_all add: scan_hex_def is_space_def hex_prefix_def digit_val_def)
  then show ?thesis
    using viewmem_shows [OF demo_mem_law, of "''0x1010''" 4112 "''0x6''" 6 "''viewmem''"] by (simp add: demo_mem_def read_size_def)
qed

text \<open>
  C34 The length of the mapping is the size rounded down to whole pages: for a size of more than a page that is not a multiple
  of the page, the tool reads behind the end of the mapping, wherever it starts.
\<close>

theorem viewmem_short_mapping:
  assumes "mem_law E m" "0 < open_file E ''/dev/mem''" "scan_hex a = Some addr" "scan_hex b = Some n"
    "unat (pagesize E) < unat n" "unat n mod unat (pagesize E) \<noteq> 0"
  shows "viewmem_main E [p, a, b] = None"
proof -
  have "unat n \<le> read_size (unat n)" by (simp add: read_size_def)
  then show ?thesis
    using assms(3-6) view_memory_eq [OF assms(1), of "[p, a, b]" addr n] assms(2) by (simp add: viewmem_main_def Let_def)
qed

theorem viewmem_short_mapping_witness:
  "viewmem_main demo_mem [''viewmem'', ''0x1000'', ''0x1004''] = None"
proof -
  have "scan_hex ''0x1000'' = Some 4096" "scan_hex ''0x1004'' = Some 4100"
    by (simp_all add: scan_hex_def is_space_def hex_prefix_def digit_val_def)
  then show ?thesis
    using viewmem_short_mapping [OF demo_mem_law, of "''0x1000''" 4096 "''0x1004''" 4100 "''viewmem''"] by (simp add: demo_mem_def)
qed

end
