(* ===== verification/Fs_Config.thy ===== *)
theory Fs_Config
  imports Byte_Words "HOL-Library.Sublist"
begin

text \<open>
  The users, groups and permissions of the file system images, \<^verbatim>\<open>include/private/android_filesystem_config.h\<close>: the
  table of ids, the rules for directories and files, and \<open>fs_config\<close>, which finds the rule of a path; and the owners
  of the device's own properties and services, \<^verbatim>\<open>include/device_perms.h\<close>.
\<close>

unbundle bit_operations_syntax

section \<open>Ids\<close>

named_theorems aid_values \<open>values of the ids\<close>

definition AID_ROOT :: "32 word" where [aid_values]: "AID_ROOT = 0"
definition AID_SYSTEM :: "32 word" where [aid_values]: "AID_SYSTEM = 1000"
definition AID_RADIO :: "32 word" where [aid_values]: "AID_RADIO = 1001"
definition AID_BLUETOOTH :: "32 word" where [aid_values]: "AID_BLUETOOTH = 1002"
definition AID_GRAPHICS :: "32 word" where [aid_values]: "AID_GRAPHICS = 1003"
definition AID_INPUT :: "32 word" where [aid_values]: "AID_INPUT = 1004"
definition AID_AUDIO :: "32 word" where [aid_values]: "AID_AUDIO = 1005"
definition AID_CAMERA :: "32 word" where [aid_values]: "AID_CAMERA = 1006"
definition AID_LOG :: "32 word" where [aid_values]: "AID_LOG = 1007"
definition AID_COMPASS :: "32 word" where [aid_values]: "AID_COMPASS = 1008"
definition AID_MOUNT :: "32 word" where [aid_values]: "AID_MOUNT = 1009"
definition AID_WIFI :: "32 word" where [aid_values]: "AID_WIFI = 1010"
definition AID_ADB :: "32 word" where [aid_values]: "AID_ADB = 1011"
definition AID_INSTALL :: "32 word" where [aid_values]: "AID_INSTALL = 1012"
definition AID_MEDIA :: "32 word" where [aid_values]: "AID_MEDIA = 1013"
definition AID_DHCP :: "32 word" where [aid_values]: "AID_DHCP = 1014"
definition AID_SDCARD_RW :: "32 word" where [aid_values]: "AID_SDCARD_RW = 1015"
definition AID_VPN :: "32 word" where [aid_values]: "AID_VPN = 1016"
definition AID_KEYSTORE :: "32 word" where [aid_values]: "AID_KEYSTORE = 1017"
definition AID_USB :: "32 word" where [aid_values]: "AID_USB = 1018"
definition AID_DRM :: "32 word" where [aid_values]: "AID_DRM = 1019"
definition AID_MDNSR :: "32 word" where [aid_values]: "AID_MDNSR = 1020"
definition AID_GPS :: "32 word" where [aid_values]: "AID_GPS = 1021"
definition AID_MEDIA_RW :: "32 word" where [aid_values]: "AID_MEDIA_RW = 1023"
definition AID_MTP :: "32 word" where [aid_values]: "AID_MTP = 1024"
definition AID_DRMRPC :: "32 word" where [aid_values]: "AID_DRMRPC = 1026"
definition AID_NFC :: "32 word" where [aid_values]: "AID_NFC = 1027"
definition AID_SDCARD_R :: "32 word" where [aid_values]: "AID_SDCARD_R = 1028"
definition AID_CLAT :: "32 word" where [aid_values]: "AID_CLAT = 1029"
definition AID_LOOP_RADIO :: "32 word" where [aid_values]: "AID_LOOP_RADIO = 1030"
definition AID_MEDIA_DRM :: "32 word" where [aid_values]: "AID_MEDIA_DRM = 1031"
definition AID_PACKAGE_INFO :: "32 word" where [aid_values]: "AID_PACKAGE_INFO = 1032"
definition AID_SDCARD_PICS :: "32 word" where [aid_values]: "AID_SDCARD_PICS = 1033"
definition AID_SDCARD_AV :: "32 word" where [aid_values]: "AID_SDCARD_AV = 1034"
definition AID_SDCARD_ALL :: "32 word" where [aid_values]: "AID_SDCARD_ALL = 1035"
definition AID_AUDIT :: "32 word" where [aid_values]: "AID_AUDIT = 1036"
definition AID_FM_RADIO :: "32 word" where [aid_values]: "AID_FM_RADIO = 1037"
definition AID_SMARTCARD :: "32 word" where [aid_values]: "AID_SMARTCARD = 1138"
definition AID_THEMEMAN :: "32 word" where [aid_values]: "AID_THEMEMAN = 1300"
definition AID_SHELL :: "32 word" where [aid_values]: "AID_SHELL = 2000"
definition AID_CACHE :: "32 word" where [aid_values]: "AID_CACHE = 2001"
definition AID_DIAG :: "32 word" where [aid_values]: "AID_DIAG = 2002"
definition AID_NET_BT_ADMIN :: "32 word" where [aid_values]: "AID_NET_BT_ADMIN = 3001"
definition AID_NET_BT :: "32 word" where [aid_values]: "AID_NET_BT = 3002"
definition AID_INET :: "32 word" where [aid_values]: "AID_INET = 3003"
definition AID_NET_RAW :: "32 word" where [aid_values]: "AID_NET_RAW = 3004"
definition AID_NET_ADMIN :: "32 word" where [aid_values]: "AID_NET_ADMIN = 3005"
definition AID_NET_BW_STATS :: "32 word" where [aid_values]: "AID_NET_BW_STATS = 3006"
definition AID_NET_BW_ACCT :: "32 word" where [aid_values]: "AID_NET_BW_ACCT = 3007"
definition AID_NET_BT_STACK :: "32 word" where [aid_values]: "AID_NET_BT_STACK = 3008"
definition AID_QCOM_ONCRPC :: "32 word" where [aid_values]: "AID_QCOM_ONCRPC = 3009"
definition AID_QCOM_DIAG :: "32 word" where [aid_values]: "AID_QCOM_DIAG = 3010"
definition AID_QCOM_THERMAL :: "32 word" where [aid_values]: "AID_QCOM_THERMAL = 3011"
definition AID_MOT_ACCY :: "32 word" where [aid_values]: "AID_MOT_ACCY = 9000"
definition AID_MOT_PWRIC :: "32 word" where [aid_values]: "AID_MOT_PWRIC = 9001"
definition AID_MOT_USB :: "32 word" where [aid_values]: "AID_MOT_USB = 9002"
definition AID_MOT_DRM :: "32 word" where [aid_values]: "AID_MOT_DRM = 9003"
definition AID_MOT_TCMD :: "32 word" where [aid_values]: "AID_MOT_TCMD = 9004"
definition AID_MOT_SEC_RTC :: "32 word" where [aid_values]: "AID_MOT_SEC_RTC = 9005"
definition AID_MOT_TOMBSTONE :: "32 word" where [aid_values]: "AID_MOT_TOMBSTONE = 9006"
definition AID_MOT_TPAPI :: "32 word" where [aid_values]: "AID_MOT_TPAPI = 9007"
definition AID_MOT_SECCLKD :: "32 word" where [aid_values]: "AID_MOT_SECCLKD = 9008"
definition AID_MOT_WHISPER :: "32 word" where [aid_values]: "AID_MOT_WHISPER = 9009"
definition AID_MOT_CAIF :: "32 word" where [aid_values]: "AID_MOT_CAIF = 9010"
definition AID_MOT_DLNA :: "32 word" where [aid_values]: "AID_MOT_DLNA = 9011"
definition AID_MOT_ATVC :: "32 word" where [aid_values]: "AID_MOT_ATVC = 9012"
definition AID_SPRINT_EXTENSION :: "32 word" where [aid_values]: "AID_SPRINT_EXTENSION = 9013"
definition AID_MOT_DBVC :: "32 word" where [aid_values]: "AID_MOT_DBVC = 9014"
definition AID_MISC :: "32 word" where [aid_values]: "AID_MISC = 9998"
definition AID_NOBODY :: "32 word" where [aid_values]: "AID_NOBODY = 9999"
definition AID_APP :: "32 word" where [aid_values]: "AID_APP = 10000"

record android_id_info =
  id_name :: string
  id_aid :: "32 word"

abbreviation android_id :: "string \<Rightarrow> 32 word \<Rightarrow> android_id_info" where
  "android_id n a \<equiv> \<lparr>id_name = n, id_aid = a\<rparr>"

definition android_ids :: "android_id_info list" where
  "android_ids = [
     android_id ''root'' AID_ROOT, android_id ''system'' AID_SYSTEM, android_id ''radio'' AID_RADIO,
     android_id ''bluetooth'' AID_BLUETOOTH, android_id ''graphics'' AID_GRAPHICS, android_id ''input'' AID_INPUT,
     android_id ''audio'' AID_AUDIO, android_id ''camera'' AID_CAMERA, android_id ''log'' AID_LOG,
     android_id ''compass'' AID_COMPASS, android_id ''mount'' AID_MOUNT, android_id ''wifi'' AID_WIFI,
     android_id ''adb'' AID_ADB, android_id ''install'' AID_INSTALL, android_id ''media'' AID_MEDIA,
     android_id ''dhcp'' AID_DHCP, android_id ''sdcard_rw'' AID_SDCARD_RW, android_id ''vpn'' AID_VPN,
     android_id ''keystore'' AID_KEYSTORE, android_id ''usb'' AID_USB, android_id ''drm'' AID_DRM,
     android_id ''mdnsr'' AID_MDNSR, android_id ''gps'' AID_GPS, android_id ''media_rw'' AID_MEDIA_RW,
     android_id ''mtp'' AID_MTP, android_id ''drmrpc'' AID_DRMRPC, android_id ''nfc'' AID_NFC,
     android_id ''sdcard_r'' AID_SDCARD_R, android_id ''clat'' AID_CLAT, android_id ''loop_radio'' AID_LOOP_RADIO,
     android_id ''mediadrm'' AID_MEDIA_DRM, android_id ''package_info'' AID_PACKAGE_INFO, android_id ''sdcard_pics'' AID_SDCARD_PICS,
     android_id ''sdcard_av'' AID_SDCARD_AV, android_id ''sdcard_all'' AID_SDCARD_ALL, android_id ''shell'' AID_SHELL,
     android_id ''cache'' AID_CACHE, android_id ''diag'' AID_DIAG, android_id ''net_bt_admin'' AID_NET_BT_ADMIN,
     android_id ''net_bt'' AID_NET_BT, android_id ''inet'' AID_INET, android_id ''net_raw'' AID_NET_RAW,
     android_id ''net_admin'' AID_NET_ADMIN, android_id ''net_bw_stats'' AID_NET_BW_STATS, android_id ''net_bw_acct'' AID_NET_BW_ACCT,
     android_id ''qcom_oncrpc'' AID_QCOM_ONCRPC, android_id ''qcom_diag'' AID_QCOM_DIAG, android_id ''net_bt_stack'' AID_NET_BT_STACK,
     android_id ''smartcard'' AID_SMARTCARD, android_id ''qcom_thermal'' AID_QCOM_THERMAL, android_id ''fm_radio'' AID_FM_RADIO,
     android_id ''mot_accy'' AID_MOT_ACCY, android_id ''mot_pwric'' AID_MOT_PWRIC, android_id ''mot_usb'' AID_MOT_USB,
     android_id ''mot_drm'' AID_MOT_DRM, android_id ''mot_tcmd'' AID_MOT_TCMD, android_id ''mot_sec_rtc'' AID_MOT_SEC_RTC,
     android_id ''mot_tombstone'' AID_MOT_TOMBSTONE, android_id ''mot_tpapi'' AID_MOT_TPAPI, android_id ''mot_secclkd'' AID_MOT_SECCLKD,
     android_id ''mot_whisper'' AID_MOT_WHISPER, android_id ''mot_caif'' AID_MOT_CAIF, android_id ''mot_dlna'' AID_MOT_DLNA,
     android_id ''mot_atvc'' AID_MOT_ATVC, android_id ''sprint_extension'' AID_SPRINT_EXTENSION, android_id ''mot_dbvc'' AID_MOT_DBVC,
     android_id ''misc'' AID_MISC, android_id ''nobody'' AID_NOBODY, android_id ''theme_man'' AID_THEMEMAN,
     android_id ''audit'' AID_AUDIT]"

section \<open>Rules\<close>

definition CAP_SETGID :: nat where "CAP_SETGID = 6"
definition CAP_SETUID :: nat where "CAP_SETUID = 7"

record fs_path_config =
  fc_mode :: "32 word"
  fc_uid :: "32 word"
  fc_gid :: "32 word"
  fc_capabilities :: "64 word"
  fc_prefix :: "string option"         \<comment> \<open>the null pointer ends a table\<close>

definition octal :: "nat \<Rightarrow> nat \<Rightarrow> nat \<Rightarrow> nat \<Rightarrow> 32 word" where
  "octal a b c d = of_nat (((a * 8 + b) * 8 + c) * 8 + d)"

abbreviation config :: "32 word \<Rightarrow> 32 word \<Rightarrow> 32 word \<Rightarrow> 64 word \<Rightarrow> string option \<Rightarrow> fs_path_config" where
  "config m u g c p \<equiv> \<lparr>fc_mode = m, fc_uid = u, fc_gid = g, fc_capabilities = c, fc_prefix = p\<rparr>"

definition android_dirs :: "fs_path_config list" where
  "android_dirs = [
     config (octal 0 7 7 0) AID_SYSTEM AID_CACHE 0 (Some ''cache''),
     config (octal 0 7 7 1) AID_SYSTEM AID_SYSTEM 0 (Some ''data/app''),
     config (octal 0 7 7 1) AID_SYSTEM AID_SYSTEM 0 (Some ''data/app-private''),
     config (octal 0 7 7 1) AID_SYSTEM AID_SYSTEM 0 (Some ''data/dalvik-cache''),
     config (octal 0 7 7 1) AID_SYSTEM AID_SYSTEM 0 (Some ''data/data''),
     config (octal 0 7 7 1) AID_SHELL AID_SHELL 0 (Some ''data/local/tmp''),
     config (octal 0 7 7 1) AID_SHELL AID_SHELL 0 (Some ''data/local''),
     config (octal 1 7 7 1) AID_SYSTEM AID_MISC 0 (Some ''data/misc''),
     config (octal 0 7 7 0) AID_DHCP AID_DHCP 0 (Some ''data/misc/dhcp''),
     config (octal 0 7 7 5) AID_MEDIA_RW AID_MEDIA_RW 0 (Some ''data/media''),
     config (octal 0 7 7 5) AID_MEDIA_RW AID_MEDIA_RW 0 (Some ''data/media/Music''),
     config (octal 0 7 7 1) AID_SYSTEM AID_SYSTEM 0 (Some ''data''),
     config (octal 0 7 5 0) AID_ROOT AID_SHELL 0 (Some ''sbin''),
     config (octal 0 7 5 5) AID_ROOT AID_ROOT 0 (Some ''system/addon.d''),
     config (octal 0 7 5 5) AID_ROOT AID_SHELL 0 (Some ''system/bin''),
     config (octal 0 7 5 5) AID_ROOT AID_SHELL 0 (Some ''system/vendor''),
     config (octal 0 7 5 5) AID_ROOT AID_SHELL 0 (Some ''system/xbin''),
     config (octal 0 7 5 5) AID_ROOT AID_ROOT 0 (Some ''system/etc/ppp''),
     config (octal 0 7 5 5) AID_ROOT AID_SHELL 0 (Some ''vendor''),
     config (octal 0 7 7 7) AID_ROOT AID_ROOT 0 (Some ''sdcard''),
     config (octal 0 7 5 5) AID_ROOT AID_ROOT 0 None]"

definition android_files :: "fs_path_config list" where
  "android_files = [
     config (octal 0 4 4 0) AID_ROOT AID_SHELL 0 (Some ''system/etc/init.goldfish.rc''),
     config (octal 0 5 5 0) AID_ROOT AID_SHELL 0 (Some ''system/etc/init.goldfish.sh''),
     config (octal 0 5 5 0) AID_SYSTEM AID_SYSTEM 0 (Some ''system/etc/init.qcom.sdio.sh''),
     config (octal 0 4 4 0) AID_ROOT AID_SHELL 0 (Some ''system/etc/init.trout.rc''),
     config (octal 0 5 5 0) AID_ROOT AID_SHELL 0 (Some ''system/etc/init.ril''),
     config (octal 0 5 5 0) AID_ROOT AID_SHELL 0 (Some ''system/etc/init.testmenu''),
     config (octal 0 5 5 0) AID_DHCP AID_SHELL 0 (Some ''system/etc/dhcpcd/dhcpcd-run-hooks''),
     config (octal 0 4 4 4) AID_RADIO AID_AUDIO 0 (Some ''system/etc/AudioPara4.csv''),
     config (octal 0 5 5 5) AID_ROOT AID_ROOT 0 (Some ''system/etc/ppp/*''),
     config (octal 0 5 5 5) AID_ROOT AID_ROOT 0 (Some ''system/etc/rc.*''),
     config (octal 0 7 5 5) AID_ROOT AID_ROOT 0 (Some ''system/addon.d/*''),
     config (octal 0 6 4 4) AID_SYSTEM AID_SYSTEM 0 (Some ''data/app/*''),
     config (octal 0 6 4 4) AID_MEDIA_RW AID_MEDIA_RW 0 (Some ''data/media/*''),
     config (octal 0 6 4 4) AID_SYSTEM AID_SYSTEM 0 (Some ''data/app-private/*''),
     config (octal 0 6 4 4) AID_APP AID_APP 0 (Some ''data/data/*''),
     config (octal 0 7 5 5) AID_ROOT AID_ROOT 0 (Some ''system/bin/ping''),
     config (octal 2 7 5 0) AID_ROOT AID_INET 0 (Some ''system/bin/netcfg''),
     config (octal 6 7 5 5) AID_ROOT AID_ROOT 0 (Some ''system/xbin/su''),
     config (octal 6 7 5 5) AID_ROOT AID_ROOT 0 (Some ''system/xbin/librank''),
     config (octal 6 7 5 5) AID_ROOT AID_ROOT 0 (Some ''system/xbin/procrank''),
     config (octal 6 7 5 5) AID_ROOT AID_ROOT 0 (Some ''system/xbin/procmem''),
     config (octal 6 7 5 5) AID_ROOT AID_ROOT 0 (Some ''system/xbin/tcpdump''),
     config (octal 4 7 7 0) AID_ROOT AID_RADIO 0 (Some ''system/bin/pppd-ril''),
     config (octal 0 7 5 0) AID_ROOT AID_SHELL (push_bit CAP_SETUID 1 OR push_bit CAP_SETGID 1) (Some ''system/bin/run-as''),
     config (octal 0 7 5 5) AID_ROOT AID_SHELL 0 (Some ''system/bin/*''),
     config (octal 0 7 5 5) AID_ROOT AID_ROOT 0 (Some ''system/lib/valgrind/*''),
     config (octal 0 7 5 5) AID_ROOT AID_SHELL 0 (Some ''system/xbin/*''),
     config (octal 0 7 5 5) AID_ROOT AID_SHELL 0 (Some ''system/vendor/bin/*''),
     config (octal 0 7 5 5) AID_ROOT AID_SHELL 0 (Some ''vendor/bin/*''),
     config (octal 0 7 5 0) AID_ROOT AID_SHELL 0 (Some ''sbin/*''),
     config (octal 0 7 5 5) AID_ROOT AID_ROOT 0 (Some ''bin/*''),
     config (octal 0 7 5 0) AID_ROOT AID_SHELL 0 (Some ''init*''),
     config (octal 0 7 5 0) AID_ROOT AID_SHELL 0 (Some ''charger*''),
     config (octal 0 7 5 0) AID_ROOT AID_SHELL 0 (Some ''sbin/fs_mgr''),
     config (octal 0 6 4 0) AID_ROOT AID_SHELL 0 (Some ''fstab.*''),
     config (octal 0 7 5 5) AID_ROOT AID_SHELL 0 (Some ''system/etc/init.d/*''),
     config (octal 0 6 4 4) AID_ROOT AID_ROOT 0 None]"

section \<open>The rule of a path\<close>

text \<open>\<open>!strncmp(a, b, n)\<close>: the comparison ends with the character that ends a text.\<close>

definition same_start :: "string \<Rightarrow> string \<Rightarrow> nat \<Rightarrow> bool" where
  "same_start a b n \<longleftrightarrow> take n (a @ [CHR 0x00]) = take n (b @ [CHR 0x00])"

definition rule_matches :: "bool \<Rightarrow> string \<Rightarrow> string \<Rightarrow> bool" where
  "rule_matches dir pre path =
     (let plen = length path; len = length pre in
      if dir then \<not> plen < len \<and> same_start pre path len
      else if pre ! (len - 1) = CHR ''*'' then same_start pre path (len - 1)
      else plen = len \<and> same_start pre path len)"

text \<open>The loop; a table that does not end with a null pointer would be read behind its end.\<close>

fun config_loop :: "bool \<Rightarrow> string \<Rightarrow> fs_path_config list \<Rightarrow> fs_path_config option" where
  "config_loop dir path [] = None"
| "config_loop dir path (pc # pcs) = (case fc_prefix pc of
     None \<Rightarrow> Some pc
   | Some pre \<Rightarrow> if rule_matches dir pre path then Some pc else config_loop dir path pcs)"

definition rules :: "bool \<Rightarrow> fs_path_config list" where
  "rules dir = (if dir then android_dirs else android_files)"

definition relative :: "string \<Rightarrow> string" where
  "relative path = (if path \<noteq> [] \<and> hd path = CHR ''/'' then tl path else path)"

text \<open>The result is the owner, the group, the mode and the capabilities; the old mode is an argument.\<close>

definition fs_config :: "string \<Rightarrow> bool \<Rightarrow> 32 word \<Rightarrow> (32 word \<times> 32 word \<times> 32 word \<times> 64 word) option" where
  "fs_config path dir mode = do {
     pc \<leftarrow> config_loop dir (relative path) (rules dir);
     Some (fc_uid pc, fc_gid pc, (mode AND NOT (octal 7 7 7 7)) OR fc_mode pc, fc_capabilities pc) }"

section \<open>Properties and services of the device\<close>

text \<open>The name or its beginning, the user and the group that may set it.\<close>

definition PROPERTY_PERMS_APPEND :: "(string \<times> 32 word \<times> 32 word) list" where
  "PROPERTY_PERMS_APPEND = [
     (''persist.storages.'', AID_SYSTEM, 0),
     (''persist.audio.'', AID_SYSTEM, 0),
     (''tcmd.'', AID_MOT_TCMD, AID_MOT_WHISPER),
     (''hw.whisper'', AID_MOT_WHISPER, 0),
     (''sys.media.'', AID_RADIO, 0),
     (''persist.atvc.'', AID_MOT_ATVC, 0),
     (''persist.atvc.'', AID_SYSTEM, 0),
     (''hw.aov.'', AID_AUDIO, 0),
     (''persist.log.'', AID_SHELL, 0),
     (''persist.log.'', AID_LOG, 0),
     (''persist.mot.proximity.'', AID_RADIO, 0),
     (''persist.sprint.dm'', AID_SPRINT_EXTENSION, 0),
     (''persist.tcmd.'', AID_MOT_TCMD, AID_SYSTEM),
     (''persist.camera.'', AID_MEDIA, 0)]"

definition CONTROL_PERMS_APPEND :: "(string \<times> 32 word \<times> 32 word) list" where
  "CONTROL_PERMS_APPEND = [
     (''mmi-ril-daemon'', AID_RADIO, AID_RADIO),
     (''ril-daemon1'', AID_RADIO, AID_RADIO),
     (''ril-daemon2'', AID_RADIO, AID_RADIO)]"

section \<open>What a rule covers\<close>

text \<open>A directory rule covers every path that begins with its text, a file rule with a star as well, any other file rule one path.\<close>

definition cover_text :: "bool \<Rightarrow> string option \<Rightarrow> string \<Rightarrow> bool" where
  "cover_text dir t path = (case t of
     None \<Rightarrow> True
   | Some pre \<Rightarrow> if dir then prefix pre path
       else if last pre = CHR ''*'' then prefix (butlast pre) path else path = pre)"

definition covers :: "bool \<Rightarrow> fs_path_config \<Rightarrow> string \<Rightarrow> bool" where
  "covers dir r path \<longleftrightarrow> cover_text dir (fc_prefix r) path"

definition plain_path :: "string \<Rightarrow> bool" where
  "plain_path s \<longleftrightarrow> CHR 0x00 \<notin> set s"

definition rule_ok :: "fs_path_config \<Rightarrow> bool" where
  "rule_ok r \<longleftrightarrow> (case fc_prefix r of None \<Rightarrow> True | Some pre \<Rightarrow> pre \<noteq> [] \<and> plain_path pre)"

lemma same_start_prefix:
  assumes "plain_path a" "plain_path b" "n \<le> length a"
  shows "same_start a b n \<longleftrightarrow> prefix (take n a) b"
proof (cases "n \<le> length b")
  case True
  then have "same_start a b n \<longleftrightarrow> take n a = take n b" using assms(3) by (simp add: same_start_def)
  then show ?thesis using True assms(3) by (auto simp: prefix_def) (metis append_take_drop_id)
next
  case False
  then have "CHR 0x00 \<in> set (take n (b @ [CHR 0x00]))" by simp
  moreover have "CHR 0x00 \<notin> set (take n (a @ [CHR 0x00]))" using assms(1,3) by (auto simp: plain_path_def dest: in_set_takeD)
  ultimately have "\<not> same_start a b n" unfolding same_start_def by metis
  moreover have "\<not> prefix (take n a) b" using False assms(3) prefix_length_le [of "take n a" b] by auto
  ultimately show ?thesis by simp
qed

lemma rule_matches_covers:
  assumes "rule_ok r" "fc_prefix r = Some pre" "plain_path path"
  shows "rule_matches dir pre path \<longleftrightarrow> covers dir r path"
proof -
  have pre: "pre \<noteq> []" "plain_path pre" using assms(1,2) by (simp_all add: rule_ok_def)
  note s = same_start_prefix [OF pre(2) assms(3)]
  have "prefix pre path \<Longrightarrow> length pre \<le> length path" by (rule prefix_length_le)
  moreover have "length path = length pre \<and> prefix pre path \<longleftrightarrow> path = pre" using prefix_order.eq_iff by (auto simp: prefix_def)
  ultimately show ?thesis
    using s [of "length pre"] s [of "length pre - 1"] assms(2) pre(1)
    by (auto simp: rule_matches_def covers_def cover_text_def last_conv_nth butlast_conv_take Let_def)
qed

lemma config_loop_find:
  assumes "list_all rule_ok rs" "fc_prefix (last rs) = None" "rs \<noteq> []" "plain_path path"
  shows "config_loop dir path rs = find (\<lambda>r. covers dir r path) rs \<and> find (\<lambda>r. covers dir r path) rs \<noteq> None"
  using assms(1-3)
proof (induction rs)
  case (Cons r rs)
  show ?case
  proof (cases "fc_prefix r")
    case None
    then show ?thesis by (simp add: covers_def cover_text_def)
  next
    case (Some pre)
    then have "rs \<noteq> []" using Cons.prems by auto
    then show ?thesis using Cons Some rule_matches_covers [OF _ Some assms(4)] by simp
  qed
qed simp

lemma rules_ok: "list_all rule_ok (rules dir)" "fc_prefix (last (rules dir)) = None" "rules dir \<noteq> []"
proof -
  have "list_all rule_ok android_dirs" "list_all rule_ok android_files"
    by (simp_all add: android_dirs_def android_files_def rule_ok_def plain_path_def)
  then show "list_all rule_ok (rules dir)" by (simp add: rules_def)
qed (simp_all add: rules_def android_dirs_def android_files_def)

lemma rules_distinct: "distinct (rules dir)"
proof -
  have "distinct (map fc_prefix android_dirs)" "distinct (map fc_prefix android_files)"
    by (simp_all add: android_dirs_def android_files_def)
  then show ?thesis by (simp add: rules_def distinct_map)
qed

lemma plain_relative: "plain_path path \<Longrightarrow> plain_path (relative path)"
  by (cases path) (auto simp: relative_def plain_path_def)

text \<open>The rule that is applied is the first one that covers the path, and there always is one.\<close>

lemma rule_found:
  assumes "plain_path path"
  shows "\<exists>pre r post. rules dir = pre @ r # post \<and> covers dir r (relative path) \<and> (\<forall>q \<in> set pre. \<not> covers dir q (relative path)) \<and>
    config_loop dir (relative path) (rules dir) = Some r"
proof -
  have f: "config_loop dir (relative path) (rules dir) = find (\<lambda>r. covers dir r (relative path)) (rules dir)"
    "find (\<lambda>r. covers dir r (relative path)) (rules dir) \<noteq> None"
    using config_loop_find [OF rules_ok plain_relative [OF assms]] by blast+
  then obtain r where r: "find (\<lambda>r. covers dir r (relative path)) (rules dir) = Some r" by blast
  obtain i where i: "i < length (rules dir)" "covers dir (rules dir ! i) (relative path)" "rules dir ! i = r"
    "\<forall>j < i. \<not> covers dir (rules dir ! j) (relative path)"
    using r unfolding find_Some_iff by blast
  then have "rules dir = take i (rules dir) @ r # drop (Suc i) (rules dir)" using id_take_nth_drop by blast
  moreover have "\<forall>q \<in> set (take i (rules dir)). \<not> covers dir q (relative path)"
    using i by (auto simp: in_set_conv_nth)
  ultimately show ?thesis using f(1) r i(2,3) by metis
qed

lemma rule_in_table:
  assumes "plain_path path" "config_loop dir (relative path) (rules dir) = Some r"
  shows "r \<in> set (rules dir) \<and> covers dir r (relative path)"
  using rule_found [OF assms(1), of dir] assms(2) by auto

text \<open>A rule behind one that covers all of its paths is never applied.\<close>

lemma never_applied:
  assumes "plain_path path" "j < i" "i < length (rules dir)"
    "covers dir (rules dir ! i) (relative path) \<Longrightarrow> covers dir (rules dir ! j) (relative path)"
  shows "config_loop dir (relative path) (rules dir) \<noteq> Some (rules dir ! i)"
proof
  assume r: "config_loop dir (relative path) (rules dir) = Some (rules dir ! i)"
  then obtain pre post where p: "rules dir = pre @ rules dir ! i # post" "covers dir (rules dir ! i) (relative path)"
    "\<forall>q \<in> set pre. \<not> covers dir q (relative path)"
    using rule_found [OF assms(1), of dir] by auto
  have "rules dir ! length pre = rules dir ! i" "length pre < length (rules dir)"
    by (subst p(1), simp, subst p(1), simp)
  then have "length pre = i" using rules_distinct assms(3) nth_eq_iff_index_eq by blast
  moreover from this have "rules dir ! j \<in> set pre" using assms(2) by (subst p(1)) (auto simp: nth_append)
  ultimately show False using p assms(4) by blast
qed

section \<open>Rules that are never applied\<close>

definition shadowed :: "string list" where
  "shadowed = [''data/app-private'', ''data/misc/dhcp'', ''data/media/Music'', ''sbin/fs_mgr'']"

text \<open>A path for every other rule.\<close>

definition sample_text :: "bool \<Rightarrow> string option \<Rightarrow> string" where
  "sample_text dir t = (case t of None \<Rightarrow> [] | Some p \<Rightarrow> if \<not> dir \<and> last p = CHR ''*'' then butlast p else p)"

abbreviation sample :: "bool \<Rightarrow> fs_path_config \<Rightarrow> string" where
  "sample dir r \<equiv> sample_text dir (fc_prefix r)"

lemma samples_free:
  "sorted_wrt (\<lambda>q r. \<not> covers dir q (sample dir r) \<or> fc_prefix r \<in> Some ` set shadowed) (rules dir)"
proof -
  have "sorted_wrt (\<lambda>p q. \<not> cover_text True p (sample_text True q) \<or> q \<in> Some ` set shadowed) (map fc_prefix android_dirs)"
    by code_simp
  moreover have "sorted_wrt (\<lambda>p q. \<not> cover_text False p (sample_text False q) \<or> q \<in> Some ` set shadowed) (map fc_prefix android_files)"
    by code_simp
  ultimately show ?thesis by (cases dir) (simp_all add: rules_def covers_def sorted_wrt_map)
qed

lemma samples_plain:
  "list_all (\<lambda>r. plain_path (sample dir r) \<and> relative (sample dir r) = sample dir r \<and> covers dir r (sample dir r)) (rules dir)"
  by (cases dir) (simp_all add: rules_def android_dirs_def android_files_def sample_text_def covers_def cover_text_def plain_path_def relative_def)

lemma sample_found:
  assumes "r \<in> set (rules dir)" "fc_prefix r \<notin> Some ` set shadowed"
  shows "plain_path (sample dir r) \<and> relative (sample dir r) = sample dir r \<and> config_loop dir (relative (sample dir r)) (rules dir) = Some r"
proof -
  obtain i where i: "i < length (rules dir)" "r = rules dir ! i" using assms(1) by (auto simp: in_set_conv_nth)
  have s: "plain_path (sample dir r)" "relative (sample dir r) = sample dir r" "covers dir r (sample dir r)"
    using samples_plain assms(1) by (auto simp: list_all_iff)
  moreover have "\<forall>j < i. \<not> covers dir (rules dir ! j) (sample dir r)"
    using samples_free [of dir] assms(2) i unfolding sorted_wrt_iff_nth_less by blast
  ultimately have "find (\<lambda>q. covers dir q (sample dir r)) (rules dir) = Some r" using i by (auto simp: find_Some_iff)
  then show ?thesis using config_loop_find [OF rules_ok s(1)] s by simp
qed

text \<open>The rule that hides a rule: the places of both in the table.\<close>

definition hidden_by :: "bool \<Rightarrow> (nat \<times> nat) list" where
  "hidden_by dir = (if dir then [(2, 1), (8, 7), (10, 9)] else [(33, 29)])"

lemma shadowed_places:
  assumes "i < length (rules dir)" "fc_prefix (rules dir ! i) \<in> Some ` set shadowed"
  shows "\<exists>j. (i, j) \<in> set (hidden_by dir)"
proof -
  have "list_all (\<lambda>(i, r). fc_prefix r \<in> Some ` set shadowed \<longrightarrow> i \<in> fst ` set (hidden_by dir)) (enumerate 0 (rules dir))"
    by (cases dir) (simp_all add: rules_def android_dirs_def android_files_def shadowed_def hidden_by_def)
  moreover have "(i, rules dir ! i) \<in> set (enumerate 0 (rules dir))" using assms(1) by (simp add: in_set_enumerate_eq)
  ultimately have "i \<in> fst ` set (hidden_by dir)" using assms(2) unfolding list_all_iff by fast
  then show ?thesis by force
qed

lemma hidden_covers:
  "(i, j) \<in> set (hidden_by dir) \<Longrightarrow> j < i \<and> i < length (rules dir) \<and> (\<forall>q. covers dir (rules dir ! i) q \<longrightarrow> covers dir (rules dir ! j) q)"
  by (cases dir)
    (auto simp: hidden_by_def covers_def cover_text_def rules_def android_dirs_def android_files_def prefix_def)

section \<open>Set-user-id files\<close>

definition setuid_files :: "string list" where
  "setuid_files = [''system/xbin/su'', ''system/xbin/librank'', ''system/xbin/procrank'', ''system/xbin/procmem'',
     ''system/xbin/tcpdump'', ''system/bin/pppd-ril'']"

lemma setuid_rules:
  "list_all (\<lambda>r. bit (fc_mode r) 11 \<longrightarrow> (\<exists>p \<in> set setuid_files. fc_prefix r = Some p \<and> last p \<noteq> CHR ''*'')) android_files"
  by (simp add: android_files_def setuid_files_def octal_def)

lemma setuid_found:
  assumes "p \<in> set setuid_files"
  shows "\<exists>r. config_loop False p android_files = Some r \<and> bit (fc_mode r) 11"
proof -
  have "list_all (\<lambda>p. list_ex (\<lambda>r. fc_prefix r = Some p \<and> bit (fc_mode r) 11) android_files \<and> last p \<noteq> CHR ''*'' \<and> p \<notin> set shadowed) setuid_files"
    by (simp add: android_files_def setuid_files_def octal_def shadowed_def)
  then obtain r where r: "r \<in> set android_files" "fc_prefix r = Some p" "bit (fc_mode r) 11" "last p \<noteq> CHR ''*''" "p \<notin> set shadowed"
    using assms by (auto simp: list_all_iff list_ex_iff)
  then have "config_loop False (relative (sample False r)) (rules False) = Some r" "relative (sample False r) = p"
    using sample_found [of r False] by (auto simp: rules_def sample_text_def)
  then show ?thesis using r(3) by (auto simp: rules_def)
qed

section \<open>Properties\<close>

text \<open>
  C22 Every path gets the attributes of the first rule that covers it: for a directory a rule whose text begins the path, for a
  file a rule with exactly this path or, with a star at its end, a rule whose text before the star begins it. The type of the file in
  the mode is kept and all twelve permission bits come from the rule.
\<close>

theorem fs_config_first_rule:
  assumes "plain_path path"
  shows "\<exists>pre r post. rules dir = pre @ r # post \<and> covers dir r (relative path) \<and> (\<forall>q \<in> set pre. \<not> covers dir q (relative path)) \<and>
    (\<exists>m. fs_config path dir mode = Some (fc_uid r, fc_gid r, m, fc_capabilities r) \<and>
      (\<forall>i. bit m i \<longleftrightarrow> (if i < 12 then bit (fc_mode r) i else bit mode i)))"
proof -
  obtain pre r post where r: "rules dir = pre @ r # post" "covers dir r (relative path)" "\<forall>q \<in> set pre. \<not> covers dir q (relative path)"
    "config_loop dir (relative path) (rules dir) = Some r"
    using rule_found [OF assms] by blast
  have "list_all (\<lambda>r. fc_mode r = take_bit 12 (fc_mode r)) (rules dir)" by (simp add: rules_def android_dirs_def android_files_def octal_def)
  then have "fc_mode r = take_bit 12 (fc_mode r)" unfolding r(1) by simp
  then have "\<not> bit (fc_mode r) i" if "12 \<le> i" for i using that by (metis bit_take_bit_iff not_le)
  moreover have "octal 7 7 7 7 = mask 12" by (simp add: octal_def mask_eq_exp_minus_1)
  ultimately have "bit ((mode AND NOT (octal 7 7 7 7)) OR fc_mode r) i \<longleftrightarrow> (if i < 12 then bit (fc_mode r) i else bit mode i)" for i
    by (auto simp: bit_simps not_less dest: bit_imp_le_length)
  then show ?thesis using r by (intro exI [of _ pre] exI [of _ r] exI [of _ post]) (auto simp: fs_config_def)
qed

theorem fs_config_first_rule_witness:
  "\<exists>r m. r \<in> set android_dirs \<and> covers True r ''database'' \<and> fs_config ''/database'' True 0x4000 = Some (fc_uid r, fc_gid r, m, fc_capabilities r) \<and> bit m 14"
proof -
  have "plain_path ''/database''" "relative ''/database'' = ''database''" by (simp_all add: plain_path_def relative_def)
  then obtain pre r post m where "rules True = pre @ r # post" "covers True r ''database''"
    "fs_config ''/database'' True 0x4000 = Some (fc_uid r, fc_gid r, m, fc_capabilities r)"
    "\<forall>i. bit m i \<longleftrightarrow> (if i < 12 then bit (fc_mode r) i else bit (0x4000 :: 32 word) i)"
    using fs_config_first_rule [of "''/database''" True "0x4000"] by auto
  moreover have "r \<in> set (pre @ r # post)" by simp
  ultimately show ?thesis by (intro exI [of _ r] exI [of _ m]) (simp add: rules_def)
qed

text \<open>
  C21 Exactly six files of an image are set-user-id.
\<close>

theorem setuid_exactly:
  assumes "plain_path path"
  shows "\<exists>u g m c. fs_config path False mode = Some (u, g, m, c) \<and> (bit m 11 \<longleftrightarrow> relative path \<in> set setuid_files)"
proof -
  obtain r where r: "config_loop False (relative path) android_files = Some r" using rule_found [OF assms, of False] by (auto simp: rules_def)
  have m: "bit ((mode AND NOT (octal 7 7 7 7)) OR fc_mode r) 11 \<longleftrightarrow> bit (fc_mode r) 11" by (simp add: bit_simps octal_def)
  have "r \<in> set android_files" "covers False r (relative path)" using rule_in_table [OF assms, of False] r by (simp_all add: rules_def)
  then have "bit (fc_mode r) 11 \<Longrightarrow> relative path \<in> set setuid_files"
    using setuid_rules by (auto simp: list_all_iff covers_def cover_text_def)
  moreover have "relative path \<in> set setuid_files \<Longrightarrow> bit (fc_mode r) 11"
    using setuid_found [of "relative path"] r by auto
  ultimately show ?thesis using r m by (auto simp: fs_config_def rules_def)
qed

theorem setuid_exactly_witness:
  "\<exists>u g m c. fs_config ''/system/bin/ping'' False 0 = Some (u, g, m, c) \<and> \<not> bit m 11"
proof -
  have "plain_path ''/system/bin/ping''" "relative ''/system/bin/ping'' \<notin> set setuid_files"
    by (simp_all add: plain_path_def relative_def setuid_files_def)
  then show ?thesis using setuid_exactly [of "''/system/bin/ping''" 0] by blast
qed

text \<open>
  C35 The rules are meant to go from the most specific path up, but three directory rules and one file rule stand behind a rule that
  covers all their paths and are never applied; every other rule is applied to some path. One of the four differs
  from the rule in front of it in what it grants: the directory \<^verbatim>\<open>data/misc/dhcp\<close> gets the owner and the mode of \<^verbatim>\<open>data/misc\<close>.
\<close>

theorem shadowed_rules:
  assumes "r \<in> set (rules dir)"
  shows "(\<exists>path. plain_path path \<and> config_loop dir (relative path) (rules dir) = Some r) \<longleftrightarrow> fc_prefix r \<notin> Some ` set shadowed"
proof
  assume "\<exists>path. plain_path path \<and> config_loop dir (relative path) (rules dir) = Some r"
  then obtain path where p: "plain_path path" "config_loop dir (relative path) (rules dir) = Some r" by blast
  obtain i where i: "i < length (rules dir)" "r = rules dir ! i" using assms by (auto simp: in_set_conv_nth)
  show "fc_prefix r \<notin> Some ` set shadowed"
  proof
    assume "fc_prefix r \<in> Some ` set shadowed"
    then obtain j where "(i, j) \<in> set (hidden_by dir)" using shadowed_places i by blast
    then show False using hidden_covers never_applied [OF p(1)] i(2) p(2) by metis
  qed
qed (use sample_found [OF assms] in blast)

theorem shadowed_rules_witness:
  "\<not> (\<exists>path. plain_path path \<and> config_loop True (relative path) (rules True)
     = Some (config (octal 0 7 7 0) AID_DHCP AID_DHCP 0 (Some ''data/misc/dhcp'')))"
proof -
  have "config (octal 0 7 7 0) AID_DHCP AID_DHCP 0 (Some ''data/misc/dhcp'') = rules True ! 8" "8 < length (rules True)"
    by (simp_all add: rules_def android_dirs_def)
  then have "config (octal 0 7 7 0) AID_DHCP AID_DHCP 0 (Some ''data/misc/dhcp'') \<in> set (rules True)" by (metis nth_mem)
  then show ?thesis using shadowed_rules by (simp add: shadowed_def)
qed

text \<open>The ids that have a name, and the owners in the two tables.\<close>

definition named :: "32 word \<Rightarrow> bool" where
  "named a \<longleftrightarrow> (\<exists>!i. i \<in> set android_ids \<and> id_aid i = a)"

lemma named_iff: "named a \<longleftrightarrow> a \<in> set (map id_aid android_ids)"
proof -
  have "distinct (map id_aid android_ids)" by (simp add: android_ids_def aid_values)
  then have "inj_on id_aid (set android_ids)" by (simp add: distinct_map)
  then show ?thesis unfolding named_def by (auto dest: inj_onD)
qed

definition app_rule :: fs_path_config where
  "app_rule = config (octal 0 6 4 4) AID_APP AID_APP 0 (Some ''data/data/*'')"

lemma owners_in_tables:
  "list_all (\<lambda>r. named (fc_uid r) \<and> named (fc_gid r)) android_dirs"
  "list_all (\<lambda>r. r = app_rule \<or> named (fc_uid r) \<and> named (fc_gid r)) android_files"
  "\<not> named AID_APP"
  unfolding named_iff
  by (simp_all add: android_ids_def android_dirs_def android_files_def AID_ROOT_def app_rule_def) (simp add: aid_values)

lemma app_rule_found:
  assumes "plain_path path" "prefix ''data/data/'' path"
  shows "config_loop False path android_files = Some app_rule"
proof -
  obtain x where x: "path = ''data/data/'' @ x" using assms(2) by (auto simp: prefix_def)
  have "find (\<lambda>r. covers False r path) android_files = Some app_rule"
    by (simp add: x android_files_def covers_def cover_text_def app_rule_def)
  then show ?thesis using config_loop_find [OF rules_ok assms(1), of False False] by (simp add: rules_def)
qed

text \<open>
  C36 Every path gets an owner and a group, and each of them is exactly one entry of the table of ids, so that the tools can
  print its name; except for the files below \<^verbatim>\<open>data/data\<close>, and only for them, whose owner and group are the first
  id of the applications, which has no name.
\<close>

theorem owners_named:
  assumes "plain_path path"
  shows "\<exists>u g m c. fs_config path dir mode = Some (u, g, m, c) \<and>
    (if \<not> dir \<and> prefix ''data/data/'' (relative path) then u = AID_APP \<and> g = AID_APP \<and> \<not> named AID_APP
     else named u \<and> named g)"
proof -
  obtain r where r: "config_loop dir (relative path) (rules dir) = Some r" "r \<in> set (rules dir)" "covers dir r (relative path)"
    using rule_found [OF assms, of dir] rule_in_table [OF assms, of dir] by blast
  have app: "\<not> dir \<and> prefix ''data/data/'' (relative path) \<longleftrightarrow> \<not> dir \<and> r = app_rule"
    using r app_rule_found [OF plain_relative [OF assms]] by (auto simp: rules_def covers_def cover_text_def app_rule_def)
  then have "if \<not> dir \<and> prefix ''data/data/'' (relative path) then fc_uid r = AID_APP \<and> fc_gid r = AID_APP \<and> \<not> named AID_APP
      else named (fc_uid r) \<and> named (fc_gid r)"
    using owners_in_tables r(2) unfolding app by (cases dir) (auto simp: list_all_iff rules_def app_rule_def)
  then show ?thesis using r(1) by (simp add: fs_config_def)
qed

theorem owners_named_witness:
  "(\<exists>u g m c. fs_config ''/data/data/app/file'' False 0 = Some (u, g, m, c) \<and> u = AID_APP) \<and>
   (\<exists>u g m c. fs_config ''/data/data/app'' True 0 = Some (u, g, m, c) \<and> named u)"
proof -
  have "plain_path ''/data/data/app/file''" "plain_path ''/data/data/app''" "prefix ''data/data/'' (relative ''/data/data/app/file'')"
    by (simp_all add: plain_path_def relative_def)
  then show ?thesis
    using owners_named [of "''/data/data/app/file''" False 0] owners_named [of "''/data/data/app''" True 0] by auto
qed

end
