(* ===== verification/Spec2Isabelle.thy ===== *)
theory Spec2Isabelle
  imports Ril_Loop Lights Mmc_Tool Init_Storage Viewmem Fs_Config
begin

text \<open>
  Verification of the device tree's own C and C++ code. The core is \<^verbatim>\<open>libril\<close>, the library of the
  radio interface daemon: it stands between the telephony process, on a local stream socket, and the
  vendor's radio library. Four programs are independent of it and of each other: the lights module
  \<^verbatim>\<open>liblight\<close>, the card tool \<^verbatim>\<open>mmc_utils\<close>, the vendor part of \<^verbatim>\<open>init\<close>, and \<^verbatim>\<open>viewmem\<close>; a header with code,
  \<^verbatim>\<open>android_filesystem_config.h\<close>, is compiled into the tools that build the images.

  \<^bold>\<open>The radio library.\<close> \<^verbatim>\<open>libril/ril_event.cpp\<close> is an event loop: a table of watched descriptors, a list of
  timers sorted by deadline, a list of pending events. \<^verbatim>\<open>libril/ril.cpp\<close> runs on it. A command arrives
  as a record on the socket (\<open>processCommandsCallback\<close>, \<open>processCommandBuffer\<close>), a request block goes on
  the list \<open>s_pendingRequests\<close>, the dispatcher of the command's row in \<^verbatim>\<open>ril_commands.h\<close> unpacks the
  parcel and hands a structure to the vendor library. The vendor library answers with
  \<open>RIL_onRequestComplete\<close>: the response function of the row packs the data and the framed message is
  written to the socket. Events that nobody asked for go out through \<open>RIL_onUnsolicitedResponse\<close> and
  \<^verbatim>\<open>ril_unsol_commands.h\<close>, some under a wake lock that a timer gives back. \<open>listenCallback\<close> accepts
  a telephony process, \<open>onCommandsSocketClosed\<close> forgets one, \<open>debugCallback\<close> serves the debug port,
  \<open>RIL_register\<close> and \<open>RIL_startEventLoop\<close> put everything in place.

  \<^bold>\<open>Its theories.\<close>
  \<^item> \<open>Ril_Prelude\<close>: machine types, loads and stores that fail on a null pointer, \<open>struct timeval\<close> with
    its linear order, and the locale \<open>invariant_system\<close> of a transition system with an invariant.
  \<^item> \<open>Event_List\<close>: \<open>init_list\<close>, \<open>addToList\<close>, \<open>removeFromList\<close> on a store of events; \<open>dll\<close> is the
    sequence a circular list represents. The locale \<open>event_lists\<close> is the contract the loop relies on.
  \<^item> \<open>Ril_Event\<close>: the state \<open>ev_state\<close> and every operation of \<^verbatim>\<open>ril_event.cpp\<close>; lemmas on the
    timer order, on exactly which events become pending, on the watch table, and that any number of
    turns of the loop runs without a fault.
  \<^item> \<open>Ril_Types\<close>: the environment (\<open>'p env\<close>: parcels, string conversion, constants of
    \<^verbatim>\<open>telephony/ril.h\<close>, which is not part of the repository) and the structures of requests and
    responses. \<open>Ril_Parcel\<close>: string helpers, reads with a status, and \<open>reads_ok\<close>, what
    is relied on of a parcel.
  \<^item> \<open>Ril_Dispatch\<close>: the \<open>dispatch...\<close> functions. \<open>Ril_Response\<close>: the \<open>response...\<close> functions, as the
    items they append. \<open>Ril_Tables\<close>: the rows of both tables, calls through them, the name functions.
  \<^item> \<open>Ril_Socket\<close>: the static variables of \<^verbatim>\<open>ril.cpp\<close> as \<open>ril_state\<close>, which extends \<open>ev_state\<close>;
    \<open>blockingWrite\<close>, \<open>sendResponseRaw\<close>, \<open>sendResponse\<close>.
  \<^item> \<open>Ril_Requests\<close>: the pending list as blocks in a store, arrival, completion, cancellation. The
    locale \<open>request_queue\<close> is its contract; \<open>req_step\<close> is the request part as a transition system.
  \<^item> \<open>Ril_Core\<close>: wake-up pipe, timers, wake lock, unsolicited responses, connections, debug port,
    start. A timer of the vendor library calls vendor code, which may call the functions that the library
    exports: the parameter \<open>vendor\<close> gives these calls, \<open>vendor_callback\<close> makes them.
  \<^item> \<open>Ril_System\<close>: all entry points as one transition system \<open>core_step\<close>, and its invariant \<open>core_inv\<close> (the
    pending list is well formed, at most one wake timer counts, blocks are not used after they are
    freed); \<open>core_inv_on\<close> adds requests that stay pending. The locale \<open>response_relation\<close> has what sending
    a response keeps, for every relation between states that its parts respect. \<open>vendor_names\<close> says that the
    vendor library does not name a static function of this one.
  \<^item> \<open>Ril_Behaviour\<close>: what the entry points do on each branch. \<open>Ril_Loop\<close>: the lists of the event loop while
    timers expire and the vendor library calls back; \<open>vendor_runs\<close> says that its calls do not fault.
  \<^item> This theory: a turn of the loop over the daemon's callbacks, and a request from its arrival to
    its answer.

  \<^bold>\<open>The other programs.\<close> \<open>Byte_Words\<close> has what they share: bytes of words, numbers as text.
  \<^item> \<open>Lights\<close> (\<^verbatim>\<open>liblight/lights.c\<close>): the requests of the framework for the battery, notifications,
    the backlight and the buttons as the record \<open>lights\<close>, and the driver files they are written to. One
    indicator serves two requests; \<open>indicator_follows_requests\<close> is the abstract rule it follows.
  \<^item> \<open>Mmc_Args\<close> (\<^verbatim>\<open>mmc_utils/mmc.c\<close>): the table of commands, \<open>parse_args\<close> with abbreviations, the test
    for ambiguity and help. \<open>Mmc_Regs\<close> (\<^verbatim>\<open>mmc.h\<close>): the constants. \<open>Mmc_Device\<close> (\<^verbatim>\<open>mmc_cmds.c\<close>): the driver as a
    parameter (\<open>'d card\<close>), the commands that write registers; \<open>Mmc_Safety\<close>: which registers each of them may
    change for every answer of the driver (\<open>card_frame\<close>) and what it writes on a card that works
    (\<open>card_works\<close>). \<open>Mmc_Report\<close>: the commands that show the registers, with the text they print.
  \<^item> \<open>Sha256\<close> (\<^verbatim>\<open>3rdparty/hmac_sha\<close>): SHA-256 and HMAC-SHA-256 as the code computes them, in pieces, equal to
    the definitions of the standards for messages below \<open>2 ^ 29\<close> bytes, where the 32-bit bit count does not wrap;
    the table of constants is shown to be the cube roots of the primes. The locale \<open>incremental\<close> is the contract of both. \<open>Mmc_Io\<close>: \<open>DO_IO\<close> over short and interrupted reads and writes,
    once for both directions in the locale \<open>io_call\<close>. \<open>Mmc_Rpmb\<close>: the requests to the replay protected memory,
    over a driver for which \<open>counter_law\<close>, \<open>read_law\<close> and \<open>write_law\<close> state what the card does (it writes while
    its counter is not used up).
  \<^item> \<open>Mmc_Tool\<close>: \<open>main\<close> with all commands, and what holds for every command line.
  \<^item> \<open>Init_Storage\<close> (\<^verbatim>\<open>init/init_d10f.c\<close>): which storage is the primary one, the table of volumes made from a
    template by replacing text in a buffer of 2 KiB, the partition numbers, the list for the framework. The
    property service is a parameter with \<open>service_laws\<close>.
  \<^item> \<open>Viewmem\<close> (\<^verbatim>\<open>viewmem/viewmem.c\<close>): arguments, mapping and the loop that copies memory to the output.
  \<^item> \<open>Fs_Config\<close> (\<^verbatim>\<open>include/private/android_filesystem_config.h\<close>, \<^verbatim>\<open>include/device_perms.h\<close>): ids, the rules that give
    every path of an image its owner and mode, and the search for the first rule that matches.

  \<^bold>\<open>How effects are modelled.\<close> Every operation passes the state. \<open>None\<close> is undefined behaviour: a null
  dereference, an access to a freed block, a descriptor outside the set, an \<open>assert\<close> or \<open>exit\<close>. Loops
  over pointers are \<open>partial_function (option)\<close>, and that they return is proved
  (\<open>processTimeouts_exact\<close>, \<open>event_loop_runs\<close>, \<open>complete_at_most_once\<close>). What the outside answers (results of
  \<^verbatim>\<open>write\<close> and of allocation, the clock, records read, the vendor library's results) is input: the
  record \<open>world\<close>, \<open>tick\<close>, \<open>connection\<close>, \<open>inputs\<close>. What goes out is kept: \<open>sent\<close> is the bytes on the
  socket, \<open>onRequests\<close> the calls of the vendor library. \<open>RIL_onUnsolicitedResponse\<close> calls itself
  through \<open>processRadioState\<close>; \<open>unsolicited\<close> has fuel 2, and \<open>unsolicited_depth\<close> shows that more fuel
  gives the same result. In the tool \<^verbatim>\<open>long\<close> has 32 bits, as on the target; its \<open>None\<close> is also a division by
  zero or a shift by a negative number, a file is the finite list of what its reads or writes return,
  and \<open>DO_IO\<close> is shown to end on every such list.

  \<^bold>\<open>Not modelled.\<close> Logging and \<open>property_set\<close>, which do not feed back; \<^verbatim>\<open>printBuf\<close>, since \<open>RILC_LOG\<close> is 0.
  Threads: each operation is atomic, as its mutex makes it for the event lists and for the pending list;
  the vendor library's calls come between operations, also an answer that it gives while it is handed a
  request; only what it calls from its own timers is part of the operation. Seconds are not bounded. \<^verbatim>\<open>android::Parcel\<close>, \<^verbatim>\<open>cutils\<close> and the vendor
  library are parameters. Error messages of the tool, closing of descriptors, and the hash functions of
  \<^verbatim>\<open>3rdparty/hmac_sha\<close> that nothing calls. \<open>close_lights\<close> frees its block only.
  \<^verbatim>\<open>bdroid_buildcfg.h\<close> and \<^verbatim>\<open>time_genoff.h\<close> configure and declare libraries that are not part of the
  repository; the Java applications, scripts and overlays are not code of these languages.
\<close>

section \<open>Timers and the event loop\<close>




section \<open>A request from its arrival to its answer\<close>

text \<open>
  C1 A command that the telephony process sends under a token is handed to the vendor library once,
  under the address of its \<open>RequestInfo\<close>; when the vendor library completes it, one message goes back
  to the telephony process: the kind, the same token, the error code and the response data. Completing
  it again changes nothing, and the other pending requests are untouched.
\<close>

theorem request_answered:
  assumes view: "reads_ok E V" "V (p_setData E b) = Some (I32 request # I32 token # r)"
    and range: "1 \<le> sint request" "sint request < int (length (s_commands E))"
    and mem: "w_alloc (world s) = a # as" "a \<noteq> NULL" "a \<notin> req_live s" "pending s xs"
    and disp: "ci_dispatch (s_commands E ! nat (sint request)) = Some f"
      "f \<noteq> DispatchVoiceRadioTech" "f \<noteq> DispatchCdmaSubscriptionSource"
      "rq = ci_requestNumber E (s_commands E ! nat (sint request))"
      "\<And>p. V p = Some r \<Longrightarrow> call_dispatch E (s_version s) rq f p = Some (OnRequest data datalen)"
    and resp: "ci_response (s_commands E ! nat (sint request)) = Some g" "d \<noteq> VNull"
      "call_response E (s_version s) g d n = Some (0, ws)"
      "p = puts E ([I32 RESPONSE_SOLICITED, I32 token, I32 e] @ ws) (p_new E)"
    and sock: "0 \<le> s_fdCommand s" "w_writes (world s) = []" "length (p_data E p) \<le> MAX_COMMAND_BYTES"
  shows "\<exists>s1 s2. processCommandBuffer E b s = Some s1 \<and>
    onRequests s1 = onRequests s @ [(rq, data, datalen, a)] \<and> sent s1 = sent s \<and>
    RIL_onRequestComplete E a e d n s1 = Some s2 \<and> sent s2 = sent s @ frame (p_data E p) \<and>
    pending s2 xs \<and> RIL_onRequestComplete E a e' d' n' s2 = Some s2"
proof -
  obtain s1 where s1: "processCommandBuffer E b s = Some s1" "pending s1 (a # xs)" "sent s1 = sent s"
    "reqs s1 a = \<lparr>ri_token = token, ri_pCI = nat (sint request), ri_next = s_pendingRequests s,
      ri_cancelled = False, ri_local = False\<rparr>"
    "onRequests s1 = onRequests s @ [(rq, data, datalen, a)]" "s_version s1 = s_version s"
    "s_fdCommand s1 = s_fdCommand s" "w_writes (world s1) = w_writes (world s)"
    using command_queued [OF view range mem disp] by auto
  obtain s2 where s2: "RIL_onRequestComplete E a e d n s1 = Some s2"
    "sent s2 = sent s @ frame (p_data E p)" "pending s2 (remove1 a (a # xs))"
    using complete_sends_answer [OF s1(2), of a E g d n ws p e] s1(3-8) resp sock by auto
  have "a \<notin> set xs" using pq.repr_distinct [OF s1(2)] by simp
  then have "RIL_onRequestComplete E a e' d' n' s2 = Some s2"
    using s2(3) complete_unknown [of s2 xs a] by simp
  with s1 s2 show ?thesis by auto
qed

theorem request_answered_witness:
  "\<exists>s1 s2. processCommandBuffer demo_env [18, 0, 0, 0, 7, 0, 0, 0] demo_ril = Some s1 \<and>
     RIL_onRequestComplete demo_env 100 0 (VInts [16]) 4 s1 = Some s2 \<and>
     sent s2 = frame (demo_data [I32 0, I32 7, I32 0, I32 1, I32 16])"
proof -
  have view: "demo_view (p_setData demo_env [18, 0, 0, 0, 7, 0, 0, 0]) = Some [I32 18, I32 7]"
    by simp
  have len: "18 < length (s_commands demo_env)" by (simp add: s_commands_def)
  have "call_response demo_env 9 ResponseInts (VInts [16]) 4 = Some (0, [I32 1, I32 16])"
    by (simp add: responseInts_def array_resp_def ints_of_def elems_def resp_defs sizeof_int_def)
  moreover have "pending demo_ril []" "req_live demo_ril = {}"
    by (simp_all add: pending_def demo_ril_def ev_state.defs)
  ultimately show ?thesis
    using request_answered [OF demo_reads_ok view, of demo_ril 100 "[101, 102, 103]" "[]" DispatchVoid
        "ci_requestNumber demo_env (s_commands demo_env ! 18)" VNull 0 ResponseInts "VInts [16]" 4 "[I32 1, I32 16]"
        "([I32 0, I32 7, I32 0, I32 1, I32 16], 5)" 0] len
    by (fastforce simp: demo_row18 dispatchVoid_def RESPONSE_SOLICITED_def MAX_COMMAND_BYTES_def length_demo_i32
        simp del: demo_data.simps(2))
qed

end
